(* ===== verification/Prelude.thy ===== *)
theory Prelude
  imports Main "HOL-Library.AList" "HOL-Library.Word"
begin

text \<open>
  Shared vocabulary of the development: machine integers, Rust's hash maps as association
  lists, the decimal rendering and parsing of \<open>u64\<close> values that correlations use, and the
  generic list, option and map lemmas the component theories rely on.

  A \<open>HashMap\<close> is an association list. \<open>hm_get\<close>, \<open>hm_insert\<close>, \<open>hm_remove\<close>,
  \<open>hm_modify\<close> and \<open>hm_retain\<close> are \<open>get\<close>, \<open>insert\<close>, \<open>remove\<close>, an update through
  \<open>get_mut\<close> and \<open>retain\<close>. The list fixes one iteration order of the map; the contract
  that does not depend on the order is the locale \<open>hash_map\<close>, which the association
  lists interpret.
\<close>

section \<open>Collections of facts\<close>

named_theorems hm_simps \<open>rewriting of hash map lookups\<close>
named_theorems wf_intros \<open>introduction rules of well-formedness invariants\<close>
named_theorems frame_simps \<open>fields an operation leaves alone\<close>

section \<open>Machine integers\<close>

type_synonym u64 = "64 word"
type_synonym u32 = "32 word"

text \<open>Bits of an \<open>f64\<close> the modelled code only copies.\<close>

type_synonym f64 = "64 word"

definition saturating_add_u32 :: "u32 \<Rightarrow> u32 \<Rightarrow> u32" where
  "saturating_add_u32 a b = (if unat a + unat b < 2 ^ 32 then a + b else - 1)"

lemma unat_saturating_add_u32: "unat (saturating_add_u32 a b) = min (unat a + unat b) (2 ^ 32 - 1)"
proof (cases "unat a + unat b < 2 ^ 32")
  case True
  then show ?thesis by (simp add: saturating_add_u32_def unat_word_ariths)
next
  case False
  moreover have "unat (- 1 :: u32) = 2 ^ 32 - 1" by (simp add: unat_eq_nat_uint uint_word_ariths)
  ultimately show ?thesis by (simp add: saturating_add_u32_def)
qed

section \<open>Hash maps\<close>

type_synonym ('k, 'v) hmap = "('k \<times> 'v) list"

abbreviation hm_get :: "('k, 'v) hmap \<Rightarrow> 'k \<Rightarrow> 'v option" where
  "hm_get m k \<equiv> map_of m k"

abbreviation hm_insert :: "'k \<Rightarrow> 'v \<Rightarrow> ('k, 'v) hmap \<Rightarrow> ('k, 'v) hmap" where
  "hm_insert \<equiv> AList.update"

abbreviation hm_remove :: "'k \<Rightarrow> ('k, 'v) hmap \<Rightarrow> ('k, 'v) hmap" where
  "hm_remove \<equiv> AList.delete"

abbreviation hm_modify :: "'k \<Rightarrow> ('v \<Rightarrow> 'v) \<Rightarrow> ('k, 'v) hmap \<Rightarrow> ('k, 'v) hmap" where
  "hm_modify \<equiv> AList.map_entry"

definition hm_retain :: "('k \<Rightarrow> bool) \<Rightarrow> ('k, 'v) hmap \<Rightarrow> ('k, 'v) hmap" where
  "hm_retain P m = filter (\<lambda>(k, v). P k) m"

definition hm_contains :: "('k, 'v) hmap \<Rightarrow> 'k \<Rightarrow> bool" where
  "hm_contains m k \<longleftrightarrow> map_of m k \<noteq> None"

abbreviation hm_keys :: "('k, 'v) hmap \<Rightarrow> 'k list" where
  "hm_keys m \<equiv> map fst m"

abbreviation hm_values :: "('k, 'v) hmap \<Rightarrow> 'v list" where
  "hm_values m \<equiv> map snd m"

abbreviation hm_wf :: "('k, 'v) hmap \<Rightarrow> bool" where
  "hm_wf m \<equiv> distinct (map fst m)"

lemma hm_get_insert [hm_simps]: "map_of (AList.update k v m) k' = (if k' = k then Some v else map_of m k')"
  by (simp add: update_conv')

lemma hm_get_remove [hm_simps]: "map_of (AList.delete k m) k' = (if k' = k then None else map_of m k')"
  by (simp add: delete_conv')

lemma hm_get_modify [hm_simps]:
  "map_of (AList.map_entry k f m) k' = (if k' = k then map_option f (map_of m k) else map_of m k')"
  by (simp add: map_of_map_entry split: option.split)

lemma hm_get_retain [hm_simps]: "map_of (hm_retain P m) k = (if P k then map_of m k else None)"
  by (induction m) (auto simp: hm_retain_def)

lemma hm_contains_insert [hm_simps]: "hm_contains (AList.update k v m) k' = (k' = k \<or> hm_contains m k')"
  by (simp add: hm_contains_def hm_simps)

lemma hm_contains_remove [hm_simps]: "hm_contains (AList.delete k m) k' = (k' \<noteq> k \<and> hm_contains m k')"
  by (simp add: hm_contains_def hm_simps)

lemma hm_contains_iff: "hm_contains m k \<longleftrightarrow> k \<in> fst ` set m"
  unfolding hm_contains_def by (simp add: map_of_eq_None_iff)

lemma hm_keys_insert [simp]: "fst ` set (AList.update k v m) = insert k (fst ` set m)"
  using dom_update [of k v m] by (simp add: dom_map_of_conv_image_fst)

lemma hm_keys_remove [simp]: "fst ` set (AList.delete k m) = fst ` set m - {k}"
  by (induction m) auto

lemma hm_keys_modify [simp]: "map fst (AList.map_entry k f m) = map fst m"
  by (induction m) auto

lemma hm_keys_modify_set [simp]: "fst ` set (AList.map_entry k f m) = fst ` set m"
  by (metis hm_keys_modify set_map)

lemma hm_keys_retain [simp]: "fst ` set (hm_retain P m) = {k \<in> fst ` set m. P k}"
  by (auto simp: hm_retain_def image_iff)

lemma hm_wf_insert [wf_intros]: "hm_wf m \<Longrightarrow> hm_wf (AList.update k v m)"
  by (rule distinct_update)

lemma hm_wf_remove [wf_intros]: "hm_wf m \<Longrightarrow> hm_wf (AList.delete k m)"
  by (rule distinct_delete)

lemma hm_wf_retain [wf_intros]: "hm_wf m \<Longrightarrow> hm_wf (hm_retain P m)"
  by (induction m) (auto simp: hm_retain_def)

lemma hm_wf_modify [wf_intros]: "hm_wf m \<Longrightarrow> hm_wf (AList.map_entry k f m)"
  by simp

lemma length_hm_insert:
  "hm_wf m \<Longrightarrow> length (AList.update k v m) = (if hm_contains m k then length m else Suc (length m))"
  by (induction m) (auto simp: hm_contains_def)

lemma length_hm_remove_le: "length (AList.delete k m) \<le> length m"
  by (rule length_delete_le)

lemma length_hm_remove_less: "hm_contains m k \<Longrightarrow> length (AList.delete k m) < length m"
proof (induction m)
  case (Cons p m)
  then show ?case using length_delete_le [of k m] by (cases p) (auto simp: hm_contains_def)
qed (simp add: hm_contains_def)

lemma set_hm_get: "hm_wf m \<Longrightarrow> ((k, v) \<in> set m) = (map_of m k = Some v)"
  by simp

subsection \<open>The contract of a hash map\<close>

locale hash_map =
  fixes empty :: 'm
    and get :: "'m \<Rightarrow> 'k \<Rightarrow> 'v option"
    and insert :: "'k \<Rightarrow> 'v \<Rightarrow> 'm \<Rightarrow> 'm"
    and remove :: "'k \<Rightarrow> 'm \<Rightarrow> 'm"
    and retain :: "('k \<Rightarrow> bool) \<Rightarrow> 'm \<Rightarrow> 'm"
  assumes get_empty: "get empty k = None"
    and get_insert: "get (insert k v m) k' = (if k' = k then Some v else get m k')"
    and get_remove: "get (remove k m) k' = (if k' = k then None else get m k')"
    and get_retain: "get (retain P m) k = (if P k then get m k else None)"
begin

lemma insert_remove_restores: "get m k = None \<Longrightarrow> get (remove k (insert k v m)) k' = get m k'"
  by (auto simp: get_insert get_remove)

lemma insert_other: "k \<noteq> k' \<Longrightarrow> get (insert k v m) k' = get m k'"
  by (simp add: get_insert)

lemma remove_other: "k \<noteq> k' \<Longrightarrow> get (remove k m) k' = get m k'"
  by (simp add: get_remove)

lemma retain_remove: "get (retain (\<lambda>x. x \<noteq> k) m) k' = get (remove k m) k'"
  by (simp add: get_retain get_remove)

end

interpretation hm: hash_map "[]" "\<lambda>m k. map_of m k" AList.update AList.delete hm_retain
  by unfold_locales (simp_all add: hm_simps)

section \<open>Lists and options\<close>

text \<open>\<open>Option::get_or_insert\<close>: the first value stored stays.\<close>

definition get_or_insert :: "'a option \<Rightarrow> 'a \<Rightarrow> 'a option" where
  "get_or_insert slot v = (case slot of None \<Rightarrow> Some v | Some w \<Rightarrow> Some w)"

lemma get_or_insert_simps [simp]:
  "get_or_insert None v = Some v" "get_or_insert (Some w) v = Some w"
  by (simp_all add: get_or_insert_def)

lemma get_or_insert_first [simp]: "get_or_insert (get_or_insert slot v) w = get_or_insert slot v"
  by (cases slot) simp_all

text \<open>\<open>position\<close> followed by \<open>remove(index)\<close> on a deque: the first element that satisfies
  the predicate leaves, the others keep their order.\<close>

fun extract_first :: "('a \<Rightarrow> bool) \<Rightarrow> 'a list \<Rightarrow> 'a option \<times> 'a list" where
  "extract_first P [] = (None, [])"
| "extract_first P (x # xs) =
     (if P x then (Some x, xs) else (let (r, ys) = extract_first P xs in (r, x # ys)))"

lemma extract_first_None: "fst (extract_first P xs) = None \<longleftrightarrow> (\<forall>x \<in> set xs. \<not> P x)"
  by (induction xs) (auto split: prod.splits)

lemma extract_first_None_same: "extract_first P xs = (None, ys) \<Longrightarrow> ys = xs"
  by (induction xs arbitrary: ys) (auto split: prod.splits if_splits)

lemma extract_first_Some:
  "extract_first P xs = (Some x, ys) \<Longrightarrow> \<exists>us vs. xs = us @ x # vs \<and> ys = us @ vs \<and> P x \<and> (\<forall>u \<in> set us. \<not> P u)"
proof (induction xs arbitrary: ys)
  case (Cons a xs)
  show ?case
  proof (cases "P a")
    case True
    with Cons.prems show ?thesis by (auto intro: exI [of _ "[]"])
  next
    case False
    with Cons.prems obtain zs where zs: "extract_first P xs = (Some x, zs)" "ys = a # zs"
      by (auto split: prod.splits)
    from Cons.IH [OF zs(1)] obtain us vs where
      "xs = us @ x # vs" "zs = us @ vs" "P x" "\<forall>u \<in> set us. \<not> P u" by blast
    with zs False show ?thesis by (intro exI [of _ "a # us"] exI [of _ vs]) auto
  qed
qed simp

lemma set_extract_first_subset: "set (snd (extract_first P xs)) \<subseteq> set xs"
  by (induction xs) (auto split: prod.splits)

lemma find_Some_mem: "find P xs = Some x \<Longrightarrow> x \<in> set xs \<and> P x"
  by (induction xs) (auto split: if_splits)

subsection \<open>The contract of a write-once cell\<close>

text \<open>Several cells of the runtime keep the first value written to them: the outcome of a
  ticket, its sealed result, the reason of a cancellation. The locale states that once; each of
  them interprets it.\<close>

locale write_once =
  fixes read :: "'s \<Rightarrow> 'a option"
    and store :: "'a \<Rightarrow> 's \<Rightarrow> 's"
    and invar :: "'s \<Rightarrow> bool"
  assumes read_write: "invar s \<Longrightarrow> read (store v s) = get_or_insert (read s) v"
    and invar_write: "invar s \<Longrightarrow> invar (store v s)"
begin

lemma invar_writes: "invar s \<Longrightarrow> invar (fold store vs s)"
  by (induction vs arbitrary: s) (auto simp: invar_write)

lemma writes_keep: "invar s \<Longrightarrow> read s = Some w \<Longrightarrow> read (fold store vs s) = Some w"
  by (induction vs arbitrary: s) (auto simp: read_write invar_write)

lemma first_write_wins: "invar s \<Longrightarrow> read s = None \<Longrightarrow> read (fold store (v # vs) s) = Some v"
  by (simp add: writes_keep invar_write read_write)

lemma written_stays: "invar s \<Longrightarrow> read s = Some w \<Longrightarrow> read (store v s) = Some w"
  by (simp add: read_write)

end

interpretation slot: write_once "\<lambda>s. s" "\<lambda>v s. get_or_insert s v" "\<lambda>_. True"
  by unfold_locales simp_all

section \<open>Decimal numerals\<close>

fun nat_digits :: "nat \<Rightarrow> nat list" where
  "nat_digits n = (if n < 10 then [n] else nat_digits (n div 10) @ [n mod 10])"

declare nat_digits.simps [simp del]

definition digit_char :: "nat \<Rightarrow> char" where
  "digit_char d = char_of (48 + d)"

definition char_digit :: "char \<Rightarrow> nat option" where
  "char_digit c = (let n = (of_char c :: nat) in if 48 \<le> n \<and> n \<le> 57 then Some (n - 48) else None)"

text \<open>\<open>format!("{n}")\<close> of a \<open>u64\<close>.\<close>

definition show_u64 :: "u64 \<Rightarrow> string" where
  "show_u64 n = map digit_char (nat_digits (unat n))"

fun digits_value :: "nat \<Rightarrow> string \<Rightarrow> nat option" where
  "digits_value acc [] = Some acc"
| "digits_value acc (c # cs) =
     (case char_digit c of None \<Rightarrow> None | Some d \<Rightarrow> digits_value (acc * 10 + d) cs)"

text \<open>\<open>str::parse::<u64>()\<close>: an optional plus sign, at least one digit, no overflow.\<close>

definition parse_u64 :: "string \<Rightarrow> u64 option" where
  "parse_u64 s =
     (let ds = (case s of [] \<Rightarrow> [] | c # cs \<Rightarrow> if c = CHR ''+'' then cs else s)
      in if ds = [] then None
         else case digits_value 0 ds of
                None \<Rightarrow> None
              | Some n \<Rightarrow> if n < 2 ^ 64 then Some (of_nat n) else None)"

lemma char_digit_digit_char: "d < 10 \<Longrightarrow> char_digit (digit_char d) = Some d"
  by (simp add: char_digit_def digit_char_def)

lemma nat_digits_less: "\<forall>d \<in> set (nat_digits n). d < 10"
proof (induction n rule: nat_digits.induct)
  case (1 n)
  then show ?case by (subst nat_digits.simps) auto
qed

lemma nat_digits_nonempty [simp]: "nat_digits n \<noteq> []"
  by (subst nat_digits.simps) simp

lemma digits_value_append:
  "digits_value acc (xs @ ys) = (case digits_value acc xs of None \<Rightarrow> None | Some v \<Rightarrow> digits_value v ys)"
  by (induction xs arbitrary: acc) (auto split: option.split)

lemma digits_value_map:
  "\<forall>d \<in> set ds. d < 10 \<Longrightarrow> digits_value acc (map digit_char ds) = Some (foldl (\<lambda>a d. a * 10 + d) acc ds)"
  by (induction ds arbitrary: acc) (auto simp: char_digit_digit_char)

lemma foldl_nat_digits: "foldl (\<lambda>a d. a * 10 + d) 0 (nat_digits n) = n"
proof (induction n rule: nat_digits.induct)
  case (1 n)
  show ?case
  proof (cases "n < 10")
    case True
    then show ?thesis by (subst nat_digits.simps) simp
  next
    case False
    with 1 show ?thesis by (subst nat_digits.simps) simp
  qed
qed

lemma digit_char_not_plus: "d < 10 \<Longrightarrow> digit_char d \<noteq> CHR ''+''"
  using char_digit_digit_char [of d] by (auto simp: char_digit_def)

lemma parse_show_u64: "parse_u64 (show_u64 n) = Some n"
proof -
  obtain d ds where dds: "nat_digits (unat n) = d # ds"
    by (metis nat_digits_nonempty neq_Nil_conv)
  have "d < 10" using nat_digits_less [of "unat n"] dds by auto
  then have hd: "digit_char d \<noteq> CHR ''+''" by (rule digit_char_not_plus)
  have "digits_value 0 (map digit_char (nat_digits (unat n))) = Some (unat n)"
    using digits_value_map [OF nat_digits_less] by (simp add: foldl_nat_digits)
  then have val: "digits_value 0 (digit_char d # map digit_char ds) = Some (unat n)"
    by (simp only: dds list.map)
  have lt: "unat n < 2 ^ 64" using unsigned_less [of n] by simp
  show ?thesis
    unfolding parse_u64_def show_u64_def dds Let_def list.map
    using hd val lt by simp
qed

end
