(* ===== verification/Turn_Types.thy ===== *)
theory Turn_Types
  imports Prelude
begin

text \<open>
  The vocabulary of the agent runtime: nominal agent and turn ids, token accounting, the
  terminal outcome of a turn, the identity stamped on admitted work and the settings a turn
  runs under (\<open>maki-agent/src/types.rs\<close>, \<open>maki-agent/src/lib.rs\<close>,
  \<open>maki-agent/src/actor/types.rs\<close>, \<open>maki-agent/src/actor/config.rs\<close>).
\<close>

section \<open>Identities\<close>

text \<open>Two nominal wrappers of \<open>MakiId\<close>; the type system keeps them apart.\<close>

datatype agent_id = AgentId nat
datatype turn_id = TurnId nat

text \<open>\<open>SubmissionId(pub u64)\<close> derives its order from the wrapped integer.\<close>

datatype submission_id = SubmissionId (submission_value: u64)

instantiation submission_id :: linorder
begin

definition less_eq_submission_id :: "submission_id \<Rightarrow> submission_id \<Rightarrow> bool" where
  "less_eq_submission_id a b \<longleftrightarrow> submission_value a \<le> submission_value b"

definition less_submission_id :: "submission_id \<Rightarrow> submission_id \<Rightarrow> bool" where
  "less_submission_id a b \<longleftrightarrow> submission_value a < submission_value b"

instance
  by standard (auto simp: less_eq_submission_id_def less_submission_id_def submission_id.expand)

end

section \<open>Token accounting\<close>

record token_usage =
  usage_input :: u32
  usage_output :: u32
  cache_creation :: u32
  cache_read :: u32

definition no_usage :: token_usage where
  "no_usage = \<lparr>usage_input = 0, usage_output = 0, cache_creation = 0, cache_read = 0\<rparr>"

text \<open>\<open>AddAssign\<close>: every component saturates at \<open>u32::MAX\<close>.\<close>

definition add_usage :: "token_usage \<Rightarrow> token_usage \<Rightarrow> token_usage" where
  "add_usage a b =
     \<lparr>usage_input = saturating_add_u32 (usage_input a) (usage_input b),
      usage_output = saturating_add_u32 (usage_output a) (usage_output b),
      cache_creation = saturating_add_u32 (cache_creation a) (cache_creation b),
      cache_read = saturating_add_u32 (cache_read a) (cache_read b)\<rparr>"

lemma add_no_usage [simp]: "add_usage u no_usage = u"
proof -
  have "saturating_add_u32 a 0 = a" for a
  proof -
    have "unat a < 2 ^ 32" using unsigned_less [of a] by simp
    then show ?thesis by (simp add: saturating_add_u32_def)
  qed
  then show ?thesis by (simp add: add_usage_def no_usage_def)
qed

section \<open>Outcomes\<close>

datatype done_reason = EndTurn | MaxTokens | MaxTurns | Compact_reason

datatype failure_kind =
  Provider | Authentication | Timeout | Tool | Transport | InvalidResponse | Internal | Compaction

record turn_failure =
  failure_kind :: failure_kind
  diagnostic :: string
  user_message :: string
  retryable :: bool

datatype cancel_reason = User | Closed_reason | Shutdown_reason | Interrupted | Withdrawn

datatype turn_outcome =
  Completed (out_agent: agent_id) (out_turn: turn_id) (out_usage: token_usage) (out_num_turns: u32)
    (out_done: done_reason) (out_cost: "f64 option") (out_list_cost: "f64 option")
    (out_context_size: u32) (out_context_window: u32)
| Failed (out_agent: agent_id) (out_turn: turn_id) (out_usage: token_usage) (out_num_turns: u32)
    (out_failure: turn_failure) (out_cost: "f64 option") (out_list_cost: "f64 option")
    (out_context_size: u32) (out_context_window: u32)
| Cancelled (out_agent: agent_id) (out_turn: turn_id) (out_usage: token_usage) (out_num_turns: u32)
    (out_reason: cancel_reason) (out_cost: "f64 option") (out_list_cost: "f64 option")
    (out_context_size: u32) (out_context_window: u32)

definition outcome_completed ::
    "agent_id \<Rightarrow> turn_id \<Rightarrow> token_usage \<Rightarrow> u32 \<Rightarrow> done_reason \<Rightarrow> turn_outcome" where
  "outcome_completed a t u n r = Completed a t u n r None None 0 0"

definition outcome_failed ::
    "agent_id \<Rightarrow> turn_id \<Rightarrow> token_usage \<Rightarrow> u32 \<Rightarrow> turn_failure \<Rightarrow> turn_outcome" where
  "outcome_failed a t u n f = Failed a t u n f None None 0 0"

definition outcome_cancelled ::
    "agent_id \<Rightarrow> turn_id \<Rightarrow> token_usage \<Rightarrow> u32 \<Rightarrow> cancel_reason \<Rightarrow> turn_outcome" where
  "outcome_cancelled a t u n r = Cancelled a t u n r None None 0 0"

text \<open>\<open>cancelled_outcome\<close> of the actor: a cancellation that used nothing.\<close>

definition cancelled_outcome :: "agent_id \<Rightarrow> turn_id \<Rightarrow> cancel_reason \<Rightarrow> turn_outcome" where
  "cancelled_outcome a t r = outcome_cancelled a t no_usage 0 r"

text \<open>\<open>checkpoint_failed\<close>: a failure that keeps what the turn used and cost.\<close>

definition checkpoint_failed :: "string \<Rightarrow> turn_outcome \<Rightarrow> string \<Rightarrow> turn_outcome" where
  "checkpoint_failed prefix out err =
     Failed (out_agent out) (out_turn out) (out_usage out) (out_num_turns out)
       \<lparr>failure_kind = Internal, diagnostic = err,
        user_message = prefix @ '': '' @ err, retryable = True\<rparr>
       (out_cost out) (out_list_cost out) (out_context_size out) (out_context_window out)"

text \<open>The rewrite \<open>retire_turn\<close> applies when a cancellation was recorded for the running
  turn: the outcome becomes a cancellation that keeps the turn's accounting.\<close>

definition as_cancelled :: "turn_id \<Rightarrow> cancel_reason \<Rightarrow> turn_outcome \<Rightarrow> turn_outcome" where
  "as_cancelled t r out =
     Cancelled (out_agent out) t (out_usage out) (out_num_turns out) r
       (out_cost out) (out_list_cost out) (out_context_size out) (out_context_window out)"

lemma cancelled_outcome_simps [simp]:
  "out_agent (cancelled_outcome a t r) = a" "out_turn (cancelled_outcome a t r) = t"
  "out_usage (cancelled_outcome a t r) = no_usage" "is_Cancelled (cancelled_outcome a t r)"
  "out_reason (cancelled_outcome a t r) = r"
  by (simp_all add: cancelled_outcome_def outcome_cancelled_def)

lemma as_cancelled_simps [simp]:
  "out_agent (as_cancelled t r out) = out_agent out" "out_turn (as_cancelled t r out) = t"
  "out_usage (as_cancelled t r out) = out_usage out" "is_Cancelled (as_cancelled t r out)"
  "out_reason (as_cancelled t r out) = r"
  by (simp_all add: as_cancelled_def)

section \<open>Work identity\<close>

datatype work_kind =
  TurnKind (work_operation: u64) (work_turn: turn_id)
| ControlKind (work_operation: u64)
| CompactKind (work_operation: u64)

fun kind_turn_id :: "work_kind \<Rightarrow> turn_id option" where
  "kind_turn_id (TurnKind _ t) = Some t"
| "kind_turn_id (ControlKind _) = None"
| "kind_turn_id (CompactKind _) = None"

record work_identity =
  work_agent :: agent_id
  work_kind :: work_kind
  presentation_id :: u64

section \<open>Inputs, modes and configurations\<close>

text \<open>Image sources, provider messages and MCP prompt references are values the scheduler
  only moves; they are opaque names.\<close>

datatype image_source = ImageSource nat
datatype provider_message = ProviderMessage nat
datatype prompt_ref = McpPromptRef nat
datatype run_settings = RunSettings nat
datatype json_value = JsonValue nat

record agent_input =
  message :: string
  images :: "image_source list"
  preamble :: "provider_message list"
  prompt :: "prompt_ref option"

definition new_input :: "string \<Rightarrow> image_source list \<Rightarrow> agent_input" where
  "new_input m imgs = \<lparr>message = m, images = imgs, preamble = [], prompt = None\<rparr>"

definition batchable :: "agent_input \<Rightarrow> bool" where
  "batchable input \<longleftrightarrow> prompt input = None"

type_synonym path = string

datatype agent_mode = Build | Plan path | Custom string

fun plan_path :: "agent_mode \<Rightarrow> path option" where
  "plan_path (Plan p) = Some p"
| "plan_path Build = None"
| "plan_path (Custom _) = None"

record mode_def =
  mode_id :: string
  mode_label :: string
  mode_system_prompt :: "string option"
  restrict_write_to :: "path option"
  mode_tools :: "string list option"

record context_snapshot =
  ctx_cwd :: path
  ctx_generation :: u64

definition change_directory :: "context_snapshot \<Rightarrow> path \<Rightarrow> context_snapshot" where
  "change_directory ctx cwd = \<lparr>ctx_cwd = cwd, ctx_generation = ctx_generation ctx + 1\<rparr>"

record mode_ceiling =
  ceiling_write :: "path option"
  ceiling_tools :: "string list option"

record effective_config =
  settings :: run_settings
  mode :: agent_mode
  cfg_mode_def :: "mode_def option"
  cfg_context :: context_snapshot
  mode_authority :: "mode_ceiling option"

text \<open>An \<open>Arc<EffectiveAgentConfig>\<close>: \<open>Arc::ptr_eq\<close> compares the address.\<close>

record config_arc =
  config_addr :: nat
  config :: effective_config

definition ptr_eq :: "config_arc \<Rightarrow> config_arc \<Rightarrow> bool" where
  "ptr_eq a b \<longleftrightarrow> config_addr a = config_addr b"

definition option_or :: "'a option \<Rightarrow> 'a option \<Rightarrow> 'a option" where
  "option_or a b = (case a of Some x \<Rightarrow> Some x | None \<Rightarrow> b)"

lemma option_or_simps [simp]: "option_or None b = b" "option_or (Some x) b = Some x"
  by (simp_all add: option_or_def)

definition mode_write_path :: "agent_mode \<Rightarrow> mode_def option \<Rightarrow> path option" where
  "mode_write_path m d = option_or (Option.bind d restrict_write_to) (plan_path m)"

definition ceiling_from_mode :: "agent_mode \<Rightarrow> mode_def option \<Rightarrow> mode_ceiling" where
  "ceiling_from_mode m d =
     \<lparr>ceiling_write = mode_write_path m d, ceiling_tools = Option.bind d mode_tools\<rparr>"

definition ceiling_new :: "effective_config \<Rightarrow> mode_ceiling" where
  "ceiling_new c = (case mode_authority c of
     Some auth \<Rightarrow> auth | None \<Rightarrow> ceiling_from_mode (mode c) (cfg_mode_def c))"

text \<open>\<open>ModeCeiling::validate\<close>: the write restriction must be the same path and the tool set
  a subset of the allowed one.\<close>

definition ceiling_validate :: "mode_ceiling \<Rightarrow> agent_mode \<Rightarrow> mode_def option \<Rightarrow> string option" where
  "ceiling_validate c m d =
     (if ceiling_write c \<noteq> None \<and> ceiling_write c \<noteq> mode_write_path m d
      then Some ''mode exceeds the child's initial write restriction''
      else case ceiling_tools c of
             None \<Rightarrow> None
           | Some allowed \<Rightarrow>
               (case Option.bind d mode_tools of
                  Some tools \<Rightarrow>
                    if list_all (\<lambda>t. t \<in> set allowed) tools then None
                    else Some ''mode exceeds the child's initial tool permissions''
                | None \<Rightarrow> Some ''mode exceeds the child's initial tool permissions''))"

text \<open>A mode's own ceiling accepts that mode, and whatever a ceiling accepts writes nowhere
  else and uses no other tool than the ceiling allows.\<close>

lemma ceiling_accepts_own_mode: "ceiling_validate (ceiling_from_mode m d) m d = None"
  by (auto simp: ceiling_validate_def ceiling_from_mode_def list_all_iff split: option.split)

lemma ceiling_validate_sound:
  assumes "ceiling_validate c m d = None"
  shows "ceiling_write c \<noteq> None \<Longrightarrow> mode_write_path m d = ceiling_write c"
    and "ceiling_tools c = Some allowed \<Longrightarrow>
           \<exists>tools. Option.bind d mode_tools = Some tools \<and> set tools \<subseteq> set allowed"
  using assms by (auto simp: ceiling_validate_def list_all_iff split: if_splits option.splits)

section \<open>Lifecycles and errors\<close>

datatype actor_lifecycle = Open | Closed | Shutdown

datatype actor_status = Idle | Running turn_id

datatype actor_error =
  ErrClosed
| ErrShutdown
| PolicyPending
| PolicyCancelled
| InvalidConfig string
| InvalidTranscriptCaps
| PendingTurn turn_id
| UnavailableTurnHistory turn_id
| CompactedTurn turn_id
| TranscriptSerialization string
| InstructionOverflow
| InvalidInstruction
| Busy
| StaleHistoryBoundary
| HistoryCheckpoint string
| StaleTurn
| UnknownTurn turn_id

definition is_closed :: "actor_error \<Rightarrow> bool" where
  "is_closed e \<longleftrightarrow> e = ErrClosed \<or> e = ErrShutdown"

text \<open>\<open>lifecycle_error\<close> is called only on a lifecycle that is not \<open>Open\<close> (the source marks
  that case unreachable); every caller tests the lifecycle first.\<close>

fun lifecycle_error :: "actor_lifecycle \<Rightarrow> actor_error" where
  "lifecycle_error Closed = ErrClosed"
| "lifecycle_error Shutdown = ErrShutdown"
| "lifecycle_error Open = ErrClosed"

section \<open>Correlations\<close>

definition run_correlation :: "u64 \<Rightarrow> string" where
  "run_correlation n = CHR ''r'' # show_u64 n"

definition correlation_run_id :: "string \<Rightarrow> u64 option" where
  "correlation_run_id s =
     (case s of [] \<Rightarrow> None | c # cs \<Rightarrow> if c = CHR ''r'' then parse_u64 cs else None)"

lemma correlation_run_id_run_correlation: "correlation_run_id (run_correlation n) = Some n"
  by (simp add: correlation_run_id_def run_correlation_def parse_show_u64)

lemma run_correlation_inject: "run_correlation m = run_correlation n \<longleftrightarrow> m = n"
  by (metis correlation_run_id_run_correlation option.inject)

section \<open>Properties\<close>

text \<open>The correlation of a run identifies it: reading back the run id of a run's correlation gives the
  run, for every 64-bit id, so different runs have different correlations.\<close>

theorem run_correlation_roundtrip: "correlation_run_id (run_correlation n) = Some n \<and> (run_correlation m = run_correlation n \<longleftrightarrow> m = n)"
  by (simp add: correlation_run_id_run_correlation run_correlation_inject)

text \<open>A child never exceeds its ceiling: a mode the ceiling accepts writes only where the ceiling
  writes and uses only tools the ceiling allows; and a ceiling accepts the mode it was made from.\<close>

theorem ceiling_is_respected:
  assumes "ceiling_validate c m d = None"
  shows "(ceiling_write c \<noteq> None \<longrightarrow> mode_write_path m d = ceiling_write c)
     \<and> (\<forall>allowed. ceiling_tools c = Some allowed \<longrightarrow> (\<exists>tools. Option.bind d mode_tools = Some tools \<and> set tools \<subseteq> set allowed))"
  using ceiling_validate_sound [OF assms] by blast

theorem ceiling_is_respected_witness:
  "ceiling_validate (ceiling_from_mode (Plan ''p'') None) (Plan ''p'') None = None \<and> mode_write_path (Plan ''p'') None = Some ''p''"
  using ceiling_is_respected [OF ceiling_accepts_own_mode [of "Plan ''p''" None]]
  by (simp add: ceiling_accepts_own_mode mode_write_path_def)

end
