(* ===== verification/Cancel_Tokens.thy ===== *)
theory Cancel_Tokens
  imports Turn_Types
begin

text \<open>
  Cooperative cancellation: the compare-and-swap cell that arbitrates cancellation against a
  durable publication (\<open>maki-storage/src/checkpoint.rs\<close>), the single-fire token that keeps
  the first reason, the tree of plain cancellation tokens with registered publications, and the
  keyed registry of triggers (\<open>maki-agent/src/cancel.rs\<close>).

  Every operation below is one atomic access of the source (a compare-exchange, or a body that
  runs under the token's locks). Wake-ups of \<open>event\<close> listeners carry no data and are left out:
  a waiter re-reads the state it waits for.
\<close>

section \<open>Checkpoint publications\<close>

datatype phase = PENDING | CANCELLED | PUBLISHING

definition cp_cancel :: "phase \<Rightarrow> phase \<times> bool" where
  "cp_cancel p = (case p of
     PENDING \<Rightarrow> (CANCELLED, True)
   | CANCELLED \<Rightarrow> (CANCELLED, True)
   | PUBLISHING \<Rightarrow> (PUBLISHING, False))"

definition cp_is_cancelled :: "phase \<Rightarrow> bool" where
  "cp_is_cancelled p \<longleftrightarrow> p = CANCELLED"

definition cp_try_publish :: "phase \<Rightarrow> phase \<times> bool" where
  "cp_try_publish p = (if p = PENDING then (PUBLISHING, True) else (p, False))"

lemmas cp_defs = cp_cancel_def cp_is_cancelled_def cp_try_publish_def

text \<open>Any interleaving of the two operations, with the result each call returned.\<close>

datatype cp_call = CallCancel | CallPublish

fun cp_run :: "phase \<Rightarrow> cp_call list \<Rightarrow> (cp_call \<times> bool) list" where
  "cp_run p [] = []"
| "cp_run p (CallCancel # cs) = (let (p', r) = cp_cancel p in (CallCancel, r) # cp_run p' cs)"
| "cp_run p (CallPublish # cs) = (let (p', r) = cp_try_publish p in (CallPublish, r) # cp_run p' cs)"

lemma cp_run_cancelled: "x \<in> set (cp_run CANCELLED cs) \<Longrightarrow> x \<noteq> (CallPublish, True)"
  by (induction CANCELLED cs rule: cp_run.induct) (auto simp: cp_defs)

lemma cp_run_publishing: "x \<in> set (cp_run PUBLISHING cs) \<Longrightarrow> x = (CallCancel, False) \<or> x = (CallPublish, False)"
  by (induction PUBLISHING cs rule: cp_run.induct) (auto simp: cp_defs)

lemma cp_run_exclusive:
  "\<not> ((CallPublish, True) \<in> set (cp_run p cs) \<and> (CallCancel, True) \<in> set (cp_run p cs))"
proof (induction p cs rule: cp_run.induct)
  case (2 p cs)
  then show ?case by (cases p) (auto simp: cp_defs dest: cp_run_cancelled cp_run_publishing)
next
  case (3 p cs)
  then show ?case by (cases p) (auto simp: cp_defs dest: cp_run_cancelled cp_run_publishing)
qed simp

lemma cp_run_one_publish: "length (filter (\<lambda>x. x = (CallPublish, True)) (cp_run p cs)) \<le> 1"
proof (induction p cs rule: cp_run.induct)
  case (2 p cs)
  then show ?case by (cases p) (auto simp: cp_defs)
next
  case (3 p cs)
  have "filter (\<lambda>x. x = (CallPublish, True)) (cp_run PUBLISHING cs) = []"
    using cp_run_publishing [of _ cs] by (force simp: filter_empty_conv)
  with 3 show ?case by (cases p) (auto simp: cp_defs)
qed simp

section \<open>Reasoned tokens\<close>

record reasoned =
  rs_cancelled :: bool
  rs_reason :: "cancel_reason option"

definition reasoned_new :: reasoned where
  "reasoned_new = \<lparr>rs_cancelled = False, rs_reason = None\<rparr>"

definition reasoned_fire :: "reasoned \<Rightarrow> cancel_reason \<Rightarrow> reasoned" where
  "reasoned_fire r reason =
     (if rs_cancelled r then r else r\<lparr>rs_cancelled := True, rs_reason := Some reason\<rparr>)"

text \<open>\<open>ReasonedCancelTrigger::cancel\<close> consumes the trigger: it fires with the given reason, then
  the drop of the consumed trigger fires with \<open>User\<close>.\<close>

definition trigger_drop :: "reasoned \<Rightarrow> reasoned" where
  "trigger_drop r = reasoned_fire r User"

definition trigger_cancel :: "reasoned \<Rightarrow> cancel_reason \<Rightarrow> reasoned" where
  "trigger_cancel r reason = trigger_drop (reasoned_fire r reason)"

lemmas reasoned_defs = reasoned_new_def reasoned_fire_def trigger_drop_def trigger_cancel_def

definition reasoned_wf :: "reasoned \<Rightarrow> bool" where
  "reasoned_wf r \<longleftrightarrow> (rs_cancelled r \<longleftrightarrow> rs_reason r \<noteq> None)"

interpretation reasoned_cell: write_once rs_reason "\<lambda>x r. trigger_cancel r x" reasoned_wf
  by unfold_locales (auto simp: reasoned_defs reasoned_wf_def split: option.split)

lemma reasoned_new_wf [simp]: "reasoned_wf reasoned_new" "rs_reason reasoned_new = None"
  by (simp_all add: reasoned_wf_def reasoned_new_def)

section \<open>The tree of plain tokens\<close>

text \<open>
  Tokens live in a store keyed by address. A token that was dropped is absent, so upgrading a
  \<open>Weak\<close> to it is a failed lookup. A child keeps its source alive and is allocated after it, so
  the address of a parent is smaller; the walk up the parents recurses along that order.
\<close>

type_synonym token_ref = nat
type_synonym pub_ref = nat

record shared =
  sh_cancelled :: bool
  sh_publications :: "pub_ref list"
  sh_children :: "token_ref list"
  sh_parent :: "token_ref option"

record cancel_store =
  tokens :: "(token_ref, shared) hmap"
  phases :: "pub_ref \<Rightarrow> phase"

function token_cancelled :: "cancel_store \<Rightarrow> token_ref \<Rightarrow> bool" where
  "token_cancelled s i =
     (case hm_get (tokens s) i of
        None \<Rightarrow> False
      | Some sh \<Rightarrow> sh_cancelled sh \<or>
          (case sh_parent sh of
             None \<Rightarrow> False
           | Some p \<Rightarrow> if p < i then token_cancelled s p else False))"
  by pat_completeness auto
termination
  by (relation "measure snd") auto

declare token_cancelled.simps [simp del]

definition cancel_pubs :: "pub_ref list \<Rightarrow> (pub_ref \<Rightarrow> phase) \<Rightarrow> (pub_ref \<Rightarrow> phase)" where
  "cancel_pubs ps ph = fold (\<lambda>p f. f(p := fst (cp_cancel (f p)))) ps ph"

definition mark_token :: "token_ref \<Rightarrow> shared \<Rightarrow> cancel_store \<Rightarrow> cancel_store" where
  "mark_token i sh s =
     s\<lparr>tokens := hm_insert i (sh\<lparr>sh_cancelled := True\<rparr>) (tokens s),
       phases := cancel_pubs (sh_publications sh) (phases s)\<rparr>"

definition live_tokens :: "cancel_store \<Rightarrow> token_ref set" where
  "live_tokens s = {i. \<exists>sh. hm_get (tokens s) i = Some sh \<and> \<not> sh_cancelled sh}"

lemma finite_live_tokens: "finite (live_tokens s)"
proof -
  have "live_tokens s \<subseteq> dom (map_of (tokens s))" by (auto simp: live_tokens_def)
  then show ?thesis by (rule finite_subset) (rule finite_dom_map_of)
qed

lemma live_tokens_mark:
  assumes "hm_get (tokens s) i = Some sh" "\<not> sh_cancelled sh"
  shows "live_tokens (mark_token i sh s) = live_tokens s - {i}" and "i \<in> live_tokens s"
  using assms by (auto simp: live_tokens_def mark_token_def hm_simps split: if_splits)

text \<open>\<open>fire_locked\<close>: a token that was already cancelled is left alone; otherwise its flag is set,
  its publications are cancelled and every registered child that is still alive fires in turn,
  depth first. The pending calls are the explicit work list.\<close>

function fire_locked :: "token_ref list \<Rightarrow> cancel_store \<Rightarrow> cancel_store" where
  "fire_locked [] s = s"
| "fire_locked (i # is) s =
     (case hm_get (tokens s) i of
        None \<Rightarrow> fire_locked is s
      | Some sh \<Rightarrow>
          if sh_cancelled sh then fire_locked is s
          else fire_locked (sh_children sh @ is) (mark_token i sh s))"
  by pat_completeness auto
termination
proof (relation "measures [\<lambda>(is, s). card (live_tokens s), \<lambda>(is, s). length is]", goal_cases)
  case (4 i "is" s sh)
  then have "i \<in> live_tokens s" "live_tokens (mark_token i sh s) = live_tokens s - {i}"
    by (auto simp: live_tokens_mark)
  then have "card (live_tokens (mark_token i sh s)) < card (live_tokens s)"
    by (metis card_Diff1_less finite_live_tokens)
  then show ?case by simp
qed auto

definition fire :: "token_ref \<Rightarrow> cancel_store \<Rightarrow> cancel_store" where
  "fire i s = fire_locked [i] s"

definition token_new :: "token_ref \<Rightarrow> cancel_store \<Rightarrow> cancel_store" where
  "token_new i s = s\<lparr>tokens := hm_insert i
     \<lparr>sh_cancelled = False, sh_publications = [], sh_children = [], sh_parent = None\<rparr> (tokens s)\<rparr>"

text \<open>\<open>CancelToken::child\<close>: a child of a cancelled source fires at once and is not registered;
  otherwise the source records it.\<close>

definition token_child :: "token_ref \<Rightarrow> token_ref \<Rightarrow> cancel_store \<Rightarrow> cancel_store" where
  "token_child p c s =
     (let s1 = s\<lparr>tokens := hm_insert c
                   \<lparr>sh_cancelled = False, sh_publications = [], sh_children = [],
                    sh_parent = Some p\<rparr> (tokens s)\<rparr>
      in if token_cancelled s p then fire_locked [c] s1
         else s1\<lparr>tokens := hm_modify p (\<lambda>sh. sh\<lparr>sh_children := sh_children sh @ [c]\<rparr>) (tokens s1)\<rparr>)"

text \<open>Dropping the last reference to a token: the store forgets it and its registration leaves
  the source's list.\<close>

definition token_drop :: "token_ref \<Rightarrow> cancel_store \<Rightarrow> cancel_store" where
  "token_drop i s =
     (let s1 = s\<lparr>tokens := hm_remove i (tokens s)\<rparr>
      in case Option.bind (hm_get (tokens s) i) sh_parent of
           None \<Rightarrow> s1
         | Some p \<Rightarrow> s1\<lparr>tokens :=
             hm_modify p (\<lambda>sh. sh\<lparr>sh_children := filter (\<lambda>c. c \<noteq> i) (sh_children sh)\<rparr>) (tokens s1)\<rparr>)"

definition register_publication :: "token_ref \<Rightarrow> pub_ref \<Rightarrow> cancel_store \<Rightarrow> cancel_store" where
  "register_publication i pub s =
     (if token_cancelled s i then s\<lparr>phases := cancel_pubs [pub] (phases s)\<rparr>
      else s\<lparr>tokens := hm_modify i (\<lambda>sh. sh\<lparr>sh_publications := sh_publications sh @ [pub]\<rparr>) (tokens s)\<rparr>)"

definition registration_drop :: "token_ref \<Rightarrow> pub_ref \<Rightarrow> cancel_store \<Rightarrow> cancel_store" where
  "registration_drop i pub s =
     s\<lparr>tokens := hm_modify i
         (\<lambda>sh. sh\<lparr>sh_publications := filter (\<lambda>p. p \<noteq> pub) (sh_publications sh)\<rparr>) (tokens s)\<rparr>"

definition claim_publication_if :: "token_ref \<Rightarrow> pub_ref \<Rightarrow> bool \<Rightarrow> cancel_store \<Rightarrow> cancel_store \<times> bool" where
  "claim_publication_if i pub valid s =
     (if token_cancelled s i \<or> \<not> valid
      then (s\<lparr>phases := cancel_pubs [pub] (phases s)\<rparr>, False)
      else (let (ph, r) = cp_try_publish (phases s pub) in (s\<lparr>phases := (phases s)(pub := ph)\<rparr>, r)))"

subsection \<open>Propagation\<close>

definition flag :: "cancel_store \<Rightarrow> token_ref \<Rightarrow> bool" where
  "flag s i \<longleftrightarrow> (\<exists>sh. hm_get (tokens s) i = Some sh \<and> sh_cancelled sh)"

definition child_of :: "cancel_store \<Rightarrow> token_ref \<Rightarrow> token_ref \<Rightarrow> bool" where
  "child_of s i c \<longleftrightarrow> (\<exists>sh. hm_get (tokens s) i = Some sh \<and> c \<in> set (sh_children sh))
     \<and> hm_get (tokens s) c \<noteq> None"

text \<open>The invariant the propagation rests on: the live children and the publications of a
  cancelled token are cancelled too.\<close>

definition closed_store :: "cancel_store \<Rightarrow> bool" where
  "closed_store s \<longleftrightarrow> (\<forall>i c. flag s i \<longrightarrow> child_of s i c \<longrightarrow> flag s c)"

lemma cp_cancel_not_pending [simp]: "fst (cp_cancel p) \<noteq> PENDING"
  by (cases p) (simp_all add: cp_cancel_def)

lemma cp_cancel_stable: "p \<noteq> PENDING \<Longrightarrow> fst (cp_cancel p) = p"
  by (cases p) (simp_all add: cp_cancel_def)

lemma cancel_pubs_Cons: "cancel_pubs (p # ps) ph = cancel_pubs ps (ph(p := fst (cp_cancel (ph p))))"
  by (simp add: cancel_pubs_def)

lemma cancel_pubs_keep: "ph q \<noteq> PENDING \<Longrightarrow> cancel_pubs ps ph q = ph q"
proof (induction ps arbitrary: ph)
  case (Cons p ps)
  have "(ph(p := fst (cp_cancel (ph p)))) q = ph q"
    using Cons.prems by (auto simp: cp_cancel_stable)
  with Cons show ?case by (simp add: cancel_pubs_Cons)
qed (simp add: cancel_pubs_def)

lemma cancel_pubs_mem: "q \<in> set ps \<Longrightarrow> cancel_pubs ps ph q \<noteq> PENDING"
proof (induction ps arbitrary: ph)
  case (Cons p ps)
  let ?ph = "ph(p := fst (cp_cancel (ph p)))"
  show ?case
  proof (cases "q = p")
    case True
    then have "?ph q \<noteq> PENDING" by simp
    then show ?thesis by (simp add: cancel_pubs_Cons cancel_pubs_keep)
  next
    case False
    with Cons show ?thesis by (simp add: cancel_pubs_Cons)
  qed
qed simp

lemma flag_mark: "flag (mark_token i sh s) j \<longleftrightarrow> j = i \<or> flag s j"
  by (auto simp: flag_def mark_token_def hm_simps)

lemma child_of_mark:
  "hm_get (tokens s) i = Some sh \<Longrightarrow> child_of (mark_token i sh s) j c \<longleftrightarrow> child_of s j c"
  by (auto simp: child_of_def mark_token_def hm_simps)

lemma fire_locked_get:
  "\<exists>b. hm_get (tokens (fire_locked is s)) i = map_option (sh_cancelled_update (\<lambda>_. b)) (hm_get (tokens s) i)"
proof (induction "is" s rule: fire_locked.induct)
  case (1 s)
  have "hm_get (tokens s) i = map_option (sh_cancelled_update (\<lambda>_. sh_cancelled (the (hm_get (tokens s) i)))) (hm_get (tokens s) i)"
    by (cases "hm_get (tokens s) i") auto
  then show ?case by (metis fire_locked.simps(1))
next
  case (2 j js s)
  show ?case
  proof (cases "hm_get (tokens s) j")
    case None
    with 2 show ?thesis by simp
  next
    case (Some sh)
    show ?thesis
    proof (cases "sh_cancelled sh")
      case True
      with 2 Some show ?thesis by simp
    next
      case False
      have fl: "fire_locked (j # js) s = fire_locked (sh_children sh @ js) (mark_token j sh s)"
        using Some False by simp
      have upd: "sh_cancelled_update (\<lambda>_. b) (x\<lparr>sh_cancelled := True\<rparr>) = sh_cancelled_update (\<lambda>_. b) x" for b x
        by simp
      obtain b where "hm_get (tokens (fire_locked (j # js) s)) i =
          map_option (sh_cancelled_update (\<lambda>_. b)) (hm_get (tokens (mark_token j sh s)) i)"
        using 2(3) [OF Some False] fl by auto
      also have "\<dots> = map_option (sh_cancelled_update (\<lambda>_. b)) (hm_get (tokens s) i)"
        using Some by (simp add: mark_token_def hm_simps)
      finally show ?thesis by blast
    qed
  qed
qed

lemma fire_locked_child_of: "child_of (fire_locked is s) i c \<longleftrightarrow> child_of s i c"
proof -
  obtain b where b: "hm_get (tokens (fire_locked is s)) i = map_option (sh_cancelled_update (\<lambda>_. b)) (hm_get (tokens s) i)"
    using fire_locked_get by blast
  obtain d where d: "hm_get (tokens (fire_locked is s)) c = map_option (sh_cancelled_update (\<lambda>_. d)) (hm_get (tokens s) c)"
    using fire_locked_get by blast
  show ?thesis unfolding child_of_def b d by (cases "hm_get (tokens s) i") auto
qed

lemma fire_locked_flag_mono: "flag s j \<Longrightarrow> flag (fire_locked is s) j"
  by (induction "is" s rule: fire_locked.induct) (auto simp: flag_mark split: option.splits)

lemma fire_locked_flags_list:
  "j \<in> set is \<Longrightarrow> hm_get (tokens s) j \<noteq> None \<Longrightarrow> flag (fire_locked is s) j"
proof (induction "is" s rule: fire_locked.induct)
  case (2 i "is" s)
  show ?case
  proof (cases "hm_get (tokens s) i")
    case None
    with 2 show ?thesis by auto
  next
    case (Some sh)
    show ?thesis
    proof (cases "sh_cancelled sh")
      case True
      then have "j = i \<Longrightarrow> flag s j" using Some by (auto simp: flag_def)
      with 2 Some True show ?thesis by (auto intro: fire_locked_flag_mono)
    next
      case False
      have "hm_get (tokens (mark_token i sh s)) j \<noteq> None"
        using 2(5) by (simp add: mark_token_def hm_simps)
      moreover have "j = i \<Longrightarrow> flag (mark_token i sh s) j" by (simp add: flag_mark)
      ultimately show ?thesis using 2 Some False by (auto intro: fire_locked_flag_mono)
    qed
  qed
qed simp

text \<open>The work list covers what the invariant misses: the children of a cancelled token are
  cancelled or still waiting to fire.\<close>

lemma fire_locked_closed:
  "(\<forall>i c. flag s i \<longrightarrow> child_of s i c \<longrightarrow> flag s c \<or> c \<in> set is) \<Longrightarrow> closed_store (fire_locked is s)"
proof (induction "is" s rule: fire_locked.induct)
  case (1 s)
  then show ?case by (auto simp: closed_store_def)
next
  case (2 i "is" s)
  show ?case
  proof (cases "hm_get (tokens s) i")
    case None
    then have "\<not> child_of s j i" for j by (auto simp: child_of_def)
    with 2 None show ?thesis by (auto simp: split: if_splits)
  next
    case (Some sh)
    show ?thesis
    proof (cases "sh_cancelled sh")
      case True
      then have "flag s i" using Some by (auto simp: flag_def)
      with 2 Some True show ?thesis by auto
    next
      case False
      have "closed_store (fire_locked (sh_children sh @ is) (mark_token i sh s))"
      proof (rule 2(3) [OF Some False], intro allI impI)
        fix j c
        assume j: "flag (mark_token i sh s) j" and c: "child_of (mark_token i sh s) j c"
        from c have c': "child_of s j c" using child_of_mark [OF Some] by simp
        show "flag (mark_token i sh s) c \<or> c \<in> set (sh_children sh @ is)"
        proof (cases "j = i")
          case True
          with c' Some show ?thesis by (auto simp: child_of_def)
        next
          case False
          with j have "flag s j" by (simp add: flag_mark)
          with 2(4) c' show ?thesis by (auto simp: flag_mark)
        qed
      qed
      with Some False show ?thesis by simp
    qed
  qed
qed

lemma fire_closed: "closed_store s \<Longrightarrow> closed_store (fire i s)"
  unfolding fire_def by (rule fire_locked_closed) (auto simp: closed_store_def)

lemma fire_flags_reachable:
  assumes "closed_store s" "hm_get (tokens s) i \<noteq> None" "(child_of s)\<^sup>*\<^sup>* i c"
  shows "flag (fire i s) c"
  using assms(3)
proof (induction rule: rtranclp_induct)
  case base
  show ?case using assms(2) unfolding fire_def by (intro fire_locked_flags_list) auto
next
  case (step y z)
  have "child_of (fire i s) y z" using step.hyps(2) by (simp only: fire_def fire_locked_child_of)
  then show ?case using fire_closed [OF assms(1)] step.IH by (auto simp: closed_store_def)
qed

lemma flag_token_cancelled: "flag s i \<Longrightarrow> token_cancelled s i"
  by (subst token_cancelled.simps) (auto simp: flag_def)

lemma fire_locked_publications:
  assumes "hm_get (tokens s) j = Some sh" "\<not> sh_cancelled sh" "flag (fire_locked is s) j" "p \<in> set (sh_publications sh)"
  shows "phases (fire_locked is s) p \<noteq> PENDING"
  using assms
proof (induction "is" s rule: fire_locked.induct)
  case (1 s)
  then show ?case by (simp add: flag_def)
next
  case (2 i "is" s)
  have keep: "phases s p \<noteq> PENDING \<Longrightarrow> phases (fire_locked is s) p \<noteq> PENDING" for "is" s
    by (induction "is" s rule: fire_locked.induct)
      (auto simp: mark_token_def cancel_pubs_keep split: option.splits)
  show ?case
  proof (cases "hm_get (tokens s) i")
    case None
    with 2 show ?thesis by simp
  next
    case (Some sh')
    show ?thesis
    proof (cases "sh_cancelled sh'")
      case True
      with 2 Some show ?thesis by simp
    next
      case False
      have unfold: "fire_locked (i # is) s = fire_locked (sh_children sh' @ is) (mark_token i sh' s)"
        using Some False by simp
      show ?thesis
      proof (cases "j = i")
        case True
        then have "p \<in> set (sh_publications sh')" using 2(4,7) Some by simp
        then have "phases (mark_token i sh' s) p \<noteq> PENDING"
          by (simp add: mark_token_def cancel_pubs_mem)
        then show ?thesis unfolding unfold by (rule keep)
      next
        case False
        then have "hm_get (tokens (mark_token i sh' s)) j = Some sh"
          using 2(4) by (simp add: mark_token_def hm_simps)
        then show ?thesis unfolding unfold
          using 2(3) [OF Some \<open>\<not> sh_cancelled sh'\<close>] 2(5,6,7) unfold by simp
      qed
    qed
  qed
qed

subsection \<open>Every operation keeps the store closed\<close>

lemma flag_modify_neutral:
  assumes "\<And>sh. sh_cancelled (f sh) = sh_cancelled sh"
  shows "flag (s\<lparr>tokens := hm_modify i f (tokens s)\<rparr>) j \<longleftrightarrow> flag s j"
  using assms by (auto simp: flag_def hm_simps)

lemma child_of_modify_neutral:
  assumes "\<And>sh. sh_children (f sh) = sh_children sh"
  shows "child_of (s\<lparr>tokens := hm_modify i f (tokens s)\<rparr>) j c \<longleftrightarrow> child_of s j c"
  using assms by (auto simp: child_of_def hm_simps)

lemma flag_phases: "flag (s\<lparr>phases := ph\<rparr>) i \<longleftrightarrow> flag s i"
  and child_of_phases: "child_of (s\<lparr>phases := ph\<rparr>) i c \<longleftrightarrow> child_of s i c"
  by (simp_all add: flag_def child_of_def)

lemma token_child_closed:
  assumes "closed_store s" "hm_get (tokens s) c = None" "p \<noteq> c" "\<forall>i. \<not> child_of s i c"
    and "\<And>i sh. hm_get (tokens s) i = Some sh \<Longrightarrow> c \<notin> set (sh_children sh)"
  shows "closed_store (token_child p c s)"
proof (cases "token_cancelled s p")
  case True
  let ?s1 = "s\<lparr>tokens := hm_insert c \<lparr>sh_cancelled = False, sh_publications = [], sh_children = [],
                    sh_parent = Some p\<rparr> (tokens s)\<rparr>"
  have "closed_store (fire_locked [c] ?s1)"
  proof (rule fire_locked_closed, intro allI impI)
    fix i d assume i: "flag ?s1 i" and d: "child_of ?s1 i d"
    have "i \<noteq> c" using i by (auto simp: flag_def hm_simps)
    with i have "flag s i" by (auto simp: flag_def hm_simps)
    moreover have "d \<noteq> c \<Longrightarrow> child_of s i d"
      using d \<open>i \<noteq> c\<close> by (auto simp: child_of_def hm_simps)
    ultimately have "d \<noteq> c \<Longrightarrow> flag s d" using assms(1) unfolding closed_store_def by blast
    then show "flag ?s1 d \<or> d \<in> set [c]" by (cases "d = c") (auto simp: flag_def hm_simps)
  qed
  with True show ?thesis by (simp only: token_child_def Let_def if_True)
next
  case False
  then have "\<not> flag s p" using flag_token_cancelled by blast
  have main: "flag (token_child p c s) i \<Longrightarrow> child_of (token_child p c s) i d \<Longrightarrow> flag (token_child p c s) d" for i d
  proof -
    assume i: "flag (token_child p c s) i" and d: "child_of (token_child p c s) i d"
    have "i \<noteq> c" using i False by (auto simp: token_child_def flag_def hm_simps split: if_splits)
    moreover have "i \<noteq> p"
      using i False \<open>\<not> flag s p\<close> assms(3) by (auto simp: token_child_def flag_def hm_simps)
    ultimately have fi: "flag s i" and dd: "\<exists>sh. hm_get (tokens s) i = Some sh \<and> d \<in> set (sh_children sh)"
      using i d False by (auto simp: token_child_def flag_def child_of_def hm_simps)
    then have "d \<noteq> c" using assms(5) by blast
    with d dd False have "child_of s i d"
      by (auto simp: token_child_def child_of_def hm_simps split: if_splits)
    with fi assms(1) have "flag s d" by (auto simp: closed_store_def)
    with \<open>d \<noteq> c\<close> False show "flag (token_child p c s) d"
      by (auto simp: token_child_def flag_def hm_simps)
  qed
  then show ?thesis unfolding closed_store_def by blast
qed

lemma register_publication_closed: "closed_store s \<Longrightarrow> closed_store (register_publication i p s)"
  by (simp add: register_publication_def closed_store_def flag_modify_neutral child_of_modify_neutral
      flag_phases child_of_phases)

lemma claim_publication_cancelled:
  "token_cancelled s i \<Longrightarrow> snd (claim_publication_if i p v s) = False"
  by (simp add: claim_publication_if_def)

lemma claim_publication_phase:
  "snd (claim_publication_if i p v s) \<Longrightarrow>
     phases s p = PENDING \<and> phases (fst (claim_publication_if i p v s)) p = PUBLISHING \<and> v \<and> \<not> token_cancelled s i"
  by (auto simp: claim_publication_if_def cp_try_publish_def split: if_splits)

section \<open>The keyed registry\<close>

type_synonym trigger = token_ref

record slotted =
  slot :: u64
  slot_trigger :: "trigger option"

record registry_entry =
  registrations :: "slotted list"
  entry_cancelled :: bool

record 'k cancel_map =
  entries :: "('k, registry_entry) hmap"
  next_slot :: u64

definition cm_new :: "'k cancel_map" where
  "cm_new = \<lparr>entries = [], next_slot = 0\<rparr>"

text \<open>Every operation returns the triggers it drops; a dropped trigger fires its token.\<close>

definition entry_or_default :: "'k \<Rightarrow> 'k cancel_map \<Rightarrow> registry_entry" where
  "entry_or_default k m = (case hm_get (entries m) k of
     Some e \<Rightarrow> e | None \<Rightarrow> \<lparr>registrations = [], entry_cancelled = False\<rparr>)"

definition active_triggers :: "registry_entry \<Rightarrow> trigger list" where
  "active_triggers e = List.map_filter slot_trigger (registrations e)"

definition cm_insert :: "'k \<Rightarrow> trigger \<Rightarrow> 'k cancel_map \<Rightarrow> 'k cancel_map \<times> u64 \<times> trigger list" where
  "cm_insert k t m =
     (let e = entry_or_default k m; sl = next_slot m;
          reg = \<lparr>slot = sl, slot_trigger = (if entry_cancelled e then None else Some t)\<rparr>
      in (m\<lparr>entries := hm_insert k (e\<lparr>registrations := registrations e @ [reg]\<rparr>) (entries m),
            next_slot := sl + 1\<rparr>,
          sl, if entry_cancelled e then [t] else []))"

definition cm_retire :: "'k \<Rightarrow> u64 \<Rightarrow> 'k cancel_map \<Rightarrow> 'k cancel_map \<times> trigger list" where
  "cm_retire k sl m =
     (case hm_get (entries m) k of
        None \<Rightarrow> (m, [])
      | Some e \<Rightarrow>
          let kept = filter (\<lambda>r. slot r \<noteq> sl) (registrations e);
              dropped = List.map_filter slot_trigger (filter (\<lambda>r. slot r = sl) (registrations e))
          in (if kept = [] then m\<lparr>entries := hm_remove k (entries m)\<rparr>
              else m\<lparr>entries := hm_insert k (e\<lparr>registrations := kept\<rparr>) (entries m)\<rparr>, dropped))"

definition cm_cancel_or_precancel :: "'k \<Rightarrow> 'k cancel_map \<Rightarrow> 'k cancel_map \<times> trigger list" where
  "cm_cancel_or_precancel k m =
     (let e = entry_or_default k m
      in (m\<lparr>entries := hm_insert k
            (e\<lparr>entry_cancelled := True,
               registrations := map (\<lambda>r. r\<lparr>slot_trigger := None\<rparr>) (registrations e)\<rparr>) (entries m)\<rparr>,
          active_triggers e))"

definition cm_remove :: "'k \<Rightarrow> 'k cancel_map \<Rightarrow> 'k cancel_map \<times> trigger list" where
  "cm_remove k m =
     (m\<lparr>entries := hm_remove k (entries m)\<rparr>,
      case hm_get (entries m) k of None \<Rightarrow> [] | Some e \<Rightarrow> active_triggers e)"

definition cm_cancel_all :: "'k cancel_map \<Rightarrow> 'k cancel_map \<times> trigger list" where
  "cm_cancel_all m = (m\<lparr>entries := []\<rparr>, concat (map active_triggers (hm_values (entries m))))"

definition cm_active :: "'k cancel_map \<Rightarrow> 'k \<Rightarrow> trigger list" where
  "cm_active m k = (case hm_get (entries m) k of None \<Rightarrow> [] | Some e \<Rightarrow> active_triggers e)"

definition cm_is_cancelled :: "'k cancel_map \<Rightarrow> 'k \<Rightarrow> bool" where
  "cm_is_cancelled m k \<longleftrightarrow> entry_cancelled (entry_or_default k m)"

lemma map_filter_append: "List.map_filter f (xs @ ys) = List.map_filter f xs @ List.map_filter f ys"
  by (simp add: List.map_filter_def)

lemma cm_active_default: "cm_active m k = active_triggers (entry_or_default k m)"
  by (simp add: cm_active_def entry_or_default_def active_triggers_def List.map_filter_def split: option.split)

text \<open>A trigger handed to the registry is held under its key or fired at once, never lost.\<close>

lemma cm_insert_held_or_fired:
  assumes "cm_insert k t m = (m', sl, fired)"
  shows "cm_active m' k = (if cm_is_cancelled m k then cm_active m k else cm_active m k @ [t])"
    and "fired = (if cm_is_cancelled m k then [t] else [])"
    and "k' \<noteq> k \<Longrightarrow> cm_active m' k' = cm_active m k'"
    and "cm_is_cancelled m' k = cm_is_cancelled m k"
  using assms
  by (auto simp: cm_insert_def Let_def cm_active_def cm_is_cancelled_def entry_or_default_def
      active_triggers_def map_filter_append List.map_filter_def hm_simps split: option.splits)

lemma cm_precancel_active:
  assumes "cm_cancel_or_precancel k m = (m', fired)"
  shows "cm_active m' k = []" "cm_is_cancelled m' k" "fired = cm_active m k"
    and "k' \<noteq> k \<Longrightarrow> cm_active m' k' = cm_active m k'"
  using assms
  by (auto simp: cm_cancel_or_precancel_def Let_def cm_active_def cm_is_cancelled_def
      entry_or_default_def active_triggers_def List.map_filter_def hm_simps split: option.splits)

lemma map_filter_split:
  "set (List.map_filter f xs) = set (List.map_filter f (filter P xs)) \<union> set (List.map_filter f (filter (\<lambda>x. \<not> P x) xs))"
  by (induction xs) (auto simp: List.map_filter_def)

lemma cm_retire_conserves:
  assumes "cm_retire k sl m = (m', fired)"
  shows "set (cm_active m k) = set (cm_active m' k) \<union> set fired"
proof (cases "hm_get (entries m) k")
  case None
  with assms show ?thesis by (auto simp: cm_retire_def cm_active_def)
next
  case (Some e)
  have "set (active_triggers e) = set (List.map_filter slot_trigger (filter (\<lambda>r. slot r \<noteq> sl) (registrations e)))
      \<union> set (List.map_filter slot_trigger (filter (\<lambda>r. slot r = sl) (registrations e)))"
    using map_filter_split [of slot_trigger "registrations e" "\<lambda>r. slot r \<noteq> sl"]
    by (simp add: active_triggers_def)
  moreover have "cm_active m k = active_triggers e" using Some by (simp add: cm_active_def)
  moreover have "cm_active m' k = List.map_filter slot_trigger (filter (\<lambda>r. slot r \<noteq> sl) (registrations e))"
    using assms Some
    by (cases "filter (\<lambda>r. slot r \<noteq> sl) (registrations e) = []")
      (auto simp: cm_retire_def Let_def cm_active_def active_triggers_def hm_simps
        List.map_filter_def simp del: filter_empty_conv filter_False)
  moreover have "fired = List.map_filter slot_trigger (filter (\<lambda>r. slot r = sl) (registrations e))"
    using assms Some by (auto simp: cm_retire_def Let_def)
  ultimately show ?thesis by simp
qed

section \<open>Properties\<close>

text \<open>Over any sequence of calls on one checkpoint publication, cancelling and publishing exclude each
  other, and publishing succeeds at most once.\<close>

theorem publication_exclusive:
  "\<not> ((CallPublish, True) \<in> set (cp_run p cs) \<and> (CallCancel, True) \<in> set (cp_run p cs))
     \<and> length (filter (\<lambda>x. x = (CallPublish, True)) (cp_run p cs)) \<le> 1"
  using cp_run_exclusive cp_run_one_publish by blast

text \<open>C39. Firing a token cancels every live token below it, however deep, and keeps the store closed under
  cancellation; from then on no publication can be claimed through any of these tokens.\<close>

theorem fire_reaches_descendants:
  assumes "closed_store s" "hm_get (tokens s) i \<noteq> None" "(child_of s)\<^sup>*\<^sup>* i c"
  shows "token_cancelled (fire i s) c \<and> closed_store (fire i s) \<and> \<not> snd (claim_publication_if c p v (fire i s))"
  using flag_token_cancelled [OF fire_flags_reachable [OF assms]] fire_closed [OF assms(1)]
  by (simp add: claim_publication_cancelled)

definition demo_store :: cancel_store where
  "demo_store = \<lparr>tokens =
     [(2, \<lparr>sh_cancelled = False, sh_publications = [], sh_children = [3], sh_parent = None\<rparr>),
      (3, \<lparr>sh_cancelled = False, sh_publications = [], sh_children = [4], sh_parent = Some 2\<rparr>),
      (4, \<lparr>sh_cancelled = False, sh_publications = [9], sh_children = [], sh_parent = Some 3\<rparr>)], phases = (\<lambda>_. PENDING)\<rparr>"

lemma demo_store_tokens:
  "closed_store demo_store" "hm_get (tokens demo_store) 2 \<noteq> None" "child_of demo_store 2 3" "child_of demo_store 3 4"
  by (auto simp: demo_store_def closed_store_def flag_def child_of_def split: if_splits)

theorem fire_reaches_descendants_witness: "token_cancelled (fire 2 demo_store) 4"
  using fire_reaches_descendants [OF demo_store_tokens(1,2), of 4] rtranclp.rtrancl_into_rtrancl [OF r_into_rtranclp [of "child_of demo_store", OF demo_store_tokens(3)] demo_store_tokens(4)]
  by blast

text \<open>The keyed registry never loses a trigger: an inserted trigger is held under its key, or fired at
  once when the key was cancelled before; cancelling a key fires everything held under it, keeps the
  other keys, and makes every later insertion under it fire at once.\<close>

theorem registry_never_loses:
  assumes "cm_cancel_or_precancel k m = (m1, fired)" "cm_insert k t m1 = (m2, sl, late)"
  shows "fired = cm_active m k \<and> late = [t] \<and> cm_active m2 k = [] \<and> (\<forall>k'. k' \<noteq> k \<longrightarrow> cm_active m2 k' = cm_active m k')"
  using cm_precancel_active [OF assms(1)] cm_insert_held_or_fired [OF assms(2)] by simp

definition demo_registry :: "nat cancel_map" where
  "demo_registry = \<lparr>entries = [(7, \<lparr>registrations = [\<lparr>slot = 0, slot_trigger = Some 5\<rparr>], entry_cancelled = False\<rparr>)], next_slot = 1\<rparr>"

theorem registry_never_loses_witness: "snd (cm_cancel_or_precancel 7 demo_registry) = [5]"
proof -
  let ?m = "cm_cancel_or_precancel 7 demo_registry" and ?n = "cm_insert 7 6 (fst (cm_cancel_or_precancel 7 demo_registry))"
  have "snd ?m = cm_active demo_registry 7"
    using registry_never_loses [of 7 demo_registry "fst ?m" "snd ?m" 6 "fst ?n" "fst (snd ?n)" "snd (snd ?n)"] by simp
  then show ?thesis by (simp add: demo_registry_def cm_active_def active_triggers_def List.map_filter_def)
qed

end
