(* ===== verification/Turn_Tickets.thy ===== *)
theory Turn_Tickets
  imports Cancel_Tokens
begin

text \<open>
  Exact outcome waiting (\<open>maki-agent/src/actor/tickets.rs\<close>). A ticket names a turn of one actor;
  the state it shares with the actor, the outcome slot and the output that the run streams into,
  is the cell \<open>ticket_cell\<close>. Times are milliseconds of a monotonic clock the caller reads.
\<close>

datatype turn_origin = InternalOrigin | UserOrigin | PluginOrigin

record turn_provenance =
  origin :: turn_origin
  prov_plugin :: "string option"
  plugin_generation :: "u64 option"
  source_agent :: "agent_id option"
  source_turn :: "turn_id option"

definition default_provenance :: turn_provenance where
  "default_provenance = \<lparr>origin = InternalOrigin, prov_plugin = None, plugin_generation = None,
     source_agent = None, source_turn = None\<rparr>"

record turn_result =
  res_outcome :: turn_outcome
  res_text :: string
  res_output :: "json_value list"
  res_provenance :: turn_provenance
  duration_ms :: nat

text \<open>An \<open>EventSender\<close>: the channel it writes to and the identity it stamps.\<close>

record event_sender =
  sender_channel :: nat
  sender_identity :: "work_identity option"

definition with_identity_of :: "event_sender \<Rightarrow> work_identity option \<Rightarrow> event_sender" where
  "with_identity_of s i = s\<lparr>sender_identity := i\<rparr>"

record output_state =
  out_text :: string
  out_output :: "json_value list"
  out_result :: "turn_result option"
  out_started :: "nat option"
  terminal_sender :: "event_sender option"

record ticket_cell =
  cell_outcome :: "turn_outcome option"
  cell_output :: output_state

record turn_ticket =
  ticket_turn :: turn_id
  ticket_actor :: nat
  ticket_provenance :: turn_provenance

definition new_ticket :: "turn_id \<Rightarrow> nat \<Rightarrow> turn_ticket" where
  "new_ticket t actor = \<lparr>ticket_turn = t, ticket_actor = actor, ticket_provenance = default_provenance\<rparr>"

definition with_provenance :: "turn_ticket \<Rightarrow> turn_provenance \<Rightarrow> turn_ticket" where
  "with_provenance t p = t\<lparr>ticket_provenance := p\<rparr>"

definition new_cell :: ticket_cell where
  "new_cell = \<lparr>cell_outcome = None,
     cell_output = \<lparr>out_text = [], out_output = [], out_result = None, out_started = None,
                    terminal_sender = None\<rparr>\<rparr>"

definition belongs_to :: "turn_ticket \<Rightarrow> nat \<Rightarrow> bool" where
  "belongs_to t actor \<longleftrightarrow> ticket_actor t = actor"

section \<open>The output stream\<close>

text \<open>Every write is dropped once the result is sealed.\<close>

definition unless_sealed :: "(output_state \<Rightarrow> output_state) \<Rightarrow> output_state \<Rightarrow> output_state" where
  "unless_sealed f st = (if out_result st = None then f st else st)"

definition set_terminal_sender :: "event_sender \<Rightarrow> output_state \<Rightarrow> output_state" where
  "set_terminal_sender s st = st\<lparr>terminal_sender := Some s\<rparr>"

definition take_terminal_sender :: "output_state \<Rightarrow> event_sender option \<times> output_state" where
  "take_terminal_sender st = (terminal_sender st, st\<lparr>terminal_sender := None\<rparr>)"

definition begin_text_attempt :: "output_state \<Rightarrow> output_state" where
  "begin_text_attempt = unless_sealed (\<lambda>st. st\<lparr>out_text := []\<rparr>)"

definition reset_text_attempt :: "output_state \<Rightarrow> output_state" where
  "reset_text_attempt = begin_text_attempt"

definition reconcile_text_attempt :: "string \<Rightarrow> output_state \<Rightarrow> output_state" where
  "reconcile_text_attempt text = unless_sealed (\<lambda>st. st\<lparr>out_text := text\<rparr>)"

definition append_text :: "string \<Rightarrow> output_state \<Rightarrow> output_state" where
  "append_text text = unless_sealed (\<lambda>st. st\<lparr>out_text := out_text st @ text\<rparr>)"

definition append_output :: "json_value \<Rightarrow> output_state \<Rightarrow> output_state" where
  "append_output v = unless_sealed (\<lambda>st. st\<lparr>out_output := out_output st @ [v]\<rparr>)"

definition mark_started :: "nat \<Rightarrow> output_state \<Rightarrow> output_state" where
  "mark_started now st =
     (if out_result st = None \<and> out_started st = None then st\<lparr>out_started := Some now\<rparr> else st)"

text \<open>Text of a retried attempt never reaches the result: only what followed the last reset does.\<close>

lemma reset_then_append: "out_result st = None \<Longrightarrow> out_text (append_text t (reset_text_attempt st)) = t"
  by (simp add: append_text_def reset_text_attempt_def begin_text_attempt_def unless_sealed_def)

section \<open>Sealing and resolving\<close>

definition elapsed_ms :: "nat \<Rightarrow> nat \<Rightarrow> nat" where
  "elapsed_ms start now = min (now - start) (2 ^ 64 - 1)"

definition seal :: "turn_provenance \<Rightarrow> nat \<Rightarrow> turn_outcome \<Rightarrow> output_state \<Rightarrow> output_state" where
  "seal prov now outcome st =
     (if out_result st = None
      then st\<lparr>out_result := Some \<lparr>res_outcome = outcome, res_text = out_text st, res_output = out_output st,
                res_provenance = prov,
                duration_ms = (case out_started st of None \<Rightarrow> 0 | Some s \<Rightarrow> elapsed_ms s now)\<rparr>,
              out_text := [], out_output := []\<rparr>
      else st)"

definition cell_seal :: "turn_provenance \<Rightarrow> nat \<Rightarrow> turn_outcome \<Rightarrow> ticket_cell \<Rightarrow> ticket_cell" where
  "cell_seal prov now outcome c = c\<lparr>cell_output := seal prov now outcome (cell_output c)\<rparr>"

definition resolve :: "turn_provenance \<Rightarrow> nat \<Rightarrow> turn_outcome \<Rightarrow> ticket_cell \<Rightarrow> ticket_cell" where
  "resolve prov now outcome c =
     (if cell_outcome c = None
      then (cell_seal prov now outcome c)\<lparr>cell_outcome := Some outcome\<rparr>
      else c)"

definition peek :: "ticket_cell \<Rightarrow> turn_outcome option" where
  "peek c = cell_outcome c"

definition peek_result :: "ticket_cell \<Rightarrow> turn_result option" where
  "peek_result c = out_result (cell_output c)"

lemmas ticket_defs = seal_def cell_seal_def resolve_def peek_def peek_result_def

text \<open>A resolved ticket has a frozen result, which \<open>wait_result\<close> relies on.\<close>

definition cell_wf :: "ticket_cell \<Rightarrow> bool" where
  "cell_wf c \<longleftrightarrow> (cell_outcome c \<noteq> None \<longrightarrow> peek_result c \<noteq> None)"

lemma cell_wf_new [simp]: "cell_wf new_cell"
  by (simp add: cell_wf_def new_cell_def)

interpretation ticket_outcome: write_once peek "resolve prov now" cell_wf
  for prov now
  by unfold_locales (auto simp: ticket_defs cell_wf_def split: option.split)

interpretation ticket_result: write_once "\<lambda>c. map_option res_outcome (peek_result c)" "cell_seal prov now" "\<lambda>_. True"
  for prov now
  by unfold_locales (auto simp: ticket_defs split: option.split)

text \<open>A sealed result is never changed by anything the run still streams, nor by a later seal or
  resolution.\<close>

inductive output_write :: "output_state \<Rightarrow> output_state \<Rightarrow> bool" where
  "output_write st (begin_text_attempt st)"
| "output_write st (reset_text_attempt st)"
| "output_write st (reconcile_text_attempt text st)"
| "output_write st (append_text text st)"
| "output_write st (append_output v st)"
| "output_write st (mark_started now st)"
| "output_write st (set_terminal_sender s st)"
| "output_write st (snd (take_terminal_sender st))"
| "output_write st (seal prov now outcome st)"

inductive_simps output_write_simps: "output_write st st'"

lemma sealed_result_frozen:
  assumes "output_write\<^sup>*\<^sup>* st st'" "out_result st = Some r"
  shows "out_result st' = Some r"
  using assms
proof (induction rule: rtranclp_induct)
  case (step y z)
  from step.hyps(2) show ?case using step.IH step.prems
    by (cases rule: output_write.cases)
      (auto simp: begin_text_attempt_def reset_text_attempt_def reconcile_text_attempt_def append_text_def
        append_output_def mark_started_def set_terminal_sender_def take_terminal_sender_def seal_def
        unless_sealed_def)
qed

lemma resolve_seals:
  "cell_outcome c = None \<Longrightarrow> peek_result c = None \<Longrightarrow>
     map_option res_outcome (peek_result (resolve prov now o1 c)) = Some o1 \<and> peek (resolve prov now o1 c) = Some o1"
  by (simp add: ticket_defs)

section \<open>Properties\<close>

text \<open>C40. A ticket is resolved once: of any sequence of resolutions of an unresolved ticket the first one
  counts, and every holder reads that outcome.\<close>

theorem first_resolution_wins:
  assumes "cell_wf c" "peek c = None"
  shows "peek (fold (resolve prov now) (out # outs) c) = Some out"
  using assms by (rule ticket_outcome.first_write_wins)

theorem first_resolution_wins_witness:
  "peek (fold (resolve default_provenance 3) [cancelled_outcome (AgentId 2) (TurnId 2) User, cancelled_outcome (AgentId 2) (TurnId 2) Withdrawn] new_cell)
     = Some (cancelled_outcome (AgentId 2) (TurnId 2) User)"
  by (rule first_resolution_wins) (simp_all add: peek_def new_cell_def cell_wf_def)

text \<open>A sealed result is frozen: nothing the run still streams, and no later seal, changes it.\<close>

theorem sealed_result_is_frozen:
  assumes "output_write\<^sup>*\<^sup>* (seal prov now out st) st'" "out_result st = None"
  shows "out_result st' = out_result (seal prov now out st) \<and> map_option res_outcome (out_result st') = Some out"
proof -
  obtain r where r: "out_result (seal prov now out st) = Some r" "res_outcome r = out" using assms(2) by (auto simp: seal_def)
  with sealed_result_frozen [OF assms(1)] show ?thesis by simp
qed

theorem sealed_result_is_frozen_witness:
  "map_option res_outcome (out_result (append_text ''late'' (seal default_provenance 1 (cancelled_outcome (AgentId 2) (TurnId 2) User) (cell_output new_cell))))
     = Some (cancelled_outcome (AgentId 2) (TurnId 2) User)"
proof -
  let ?s = "seal default_provenance 1 (cancelled_outcome (AgentId 2) (TurnId 2) User) (cell_output new_cell)"
  have "output_write\<^sup>*\<^sup>* ?s (append_text ''late'' ?s)" by (rule r_into_rtranclp) (rule output_write.intros)
  moreover have "out_result (cell_output new_cell) = None" by (simp add: new_cell_def)
  ultimately show ?thesis using sealed_result_is_frozen by blast
qed

end
