(* ===== verification/Turn_Inbox.thy ===== *)
theory Turn_Inbox
  imports Turn_Tickets
begin

text \<open>
  The instruction inbox of one turn (\<open>maki-agent/src/actor/inbox.rs\<close>): messages submitted while
  the turn is open wait in \<open>pending\<close>, move to \<open>drained\<close> when the run takes them for its next
  request, and are acknowledged when that request was submitted.
\<close>

definition MAX_PENDING_INSTRUCTIONS :: nat where
  "MAX_PENDING_INSTRUCTIONS = 64"

definition MAX_PENDING_INSTRUCTION_BYTES :: nat where
  "MAX_PENDING_INSTRUCTION_BYTES = 256 * 1024"

record pending_submission =
  sub_id :: submission_id
  sub_turn :: turn_id
  sub_text :: string
  sub_images :: "image_source list"
  already_displayed :: bool
  sub_notice :: "nat option"

datatype pending_queue_entry =
  MessageEntry pending_submission
| CompactEntry u64 u64 "string option"

record instruction_entry =
  entry_presentation :: pending_submission
  entry_input :: agent_input
  entry_provenance :: turn_provenance
  entry_bytes :: nat

record instruction_inbox =
  inbox_open :: bool
  inbox_ticket :: turn_ticket
  inbox_presentation :: u64
  pending :: "instruction_entry list"
  drained :: "(turn_provenance \<times> nat) list"
  submit_operation :: "u64 option"
  inbox_policy :: "config_arc option"
  initial :: "pending_submission option"
  inbox_operation :: u64
  inbox_batchable :: bool
  inbox_correlations :: "string list"

definition new_inbox :: "turn_ticket \<Rightarrow> u64 \<Rightarrow> instruction_inbox" where
  "new_inbox ticket presentation =
     \<lparr>inbox_open = True, inbox_ticket = ticket, inbox_presentation = presentation, pending = [],
      drained = [], submit_operation = None, inbox_policy = None, initial = None,
      inbox_operation = 0, inbox_batchable = False, inbox_correlations = []\<rparr>"

definition outstanding :: "instruction_inbox \<Rightarrow> nat \<times> nat" where
  "outstanding i =
     (length (pending i) + length (drained i),
      sum_list (map entry_bytes (pending i)) + sum_list (map snd (drained i)))"

text \<open>The messages of one inbox in the order the queue panel shows them.\<close>

definition inbox_messages :: "instruction_inbox \<Rightarrow> pending_submission list" where
  "inbox_messages i = (case initial i of None \<Rightarrow> [] | Some s \<Rightarrow> [s]) @ map entry_presentation (pending i)"

section \<open>Operations on one inbox\<close>

text \<open>The body of \<open>drain_presented_instructions\<close> once the inbox was found open.\<close>

definition inbox_drain ::
    "instruction_inbox \<Rightarrow> instruction_inbox \<times> (pending_submission \<times> agent_input) list" where
  "inbox_drain i =
     (if \<not> inbox_open i then (i, [])
      else (i\<lparr>pending := [], drained := drained i @ map (\<lambda>e. (entry_provenance e, entry_bytes e)) (pending i)\<rparr>,
            map (\<lambda>e. (entry_presentation e, entry_input e)) (pending i)))"

definition inbox_submitted :: "instruction_inbox \<Rightarrow> instruction_inbox" where
  "inbox_submitted i = i\<lparr>drained := []\<rparr>"

text \<open>\<open>close_admission\<close>: admission closes only when every accepted instruction reached a request.\<close>

definition inbox_close_admission :: "bool \<Rightarrow> instruction_inbox \<Rightarrow> instruction_inbox \<times> bool" where
  "inbox_close_admission pending_completions i =
     (if fst (outstanding i) \<noteq> 0 \<or> pending_completions then (i, False)
      else (i\<lparr>inbox_open := False\<rparr>, True))"

definition inbox_push :: "instruction_entry \<Rightarrow> instruction_inbox \<Rightarrow> instruction_inbox" where
  "inbox_push e i = i\<lparr>pending := pending i @ [e]\<rparr>"

definition inbox_join :: "string \<Rightarrow> instruction_inbox \<Rightarrow> instruction_inbox" where
  "inbox_join c i = (if c \<in> set (inbox_correlations i) then i
     else i\<lparr>inbox_correlations := inbox_correlations i @ [c]\<rparr>)"

lemmas inbox_defs = new_inbox_def inbox_drain_def inbox_submitted_def inbox_close_admission_def
  inbox_push_def inbox_join_def outstanding_def

lemma outstanding_drain: "outstanding (fst (inbox_drain i)) = outstanding i"
  by (simp add: inbox_defs o_def)

lemma outstanding_push:
  "outstanding (inbox_push e i) = (fst (outstanding i) + 1, snd (outstanding i) + entry_bytes e)"
  by (simp add: inbox_defs)

lemma outstanding_join [simp]: "outstanding (inbox_join c i) = outstanding i"
  by (simp add: inbox_defs)

lemma outstanding_submitted_le:
  "fst (outstanding (inbox_submitted i)) \<le> fst (outstanding i)"
  "snd (outstanding (inbox_submitted i)) \<le> snd (outstanding i)"
  by (simp_all add: inbox_defs)

text \<open>An inbox never closes over an accepted message the model has not seen.\<close>

lemma close_admission_nothing_lost:
  assumes "inbox_close_admission pc i = (i', True)"
  shows "pending i' = []" "drained i' = []" "\<not> inbox_open i'" "\<not> pc"
  using assms by (auto simp: inbox_defs split: if_splits)

lemma drain_delivers_all:
  assumes "inbox_open i" "inbox_drain i = (i', out)"
  shows "map fst out = map entry_presentation (pending i)" "pending i' = []"
    and "map snd (drained i') = map snd (drained i) @ map entry_bytes (pending i)"
  using assms by (auto simp: inbox_defs)

section \<open>Properties\<close>

text \<open>Admission to a running turn closes only when nothing is lost: no accepted message is left that
  the model has not been given, and no awaited child result is pending.\<close>

theorem admission_closes_over_nothing:
  assumes "inbox_close_admission waits i = (i', True)"
  shows "pending i' = [] \<and> drained i' = [] \<and> \<not> inbox_open i' \<and> \<not> waits"
  using close_admission_nothing_lost [OF assms] by blast

theorem admission_closes_over_nothing_witness:
  "\<not> inbox_open (fst (inbox_close_admission False (new_inbox (new_ticket (TurnId 2) 0) 1)))"
  using admission_closes_over_nothing [of False "new_inbox (new_ticket (TurnId 2) 0) 1" "fst (inbox_close_admission False (new_inbox (new_ticket (TurnId 2) 0) 1))"]
  by (simp add: inbox_defs)

end
