(* ===== verification/Actor_Queue.thy ===== *)
theory Actor_Queue
  imports Turn_Inbox
begin

text \<open>
  The actor's execution queue (\<open>maki-agent/src/actor/queue.rs\<close>): one lock-backed FIFO deque of
  work. Each operation below is one body under the deque's lock. The bounded wake-up channel of
  capacity one is the flag \<open>notified\<close>.
\<close>

record control_work =
  control_name :: string
  control_correlation :: string
  control_identity :: work_identity
  control_payload :: "nat option"

text \<open>The part of \<open>TurnAdmissionSnapshot\<close> the scheduler reads or writes; the rest of the
  captured data is opaque.\<close>

record admission_snapshot =
  snap_mode_def :: "mode_def option"
  snap_notice :: "nat option"
  snap_data :: nat

record turn_admission =
  adm_turn :: turn_id
  adm_input :: "agent_input option"
  adm_sender :: "event_sender option"
  adm_correlation :: string
  adm_work :: work_identity
  adm_generation :: u64
  adm_policy :: "config_arc option"
  adm_ticket :: turn_ticket
  adm_snapshot :: "admission_snapshot option"

text \<open>A checkpointed history edit: the reservation that owns it and the prepared operation it
  commits.\<close>

record history_edit =
  edit_owner :: nat
  edit_prepared :: u64

record compact_work =
  compact_operation :: u64
  compact_run :: u64
  compact_instructions :: "string option"
  compact_generation :: u64
  compact_policy :: "config_arc option"
  compact_identity :: work_identity

datatype actor_work =
  TurnWork turn_admission
| HistoryEdit history_edit
| Control control_work
| Compact compact_work

fun work_identity_of :: "actor_work \<Rightarrow> work_identity option" where
  "work_identity_of (Control c) = Some (control_identity c)"
| "work_identity_of (Compact c) = Some (compact_identity c)"
| "work_identity_of (TurnWork _) = None"
| "work_identity_of (HistoryEdit _) = None"

fun work_correlations :: "actor_work \<Rightarrow> string list" where
  "work_correlations (TurnWork a) = [adm_correlation a]"
| "work_correlations (HistoryEdit _) = []"
| "work_correlations (Control c) = [control_correlation c]"
| "work_correlations (Compact c) = [run_correlation (compact_run c)]"

fun is_turn :: "turn_id \<Rightarrow> actor_work \<Rightarrow> bool" where
  "is_turn t (TurnWork a) \<longleftrightarrow> adm_turn a = t"
| "is_turn t _ \<longleftrightarrow> False"

fun is_compact :: "u64 \<Rightarrow> actor_work \<Rightarrow> bool" where
  "is_compact i (Compact c) \<longleftrightarrow> compact_operation c = i"
| "is_compact i _ \<longleftrightarrow> False"

datatype queue_projection =
  ProjCompact "string option"
| ProjControl string
| ProjTurn string

fun project_work :: "actor_work \<Rightarrow> queue_projection" where
  "project_work (Compact c) = ProjCompact (compact_instructions c)"
| "project_work (Control c) = ProjControl (control_name c)"
| "project_work (HistoryEdit _) = ProjControl ''rewind''"
| "project_work (TurnWork a) = ProjTurn (adm_correlation a)"

section \<open>The deque\<close>

record actor_queue =
  items :: "actor_work list"
  notified :: bool

definition new_queue :: actor_queue where
  "new_queue = \<lparr>items = [], notified = False\<rparr>"

definition notify :: "actor_queue \<Rightarrow> actor_queue" where
  "notify q = q\<lparr>notified := True\<rparr>"

definition q_push :: "actor_work \<Rightarrow> actor_queue \<Rightarrow> actor_queue" where
  "q_push w q = notify (q\<lparr>items := items q @ [w]\<rparr>)"

definition q_pop :: "actor_queue \<Rightarrow> actor_work option \<times> actor_queue" where
  "q_pop q = (case items q of [] \<Rightarrow> (None, q) | w # ws \<Rightarrow> (Some w, q\<lparr>items := ws\<rparr>))"

definition q_is_empty :: "actor_queue \<Rightarrow> bool" where
  "q_is_empty q \<longleftrightarrow> items q = []"

definition remove_turn :: "turn_id \<Rightarrow> actor_queue \<Rightarrow> turn_admission option \<times> actor_queue" where
  "remove_turn t q =
     (case extract_first (is_turn t) (items q) of
        (Some (TurnWork a), ws) \<Rightarrow> (Some a, q\<lparr>items := ws\<rparr>)
      | _ \<Rightarrow> (None, q))"

definition remove_compact :: "u64 \<Rightarrow> actor_queue \<Rightarrow> pending_queue_entry option \<times> actor_queue" where
  "remove_compact i q =
     (case extract_first (is_compact i) (items q) of
        (Some (Compact c), ws) \<Rightarrow>
          (Some (CompactEntry i (compact_run c) (compact_instructions c)), q\<lparr>items := ws\<rparr>)
      | _ \<Rightarrow> (None, q))"

definition has_prepared_turn :: "turn_id \<Rightarrow> actor_queue \<Rightarrow> bool" where
  "has_prepared_turn t q \<longleftrightarrow>
     list_ex (\<lambda>w. case w of TurnWork a \<Rightarrow> adm_turn a = t \<and> adm_snapshot a \<noteq> None | _ \<Rightarrow> False) (items q)"

fun replace_first_input :: "turn_id \<Rightarrow> agent_input \<Rightarrow> actor_work list \<Rightarrow> actor_work list option" where
  "replace_first_input t input [] = None"
| "replace_first_input t input (w # ws) =
     (case w of
        TurnWork a \<Rightarrow>
          if adm_turn a = t then Some (TurnWork (a\<lparr>adm_input := Some input\<rparr>) # ws)
          else map_option ((#) w) (replace_first_input t input ws)
      | _ \<Rightarrow> map_option ((#) w) (replace_first_input t input ws))"

definition replace_turn_input :: "turn_id \<Rightarrow> agent_input \<Rightarrow> actor_queue \<Rightarrow> actor_queue option" where
  "replace_turn_input t input q =
     map_option (\<lambda>ws. q\<lparr>items := ws\<rparr>) (replace_first_input t input (items q))"

fun correlation_of :: "actor_work \<Rightarrow> string option" where
  "correlation_of (TurnWork a) = Some (adm_correlation a)"
| "correlation_of (Compact c) = Some (run_correlation (compact_run c))"
| "correlation_of (Control _) = None"
| "correlation_of (HistoryEdit _) = None"

text \<open>\<open>remove_correlation\<close> as written: the matching indices are collected first, then removed from
  the back so that earlier indices stay valid, and the removed items are put back in order.\<close>

fun matching_indices :: "('a \<Rightarrow> bool) \<Rightarrow> nat \<Rightarrow> 'a list \<Rightarrow> nat list" where
  "matching_indices P n [] = []"
| "matching_indices P n (x # xs) =
     (if P x then n # matching_indices P (Suc n) xs else matching_indices P (Suc n) xs)"

fun remove_each :: "nat list \<Rightarrow> 'a list \<Rightarrow> 'a list \<Rightarrow> 'a list \<times> 'a list" where
  "remove_each [] xs removed = (xs, removed)"
| "remove_each (i # is) xs removed =
     (if i < length xs then remove_each is (take i xs @ drop (Suc i) xs) (removed @ [xs ! i])
      else remove_each is xs removed)"

definition remove_correlation :: "string \<Rightarrow> actor_queue \<Rightarrow> actor_work list \<times> actor_queue" where
  "remove_correlation c q =
     (let matching = matching_indices (\<lambda>w. correlation_of w = Some c) 0 (items q);
          (kept, removed) = remove_each (rev matching) (items q) []
      in (rev removed, q\<lparr>items := kept\<rparr>))"

definition drain_all :: "actor_queue \<Rightarrow> actor_work list \<times> actor_queue" where
  "drain_all q = (items q, q\<lparr>items := []\<rparr>)"

fun split_keep :: "('a \<Rightarrow> bool) \<Rightarrow> 'a list \<Rightarrow> 'a list \<Rightarrow> 'a list \<Rightarrow> 'a list \<times> 'a list" where
  "split_keep keep dr kept [] = (dr, kept)"
| "split_keep keep dr kept (w # ws) =
     (if keep w then split_keep keep dr (kept @ [w]) ws
      else split_keep keep (dr @ [w]) kept ws)"

definition drain_except :: "(actor_work \<Rightarrow> bool) \<Rightarrow> actor_queue \<Rightarrow> actor_work list \<times> actor_queue" where
  "drain_except keep q =
     (let (dr, kept) = split_keep keep [] [] (items q) in (dr, q\<lparr>items := kept\<rparr>))"

definition project_pending :: "(turn_id \<Rightarrow> pending_queue_entry list) \<Rightarrow> actor_queue \<Rightarrow> pending_queue_entry list" where
  "project_pending messages q = concat (map (\<lambda>w. case w of
     TurnWork a \<Rightarrow> messages (adm_turn a)
   | Compact c \<Rightarrow> [CompactEntry (compact_operation c) (compact_run c) (compact_instructions c)]
   | _ \<Rightarrow> []) (items q))"

definition q_snapshot :: "actor_queue \<Rightarrow> queue_projection list" where
  "q_snapshot q = map project_work (items q)"

text \<open>\<open>pop_interrupt\<close>: only a compaction at the very front that was admitted under the same policy
  generation may be taken by the running turn.\<close>

definition pop_interrupt :: "u64 \<Rightarrow> actor_queue \<Rightarrow> string option option \<times> actor_queue" where
  "pop_interrupt generation q =
     (case items q of
        Compact c # ws \<Rightarrow>
          if compact_generation c = generation then (Some (compact_instructions c), q\<lparr>items := ws\<rparr>)
          else (None, q)
      | _ \<Rightarrow> (None, q))"

section \<open>The queue contract\<close>

locale fifo =
  fixes abs :: "'q \<Rightarrow> 'a list"
    and empty :: 'q
    and push :: "'a \<Rightarrow> 'q \<Rightarrow> 'q"
    and pop :: "'q \<Rightarrow> 'a option \<times> 'q"
  assumes abs_empty: "abs empty = []"
    and abs_push: "abs (push x q) = abs q @ [x]"
    and pop_empty: "abs q = [] \<Longrightarrow> fst (pop q) = None"
    and pop_front: "abs q = x # xs \<Longrightarrow> fst (pop q) = Some x \<and> abs (snd (pop q)) = xs"
begin

fun pop_all :: "nat \<Rightarrow> 'q \<Rightarrow> 'a list" where
  "pop_all 0 q = []"
| "pop_all (Suc n) q = (case pop q of (None, _) \<Rightarrow> [] | (Some x, q') \<Rightarrow> x # pop_all n q')"

lemma abs_pushes: "abs (fold push xs q) = abs q @ xs"
  by (induction xs arbitrary: q) (auto simp: abs_push)

lemma pop_all_abs: "n \<ge> length (abs q) \<Longrightarrow> pop_all n q = abs q"
proof (induction n arbitrary: q)
  case (Suc n)
  show ?case
  proof (cases "abs q")
    case Nil
    with pop_empty [of q] show ?thesis by (auto split: prod.splits option.splits)
  next
    case (Cons x xs)
    with pop_front [OF Cons] Suc show ?thesis by (auto split: prod.splits)
  qed
qed simp

text \<open>Work leaves in the order it was pushed.\<close>

lemma pushed_order: "pop_all (length xs) (fold push xs empty) = xs"
  using pop_all_abs [of "fold push xs empty" "length xs"] by (simp add: abs_pushes abs_empty)

end

interpretation aq: fifo items new_queue q_push q_pop
  by unfold_locales (auto simp: new_queue_def q_push_def q_pop_def notify_def)

section \<open>Reference definitions\<close>

lemma split_keep_partition:
  "split_keep keep dr kept ws = (dr @ filter (\<lambda>w. \<not> keep w) ws, kept @ filter keep ws)"
  by (induction ws arbitrary: dr kept) auto

lemma drain_except_partition:
  "drain_except keep q = (filter (\<lambda>w. \<not> keep w) (items q), q\<lparr>items := filter keep (items q)\<rparr>)"
  by (simp add: drain_except_def split_keep_partition)

lemma matching_indices_snoc:
  "matching_indices P n (xs @ [x]) = matching_indices P n xs @ (if P x then [n + length xs] else [])"
  by (induction xs arbitrary: n) auto

lemma matching_indices_less: "i \<in> set (matching_indices P n xs) \<Longrightarrow> n \<le> i \<and> i < n + length xs"
  by (induction xs arbitrary: n) (auto split: if_splits, fastforce+)

lemma remove_each_snoc:
  "\<forall>i \<in> set is. i < length xs \<Longrightarrow> sorted_wrt (>) is \<Longrightarrow>
     remove_each is (xs @ ys) removed = (let (k, r) = remove_each is xs removed in (k @ ys, r))"
proof (induction "is" xs removed rule: remove_each.induct)
  case (2 i "is" xs removed)
  from 2(3) have i: "i < length xs" by simp
  have len: "length (take i xs @ drop (Suc i) xs) = length xs - 1" using i by auto
  have below: "\<forall>j \<in> set is. j < length (take i xs @ drop (Suc i) xs)"
    using 2(4) i unfolding len by fastforce
  have "take i (xs @ ys) @ drop (Suc i) (xs @ ys) = (take i xs @ drop (Suc i) xs) @ ys"
    using i by simp
  moreover have "(xs @ ys) ! i = xs ! i" using i by (simp add: nth_append)
  ultimately show ?case using 2(1) [OF i below] 2(4) i by simp
qed simp

lemma matching_indices_sorted: "sorted_wrt (<) (matching_indices P n xs)"
proof (induction xs arbitrary: n)
  case (Cons x xs)
  then show ?case using matching_indices_less [of _ P "Suc n" xs] by fastforce
qed simp

lemma remove_each_matching:
  "remove_each (rev (matching_indices P 0 xs)) xs removed =
     (filter (\<lambda>x. \<not> P x) xs, removed @ rev (filter P xs))"
proof (induction xs arbitrary: removed rule: rev_induct)
  case (snoc x xs)
  have below: "\<forall>i \<in> set (rev (matching_indices P 0 xs)). i < length xs"
    using matching_indices_less [of _ P 0 xs] by fastforce
  have "sorted_wrt (>) (rev (matching_indices P 0 xs))"
    using matching_indices_sorted [of P 0 xs] by (simp add: sorted_wrt_rev)
  note split = remove_each_snoc [OF below this]
  show ?case
    by (cases "P x") (simp_all add: matching_indices_snoc split snoc.IH)
qed simp

lemma remove_correlation_partition:
  "remove_correlation c q =
     (filter (\<lambda>w. correlation_of w = Some c) (items q),
      q\<lparr>items := filter (\<lambda>w. correlation_of w \<noteq> Some c) (items q)\<rparr>)"
  by (simp add: remove_correlation_def Let_def remove_each_matching)

section \<open>Turns in the queue\<close>

definition queued_turns :: "actor_work list \<Rightarrow> turn_id list" where
  "queued_turns ws = List.map_filter (\<lambda>w. case w of TurnWork a \<Rightarrow> Some (adm_turn a) | _ \<Rightarrow> None) ws"

lemma queued_turns_simps [simp]:
  "queued_turns [] = []"
  "queued_turns (TurnWork a # ws) = adm_turn a # queued_turns ws"
  "queued_turns (HistoryEdit e # ws) = queued_turns ws"
  "queued_turns (Control c # ws) = queued_turns ws"
  "queued_turns (Compact k # ws) = queued_turns ws"
  "queued_turns (xs @ ys) = queued_turns xs @ queued_turns ys"
  by (simp_all add: queued_turns_def List.map_filter_def)

lemma queued_turns_mem: "t \<in> set (queued_turns ws) \<longleftrightarrow> (\<exists>a. TurnWork a \<in> set ws \<and> adm_turn a = t)"
proof (induction ws)
  case (Cons w ws)
  then show ?case by (cases w) auto
qed simp

lemma queued_turns_filter:
  "set (queued_turns ws) = set (queued_turns (filter P ws)) \<union> set (queued_turns (filter (\<lambda>w. \<not> P w) ws))"
  by (force simp: queued_turns_mem)

lemma remove_turn_None: "remove_turn t q = (None, q') \<Longrightarrow> t \<notin> set (queued_turns (items q)) \<and> q' = q"
proof -
  assume rm: "remove_turn t q = (None, q')"
  have "fst (extract_first (is_turn t) (items q)) = None"
  proof (cases "extract_first (is_turn t) (items q)")
    case (Pair r ws)
    show ?thesis
    proof (cases r)
      case (Some w)
      with extract_first_Some [of "is_turn t" "items q" w ws] Pair have "is_turn t w" by auto
      with rm Pair Some show ?thesis by (cases w) (auto simp: remove_turn_def)
    qed (simp add: Pair)
  qed
  then have "\<forall>w \<in> set (items q). \<not> is_turn t w" by (simp add: extract_first_None)
  then have "t \<notin> set (queued_turns (items q))" by (force simp: queued_turns_mem)
  with rm show ?thesis by (auto simp: remove_turn_def split: prod.splits option.splits actor_work.splits)
qed

lemma remove_turn_Some:
  "remove_turn t q = (Some a, q') \<Longrightarrow>
     adm_turn a = t \<and> (\<exists>us vs. items q = us @ TurnWork a # vs \<and> q' = q\<lparr>items := us @ vs\<rparr>
       \<and> t \<notin> set (queued_turns us))"
proof -
  assume "remove_turn t q = (Some a, q')"
  then obtain ws where ws: "extract_first (is_turn t) (items q) = (Some (TurnWork a), ws)" "q' = q\<lparr>items := ws\<rparr>"
    by (auto simp: remove_turn_def split: prod.splits option.splits actor_work.splits)
  from extract_first_Some [OF ws(1)] obtain us vs where
    "items q = us @ TurnWork a # vs" "ws = us @ vs" "is_turn t (TurnWork a)" "\<forall>u \<in> set us. \<not> is_turn t u"
    by blast
  with ws show ?thesis by (force simp: queued_turns_mem)
qed

lemma pop_interrupt_front:
  assumes "pop_interrupt g q = (Some ins, q')"
  obtains c where "items q = Compact c # items q'" "compact_generation c = g" "compact_instructions c = ins"
  using assms by (auto simp: pop_interrupt_def split: list.splits actor_work.splits if_splits)

lemma pop_interrupt_keeps_turns: "queued_turns (items (snd (pop_interrupt g q))) = queued_turns (items q)"
  by (auto simp: pop_interrupt_def split: list.split actor_work.split)

section \<open>Properties\<close>

text \<open>Removing a correlation, which collects indices and removes them one by one from the back,
  equals partitioning the queue: exactly the work of that correlation is returned, the rest is kept, and
  both keep their order.\<close>

theorem remove_correlation_is_partition:
  "remove_correlation c q = (filter (\<lambda>w. correlation_of w = Some c) (items q), q\<lparr>items := filter (\<lambda>w. correlation_of w \<noteq> Some c) (items q)\<rparr>)"
  by (rule remove_correlation_partition)

text \<open>A running turn takes only a compaction that is at the very front of the queue and was admitted
  under its own policy generation; every other work stays queued in order.\<close>

theorem interrupt_takes_front_compaction:
  assumes "pop_interrupt g q = (Some ins, q')"
  shows "\<exists>c. items q = Compact c # items q' \<and> compact_generation c = g \<and> compact_instructions c = ins"
  using assms by (rule pop_interrupt_front) blast

definition demo_compact :: compact_work where
  "demo_compact = \<lparr>compact_operation = 3, compact_run = 4, compact_instructions = None, compact_generation = 2, compact_policy = None,
     compact_identity = \<lparr>work_agent = AgentId 2, work_kind = CompactKind 3, presentation_id = 3\<rparr>\<rparr>"

theorem interrupt_takes_front_compaction_witness:
  "\<exists>c. items (q_push (Compact demo_compact) new_queue) = Compact c # [] \<and> compact_generation c = 2 \<and> compact_instructions c = None"
proof -
  let ?q = "q_push (Compact demo_compact) new_queue"
  have "pop_interrupt 2 ?q = (Some None, ?q\<lparr>items := []\<rparr>)"
    by (simp add: pop_interrupt_def q_push_def notify_def new_queue_def demo_compact_def)
  from interrupt_takes_front_compaction [OF this] show ?thesis by simp
qed

end
