(* ===== verification/Actor_State.thy ===== *)
theory Actor_State
  imports Actor_Queue
begin

text \<open>
  The state of one agent actor (\<open>ActorInner\<close> and \<open>ActorState\<close> of
  \<open>maki-agent/src/actor/mod.rs\<close>, with the data of \<open>prepared.rs\<close>, \<open>idle.rs\<close> and
  \<open>delivery.rs\<close>) and the small operations on it that every scheduler operation is built from.

  Every definition on \<open>actor\<close> is a body that runs under the actor's state lock. Objects the
  source shares through \<open>Arc\<close> are kept in stores of the actor: ticket cells by turn, run tokens
  and publications by address, failures of prepared operations by operation id. Tasks the source
  spawns are recorded in \<open>tasks\<close>; their completions are operations of their own. \<open>events\<close> is what
  an observer subscribed since the spawn has received, \<open>sink\<close> the terminal events sent to
  presentation channels and \<open>outbox\<close> the child results handed to the parent. The runner's two
  wake-up sources are state: the queue's notification and the \<open>WakeFlag\<close> (\<open>woken\<close>). Wake-ups of
  other waiters are not: a waiter re-reads what it waits for.
\<close>

section \<open>Operations waiting for the scheduler\<close>

record prepared_turn =
  pt_input :: agent_input
  pt_sender :: "event_sender option"
  pt_correlation :: string

text \<open>A configuration change is represented by what \<open>ConfigChange::apply\<close> does with it.\<close>

type_synonym config_change = "effective_config \<Rightarrow> actor_error + effective_config"

record prepared_operation =
  prep_id :: u64
  prep_turn :: "prepared_turn option"
  turn_displayed :: bool
  change :: "config_change option option"
  ready :: "(config_arc \<times> admission_snapshot option) option"
  prep_publication :: "pub_ref option"
  prep_identity :: work_identity

type_synonym policy_constraint = "effective_config \<Rightarrow> string option"

record turn_operation =
  top_id :: u64
  top_input :: agent_input
  top_sender :: "event_sender option"
  top_correlation :: string
  top_ticket :: turn_ticket
  top_constraint :: "policy_constraint option"
  top_identity :: work_identity

datatype actor_operation =
  OpPrepared prepared_operation
| OpControl u64 control_work
| OpTurn turn_operation
| OpCompact (opc_id: u64) (opc_run: u64) (opc_instructions: "string option") (opc_presentation: u64)

fun op_id :: "actor_operation \<Rightarrow> u64" where
  "op_id (OpPrepared p) = prep_id p"
| "op_id (OpControl i _) = i"
| "op_id (OpTurn t) = top_id t"
| "op_id (OpCompact i _ _ _) = i"

fun op_projection :: "actor_operation \<Rightarrow> queue_projection option" where
  "op_projection (OpPrepared p) = map_option (\<lambda>t. ProjTurn (pt_correlation t)) (prep_turn p)"
| "op_projection (OpControl _ c) = Some (ProjControl (control_name c))"
| "op_projection (OpTurn t) = Some (ProjTurn (top_correlation t))"
| "op_projection (OpCompact _ _ ins _) = Some (ProjCompact ins)"

fun op_is_turn :: "turn_id \<Rightarrow> actor_operation \<Rightarrow> bool" where
  "op_is_turn t (OpTurn op) \<longleftrightarrow> ticket_turn (top_ticket op) = t"
| "op_is_turn t _ \<longleftrightarrow> False"

fun is_config_barrier :: "actor_operation \<Rightarrow> bool" where
  "is_config_barrier (OpPrepared p) \<longleftrightarrow> prep_turn p = None"
| "is_config_barrier _ \<longleftrightarrow> False"

definition op_turns :: "actor_operation list \<Rightarrow> turn_id list" where
  "op_turns ops = List.map_filter (\<lambda>op. case op of OpTurn t \<Rightarrow> Some (ticket_turn (top_ticket t)) | _ \<Rightarrow> None) ops"

section \<open>Child results\<close>

record child_delivery =
  delivery_label :: "string option"
  delivery_result :: turn_result

definition delivery_turn :: "child_delivery \<Rightarrow> turn_id" where
  "delivery_turn d = out_turn (res_outcome (delivery_result d))"

datatype delivery_rejection = ParentUnavailable | ParentClosed | Overflow

datatype delivery_status =
  Accepted
| Rejected delivery_rejection
| Discarded cancel_reason
| Executed turn_id

record pending_delivery =
  pd_delivery :: child_delivery
  pd_message :: provider_message
  pd_bytes :: nat
  cancellation_retried :: bool
  arrived_during_run :: bool

section \<open>The actor\<close>

record processing_work =
  proc_turn :: "turn_id option"
  proc_correlations :: "string list"
  proc_reason :: "cancel_reason option"

text \<open>The cancellation wiring of the running work: the address of the token its triggers fire, and
  the correlation a targeted cancel matches.\<close>

record active_cancel =
  active_token :: nat
  active_correlation :: "string option"

record idle_reservation =
  idle_owner :: nat
  permission :: "turn_id option"
  committing :: bool
  idle_edit :: "history_edit option"

record prepared_publication =
  pp_id :: u64
  pp_correlation :: "string option"
  pp_publication :: pub_ref

datatype compaction_status = CompactionCompleted | CompactionFailed | CompactionCancelled

datatype actor_event =
  EvStart agent_id turn_id turn_provenance "(u64 \<times> config_arc) option"
| EvEnd turn_result
| EvSubmissionConsumed pending_submission
| EvDelivery child_delivery delivery_status
| EvDeliveryContinuationFailed turn_id "cancel_reason option"
| EvIdle agent_id "work_identity option"
| EvConfig u64 config_arc
| EvCompactionEnd compaction_status
| EvClose agent_id actor_lifecycle

datatype actor_task =
  ConstraintTask u64 "config_arc option" policy_constraint
| PreparationTask u64 "config_arc option" agent_input
| PreparedTask u64 config_arc "agent_input option"

record actor_state =
  instructions :: "(turn_id, instruction_inbox) hmap"
  deliveries :: "(turn_id, pending_delivery) hmap"
  delivery_order :: "turn_id list"
  delivery_seen :: "turn_id list"
  delivery_runs :: "(turn_id, turn_id list) hmap"
  delivery_suspended :: bool
  parent_delivery_policy :: "bool option"
  lifecycle :: actor_lifecycle
  close_pending :: bool
  pending_publications :: nat
  idle_pending :: bool
  runner_busy :: bool
  status :: actor_status
  active :: "active_cancel option"
  processing :: "processing_work option"
  idle :: "idle_reservation option"
  cancelled_correlations :: "(string, cancel_reason) hmap"
  cancellation_generation :: u64
  policy_generation :: u64
  policy :: "config_arc option"
  latest :: "turn_outcome option"
  latest_history_turn :: "(turn_id \<times> u64 \<times> nat) option"
  retained_order :: "turn_id list"
  presentation :: u64
  usage :: token_usage
  operations :: "actor_operation list"
  preparing :: "u64 option"
  prepared_publication :: "prepared_publication option"
  next_operation_id :: u64
  next_submission_id :: u64
  settled :: "work_identity option"
  observing :: bool
  events :: "actor_event list"

record actor =
  actor_agent :: agent_id
  actor_identity :: nat
  state :: actor_state
  queue :: actor_queue
  outcomes :: "(turn_id, turn_outcome) hmap"
  tickets :: "(turn_id, turn_ticket) hmap"
  retained_tickets :: "(turn_id, turn_ticket) hmap"
  latest_admitted :: "turn_id option"
  cells :: "turn_id \<Rightarrow> ticket_cell"
  history_epoch :: u64
  history_len :: nat
  coverage :: "(turn_id, (u64 \<times> nat) option) hmap"
  parent_label :: "string option option"
  actor_ceiling :: "mode_ceiling option"
  has_preparation :: bool
  run_tokens :: "nat \<Rightarrow> reasoned"
  actor_phases :: "pub_ref \<Rightarrow> phase"
  failures :: "(u64, actor_error) hmap"
  next_addr :: nat
  clock :: nat
  tasks :: "actor_task list"
  sink :: "(event_sender \<times> turn_outcome) list"
  outbox :: "child_delivery list"
  woken :: bool

text \<open>\<open>MAX_RETAINED_TURN_RESULTS\<close> bounds both the retained outcomes and the live tickets.\<close>

definition MAX_RETAINED_TURN_RESULTS :: nat where
  "MAX_RETAINED_TURN_RESULTS = 128"

definition on_state :: "(actor_state \<Rightarrow> actor_state) \<Rightarrow> actor \<Rightarrow> actor" where
  "on_state f a = a\<lparr>state := f (state a)\<rparr>"

definition on_queue :: "(actor_queue \<Rightarrow> actor_queue) \<Rightarrow> actor \<Rightarrow> actor" where
  "on_queue f a = a\<lparr>queue := f (queue a)\<rparr>"

lemmas on_defs = on_state_def on_queue_def

definition idle_state :: "config_arc option \<Rightarrow> actor_state" where
  "idle_state pol =
     \<lparr>instructions = [], deliveries = [], delivery_order = [], delivery_seen = [], delivery_runs = [],
      delivery_suspended = False, parent_delivery_policy = None, lifecycle = Open, close_pending = False,
      pending_publications = 0, idle_pending = False, runner_busy = False, status = Idle, active = None,
      processing = None, idle = None, cancelled_correlations = [], cancellation_generation = 0,
      policy_generation = 0, policy = pol, latest = None, latest_history_turn = None, retained_order = [],
      presentation = 0, usage = no_usage, operations = [], preparing = None, prepared_publication = None,
      next_operation_id = 0, next_submission_id = 0, settled = None, observing = True, events = []\<rparr>"

text \<open>\<open>spawn_inner\<close>: a managed child is created under a mode ceiling, taken from its initial
  configuration; the configuration is stored with the authority it was created with.\<close>

definition spawn_actor ::
    "agent_id \<Rightarrow> nat \<Rightarrow> bool \<Rightarrow> string option option \<Rightarrow> config_arc option \<Rightarrow> bool \<Rightarrow> nat \<Rightarrow> actor" where
  "spawn_actor agent ident is_child parent initial_config has_prep restored_len =
     (let ceiling = (if is_child then map_option (\<lambda>c. ceiling_new (config c)) initial_config else None);
          cfg = map_option (\<lambda>c. c\<lparr>config := (config c)\<lparr>mode_authority :=
                  Some (case ceiling of Some x \<Rightarrow> x | None \<Rightarrow>
                        (case mode_authority (config c) of Some x \<Rightarrow> x
                         | None \<Rightarrow> \<lparr>ceiling_write = None, ceiling_tools = None\<rparr>))\<rparr>\<rparr>) initial_config
      in \<lparr>actor_agent = agent, actor_identity = ident, state = idle_state cfg, queue = new_queue,
          outcomes = [], tickets = [], retained_tickets = [], latest_admitted = None,
          cells = (\<lambda>_. new_cell), history_epoch = 0, history_len = restored_len, coverage = [],
          parent_label = parent, actor_ceiling = ceiling, has_preparation = has_prep,
          run_tokens = (\<lambda>_. reasoned_new), actor_phases = (\<lambda>_. PENDING), failures = [],
          next_addr = 1, clock = 0, tasks = [], sink = [], outbox = [], woken = False\<rparr>)"

section \<open>Building blocks\<close>

definition emit :: "actor_event \<Rightarrow> actor \<Rightarrow> actor" where
  "emit e = on_state (\<lambda>s. if observing s then s\<lparr>events := events s @ [e]\<rparr> else s)"

definition has_pending_work :: "actor \<Rightarrow> bool" where
  "has_pending_work a \<longleftrightarrow>
     status (state a) \<noteq> Idle \<or> active (state a) \<noteq> None \<or> processing (state a) \<noteq> None
     \<or> pending_publications (state a) \<noteq> 0 \<or> operations (state a) \<noteq> [] \<or> \<not> q_is_empty (queue a)"

definition publish_idle :: "actor \<Rightarrow> actor" where
  "publish_idle a =
     (if idle_pending (state a) \<and> lifecycle (state a) = Open \<and> pending_publications (state a) = 0
         \<and> \<not> has_pending_work a \<and> tickets a = []
      then emit (EvIdle (actor_agent a) (settled (state a))) (on_state (\<lambda>s. s\<lparr>idle_pending := False\<rparr>) a)
      else a)"

definition finish_close :: "actor \<Rightarrow> actor" where
  "finish_close a =
     (if close_pending (state a) \<and> processing (state a) = None \<and> pending_publications (state a) = 0
         \<and> tickets a = []
      then on_state (\<lambda>s. s\<lparr>observing := False\<rparr>)
             (emit (EvClose (actor_agent a) (lifecycle (state a))) (on_state (\<lambda>s. s\<lparr>close_pending := False\<rparr>) a))
      else a)"

definition close_emitted :: "actor \<Rightarrow> bool" where
  "close_emitted a \<longleftrightarrow> lifecycle (state a) \<noteq> Open \<and> \<not> close_pending (state a)"

definition settle_runner :: "actor_state \<Rightarrow> actor_state" where
  "settle_runner s = s\<lparr>active := None, processing := None, status := Idle\<rparr>"

text \<open>Clearing the active slot drops its triggers, which fires them; the run is over by then.\<close>

definition drop_active :: "actor \<Rightarrow> actor" where
  "drop_active a = (case active (state a) of
     None \<Rightarrow> a
   | Some act \<Rightarrow> a\<lparr>run_tokens := (run_tokens a)(active_token act := trigger_drop (run_tokens a (active_token act)))\<rparr>)"

definition fire_active :: "active_cancel \<Rightarrow> cancel_reason \<Rightarrow> actor \<Rightarrow> actor" where
  "fire_active act reason a =
     a\<lparr>run_tokens := (run_tokens a)(active_token act := trigger_cancel (run_tokens a (active_token act)) reason)\<rparr>"

definition take_and_fire_active :: "cancel_reason \<Rightarrow> actor \<Rightarrow> actor" where
  "take_and_fire_active reason a = (case active (state a) of
     None \<Rightarrow> a
   | Some act \<Rightarrow> fire_active act reason (on_state (\<lambda>s. s\<lparr>active := None\<rparr>) a))"

definition active_matches_correlation :: "string \<Rightarrow> actor_state \<Rightarrow> bool" where
  "active_matches_correlation c s = (case active s of
     None \<Rightarrow> False
   | Some act \<Rightarrow> active_correlation act = Some c
       \<or> (case processing s of None \<Rightarrow> False | Some p \<Rightarrow> c \<in> set (proc_correlations p)))"

text \<open>A ticket is registered as soon as it was made; making it allocates an unresolved cell.\<close>

definition admit_ticket :: "turn_ticket \<Rightarrow> actor \<Rightarrow> actor" where
  "admit_ticket t a = a\<lparr>tickets := hm_insert (ticket_turn t) t (tickets a),
     latest_admitted := Some (ticket_turn t), cells := (cells a)(ticket_turn t := new_cell)\<rparr>"

definition reserve_presentation :: "u64 \<Rightarrow> actor \<Rightarrow> actor \<times> u64" where
  "reserve_presentation displayed a =
     (let p = max (presentation (state a)) displayed + 1 in (on_state (\<lambda>s. s\<lparr>presentation := p\<rparr>) a, p))"

definition adopt_presentation :: "u64 option \<Rightarrow> actor \<Rightarrow> actor \<times> u64" where
  "adopt_presentation displayed a = (case displayed of
     Some d \<Rightarrow> (on_state (\<lambda>s. s\<lparr>presentation := max (presentation s) d\<rparr>) a, d)
   | None \<Rightarrow> reserve_presentation 0 a)"

definition make_submission ::
    "turn_id \<Rightarrow> agent_input \<Rightarrow> bool \<Rightarrow> nat option \<Rightarrow> actor \<Rightarrow> actor \<times> pending_submission" where
  "make_submission t input displayed notice a =
     (let n = next_submission_id (state a) + 1
      in (on_state (\<lambda>s. s\<lparr>next_submission_id := n\<rparr>) a,
          \<lparr>sub_id = SubmissionId n, sub_turn = t, sub_text = message input, sub_images = images input,
           already_displayed = displayed, sub_notice = notice\<rparr>))"

definition total_outstanding :: "actor_state \<Rightarrow> nat \<times> nat" where
  "total_outstanding s = fold (\<lambda>i (n, b). (n + fst (outstanding i), b + snd (outstanding i)))
     (hm_values (instructions s)) (0, 0)"

definition check_instruction_capacity :: "actor_state \<Rightarrow> nat \<Rightarrow> bool" where
  "check_instruction_capacity s bytes \<longleftrightarrow>
     \<not> (fst (total_outstanding s) \<ge> MAX_PENDING_INSTRUCTIONS
        \<or> snd (total_outstanding s) + bytes > MAX_PENDING_INSTRUCTION_BYTES)"

text \<open>\<open>drain_work_except\<close>: configuration barriers and what \<open>keep\<close> selects stay, in order.\<close>

definition drain_work_except :: "(actor_operation \<Rightarrow> bool) \<Rightarrow> actor_state \<Rightarrow> actor_operation list \<times> actor_state" where
  "drain_work_except keep s =
     (let (work, configs) = split_keep (\<lambda>op. is_config_barrier op \<or> keep op) [] [] (operations s)
      in (work, s\<lparr>operations := configs\<rparr>))"

definition drain_work :: "actor_state \<Rightarrow> actor_operation list \<times> actor_state" where
  "drain_work = drain_work_except (\<lambda>_. False)"

definition cancel_publication :: "pub_ref \<Rightarrow> actor \<Rightarrow> actor" where
  "cancel_publication p a = a\<lparr>actor_phases := cancel_pubs [p] (actor_phases a)\<rparr>"

text \<open>\<open>cancel_prepared_where\<close>: the publication of every selected prepared operation, and the one
  being published, is cancelled.\<close>

definition selected_publications :: "(string option \<Rightarrow> bool) \<Rightarrow> actor_operation list \<Rightarrow> pub_ref list" where
  "selected_publications sel ops = List.map_filter (\<lambda>op. case op of
     OpPrepared p \<Rightarrow> if sel (map_option pt_correlation (prep_turn p)) then prep_publication p else None
   | _ \<Rightarrow> None) ops"

definition cancel_prepared_where :: "(string option \<Rightarrow> bool) \<Rightarrow> actor \<Rightarrow> actor" where
  "cancel_prepared_where sel a =
     a\<lparr>actor_phases := cancel_pubs
        (selected_publications sel (operations (state a)) @
         (case prepared_publication (state a) of
            None \<Rightarrow> [] | Some pp \<Rightarrow> if sel (pp_correlation pp) then [pp_publication pp] else []))
        (actor_phases a)\<rparr>"

definition end_prepared_publication :: "u64 \<Rightarrow> actor_state \<Rightarrow> actor_state" where
  "end_prepared_publication i s = (case prepared_publication s of
     None \<Rightarrow> s
   | Some pp \<Rightarrow> if pp_id pp = i
       then s\<lparr>prepared_publication := None, pending_publications := pending_publications s - 1\<rparr> else s)"

text \<open>\<open>PreparedOperation::fail\<close> records the first error for the ticket holder; dropping the
  operation fires its token, which cancels the publication it registered.\<close>

definition prepared_fail :: "prepared_operation \<Rightarrow> actor_error \<Rightarrow> actor \<Rightarrow> actor" where
  "prepared_fail p e a =
     (let a1 = (case hm_get (failures a) (prep_id p) of
                  None \<Rightarrow> a\<lparr>failures := hm_insert (prep_id p) e (failures a)\<rparr> | Some _ \<Rightarrow> a)
      in case prep_publication p of None \<Rightarrow> a1 | Some pub \<Rightarrow> cancel_publication pub a1)"

definition retire_superseded_precancels :: "actor_work \<Rightarrow> actor_state \<Rightarrow> actor_state" where
  "retire_superseded_precancels w s =
     (case (case w of TurnWork t \<Rightarrow> Some (adm_correlation t) | Control c \<Rightarrow> Some (control_correlation c)
            | _ \<Rightarrow> None) of
        None \<Rightarrow> s
      | Some c \<Rightarrow> if correlation_run_id c = None then s
          else s\<lparr>cancelled_correlations :=
                 hm_retain (\<lambda>m. correlation_run_id m = None) (cancelled_correlations s)\<rparr>)"

definition owned_idle :: "nat \<Rightarrow> actor_state \<Rightarrow> idle_reservation option" where
  "owned_idle owner s = (case idle s of
     None \<Rightarrow> None | Some r \<Rightarrow> if idle_owner r = owner then Some r else None)"

definition release_idle_permission :: "turn_id \<Rightarrow> actor_state \<Rightarrow> actor_state" where
  "release_idle_permission t s = (case idle s of
     None \<Rightarrow> s | Some r \<Rightarrow> if permission r = Some t then s\<lparr>idle := None\<rparr> else s)"

definition modify_inbox :: "turn_id \<Rightarrow> (instruction_inbox \<Rightarrow> instruction_inbox) \<Rightarrow> actor_state \<Rightarrow> actor_state" where
  "modify_inbox t f s = s\<lparr>instructions := hm_modify t f (instructions s)\<rparr>"

section \<open>Frames\<close>

lemma emit_frame [frame_simps, simp]:
  "queue (emit e a) = queue a" "outcomes (emit e a) = outcomes a" "tickets (emit e a) = tickets a"
  "retained_tickets (emit e a) = retained_tickets a" "cells (emit e a) = cells a"
  "sink (emit e a) = sink a" "run_tokens (emit e a) = run_tokens a" "coverage (emit e a) = coverage a"
  "operations (state (emit e a)) = operations (state a)" "processing (state (emit e a)) = processing (state a)"
  "status (state (emit e a)) = status (state a)" "active (state (emit e a)) = active (state a)"
  "lifecycle (state (emit e a)) = lifecycle (state a)" "instructions (state (emit e a)) = instructions (state a)"
  "usage (state (emit e a)) = usage (state a)" "latest (state (emit e a)) = latest (state a)"
  "retained_order (state (emit e a)) = retained_order (state a)"
  "pending_publications (state (emit e a)) = pending_publications (state a)"
  "close_pending (state (emit e a)) = close_pending (state a)" "actor_agent (emit e a) = actor_agent a"
  "actor_identity (emit e a) = actor_identity a" "idle (state (emit e a)) = idle (state a)"
  "cancellation_generation (state (emit e a)) = cancellation_generation (state a)"
  "idle_pending (state (emit e a)) = idle_pending (state a)" "settled (state (emit e a)) = settled (state a)"
  by (simp_all add: emit_def on_state_def)

lemma publish_idle_frame [frame_simps, simp]:
  "queue (publish_idle a) = queue a" "outcomes (publish_idle a) = outcomes a"
  "tickets (publish_idle a) = tickets a" "retained_tickets (publish_idle a) = retained_tickets a"
  "cells (publish_idle a) = cells a" "sink (publish_idle a) = sink a"
  "run_tokens (publish_idle a) = run_tokens a" "coverage (publish_idle a) = coverage a"
  "operations (state (publish_idle a)) = operations (state a)"
  "processing (state (publish_idle a)) = processing (state a)"
  "status (state (publish_idle a)) = status (state a)" "active (state (publish_idle a)) = active (state a)"
  "lifecycle (state (publish_idle a)) = lifecycle (state a)"
  "instructions (state (publish_idle a)) = instructions (state a)"
  "usage (state (publish_idle a)) = usage (state a)" "latest (state (publish_idle a)) = latest (state a)"
  "retained_order (state (publish_idle a)) = retained_order (state a)"
  "pending_publications (state (publish_idle a)) = pending_publications (state a)"
  "close_pending (state (publish_idle a)) = close_pending (state a)"
  "actor_agent (publish_idle a) = actor_agent a" "actor_identity (publish_idle a) = actor_identity a"
  "idle (state (publish_idle a)) = idle (state a)"
  "cancellation_generation (state (publish_idle a)) = cancellation_generation (state a)"
  by (simp_all add: publish_idle_def on_state_def)

lemma finish_close_frame [frame_simps, simp]:
  "queue (finish_close a) = queue a" "outcomes (finish_close a) = outcomes a"
  "tickets (finish_close a) = tickets a" "retained_tickets (finish_close a) = retained_tickets a"
  "cells (finish_close a) = cells a" "sink (finish_close a) = sink a"
  "run_tokens (finish_close a) = run_tokens a" "coverage (finish_close a) = coverage a"
  "operations (state (finish_close a)) = operations (state a)"
  "processing (state (finish_close a)) = processing (state a)"
  "status (state (finish_close a)) = status (state a)" "active (state (finish_close a)) = active (state a)"
  "lifecycle (state (finish_close a)) = lifecycle (state a)"
  "instructions (state (finish_close a)) = instructions (state a)"
  "usage (state (finish_close a)) = usage (state a)" "latest (state (finish_close a)) = latest (state a)"
  "retained_order (state (finish_close a)) = retained_order (state a)"
  "pending_publications (state (finish_close a)) = pending_publications (state a)"
  "actor_agent (finish_close a) = actor_agent a" "actor_identity (finish_close a) = actor_identity a"
  "idle (state (finish_close a)) = idle (state a)"
  "cancellation_generation (state (finish_close a)) = cancellation_generation (state a)"
  by (simp_all add: finish_close_def on_state_def)

lemma op_turns_simps [simp]:
  "op_turns [] = []"
  "op_turns (OpTurn t # ops) = ticket_turn (top_ticket t) # op_turns ops"
  "op_turns (OpPrepared p # ops) = op_turns ops"
  "op_turns (OpControl i c # ops) = op_turns ops"
  "op_turns (OpCompact i r ins pr # ops) = op_turns ops"
  "op_turns (xs @ ys) = op_turns xs @ op_turns ys"
  by (simp_all add: op_turns_def List.map_filter_def)

lemma op_turns_mem: "t \<in> set (op_turns ops) \<longleftrightarrow> (\<exists>op. OpTurn op \<in> set ops \<and> ticket_turn (top_ticket op) = t)"
proof (induction ops)
  case (Cons op ops)
  then show ?case by (cases op) auto
qed simp

lemma drain_work_except_partition:
  "drain_work_except keep s =
     (filter (\<lambda>op. \<not> (is_config_barrier op \<or> keep op)) (operations s),
      s\<lparr>operations := filter (\<lambda>op. is_config_barrier op \<or> keep op) (operations s)\<rparr>)"
  by (simp add: drain_work_except_def split_keep_partition)

end
