(* ===== verification/Actor_Ops.thy ===== *)
theory Actor_Ops
  imports Actor_State
begin

text \<open>
  The scheduler operations of one actor (\<open>maki-agent/src/actor/mod.rs\<close>, with \<open>idle.rs\<close>, the
  settlement part of \<open>delivery.rs\<close> and the driver of \<open>prepared.rs\<close>): how waiting operations
  become queued work, how a turn is retired and its outcome published, admission, and the
  cancellation and closure cuts.
\<close>

section \<open>Driving the operation FIFO\<close>

text \<open>\<open>materialize\<close>: an operation at the head of the FIFO becomes queued work under the policy
  committed by its predecessors. The source never calls it on a prepared operation.\<close>

definition materialize_turn :: "turn_operation \<Rightarrow> admission_snapshot option \<Rightarrow> actor \<Rightarrow> actor" where
  "materialize_turn op snap a =
     (let t = ticket_turn (top_ticket op);
          a1 = (if hm_contains (delivery_runs (state a)) t \<or> hm_contains (instructions (state a)) t then a
                else on_state (\<lambda>s. s\<lparr>instructions := hm_insert t
                        (new_inbox (top_ticket op) (presentation_id (top_identity op))) (instructions s)\<rparr>) a);
          a2 = (case hm_get (instructions (state a1)) t of
                  Some i \<Rightarrow>
                    if initial i = None
                    then (let (a', sub) = make_submission t (top_input op) False None a1
                          in on_state (modify_inbox t (\<lambda>i. i\<lparr>initial := Some sub\<rparr>)) a')
                    else a1
                | None \<Rightarrow> a1);
          a3 = on_state (modify_inbox t (\<lambda>i. i\<lparr>inbox_policy := policy (state a2),
                 initial := map_option (\<lambda>s. s\<lparr>sub_notice :=
                   option_or (sub_notice s) (Option.bind snap snap_notice)\<rparr>) (initial i)\<rparr>)) a2
      in on_queue (q_push (TurnWork
           \<lparr>adm_turn = t, adm_input = Some (top_input op), adm_sender = top_sender op,
            adm_correlation = top_correlation op, adm_work = top_identity op,
            adm_generation = policy_generation (state a3), adm_policy = policy (state a3),
            adm_ticket = top_ticket op, adm_snapshot = snap\<rparr>)) a3)"

fun materialize :: "actor_operation \<Rightarrow> admission_snapshot option \<Rightarrow> actor \<Rightarrow> actor" where
  "materialize (OpTurn op) snap a = materialize_turn op snap a"
| "materialize (OpCompact i run ins pres) snap a =
     on_queue (q_push (Compact
       \<lparr>compact_operation = i, compact_run = run, compact_instructions = ins,
        compact_generation = policy_generation (state a), compact_policy = policy (state a),
        compact_identity = \<lparr>work_agent = actor_agent a, work_kind = CompactKind i, presentation_id = pres\<rparr>\<rparr>)) a"
| "materialize (OpControl i c) snap a = on_queue (q_push (Control c)) a"
| "materialize (OpPrepared p) snap a = a"

lemma materialize_frame [simp]:
  "operations (state (materialize op snap a)) = operations (state a)"
  "lifecycle (state (materialize op snap a)) = lifecycle (state a)"
  "tickets (materialize op snap a) = tickets a" "outcomes (materialize op snap a) = outcomes a"
  "processing (state (materialize op snap a)) = processing (state a)"
  "status (state (materialize op snap a)) = status (state a)"
  "active (state (materialize op snap a)) = active (state a)"
  "pending_publications (state (materialize op snap a)) = pending_publications (state a)"
  "retained_order (state (materialize op snap a)) = retained_order (state a)"
  "usage (state (materialize op snap a)) = usage (state a)"
  "latest (state (materialize op snap a)) = latest (state a)"
  "retained_tickets (materialize op snap a) = retained_tickets a" "cells (materialize op snap a) = cells a"
  "sink (materialize op snap a) = sink a" "idle (state (materialize op snap a)) = idle (state a)"
  "prepared_publication (state (materialize op snap a)) = prepared_publication (state a)"
  "policy (state (materialize op snap a)) = policy (state a)"
  "close_pending (state (materialize op snap a)) = close_pending (state a)"
  "run_tokens (materialize op snap a) = run_tokens a" "coverage (materialize op snap a) = coverage a"
  "actor_agent (materialize op snap a) = actor_agent a"
  "actor_identity (materialize op snap a) = actor_identity a"
  "cancellation_generation (state (materialize op snap a)) = cancellation_generation (state a)"
  by (cases op; simp add: on_defs materialize_turn_def Let_def make_submission_def modify_inbox_def
      split: option.splits prod.splits)+

declare materialize.simps [simp del]

text \<open>What a prepared operation at the head resolves to: the current configuration, or the change
  applied to it, checked against the actor's mode ceiling. A new configuration gets a fresh address.\<close>

definition resolve_change :: "config_change option \<Rightarrow> actor \<Rightarrow> actor_error + config_arc" where
  "resolve_change ch a =
     (case policy (state a) of
        None \<Rightarrow> Inl (InvalidConfig ''actor configuration is not initialized'')
      | Some current \<Rightarrow>
          (case (case ch of
                   None \<Rightarrow> Inr current
                 | Some f \<Rightarrow> (case f (config current) of
                     Inl e \<Rightarrow> Inl e
                   | Inr c \<Rightarrow> Inr \<lparr>config_addr = next_addr a, config = c\<rparr>)) of
             Inl e \<Rightarrow> Inl e
           | Inr c \<Rightarrow>
               (case actor_ceiling a of
                  None \<Rightarrow> Inr c
                | Some ceil \<Rightarrow>
                    (case ceiling_validate ceil (mode (config c)) (cfg_mode_def (config c)) of
                       None \<Rightarrow> Inr c
                     | Some msg \<Rightarrow> Inl (InvalidConfig msg)))))"

definition pop_operation :: "actor \<Rightarrow> actor" where
  "pop_operation = on_state (\<lambda>s. s\<lparr>operations := tl (operations s)\<rparr>)"

definition set_preparing :: "u64 option \<Rightarrow> actor \<Rightarrow> actor" where
  "set_preparing p = on_state (\<lambda>s. s\<lparr>preparing := p\<rparr>)"

definition spawn_task :: "actor_task \<Rightarrow> actor \<Rightarrow> actor" where
  "spawn_task t a = a\<lparr>tasks := tasks a @ [t]\<rparr>"

lemmas drive_defs = pop_operation_def set_preparing_def spawn_task_def on_state_def

text \<open>\<open>drive_operations\<close> with its loop, and \<open>prepared::drive\<close> for a prepared head. The work that
  the source spawns (a policy constraint, the admission preparation, the preparation of a
  configuration change) leaves the operation at the head with \<open>preparing\<close> naming it.\<close>

function (sequential) drive_operations :: "actor \<Rightarrow> actor" and drive_loop :: "actor \<Rightarrow> actor" where
  "drive_operations a =
     (if prepared_publication (state a) \<noteq> None
         \<or> (case idle (state a) of None \<Rightarrow> False | Some r \<Rightarrow> committing r) then a
      else drive_loop (on_state (\<lambda>s. s\<lparr>idle_pending := idle_pending s \<or> has_pending_work a\<rparr>) a))"
| "drive_loop a =
     (if lifecycle (state a) \<noteq> Open then a
      else case operations (state a) of
        [] \<Rightarrow> set_preparing None a
      | OpPrepared p # rest \<Rightarrow>
          if preparing (state a) = Some (prep_id p) then a
          else (let a1 = set_preparing None a in
            if ready p \<noteq> None then a1
            else case change p of
              None \<Rightarrow> a1
            | Some ch \<Rightarrow>
                (let a2 = on_state (\<lambda>s. s\<lparr>operations := OpPrepared (p\<lparr>change := None\<rparr>) # rest\<rparr>) a1 in
                 case resolve_change ch a2 of
                   Inl e \<Rightarrow> publish_idle (drive_operations (prepared_fail p e (on_state (\<lambda>s. s\<lparr>operations := rest\<rparr>) a2)))
                 | Inr c \<Rightarrow>
                     spawn_task (PreparedTask (prep_id p) c (map_option pt_input (prep_turn p)))
                       (set_preparing (Some (prep_id p)) (a2\<lparr>next_addr := next_addr a2 + 1\<rparr>))))
      | OpTurn op # rest \<Rightarrow>
          if preparing (state a) = Some (top_id op) then a
          else (let a1 = on_state (modify_inbox (ticket_turn (top_ticket op))
                           (\<lambda>i. i\<lparr>inbox_policy := policy (state a)\<rparr>)) (set_preparing None a) in
            case top_constraint op of
              Some k \<Rightarrow> spawn_task (ConstraintTask (top_id op) (policy (state a1)) k) (set_preparing (Some (top_id op)) a1)
            | None \<Rightarrow>
                if has_preparation a1
                then spawn_task (PreparationTask (top_id op) (policy (state a1)) (top_input op))
                       (set_preparing (Some (top_id op)) a1)
                else drive_loop (materialize (OpTurn op) None (on_state (\<lambda>s. s\<lparr>operations := rest\<rparr>) a1)))
      | op # rest \<Rightarrow>
          if idle (state a) \<noteq> None then a
          else if preparing (state a) = Some (op_id op) then a
          else drive_loop (materialize op None (on_state (\<lambda>s. s\<lparr>operations := rest\<rparr>) (set_preparing None a))))"
  by pat_completeness auto
termination
  by (relation "measures [\<lambda>x. case x of Inl a \<Rightarrow> length (operations (state a)) | Inr a \<Rightarrow> length (operations (state a)),
        \<lambda>x. case x of Inl _ \<Rightarrow> 1 | Inr _ \<Rightarrow> 0]")
    (auto simp: drive_defs prepared_fail_def cancel_publication_def Let_def split: option.splits)

declare drive_operations.simps [simp del] drive_loop.simps [simp del]

section \<open>Retiring a turn\<close>

text \<open>The outcome \<open>retire_turn\<close> retains: a cancellation recorded for the running turn overrides
  any other outcome its backend returned.\<close>

definition recorded_outcome :: "actor \<Rightarrow> turn_id \<Rightarrow> turn_outcome \<Rightarrow> turn_outcome" where
  "recorded_outcome a t out = (case processing (state a) of
     None \<Rightarrow> out
   | Some p \<Rightarrow> if proc_turn p = Some t
       then (case proc_reason p of
               None \<Rightarrow> out | Some r \<Rightarrow> if is_Cancelled out then out else as_cancelled t r out)
       else out)"

definition evict_retained :: "actor \<Rightarrow> actor" where
  "evict_retained a =
     (case retained_order (state a) of
        [] \<Rightarrow> a
      | e # rest \<Rightarrow>
          if length (retained_order (state a)) > MAX_RETAINED_TURN_RESULTS
          then (on_state (\<lambda>s. s\<lparr>retained_order := rest\<rparr>) a)
                 \<lparr>outcomes := hm_remove e (outcomes a), retained_tickets := hm_remove e (retained_tickets a),
                  coverage := hm_remove e (coverage a)\<rparr>
          else a)"

definition clear_runner :: "bool \<Rightarrow> actor \<Rightarrow> actor" where
  "clear_runner settle a = (if settle then on_state settle_runner (drop_active a) else a)"

definition release_permission :: "turn_id \<Rightarrow> actor \<Rightarrow> actor" where
  "release_permission t a =
     (let s' = release_idle_permission t (state a)
      in if idle s' \<noteq> idle (state a) then on_queue notify (a\<lparr>state := s'\<rparr>) else a)"

definition retire_turn ::
    "turn_id \<Rightarrow> turn_outcome \<Rightarrow> work_identity \<Rightarrow> bool \<Rightarrow> bool \<Rightarrow> actor
       \<Rightarrow> actor \<times> turn_outcome \<times> turn_ticket option option" where
  "retire_turn t out work settle history_ready a =
     (let out' = recorded_outcome a t out;
          a1 = clear_runner settle (on_state (\<lambda>s. s\<lparr>instructions := hm_remove t (instructions s)\<rparr>) a)
      in if hm_contains (outcomes a1) t then (a1, out', None)
         else
           let a2 = release_permission t (a1\<lparr>outcomes := hm_insert t out' (outcomes a1)\<rparr>);
               boundary = (history_epoch a2, history_len a2);
               a3 = a2\<lparr>coverage := hm_insert t (if history_ready then Some boundary else None) (coverage a2)\<rparr>;
               a4 = on_state (\<lambda>s. s\<lparr>latest := Some out', settled := Some work,
                       latest_history_turn := (if history_ready then Some (t, boundary) else latest_history_turn s),
                       retained_order := retained_order s @ [t]\<rparr>) a3;
               a5 = evict_retained a4;
               a6 = on_state (\<lambda>s. s\<lparr>usage := add_usage (usage s) (out_usage out'),
                       pending_publications := pending_publications s + 1\<rparr>) a5;
               ticket = hm_get (tickets a6) t;
               a7 = a6\<lparr>tickets := hm_remove t (tickets a6),
                       retained_tickets := (case ticket of None \<Rightarrow> retained_tickets a6
                         | Some tk \<Rightarrow> hm_insert t tk (retained_tickets a6))\<rparr>
           in (a7, out', Some ticket))"

section \<open>Publishing an outcome\<close>

definition on_cell :: "turn_id \<Rightarrow> (ticket_cell \<Rightarrow> ticket_cell) \<Rightarrow> actor \<Rightarrow> actor" where
  "on_cell t f a = a\<lparr>cells := (cells a)(t := f (cells a t))\<rparr>"

text \<open>\<open>delivery::publish\<close>: a settled turn of a child that reports goes to the parent, unless the
  child was closed or shut down. The size-dependent preview of the payload is not modelled.\<close>

definition delivery_publish :: "turn_ticket \<Rightarrow> actor \<Rightarrow> actor" where
  "delivery_publish tk a =
     (case (parent_label a, peek_result (cells a (ticket_turn tk))) of
        (Some label, Some res) \<Rightarrow>
          if is_Cancelled (res_outcome res) \<and> out_reason (res_outcome res) \<in> {Closed_reason, Shutdown_reason} then a
          else if parent_delivery_policy (state a) \<noteq> Some True then a
          else a\<lparr>outbox := outbox a @ [\<lparr>delivery_label = label, delivery_result = res\<rparr>]\<rparr>
      | _ \<Rightarrow> a)"

text \<open>\<open>delivery::settle\<close>: a continuation turn that ended with part of its batch still pending
  suspends deliveries, unless a new result arrived or a first cancellation allows one retry.\<close>

definition delivery_settle :: "turn_id \<Rightarrow> cancel_reason option \<Rightarrow> actor \<Rightarrow> actor" where
  "delivery_settle t reason a =
     (case hm_get (delivery_runs (state a)) t of
        None \<Rightarrow> a
      | Some batch \<Rightarrow>
          let a1 = on_state (\<lambda>s. s\<lparr>delivery_runs := hm_remove t (delivery_runs s)\<rparr>) a
          in if \<not> list_ex (\<lambda>i. hm_contains (deliveries (state a)) i) batch then a1
             else
               let new_completion = list_ex arrived_during_run (hm_values (deliveries (state a)));
                   retry = (case reason of None \<Rightarrow> False | Some r \<Rightarrow> r \<noteq> Closed_reason \<and> r \<noteq> Shutdown_reason)
                     \<and> list_ex (\<lambda>i. case hm_get (deliveries (state a)) i of
                          None \<Rightarrow> False | Some p \<Rightarrow> \<not> cancellation_retried p) batch;
                   a2 = (if retry
                         then on_state (\<lambda>s. s\<lparr>deliveries := fold (\<lambda>i d. hm_modify i
                                (\<lambda>p. p\<lparr>cancellation_retried := True\<rparr>) d) batch (deliveries s)\<rparr>) a1
                         else a1)
               in emit (EvDeliveryContinuationFailed t reason)
                    (on_state (\<lambda>s. s\<lparr>delivery_suspended := (\<not> new_completion \<and> \<not> retry)\<rparr>) a2))"

definition outcome_cancel_reason :: "turn_outcome \<Rightarrow> cancel_reason option" where
  "outcome_cancel_reason out = (if is_Cancelled out then Some (out_reason out) else None)"

definition send_terminal :: "event_sender option \<Rightarrow> turn_outcome \<Rightarrow> actor \<Rightarrow> actor" where
  "send_terminal s out a = (case s of None \<Rightarrow> a | Some sdr \<Rightarrow> a\<lparr>sink := sink a @ [(sdr, out)]\<rparr>)"

definition presentation_sender :: "bool \<Rightarrow> turn_admission \<Rightarrow> event_sender option" where
  "presentation_sender deliver adm =
     (if deliver then map_option (\<lambda>s. with_identity_of s
         (option_or (sender_identity s) (Some (adm_work adm)))) (adm_sender adm) else None)"

text \<open>The publication that follows a successful retirement: the result is sealed, the single
  terminal event goes to the sink the run registered or to the admission's, the parent is told,
  and the ticket resolves last.\<close>

definition publish_retired ::
    "turn_id \<Rightarrow> turn_outcome \<Rightarrow> turn_admission \<Rightarrow> bool \<Rightarrow> turn_ticket option \<Rightarrow> actor \<Rightarrow> actor" where
  "publish_retired t out adm deliver ticket a =
     (let a1 = (case ticket of None \<Rightarrow> a
                | Some tk \<Rightarrow> on_cell t (cell_seal (ticket_provenance tk) (clock a) out) a);
          (registered, a2) = (case ticket of None \<Rightarrow> (None, a1)
                | Some tk \<Rightarrow> (let (s, o') = take_terminal_sender (cell_output (cells a1 t))
                              in (s, on_cell t (\<lambda>c. c\<lparr>cell_output := o'\<rparr>) a1)));
          a3 = send_terminal (option_or registered (presentation_sender deliver adm)) out a2;
          a4 = (case ticket of None \<Rightarrow> a3 | Some tk \<Rightarrow> delivery_publish tk a3);
          a5 = delivery_settle t (outcome_cancel_reason out) a4;
          a6 = (case ticket of None \<Rightarrow> a5
                | Some tk \<Rightarrow>
                    let b = on_cell t (resolve (ticket_provenance tk) (clock a5) out) a5
                    in (case peek_result (cells b t) of None \<Rightarrow> b | Some r \<Rightarrow> emit (EvEnd r) b));
          a7 = on_state (\<lambda>s. s\<lparr>pending_publications := pending_publications s - 1\<rparr>) a6
      in publish_idle (finish_close a7))"

definition retire_and_publish ::
    "turn_id \<Rightarrow> turn_outcome \<Rightarrow> turn_admission \<Rightarrow> bool \<Rightarrow> bool \<Rightarrow> bool \<Rightarrow> actor \<Rightarrow> actor" where
  "retire_and_publish t out adm deliver settle history_ready a =
     (case retire_turn t out (adm_work adm) settle history_ready a of
        (a', out', None) \<Rightarrow> a'
      | (a', out', Some ticket) \<Rightarrow> publish_retired t out' adm deliver ticket a')"

definition finalize_turn :: "turn_id \<Rightarrow> turn_outcome \<Rightarrow> turn_admission \<Rightarrow> bool \<Rightarrow> actor \<Rightarrow> actor" where
  "finalize_turn t out adm deliver = retire_and_publish t out adm deliver False False"

definition settle_and_finalize_turn :: "turn_admission \<Rightarrow> turn_outcome \<Rightarrow> bool \<Rightarrow> bool \<Rightarrow> actor \<Rightarrow> actor" where
  "settle_and_finalize_turn adm out deliver history_ready =
     retire_and_publish (adm_turn adm) out adm deliver True history_ready"

text \<open>The admission a waiting operation is finalized with when it never became queued work.\<close>

definition deferred_admission :: "turn_operation \<Rightarrow> turn_admission" where
  "deferred_admission op =
     \<lparr>adm_turn = ticket_turn (top_ticket op), adm_input = Some (top_input op), adm_sender = top_sender op,
      adm_correlation = top_correlation op, adm_work = top_identity op, adm_generation = 0,
      adm_policy = None, adm_ticket = top_ticket op, adm_snapshot = None\<rparr>"

fun settle_operation :: "cancel_reason \<Rightarrow> actor_operation \<Rightarrow> actor \<Rightarrow> actor" where
  "settle_operation reason (OpPrepared p) a = prepared_fail p PolicyCancelled a"
| "settle_operation reason (OpTurn op) a =
     (let t = ticket_turn (top_ticket op)
      in finalize_turn t (cancelled_outcome (actor_agent a) t reason) (deferred_admission op) True a)"
| "settle_operation reason (OpControl _ _) a = a"
| "settle_operation reason (OpCompact _ _ _ _) a = a"

definition settle_deferred :: "actor_operation list \<Rightarrow> cancel_reason \<Rightarrow> actor \<Rightarrow> actor" where
  "settle_deferred ops reason a = publish_idle (fold (settle_operation reason) ops a)"

fun terminalize_one :: "cancel_reason \<Rightarrow> actor_work \<Rightarrow> actor \<Rightarrow> actor" where
  "terminalize_one reason (TurnWork adm) a =
     finalize_turn (adm_turn adm) (cancelled_outcome (actor_agent a) (adm_turn adm) reason) adm True a"
| "terminalize_one reason _ a = a"

definition terminalize_work :: "actor_work list \<Rightarrow> cancel_reason \<Rightarrow> actor \<Rightarrow> actor" where
  "terminalize_work ws reason a = publish_idle (fold (terminalize_one reason) ws a)"

text \<open>\<open>fail_admission\<close>: a turn whose preparation failed ends with one failed outcome.\<close>

definition admission_failure :: "string \<Rightarrow> bool \<Rightarrow> turn_failure" where
  "admission_failure diag retry =
     \<lparr>failure_kind = Internal, diagnostic = diag,
      user_message = ''The agent could not start this turn.'', retryable = retry\<rparr>"

definition fail_admission :: "actor_operation \<Rightarrow> string \<Rightarrow> bool \<Rightarrow> actor \<Rightarrow> actor" where
  "fail_admission op diag retry a =
     (let a1 = (case op of
                  OpTurn t \<Rightarrow> finalize_turn (ticket_turn (top_ticket t))
                    (outcome_failed (actor_agent a) (ticket_turn (top_ticket t)) no_usage 0 (admission_failure diag retry))
                    (deferred_admission t) True a
                | _ \<Rightarrow> a)
      in publish_idle (finish_close (on_state (\<lambda>s. s\<lparr>pending_publications := pending_publications s - 1\<rparr>) a1)))"

section \<open>Completions of spawned preparations\<close>

definition head_is :: "u64 \<Rightarrow> actor \<Rightarrow> bool" where
  "head_is i a \<longleftrightarrow> (case operations (state a) of [] \<Rightarrow> False | op # _ \<Rightarrow> op_id op = i)"

text \<open>A policy constraint was evaluated against the policy captured when the task was spawned.\<close>

definition constraint_done :: "u64 \<Rightarrow> config_arc option \<Rightarrow> policy_constraint \<Rightarrow> actor \<Rightarrow> actor" where
  "constraint_done i pol k a =
     (if preparing (state a) \<noteq> Some i \<or> \<not> head_is i a then a
      else
        let a1 = set_preparing None a;
            verdict = (case pol of None \<Rightarrow> Some ''actor configuration is not initialized'' | Some c \<Rightarrow> k (config c))
        in case verdict of
             None \<Rightarrow> drive_operations (on_state (\<lambda>s. s\<lparr>operations :=
                       (case operations s of OpTurn t # rest \<Rightarrow> OpTurn (t\<lparr>top_constraint := None\<rparr>) # rest
                        | ops \<Rightarrow> ops)\<rparr>) a1)
           | Some diag \<Rightarrow>
               drive_operations (fail_admission (hd (operations (state a1))) diag False
                 (on_state (\<lambda>s. s\<lparr>operations := tl (operations s), pending_publications := pending_publications s + 1\<rparr>) a1)))"

text \<open>The admission preparation of a turn returned a snapshot, or panicked. The mode definition of
  the captured configuration replaces the one the callback chose.\<close>

definition captured_snapshot :: "config_arc option \<Rightarrow> admission_snapshot \<Rightarrow> admission_snapshot" where
  "captured_snapshot pol snap = (case Option.bind pol (\<lambda>c. cfg_mode_def (config c)) of
     None \<Rightarrow> snap | Some d \<Rightarrow> snap\<lparr>snap_mode_def := Some d\<rparr>)"

definition preparation_done :: "u64 \<Rightarrow> config_arc option \<Rightarrow> admission_snapshot option \<Rightarrow> actor \<Rightarrow> actor" where
  "preparation_done i pol res a =
     (if lifecycle (state a) \<noteq> Open \<or> preparing (state a) \<noteq> Some i \<or> \<not> head_is i a then a
      else
        let work = hd (operations (state a));
            a1 = pop_operation (set_preparing None a)
        in case res of
             Some snap \<Rightarrow> drive_operations (materialize work (Some (captured_snapshot pol snap)) a1)
           | None \<Rightarrow>
               fail_admission work ''admission preparation panicked'' True
                 (drive_operations (on_state (\<lambda>s. s\<lparr>pending_publications := pending_publications s + 1\<rparr>) a1)))"

text \<open>The preparation of a configuration change finished, failed, or was cancelled.\<close>

definition prepared_done :: "u64 \<Rightarrow> config_arc \<Rightarrow> actor_error + admission_snapshot option \<Rightarrow> actor \<Rightarrow> actor" where
  "prepared_done i cfg res a =
     (if lifecycle (state a) \<noteq> Open \<or> preparing (state a) \<noteq> Some i \<or> \<not> head_is i a then a
      else
        let a1 = set_preparing None a
        in case (res, operations (state a1)) of
             (Inr snap, OpPrepared p # rest) \<Rightarrow>
               on_state (\<lambda>s. s\<lparr>operations := OpPrepared (p\<lparr>ready := Some (cfg, snap)\<rparr>) # rest\<rparr>) a1
           | (Inr snap, _) \<Rightarrow> a1
           | (Inl e, OpPrepared p # rest) \<Rightarrow>
               publish_idle (drive_operations (prepared_fail p e (on_state (\<lambda>s. s\<lparr>operations := rest\<rparr>) a1)))
           | (Inl e, _) \<Rightarrow> publish_idle (drive_operations (pop_operation a1)))"

end
