(* ===== verification/Actor_Admission.thy ===== *)
theory Actor_Admission
  imports Actor_Ops
begin

text \<open>
  The operations a host calls on an actor: admission of turns, messages, controls and compactions,
  removal of queued work, the cancellation cuts, closure, idle reservations and the read-only
  projections (\<open>AgentActorHandle\<close> in \<open>maki-agent/src/actor/mod.rs\<close> and \<open>idle.rs\<close>).

  Fresh turn ids are arguments. The serialized length of an input's preamble is a parameter
  (\<open>serde_json\<close>), \<open>None\<close> when serialization fails.
\<close>

section \<open>Admission\<close>

type_synonym json_len = "provider_message list \<Rightarrow> nat option"

definition submission_bytes :: "json_len \<Rightarrow> agent_input \<Rightarrow> nat option" where
  "submission_bytes jl input = map_option (\<lambda>n. length (message input) + n) (jl (preamble input))"

record admission_options =
  idle_only :: bool
  existing_only :: bool
  after_turn :: "turn_id option"
  opt_provenance :: turn_provenance
  opt_constraint :: "policy_constraint option"
  opt_displayed :: bool
  opt_notice :: "nat option"
  displayed_presentation :: "u64 option"

definition default_options :: admission_options where
  "default_options = \<lparr>idle_only = False, existing_only = False, after_turn = None,
     opt_provenance = default_provenance, opt_constraint = None, opt_displayed = False,
     opt_notice = None, displayed_presentation = None\<rparr>"

text \<open>The checks an exact admission and a fresh submission share once the capacity is known.\<close>

definition admission_refused :: "admission_options \<Rightarrow> actor \<Rightarrow> actor_error option" where
  "admission_refused opts a =
     (if (idle_only opts \<or> after_turn opts \<noteq> None) \<and> (idle (state a) \<noteq> None \<or> has_pending_work a)
      then Some Busy
      else if after_turn opts \<noteq> None \<and> map_option out_turn (latest (state a)) \<noteq> after_turn opts
      then Some StaleTurn
      else None)"

text \<open>The admission itself, after every check passed: the ticket is registered, the first message
  opens the turn's inbox and the waiting operation is built.\<close>

definition open_turn ::
    "turn_id \<Rightarrow> agent_input \<Rightarrow> event_sender option \<Rightarrow> string \<Rightarrow> admission_options \<Rightarrow> nat
       \<Rightarrow> bool \<Rightarrow> actor \<Rightarrow> actor \<times> turn_ticket \<times> u64 \<times> actor_operation" where
  "open_turn t input sender corr opts bytes shared a =
     (let tk = with_provenance (new_ticket t (actor_identity a)) (opt_provenance opts);
          i = next_operation_id (state a) + 1;
          a1 = on_state (\<lambda>s. s\<lparr>next_operation_id := i, delivery_suspended := False\<rparr>) a;
          (a2, pres) = adopt_presentation (displayed_presentation opts) a1;
          ident = \<lparr>work_agent = actor_agent a2, work_kind = TurnKind i t, presentation_id = pres\<rparr>;
          (a3, sub) = make_submission t input (opt_displayed opts) (opt_notice opts) a2;
          inbox = (new_inbox tk pres)\<lparr>drained := [(opt_provenance opts, bytes)],
                    submit_operation := (if shared then Some i else None),
                    inbox_operation := i, inbox_batchable := shared \<and> batchable input, initial := Some sub\<rparr>;
          a4 = on_state (\<lambda>s. s\<lparr>instructions := hm_insert t inbox (instructions s)\<rparr>) a3
      in (admit_ticket tk a4, tk, pres,
          OpTurn \<lparr>top_id = i, top_input = input, top_sender = sender, top_correlation = corr,
            top_ticket = tk, top_constraint = opt_constraint opts, top_identity = ident\<rparr>))"

text \<open>A turn whose correlation was cancelled in advance is settled with that reason instead of being
  queued; a shared submission then also loses its inbox first.\<close>

definition enter_turn ::
    "turn_id \<Rightarrow> agent_input \<Rightarrow> event_sender option \<Rightarrow> string \<Rightarrow> admission_options \<Rightarrow> nat
       \<Rightarrow> bool \<Rightarrow> actor \<Rightarrow> actor \<times> turn_ticket \<times> u64" where
  "enter_turn t input sender corr opts bytes shared a =
     (case open_turn t input sender corr opts bytes shared a of (a5, tk, pres, op) \<Rightarrow>
        (case hm_get (cancelled_correlations (state a5)) corr of
           Some reason \<Rightarrow>
             (settle_deferred [op] reason
                (if shared then on_state (\<lambda>s. s\<lparr>instructions := hm_remove t (instructions s)\<rparr>) a5 else a5), tk, pres)
         | None \<Rightarrow> (drive_operations (on_state (\<lambda>s. s\<lparr>operations := operations s @ [op]\<rparr>) a5), tk, pres)))"

definition admit_turn_with_options ::
    "json_len \<Rightarrow> turn_id \<Rightarrow> agent_input \<Rightarrow> event_sender option \<Rightarrow> string \<Rightarrow> admission_options
       \<Rightarrow> actor \<Rightarrow> actor_error + actor \<times> turn_ticket" where
  "admit_turn_with_options jl t input sender corr opts a =
     (case submission_bytes jl input of
        None \<Rightarrow> Inl InvalidInstruction
      | Some bytes \<Rightarrow>
          if \<not> check_instruction_capacity (state a) bytes then Inl InstructionOverflow
          else if lifecycle (state a) \<noteq> Open then Inl (lifecycle_error (lifecycle (state a)))
          else case admission_refused opts a of
            Some e \<Rightarrow> Inl e
          | None \<Rightarrow>
              if length (tickets a) \<ge> MAX_RETAINED_TURN_RESULTS then Inl InstructionOverflow
              else (let (a', tk, pres) = enter_turn t input sender corr opts bytes False a in Inr (a', tk)))"

definition admit_turn ::
    "json_len \<Rightarrow> turn_id \<Rightarrow> agent_input \<Rightarrow> event_sender option \<Rightarrow> string \<Rightarrow> actor \<Rightarrow> actor_error + actor \<times> turn_ticket" where
  "admit_turn jl t input sender corr = admit_turn_with_options jl t input sender corr default_options"

subsection \<open>Shared submissions\<close>

definition running_turn :: "actor_state \<Rightarrow> turn_id option" where
  "running_turn s = option_or (Option.bind (processing s) proc_turn)
     (case status s of Running t \<Rightarrow> Some t | Idle \<Rightarrow> None)"

definition same_policy :: "config_arc option \<Rightarrow> config_arc option \<Rightarrow> bool" where
  "same_policy p q = (case (p, q) of
     (Some x, Some y) \<Rightarrow> ptr_eq x y | (None, None) \<Rightarrow> True | _ \<Rightarrow> False)"

text \<open>The running turn takes the message when its inbox is open, both messages may share a turn,
  the policy has not changed, nothing was admitted behind the turn and nothing is queued.\<close>

definition joins_running :: "bool \<Rightarrow> actor \<Rightarrow> turn_id \<Rightarrow> bool" where
  "joins_running bt a t = (case hm_get (instructions (state a)) t of
     None \<Rightarrow> False
   | Some i \<Rightarrow> inbox_open i \<and> bt \<and> inbox_batchable i \<and> same_policy (inbox_policy i) (policy (state a))
       \<and> \<not> list_ex (\<lambda>op. op_id op > inbox_operation i) (operations (state a)) \<and> q_is_empty (queue a))"

definition joins_waiting :: "bool \<Rightarrow> actor \<Rightarrow> instruction_inbox \<Rightarrow> bool" where
  "joins_waiting bt a i \<longleftrightarrow> inbox_open i \<and> bt \<and> inbox_batchable i
     \<and> submit_operation i = Some (next_operation_id (state a))"

definition submit_target :: "bool \<Rightarrow> actor \<Rightarrow> turn_id option" where
  "submit_target bt a =
     option_or (case running_turn (state a) of None \<Rightarrow> None | Some t \<Rightarrow> if joins_running bt a t then Some t else None)
       (map_option fst (find (\<lambda>(t, i). joins_waiting bt a i) (instructions (state a))))"

definition add_constraint :: "policy_constraint \<Rightarrow> policy_constraint option \<Rightarrow> policy_constraint" where
  "add_constraint k prev = (\<lambda>c. case prev of
     None \<Rightarrow> k c
   | Some p \<Rightarrow> (case p c of Some e \<Rightarrow> Some e | None \<Rightarrow> k c))"

fun constrain_turn :: "turn_id \<Rightarrow> policy_constraint \<Rightarrow> actor_operation list \<Rightarrow> actor_operation list option" where
  "constrain_turn t k [] = None"
| "constrain_turn t k (op # ops) =
     (case op of
        OpTurn d \<Rightarrow> if ticket_turn (top_ticket d) = t
          then Some (OpTurn (d\<lparr>top_constraint := Some (add_constraint k (top_constraint d))\<rparr>) # ops)
          else map_option ((#) op) (constrain_turn t k ops)
      | _ \<Rightarrow> map_option ((#) op) (constrain_turn t k ops))"

text \<open>Joining the target: the constraint of the message is checked against the policy of the open
  turn, or left for the waiting operation when that policy is not known yet. The source releases
  the lock around the check and starts over if another caller changed the actor meanwhile; here
  the check and the join are one step.\<close>

definition join_turn ::
    "turn_id \<Rightarrow> instruction_inbox \<Rightarrow> agent_input \<Rightarrow> string \<Rightarrow> admission_options \<Rightarrow> nat \<Rightarrow> actor
       \<Rightarrow> actor_error + actor \<times> turn_ticket \<times> u64" where
  "join_turn t i input corr opts bytes a =
     (if idle_only opts \<or> after_turn opts \<noteq> None then Inl Busy
      else if hm_contains (cancelled_correlations (state a)) corr then Inl Busy
      else case (case opt_constraint opts of
                   None \<Rightarrow> Inr (operations (state a))
                 | Some k \<Rightarrow>
                     (case inbox_policy i of
                        Some p \<Rightarrow> (case k (config p) of
                            Some e \<Rightarrow> Inl (InvalidConfig e) | None \<Rightarrow> Inr (operations (state a)))
                      | None \<Rightarrow> (case constrain_turn t k (operations (state a)) of
                            None \<Rightarrow> Inl PolicyPending | Some ops \<Rightarrow> Inr ops))) of
        Inl e \<Rightarrow> Inl (if \<not> check_instruction_capacity (state a) bytes \<and> e = PolicyPending
                      then InstructionOverflow else e)
      | Inr ops \<Rightarrow>
          if \<not> check_instruction_capacity (state a) bytes then Inl InstructionOverflow
          else
            let a1 = on_state (\<lambda>s. s\<lparr>operations := ops,
                       processing := map_option (\<lambda>p. if proc_turn p = Some t \<and> corr \<notin> set (proc_correlations p)
                           then p\<lparr>proc_correlations := proc_correlations p @ [corr]\<rparr> else p) (processing s)\<rparr>) a;
                (a2, sub) = make_submission t input (opt_displayed opts) (opt_notice opts) a1;
                e = \<lparr>entry_presentation = sub, entry_input = input, entry_provenance = opt_provenance opts, entry_bytes = bytes\<rparr>
            in Inr (on_state (modify_inbox t (\<lambda>i. inbox_push e (inbox_join corr i))) a2, inbox_ticket i, inbox_presentation i))"

definition submit_presented ::
    "json_len \<Rightarrow> turn_id \<Rightarrow> agent_input \<Rightarrow> event_sender option \<Rightarrow> string \<Rightarrow> admission_options
       \<Rightarrow> actor \<Rightarrow> actor_error + actor \<times> turn_ticket \<times> u64" where
  "submit_presented jl fresh input sender corr opts a =
     (case submission_bytes jl input of
        None \<Rightarrow> Inl InvalidInstruction
      | Some bytes \<Rightarrow>
          if bytes > MAX_PENDING_INSTRUCTION_BYTES then Inl InstructionOverflow
          else if lifecycle (state a) \<noteq> Open then Inl (lifecycle_error (lifecycle (state a)))
          else case Option.bind (submit_target (batchable input) a)
                      (\<lambda>t. map_option (Pair t) (hm_get (instructions (state a)) t)) of
            Some (t, i) \<Rightarrow> join_turn t i input corr opts bytes a
          | None \<Rightarrow>
              if existing_only opts then Inl Busy
              else case admission_refused opts a of
                Some e \<Rightarrow> Inl e
              | None \<Rightarrow>
                  if \<not> check_instruction_capacity (state a) bytes then Inl InstructionOverflow
                  else if length (tickets a) \<ge> MAX_RETAINED_TURN_RESULTS then Inl InstructionOverflow
                  else Inr (enter_turn fresh input sender corr opts bytes True a))"

subsection \<open>Controls, compactions, configuration\<close>

definition next_operation :: "actor \<Rightarrow> actor \<times> u64" where
  "next_operation a = (let i = next_operation_id (state a) + 1
     in (on_state (\<lambda>s. s\<lparr>next_operation_id := i\<rparr>) a, i))"

definition push_operation :: "actor_operation \<Rightarrow> actor \<Rightarrow> actor" where
  "push_operation op a = drive_operations (on_state (\<lambda>s. s\<lparr>operations := operations s @ [op]\<rparr>) a)"

definition push_control :: "string \<Rightarrow> string \<Rightarrow> nat option \<Rightarrow> actor \<Rightarrow> actor_error + actor" where
  "push_control name corr payload a =
     (if lifecycle (state a) \<noteq> Open then Inl (lifecycle_error (lifecycle (state a)))
      else
        let (a1, i) = next_operation a; (a2, pres) = reserve_presentation 0 a1
        in Inr (push_operation (OpControl i
             \<lparr>control_name = name, control_correlation = corr,
              control_identity = \<lparr>work_agent = actor_agent a2, work_kind = ControlKind i, presentation_id = pres\<rparr>,
              control_payload = payload\<rparr>) a2))"

definition push_compact :: "u64 \<Rightarrow> string option \<Rightarrow> actor \<Rightarrow> actor_error + actor" where
  "push_compact run ins a =
     (if lifecycle (state a) \<noteq> Open then Inl (lifecycle_error (lifecycle (state a)))
      else if hm_contains (cancelled_correlations (state a)) (run_correlation run) then Inr a
      else
        let (a1, i) = next_operation a; (a2, pres) = reserve_presentation 0 a1
        in Inr (push_operation (OpCompact i run ins pres) a2))"

definition initialize_config :: "effective_config \<Rightarrow> actor \<Rightarrow> actor_error + actor \<times> u64" where
  "initialize_config cfg a =
     (if lifecycle (state a) \<noteq> Open then Inl (lifecycle_error (lifecycle (state a)))
      else if policy (state a) \<noteq> None \<or> status (state a) \<noteq> Idle \<or> operations (state a) \<noteq> [] \<or> \<not> q_is_empty (queue a)
      then Inl PolicyPending
      else if (case mode cfg of Custom _ \<Rightarrow> cfg_mode_def cfg = None | _ \<Rightarrow> False)
      then Inl (InvalidConfig ''custom mode requires a resolved definition'')
      else
        let arc = \<lparr>config_addr = next_addr a, config = cfg\<rparr>;
            a1 = on_state (\<lambda>s. s\<lparr>policy := Some arc\<rparr>) (a\<lparr>next_addr := next_addr a + 1\<rparr>);
            g = policy_generation (state a1)
        in Inr (emit (EvConfig g arc) a1, g))"

definition reserve_operation ::
    "prepared_turn option \<Rightarrow> nat option \<Rightarrow> actor \<Rightarrow> actor_error + actor \<times> u64 \<times> u64" where
  "reserve_operation turn owner a =
     (if lifecycle (state a) \<noteq> Open then Inl (lifecycle_error (lifecycle (state a)))
      else if (case turn of None \<Rightarrow> False | Some t \<Rightarrow> hm_contains (cancelled_correlations (state a)) (pt_correlation t))
      then Inl PolicyCancelled
      else if (case idle (state a) of None \<Rightarrow> False | Some r \<Rightarrow> owner \<noteq> Some (idle_owner r))
      then Inl Busy
      else
        let (a1, i) = next_operation a; (a2, pres) = reserve_presentation 0 a1;
            p = \<lparr>prep_id = i, prep_turn = turn, turn_displayed = False, change = None, ready = None,
                 prep_publication = None,
                 prep_identity = \<lparr>work_agent = actor_agent a2, work_kind = ControlKind i, presentation_id = pres\<rparr>\<rparr>
        in Inr (on_state (\<lambda>s. s\<lparr>idle_pending := True, operations := operations s @ [OpPrepared p]\<rparr>) a2, i, pres))"

definition configure_parent_delivery :: "bool \<Rightarrow> actor \<Rightarrow> actor_error + actor" where
  "configure_parent_delivery auto a =
     (if lifecycle (state a) \<noteq> Open then Inl (lifecycle_error (lifecycle (state a)))
      else if next_operation_id (state a) \<noteq> 0 \<or> parent_delivery_policy (state a) \<noteq> None then Inl Busy
      else Inr (on_state (\<lambda>s. s\<lparr>parent_delivery_policy := Some auto\<rparr>) a))"

section \<open>Removal and cancellation\<close>

definition take_operation_turn :: "turn_id \<Rightarrow> actor \<Rightarrow> actor_operation option \<times> actor" where
  "take_operation_turn t a =
     (let (op, ops) = extract_first (op_is_turn t) (operations (state a))
      in (op, on_state (\<lambda>s. s\<lparr>operations := ops\<rparr>) a))"

definition take_queued_turn :: "turn_id \<Rightarrow> actor \<Rightarrow> turn_admission option \<times> actor" where
  "take_queued_turn t a = (let (adm, q) = remove_turn t (queue a) in (adm, a\<lparr>queue := q\<rparr>))"

definition remove :: "turn_id \<Rightarrow> actor \<Rightarrow> (actor_error + turn_outcome) \<times> actor" where
  "remove t a =
     (let (deferred, a1) = take_operation_turn t a; (queued, a2) = take_queued_turn t a1;
          a3 = (if deferred \<noteq> None \<or> queued \<noteq> None
                then on_state (\<lambda>s. s\<lparr>instructions := hm_remove t (instructions s)\<rparr>) a2 else a2);
          a4 = drive_operations a3; out = cancelled_outcome (actor_agent a) t User
      in case deferred of
           Some op \<Rightarrow> (Inr out, settle_deferred [op] User a4)
         | None \<Rightarrow> (case queued of
             None \<Rightarrow> (Inl (UnknownTurn t), a4)
           | Some adm \<Rightarrow> (Inr out, finalize_turn t out adm True a4)))"

text \<open>\<open>delivery::take_pending\<close> and \<open>delivery::discard\<close>.\<close>

definition take_pending :: "actor \<Rightarrow> child_delivery list \<times> actor" where
  "take_pending a = (map pd_delivery (hm_values (deliveries (state a))),
     on_state (\<lambda>s. s\<lparr>delivery_order := [], deliveries := []\<rparr>) a)"

definition emit_discarded :: "cancel_reason \<Rightarrow> child_delivery list \<Rightarrow> actor \<Rightarrow> actor" where
  "emit_discarded reason ds a = fold (\<lambda>d. emit (EvDelivery d (Discarded reason))) ds a"

definition discard_deliveries :: "cancel_reason \<Rightarrow> actor \<Rightarrow> actor" where
  "discard_deliveries reason a = (let (ds, a1) = take_pending a in emit_discarded reason ds a1)"

definition forget_inboxes :: "turn_id list \<Rightarrow> actor \<Rightarrow> actor" where
  "forget_inboxes ts = on_state (\<lambda>s. s\<lparr>instructions := fold hm_remove ts (instructions s)\<rparr>)"

definition drain_operations :: "(actor_operation \<Rightarrow> bool) \<Rightarrow> actor \<Rightarrow> actor_operation list \<times> actor" where
  "drain_operations keep a = (let (ops, s) = drain_work_except keep (state a) in (ops, a\<lparr>state := s\<rparr>))"

definition drain_queue :: "(actor_work \<Rightarrow> bool) \<Rightarrow> actor \<Rightarrow> actor_work list \<times> actor" where
  "drain_queue keep a = (let (ws, q) = drain_except keep (queue a) in (ws, a\<lparr>queue := q\<rparr>))"

definition is_turn_of :: "turn_id list \<Rightarrow> actor_work \<Rightarrow> bool" where
  "is_turn_of ts w = (case w of TurnWork adm \<Rightarrow> adm_turn adm \<in> set ts | _ \<Rightarrow> False)"

definition op_turn_of :: "turn_id list \<Rightarrow> actor_operation \<Rightarrow> bool" where
  "op_turn_of ts op = (case op of OpTurn d \<Rightarrow> ticket_turn (top_ticket d) \<in> set ts | _ \<Rightarrow> False)"

definition clear_except :: "bool \<Rightarrow> actor \<Rightarrow> nat \<times> actor" where
  "clear_except keep_deliveries a =
     (let a0 = (if keep_deliveries then a else discard_deliveries User a);
          kept = (if keep_deliveries then hm_keys (delivery_runs (state a0)) else []);
          (deferred, a1) = drain_operations (op_turn_of kept) a0;
          (dr, a2) = drain_queue (is_turn_of kept) a1;
          a3 = forget_inboxes (queued_turns dr @ op_turns deferred) a2;
          a4 = drive_operations a3;
          n = length dr + length (filter (\<lambda>op. op_projection op \<noteq> None) deferred)
      in (n, terminalize_work dr User (settle_deferred deferred User a4)))"

definition record_cancellation :: "(processing_work \<Rightarrow> bool) \<Rightarrow> cancel_reason \<Rightarrow> actor \<Rightarrow> actor" where
  "record_cancellation sel reason = on_state (\<lambda>s. s\<lparr>processing :=
     map_option (\<lambda>p. if sel p then p\<lparr>proc_reason := get_or_insert (proc_reason p) reason\<rparr> else p) (processing s)\<rparr>)"

text \<open>\<open>cancel_existing\<close>: one cut across the active work and everything waiting; work admitted after
  it is not touched.\<close>

definition cancel_existing :: "actor \<Rightarrow> actor" where
  "cancel_existing a =
     (let a1 = cancel_prepared_where (\<lambda>c. c \<noteq> None) a;
          a2 = on_state (\<lambda>s. s\<lparr>instructions := [], cancellation_generation := cancellation_generation s + 1\<rparr>) a1;
          a3 = record_cancellation (\<lambda>_. True) User a2;
          (deferred, a4) = drain_operations (\<lambda>_. False) a3;
          act = active (state a4);
          a5 = on_state (\<lambda>s. s\<lparr>active := None\<rparr>) a4;
          (dr, q) = drain_all (queue a5);
          a6 = drive_operations (a5\<lparr>queue := q\<rparr>);
          a7 = settle_deferred deferred User a6;
          a8 = (case act of None \<Rightarrow> a7 | Some x \<Rightarrow> fire_active x User a7)
      in terminalize_work dr User a8)"

definition capture_turn_cancel ::
    "turn_id \<Rightarrow> cancel_reason \<Rightarrow> actor \<Rightarrow> actor_error + actor \<times> actor_operation list \<times> turn_admission option" where
  "capture_turn_cancel t reason a =
     (if lifecycle (state a) \<noteq> Open then Inl (lifecycle_error (lifecycle (state a)))
      else if \<not> hm_contains (tickets a) t then Inl (UnknownTurn t)
      else
        let a1 = on_state (\<lambda>s. s\<lparr>instructions := hm_remove t (instructions s)\<rparr>) a;
            running = (status (state a1) = Running t);
            a2 = record_cancellation (\<lambda>p. running \<or> proc_turn p = Some t) reason a1;
            a3 = (if running then take_and_fire_active reason a2 else a2);
            (queued, a4) = take_queued_turn t a3;
            (deferred, a5) = take_operation_turn t a4
        in Inr (drive_operations a5, (case deferred of None \<Rightarrow> [] | Some op \<Rightarrow> [op]), queued))"

definition settle_turn_cancel ::
    "actor_operation list \<Rightarrow> turn_admission option \<Rightarrow> cancel_reason \<Rightarrow> actor \<Rightarrow> actor" where
  "settle_turn_cancel deferred queued reason a =
     (let a1 = settle_deferred deferred reason a
      in case queued of None \<Rightarrow> a1
         | Some adm \<Rightarrow> finalize_turn (adm_turn adm) (cancelled_outcome (actor_agent a1) (adm_turn adm) reason) adm True a1)"

text \<open>The cut and its settlement, for the reasons the callers give: the handle's own \<open>cancel_turn\<close> says that
  the user cancelled, the manager's passes its own reason.\<close>

definition cancel_turn_for :: "turn_id \<Rightarrow> cancel_reason \<Rightarrow> actor \<Rightarrow> actor_error + actor" where
  "cancel_turn_for t reason a = (case capture_turn_cancel t reason a of
     Inl e \<Rightarrow> Inl e
   | Inr (a', deferred, queued) \<Rightarrow> Inr (settle_turn_cancel deferred queued reason a'))"

definition cancel_turn :: "turn_id \<Rightarrow> actor \<Rightarrow> actor_error + actor" where
  "cancel_turn t a = cancel_turn_for t User a"

definition op_matches_correlation :: "string \<Rightarrow> turn_id list \<Rightarrow> actor_operation \<Rightarrow> bool" where
  "op_matches_correlation c joined op = (case op of
     OpControl _ _ \<Rightarrow> False
   | OpPrepared p \<Rightarrow> (case prep_turn p of None \<Rightarrow> False | Some t \<Rightarrow> pt_correlation t = c)
   | OpTurn d \<Rightarrow> top_correlation d = c \<or> ticket_turn (top_ticket d) \<in> set joined
   | OpCompact _ run _ _ \<Rightarrow> run_correlation run = c)"

fun take_queued_turns :: "turn_id list \<Rightarrow> actor \<Rightarrow> actor_work list \<times> actor" where
  "take_queued_turns [] a = ([], a)"
| "take_queued_turns (t # ts) a =
     (let (adm, a1) = take_queued_turn t a; (ws, a2) = take_queued_turns ts a1
      in ((case adm of None \<Rightarrow> [] | Some x \<Rightarrow> [TurnWork x]) @ ws, a2))"

definition capture_correlation_cancel ::
    "string \<Rightarrow> cancel_reason \<Rightarrow> actor \<Rightarrow> actor \<times> turn_id option \<times> actor_operation list \<times> actor_work list" where
  "capture_correlation_cancel c reason a =
     (let a1 = cancel_prepared_where (\<lambda>x. x = Some c) a;
          matched_active = active_matches_correlation c (state a1);
          active_turn = (case status (state a1) of Running t \<Rightarrow> if matched_active then Some t else None | Idle \<Rightarrow> None);
          a2 = (if matched_active then take_and_fire_active reason a1 else a1);
          matched_processing = (case processing (state a2) of None \<Rightarrow> False | Some p \<Rightarrow> c \<in> set (proc_correlations p));
          a3 = (if matched_processing then record_cancellation (\<lambda>_. True) reason a2 else a2);
          joined = List.map_filter (\<lambda>(t, i). if c \<in> set (inbox_correlations i) then Some t else None) (instructions (state a3));
          (m1, q) = remove_correlation c (queue a3);
          (m2, a4) = take_queued_turns joined (a3\<lparr>queue := q\<rparr>);
          matched = m1 @ m2;
          (remaining, deferred) = partition (\<lambda>op. \<not> op_matches_correlation c joined op) (operations (state a4));
          proc_id = (if matched_processing then Option.bind (processing (state a4)) proc_turn else None);
          a5 = forget_inboxes ((case active_turn of None \<Rightarrow> [] | Some t \<Rightarrow> [t]) @ (case proc_id of None \<Rightarrow> [] | Some t \<Rightarrow> [t])
                 @ queued_turns matched @ op_turns deferred) a4;
          a6 = drive_operations (on_state (\<lambda>s. s\<lparr>operations := remaining\<rparr>) a5);
          a7 = (if \<not> matched_active \<and> \<not> matched_processing \<and> matched = [] \<and> deferred = []
                then on_state (\<lambda>s. s\<lparr>cancelled_correlations := hm_insert c reason (cancelled_correlations s)\<rparr>) a6
                else a6)
      in (a7, active_turn, deferred, matched))"

definition settle_correlation_cancel ::
    "actor_operation list \<Rightarrow> actor_work list \<Rightarrow> cancel_reason \<Rightarrow> actor \<Rightarrow> actor" where
  "settle_correlation_cancel deferred matched reason a =
     terminalize_work matched reason (settle_deferred deferred reason a)"

definition cancel_correlation :: "string \<Rightarrow> cancel_reason \<Rightarrow> actor \<Rightarrow> actor" where
  "cancel_correlation c reason a =
     (case capture_correlation_cancel c reason a of
        (a', t, deferred, matched) \<Rightarrow> settle_correlation_cancel deferred matched reason a')"

record local_cut =
  local_turn :: "turn_id option"
  local_fence :: u64
  local_deferred :: "actor_operation list"
  local_drained :: "actor_work list"

definition capture_local_cancel :: "u64 \<Rightarrow> actor \<Rightarrow> actor \<times> local_cut" where
  "capture_local_cancel displayed a =
     (let a1 = cancel_prepared_where (\<lambda>c. c \<noteq> None) a;
          t = running_turn (state a1);
          a2 = record_cancellation (\<lambda>p. proc_turn p \<noteq> None) User a1;
          runs = hm_keys (delivery_runs (state a2));
          a3 = on_state (\<lambda>s. s\<lparr>instructions := hm_retain (\<lambda>t. t \<in> set runs) (instructions s),
                 cancellation_generation := cancellation_generation s + 1\<rparr>) a2;
          (deferred, a4) = drain_operations (\<lambda>op. case op of
             OpTurn d \<Rightarrow> ticket_turn (top_ticket d) \<in> set runs
           | OpPrepared p \<Rightarrow> prep_turn p = None
           | _ \<Rightarrow> True) a3;
          a5 = (if t \<noteq> None then take_and_fire_active User a4 else a4);
          (dr, a6) = drain_queue (\<lambda>w. \<not> (case w of TurnWork adm \<Rightarrow> adm_turn adm \<notin> set runs | _ \<Rightarrow> False)) a5;
          a7 = drive_operations a6;
          (a8, fence) = reserve_presentation displayed a7
      in (a8, \<lparr>local_turn = t, local_fence = fence, local_deferred = deferred, local_drained = dr\<rparr>))"

definition settle_local_cancel :: "local_cut \<Rightarrow> actor \<Rightarrow> actor" where
  "settle_local_cancel c a =
     terminalize_work (local_drained c) User (settle_deferred (local_deferred c) User a)"

section \<open>Closure\<close>

record close_cut =
  cut_deferred :: "actor_operation list"
  cut_deliveries :: "child_delivery list"
  cut_reason :: cancel_reason
  cut_edit :: "history_edit option"
  cut_lifecycle :: actor_lifecycle

definition fail_prepared_operations :: "actor_error \<Rightarrow> actor \<Rightarrow> actor" where
  "fail_prepared_operations e a =
     a\<lparr>failures := fold (\<lambda>op f. case op of
         OpPrepared p \<Rightarrow> if hm_contains f (prep_id p) then f else hm_insert (prep_id p) e f
       | _ \<Rightarrow> f) (operations (state a)) (failures a)\<rparr>"

text \<open>\<open>capture_close\<close>: the first terminal lifecycle wins; a repeated close or shutdown captures
  nothing.\<close>

definition capture_close :: "bool \<Rightarrow> actor \<Rightarrow> actor \<times> close_cut option" where
  "capture_close shutdown a =
     (let life = (if shutdown then Shutdown else Closed);
          reason = (if shutdown then Shutdown_reason else Closed_reason)
      in if lifecycle (state a) \<noteq> Open then (a, None)
         else
           let a1 = record_cancellation (\<lambda>_. True) reason a;
               a2 = cancel_prepared_where (\<lambda>_. True) a1;
               a3 = on_state (\<lambda>s. s\<lparr>instructions := []\<rparr>) a2;
               (ds, a4) = take_pending a3;
               a5 = on_state (\<lambda>s. s\<lparr>lifecycle := life, close_pending := True, preparing := None\<rparr>) a4;
               a6 = fail_prepared_operations (lifecycle_error life) a5;
               edit = Option.bind (idle (state a6)) idle_edit;
               a7 = on_state (\<lambda>s. let s' = s\<lparr>cancelled_correlations := [], idle := None\<rparr>
                      in case edit of None \<Rightarrow> s' | Some e \<Rightarrow> end_prepared_publication (edit_prepared e) s') a6;
               active_reason = (case Option.bind (processing (state a7)) proc_reason of Some r \<Rightarrow> r | None \<Rightarrow> reason);
               a8 = take_and_fire_active active_reason a7;
               ops = operations (state a8)
           in (on_state (\<lambda>s. s\<lparr>operations := []\<rparr>) a8,
               Some \<lparr>cut_deferred = ops, cut_deliveries = ds, cut_reason = reason, cut_edit = edit, cut_lifecycle = life\<rparr>))"

definition settle_close :: "close_cut \<Rightarrow> actor \<Rightarrow> actor" where
  "settle_close c a =
     (let a1 = emit_discarded (cut_reason c) (cut_deliveries c) a;
          a2 = settle_deferred (cut_deferred c) (cut_reason c) a1;
          (dr, q) = drain_all (queue a2);
          a3 = terminalize_work dr (cut_reason c) (a2\<lparr>queue := q\<rparr>)
      in (on_queue notify (finish_close a3))\<lparr>woken := True\<rparr>)"

definition close :: "actor \<Rightarrow> actor" where
  "close a = (case capture_close False a of (a', None) \<Rightarrow> a' | (a', Some c) \<Rightarrow> settle_close c a')"

definition shutdown :: "actor \<Rightarrow> actor" where
  "shutdown a = (case capture_close True a of (a', None) \<Rightarrow> a' | (a', Some c) \<Rightarrow> settle_close c a')"

section \<open>Idle reservations\<close>

definition prepare_idle :: "actor \<Rightarrow> actor_error + actor \<times> nat" where
  "prepare_idle a =
     (if lifecycle (state a) \<noteq> Open then Inl (lifecycle_error (lifecycle (state a)))
      else if idle (state a) \<noteq> None \<or> operations (state a) \<noteq> [] \<or> has_pending_work a then Inl Busy
      else
        let owner = next_addr a
        in Inr ((on_state (\<lambda>s. s\<lparr>idle := Some \<lparr>idle_owner = owner, permission = None, committing = False,
                   idle_edit = None\<rparr>\<rparr>) a)\<lparr>next_addr := owner + 1\<rparr>, owner))"

definition allow_turn :: "nat \<Rightarrow> turn_ticket \<Rightarrow> actor \<Rightarrow> actor_error + actor" where
  "allow_turn owner tk a =
     (if \<not> belongs_to tk (actor_identity a) then Inl PolicyCancelled
      else if lifecycle (state a) \<noteq> Open then Inl (lifecycle_error (lifecycle (state a)))
      else if \<not> hm_contains (tickets a) (ticket_turn tk) then Inl PolicyCancelled
      else case owned_idle owner (state a) of
        None \<Rightarrow> Inl PolicyCancelled
      | Some r \<Rightarrow>
          if idle_edit r = None \<and> (permission r = None \<or> permission r = Some (ticket_turn tk))
          then Inr (on_queue notify (on_state (\<lambda>s. s\<lparr>idle := Some (r\<lparr>permission := Some (ticket_turn tk)\<rparr>)\<rparr>) a))
          else Inl PolicyCancelled)"

definition idle_guard_drop :: "nat \<Rightarrow> actor \<Rightarrow> actor" where
  "idle_guard_drop owner a =
     (if owned_idle owner (state a) \<noteq> None
      then on_queue notify (drive_operations (on_state (\<lambda>s. s\<lparr>idle := None\<rparr>) a))
      else a)"

text \<open>\<open>pop_work\<close>: while the actor is reserved only the edit or the permitted turn starts, and
  starting the turn ends the reservation.\<close>

definition pop_work :: "actor \<Rightarrow> actor_work option \<times> actor" where
  "pop_work a =
     (case idle (state a) of
        None \<Rightarrow> (let (w, q) = q_pop (queue a) in (w, a\<lparr>queue := q\<rparr>))
      | Some r \<Rightarrow>
          (case idle_edit r of
             Some e \<Rightarrow> (Some (HistoryEdit e), on_state (\<lambda>s. s\<lparr>idle := Some (r\<lparr>idle_edit := None\<rparr>)\<rparr>) a)
           | None \<Rightarrow>
               (case permission r of
                  None \<Rightarrow> (None, a)
                | Some t \<Rightarrow>
                    (case take_queued_turn t a of
                       (None, a') \<Rightarrow> (None, a')
                     | (Some adm, a') \<Rightarrow> (Some (TurnWork adm), on_state (\<lambda>s. s\<lparr>idle := None\<rparr>) a')))))"

section \<open>Projections\<close>

record actor_snapshot =
  snap_lifecycle :: actor_lifecycle
  snap_status :: actor_status
  snap_active_turn :: "turn_id option"
  snap_queued :: nat
  snap_queue :: "queue_projection list"
  snap_latest :: "turn_outcome option"
  snap_usage :: token_usage

definition actor_snapshot_of :: "actor \<Rightarrow> actor_snapshot" where
  "actor_snapshot_of a =
     (let q = q_snapshot (queue a) @ List.map_filter op_projection (operations (state a))
      in \<lparr>snap_lifecycle = lifecycle (state a), snap_status = status (state a),
          snap_active_turn = (case status (state a) of Running t \<Rightarrow> Some t | Idle \<Rightarrow> None),
          snap_queued = length (filter (\<lambda>x. case x of ProjControl _ \<Rightarrow> False | _ \<Rightarrow> True) q),
          snap_queue = q, snap_latest = latest (state a), snap_usage = usage (state a)\<rparr>)"

definition is_settled :: "actor \<Rightarrow> bool" where
  "is_settled a \<longleftrightarrow> lifecycle (state a) \<noteq> Open
     \<or> \<not> (runner_busy (state a) \<or> preparing (state a) \<noteq> None \<or> has_pending_work a
          \<or> deliveries (state a) \<noteq> [] \<or> delivery_runs (state a) \<noteq> [])"

definition pending_queue :: "actor \<Rightarrow> pending_queue_entry list" where
  "pending_queue a =
     (let messages = (\<lambda>t. case hm_get (instructions (state a)) t of
                        None \<Rightarrow> [] | Some i \<Rightarrow> map MessageEntry (inbox_messages i))
      in (case Option.bind (processing (state a)) proc_turn of None \<Rightarrow> [] | Some t \<Rightarrow> messages t)
         @ project_pending messages (queue a)
         @ concat (map (\<lambda>op. case op of
             OpTurn d \<Rightarrow> messages (ticket_turn (top_ticket d))
           | OpCompact i run ins _ \<Rightarrow> [CompactEntry i run ins]
           | _ \<Rightarrow> []) (operations (state a))))"

definition pending_submissions :: "actor \<Rightarrow> pending_submission list" where
  "pending_submissions a = sort_key sub_id (concat (map inbox_messages (hm_values (instructions (state a)))))"

definition outcome_of :: "actor \<Rightarrow> turn_id \<Rightarrow> turn_outcome option" where
  "outcome_of a t = hm_get (outcomes a) t"

definition turn_ticket_of :: "actor \<Rightarrow> turn_id \<Rightarrow> turn_ticket option" where
  "turn_ticket_of a t = option_or (hm_get (tickets a) t) (hm_get (retained_tickets a) t)"

definition latest_ticket :: "actor \<Rightarrow> turn_ticket option" where
  "latest_ticket a = Option.bind (latest_admitted a) (turn_ticket_of a)"

definition reports_to_parent :: "actor \<Rightarrow> bool" where
  "reports_to_parent a \<longleftrightarrow> parent_label a \<noteq> None \<and> parent_delivery_policy (state a) = Some True"

definition unsettled_ticket :: "actor \<Rightarrow> turn_ticket option" where
  "unsettled_ticket a =
     (let unresolved = (\<lambda>tk. peek (cells a (ticket_turn tk)) = None)
      in option_or (find unresolved (hm_values (tickets a))) (find unresolved (hm_values (retained_tickets a))))"

end
