(* ===== verification/Actor_Delivery.thy ===== *)
theory Actor_Delivery
  imports Actor_Admission
begin

text \<open>
  Child results waiting at their parent (\<open>maki-agent/src/actor/delivery.rs\<close>) and what the running
  turn does with its inbox (\<open>ActorTurnInbox\<close> in \<open>maki-agent/src/actor/inbox.rs\<close>), with the host
  operations on pending submissions and presentation ids of \<open>maki-agent/src/actor/mod.rs\<close>.

  How a result is rendered (\<open>ChildDelivery::preview\<close> and \<open>input\<close>: JSON text, bounded fields, an
  offload file) is the parameter \<open>rd\<close>: it gives the bounded delivery, the message the model will
  read and the size of that message in bytes.
\<close>

section \<open>Admission of child results\<close>

definition MAX_PENDING_DELIVERIES :: nat where "MAX_PENDING_DELIVERIES = 64"

definition MAX_DELIVERY_PREVIEW_BYTES :: nat where "MAX_DELIVERY_PREVIEW_BYTES = 16 * 1024"

definition MAX_PENDING_PREVIEW_BYTES :: nat where "MAX_PENDING_PREVIEW_BYTES = 256 * 1024"

definition MAX_DELIVERY_BATCH :: nat where "MAX_DELIVERY_BATCH = 8"

definition MAX_DELIVERY_BATCH_BYTES :: nat where "MAX_DELIVERY_BATCH_BYTES = 32 * 1024"

lemmas delivery_limits = MAX_PENDING_DELIVERIES_def MAX_DELIVERY_PREVIEW_BYTES_def
  MAX_PENDING_PREVIEW_BYTES_def MAX_DELIVERY_BATCH_def MAX_DELIVERY_BATCH_BYTES_def

type_synonym renderer = "child_delivery \<Rightarrow> child_delivery \<times> provider_message \<times> nat"

definition pending_bytes :: "(turn_id, pending_delivery) hmap \<Rightarrow> nat" where
  "pending_bytes m = sum_list (map pd_bytes (hm_values m))"

definition remember_seen :: "turn_id \<Rightarrow> turn_id list \<Rightarrow> turn_id list" where
  "remember_seen i seen = (let s = seen @ [i] in if length s > MAX_RETAINED_TURN_RESULTS then tl s else s)"

definition admit_delivery :: "renderer \<Rightarrow> child_delivery \<Rightarrow> actor \<Rightarrow> delivery_rejection + actor" where
  "admit_delivery rd d0 a =
     (let (d, msg, bytes) = rd d0; i = delivery_turn d
      in if lifecycle (state a) \<noteq> Open then Inl ParentClosed
         else if hm_contains (deliveries (state a)) i \<or> i \<in> set (delivery_seen (state a)) then Inr a
         else if bytes > MAX_DELIVERY_PREVIEW_BYTES
           \<or> length (deliveries (state a)) \<ge> MAX_PENDING_DELIVERIES
           \<or> pending_bytes (deliveries (state a)) + bytes > MAX_PENDING_PREVIEW_BYTES
         then Inl Overflow
         else Inr (on_queue notify (emit (EvDelivery d Accepted)
           (on_state (\<lambda>s. s\<lparr>delivery_suspended := False, delivery_seen := remember_seen i (delivery_seen s),
              delivery_order := delivery_order s @ [i],
              deliveries := hm_insert i \<lparr>pd_delivery = d, pd_message = msg, pd_bytes = bytes,
                cancellation_retried = False, arrived_during_run = True\<rparr> (deliveries s)\<rparr>) a))))"

text \<open>\<open>publish\<close> between two actors: the child's result goes to the parent if it is still alive, and
  a rejection is reported by the child.\<close>

definition hand_over :: "renderer \<Rightarrow> child_delivery \<Rightarrow> actor option \<Rightarrow> actor \<Rightarrow> actor option \<times> actor" where
  "hand_over rd d parent child =
     (let d' = fst (rd d)
      in case parent of
           None \<Rightarrow> (None, emit (EvDelivery d' (Rejected ParentUnavailable)) child)
         | Some p \<Rightarrow> (case admit_delivery rd d' p of
               Inr p' \<Rightarrow> (Some p', child)
             | Inl e \<Rightarrow> (Some p, emit (EvDelivery d' (Rejected e)) child)))"

definition withdraw_child_delivery :: "turn_id \<Rightarrow> actor \<Rightarrow> bool \<times> actor" where
  "withdraw_child_delivery t a =
     (case hm_get (deliveries (state a)) t of
        None \<Rightarrow> (False, a)
      | Some p \<Rightarrow> (True, emit (EvDelivery (pd_delivery p) (Discarded Withdrawn))
          (on_state (\<lambda>s. s\<lparr>deliveries := hm_remove t (deliveries s),
             delivery_order := filter (\<lambda>i. i \<noteq> t) (delivery_order s)\<rparr>) a)))"

section \<open>Consuming and scheduling\<close>

text \<open>The loop of \<open>commit\<close> over \<open>delivery_order\<close>, with the number and the bytes of the messages
  committed so far. It stops at the batch limits and at a delivery the turn may not take.\<close>

fun commit_loop ::
    "turn_id \<Rightarrow> turn_id list option \<Rightarrow> nat \<Rightarrow> nat \<Rightarrow> turn_id list \<Rightarrow> actor \<Rightarrow> provider_message list \<times> actor" where
  "commit_loop t eligible n b [] a = ([], on_state (\<lambda>s. s\<lparr>delivery_order := []\<rparr>) a)"
| "commit_loop t eligible n b (i # order) a =
     (let stop = ([], on_state (\<lambda>s. s\<lparr>delivery_order := i # order\<rparr>) a)
      in if n = MAX_DELIVERY_BATCH then stop
         else if (case eligible of None \<Rightarrow> False | Some batch \<Rightarrow> i \<notin> set batch) then stop
         else case hm_get (deliveries (state a)) i of
           None \<Rightarrow> commit_loop t eligible n b order a
         | Some p \<Rightarrow>
             if b + pd_bytes p > MAX_DELIVERY_BATCH_BYTES then stop
             else
               let (ms, a') = commit_loop t eligible (n + 1) (b + pd_bytes p) order
                     (emit (EvDelivery (pd_delivery p) (Executed t))
                       (on_state (\<lambda>s. s\<lparr>deliveries := hm_remove i (deliveries s)\<rparr>) a))
               in (pd_message p # ms, a'))"

definition commit_deliveries :: "turn_id \<Rightarrow> actor \<Rightarrow> provider_message list \<times> actor" where
  "commit_deliveries t a =
     (let eligible = hm_get (delivery_runs (state a)) t
      in if lifecycle (state a) \<noteq> Open
           \<or> (case processing (state a) of None \<Rightarrow> False | Some p \<Rightarrow> proc_reason p \<noteq> None) then ([], a)
         else if eligible = None
           \<and> (case hm_get (instructions (state a)) t of None \<Rightarrow> True | Some i \<Rightarrow> \<not> inbox_open i) then ([], a)
         else commit_loop t eligible 0 0 (delivery_order (state a)) a)"

text \<open>The prefix of the order a continuation takes: at most eight, within the byte limit.\<close>

fun within_bytes :: "(turn_id, pending_delivery) hmap \<Rightarrow> nat \<Rightarrow> turn_id list \<Rightarrow> turn_id list" where
  "within_bytes m b [] = []"
| "within_bytes m b (i # is) =
     (let b' = b + (case hm_get m i of None \<Rightarrow> 0 | Some p \<Rightarrow> pd_bytes p)
      in if b' \<le> MAX_DELIVERY_BATCH_BYTES then i # within_bytes m b' is else [])"

definition schedule_ready :: "actor \<Rightarrow> bool" where
  "schedule_ready a \<longleftrightarrow> lifecycle (state a) = Open \<and> idle (state a) = None \<and> \<not> delivery_suspended (state a)
     \<and> deliveries (state a) \<noteq> [] \<and> delivery_runs (state a) = [] \<and> \<not> has_pending_work a
     \<and> operations (state a) = []"

definition schedule :: "turn_id \<Rightarrow> actor \<Rightarrow> actor" where
  "schedule fresh a =
     (if \<not> schedule_ready a then a
      else
        let tk = new_ticket fresh (actor_identity a);
            a1 = admit_ticket tk a;
            batch = within_bytes (deliveries (state a1)) 0 (take MAX_DELIVERY_BATCH (delivery_order (state a1)));
            a2 = on_state (\<lambda>s. s\<lparr>deliveries := map (\<lambda>(i, p). (i, p\<lparr>arrived_during_run := False\<rparr>)) (deliveries s),
                   delivery_runs := hm_insert fresh batch (delivery_runs s)\<rparr>) a1;
            (a3, i) = next_operation a2;
            (a4, pres) = reserve_presentation 0 a3
        in push_operation (OpTurn \<lparr>top_id = i, top_input = new_input [] [], top_sender = None,
             top_correlation = ''child-results'', top_ticket = tk, top_constraint = None,
             top_identity = \<lparr>work_agent = actor_agent a4, work_kind = TurnKind i fresh, presentation_id = pres\<rparr>\<rparr>) a4)"

section \<open>The inbox of the running turn\<close>

definition close_admission :: "bool \<Rightarrow> turn_id \<Rightarrow> actor \<Rightarrow> bool \<times> actor" where
  "close_admission await_completions t a =
     (case hm_get (instructions (state a)) t of
        None \<Rightarrow> (True, a)
      | Some i \<Rightarrow>
          (case inbox_close_admission (await_completions \<and> deliveries (state a) \<noteq> []) i of
             (i', closed) \<Rightarrow> (closed, on_state (modify_inbox t (\<lambda>_. i')) a)))"

definition take_initial_submission :: "turn_id \<Rightarrow> actor \<Rightarrow> pending_submission option \<times> actor" where
  "take_initial_submission t a =
     (case Option.bind (hm_get (instructions (state a)) t) initial of
        None \<Rightarrow> (None, a)
      | Some sub \<Rightarrow> (Some sub, emit (EvSubmissionConsumed sub) (on_state (modify_inbox t (\<lambda>i. i\<lparr>initial := None\<rparr>)) a)))"

definition drain_presented_instructions ::
    "turn_id \<Rightarrow> actor \<Rightarrow> (pending_submission \<times> agent_input) list \<times> actor" where
  "drain_presented_instructions t a =
     (if lifecycle (state a) \<noteq> Open then ([], a)
      else case hm_get (instructions (state a)) t of
        None \<Rightarrow> ([], a)
      | Some i \<Rightarrow>
          (case inbox_drain i of
             (i', out) \<Rightarrow> (out, fold (\<lambda>(sub, _). emit (EvSubmissionConsumed sub)) out
                                 (on_state (modify_inbox t (\<lambda>_. i')) a))))"

definition inbox_close :: "turn_id \<Rightarrow> actor \<Rightarrow> actor" where
  "inbox_close t = on_state (modify_inbox t (\<lambda>i. i\<lparr>inbox_open := False\<rparr>))"

definition instructions_submitted :: "turn_id \<Rightarrow> actor \<Rightarrow> actor" where
  "instructions_submitted t = on_state (modify_inbox t inbox_submitted)"

definition has_unsubmitted_instructions :: "turn_id \<Rightarrow> actor \<Rightarrow> bool" where
  "has_unsubmitted_instructions t a = (case hm_get (instructions (state a)) t of
     None \<Rightarrow> False | Some i \<Rightarrow> fst (outstanding i) \<noteq> 0)"

section \<open>Withdrawing a pending submission\<close>

definition inbox_holds :: "submission_id \<Rightarrow> instruction_inbox \<Rightarrow> bool" where
  "inbox_holds i b \<longleftrightarrow> (case initial b of None \<Rightarrow> False | Some s \<Rightarrow> sub_id s = i)
     \<or> list_ex (\<lambda>e. sub_id (entry_presentation e) = i) (pending b)"

text \<open>The first waiting operation of a turn gets another input.\<close>

fun replace_operation_input :: "turn_id \<Rightarrow> agent_input \<Rightarrow> actor_operation list \<Rightarrow> actor_operation list option" where
  "replace_operation_input t input [] = None"
| "replace_operation_input t input (op # ops) =
     (if op_is_turn t op
      then Some ((case op of OpTurn d \<Rightarrow> OpTurn (d\<lparr>top_input := input\<rparr>) | _ \<Rightarrow> op) # ops)
      else map_option ((#) op) (replace_operation_input t input ops))"

definition replace_waiting_input :: "turn_id \<Rightarrow> agent_input \<Rightarrow> actor \<Rightarrow> actor option" where
  "replace_waiting_input t input a =
     (case replace_operation_input t input (operations (state a)) of
        Some ops \<Rightarrow> Some (on_state (\<lambda>s. s\<lparr>operations := ops\<rparr>) a)
      | None \<Rightarrow> map_option (\<lambda>q. a\<lparr>queue := q\<rparr>) (replace_turn_input t input (queue a)))"

definition initial_held :: "turn_id \<Rightarrow> actor \<Rightarrow> bool" where
  "initial_held t a \<longleftrightarrow>
     (case processing (state a) of None \<Rightarrow> False | Some p \<Rightarrow> proc_turn p = Some t)
     \<or> (case preparing (state a) of None \<Rightarrow> False | Some i \<Rightarrow>
          list_ex (\<lambda>op. op_is_turn t op \<and> op_id op = i) (operations (state a)))
     \<or> has_prepared_turn t (queue a)"

text \<open>A message that joined a turn leaves its inbox. The first message of a waiting turn is replaced
  by the next one, or the turn is cancelled when it was the only one. Once the runner or a
  preparation holds the first message it stays.\<close>

definition remove_submission :: "submission_id \<Rightarrow> actor \<Rightarrow> pending_submission option \<times> actor" where
  "remove_submission i a =
     (case find (\<lambda>(t, b). inbox_holds i b) (instructions (state a)) of
        None \<Rightarrow> (None, a)
      | Some (t, b) \<Rightarrow>
          (case extract_first (\<lambda>e. sub_id (entry_presentation e) = i) (pending b) of
             (Some e, rest) \<Rightarrow> (Some (entry_presentation e), on_state (modify_inbox t (\<lambda>b. b\<lparr>pending := rest\<rparr>)) a)
           | (None, _) \<Rightarrow>
               if initial_held t a then (None, a)
               else case initial b of
                 None \<Rightarrow> (None, a)
               | Some sub \<Rightarrow>
                   let a1 = on_state (modify_inbox t (\<lambda>b. b\<lparr>initial := None\<rparr>)) a
                   in case pending b of
                        e # rest \<Rightarrow>
                          let a2 = on_state (modify_inbox t (\<lambda>b. b\<lparr>pending := rest\<rparr>)) a1
                          in (case replace_waiting_input t (entry_input e) a2 of
                                None \<Rightarrow> (None, a2)
                              | Some a3 \<Rightarrow> (Some sub, on_state (modify_inbox t (\<lambda>b. b\<lparr>initial := Some (entry_presentation e),
                                    drained := [(entry_provenance e, entry_bytes e)]\<rparr>)) a3))
                      | [] \<Rightarrow>
                          (case capture_turn_cancel t User a1 of
                             Inl _ \<Rightarrow> (None, a1)
                           | Inr (a2, deferred, queued) \<Rightarrow> (Some sub, settle_turn_cancel deferred queued User a2))))"

definition remove_pending_compact :: "u64 \<Rightarrow> actor \<Rightarrow> pending_queue_entry option \<times> actor" where
  "remove_pending_compact i a =
     (case extract_first (\<lambda>op. op_id op = i \<and> is_OpCompact op) (operations (state a)) of
        (Some op, rest) \<Rightarrow> (Some (CompactEntry i (opc_run op) (opc_instructions op)),
            drive_operations (on_state (\<lambda>s. s\<lparr>operations := rest\<rparr>) a))
      | (None, _) \<Rightarrow> (let (e, q) = remove_compact i (queue a) in (e, a\<lparr>queue := q\<rparr>)))"

section \<open>Presentation ids\<close>

definition observe_presentation :: "u64 \<Rightarrow> actor \<Rightarrow> actor" where
  "observe_presentation i = on_state (\<lambda>s. s\<lparr>presentation := max (presentation s) i\<rparr>)"

definition allocate_processing_presentation :: "turn_id \<Rightarrow> u64 option \<Rightarrow> actor \<Rightarrow> actor_error + actor \<times> u64" where
  "allocate_processing_presentation t displayed a =
     (if lifecycle (state a) \<noteq> Open then Inl (lifecycle_error (lifecycle (state a)))
      else case processing (state a) of
        None \<Rightarrow> Inl (UnknownTurn t)
      | Some p \<Rightarrow>
          if proc_turn p \<noteq> Some t then Inl (UnknownTurn t)
          else if proc_reason p \<noteq> None then Inl PolicyCancelled
          else if displayed = Some (presentation (state a)) then Inr (a, presentation (state a))
          else (let p' = presentation (state a) + 1 in Inr (on_state (\<lambda>s. s\<lparr>presentation := p'\<rparr>) a, p')))"

end
