(* ===== verification/Actor_Runner.thy ===== *)
theory Actor_Runner
  imports Actor_Delivery
begin

text \<open>
  The runner of one actor (\<open>maki-agent/src/actor/runner.rs\<close>): it pops work strictly one item at a
  time, installs the cancellation wiring, runs the backend and settles the result. Each definition
  is one critical section; between two of them the host may change the actor, so the runner's
  position is an explicit value and \<open>actor_step\<close> interleaves both sides. The backend is not part
  of the model: what it returns is an argument of \<open>finish_turn\<close>, \<open>finish_control\<close> and
  \<open>finish_compact\<close>.
\<close>

datatype backend_result =
  EnteredRun turn_outcome
| SetupFailed "turn_failure option"
| ControlDone
| ControlFailed
| CompactDone
| ControlCompacted compaction_status

section \<open>Taking work\<close>

definition new_processing :: "actor_work \<Rightarrow> actor_state \<Rightarrow> processing_work" where
  "new_processing w s =
     (let t = (case w of TurnWork adm \<Rightarrow> Some (adm_turn adm) | _ \<Rightarrow> None)
      in \<lparr>proc_turn = t,
          proc_correlations = work_correlations w @
            (case Option.bind t (\<lambda>t. hm_get (instructions s) t) of None \<Rightarrow> [] | Some i \<Rightarrow> inbox_correlations i),
          proc_reason = None\<rparr>)"

text \<open>The first critical section of \<open>step\<close>: pending child results may schedule a continuation, then
  the next work is popped and becomes the processing work.\<close>

definition runner_pop :: "turn_id \<Rightarrow> actor \<Rightarrow> (actor_work \<times> u64) option \<times> actor" where
  "runner_pop fresh a =
     (case pop_work (schedule fresh a) of
        (None, a1) \<Rightarrow> (None, on_state (\<lambda>s. s\<lparr>processing := None\<rparr>) a1)
      | (Some w, a1) \<Rightarrow>
          let a2 = on_state (retire_superseded_precancels w)
                     (on_state (\<lambda>s. s\<lparr>idle_pending := True, runner_busy := True\<rparr>) a1);
              a3 = on_state (\<lambda>s. s\<lparr>processing := Some (new_processing w s)\<rparr>) a2
          in (Some (w, cancellation_generation (state a3)), a3))"

text \<open>The last critical section of \<open>step\<close> for one item, and the one that ends the drain.\<close>

definition runner_settled :: "work_identity option \<Rightarrow> actor \<Rightarrow> actor" where
  "runner_settled ident a =
     publish_idle (finish_close (on_state (\<lambda>s. s\<lparr>processing := None,
       settled := (case ident of None \<Rightarrow> settled s | Some i \<Rightarrow> Some i)\<rparr>) a))"

definition runner_drained :: "actor \<Rightarrow> actor" where
  "runner_drained = on_state (\<lambda>s. s\<lparr>runner_busy := False\<rparr>)"

section \<open>Turns\<close>

definition non_turn_failure :: turn_failure where
  "non_turn_failure = \<lparr>failure_kind = Internal, diagnostic = ''turn backend returned non-turn result'',
     user_message = ''The agent could not finish this turn.'', retryable = True\<rparr>"

definition settle_turn :: "turn_admission \<Rightarrow> turn_outcome option \<Rightarrow> bool \<Rightarrow> actor \<Rightarrow> actor" where
  "settle_turn adm out deliver a =
     (settle_and_finalize_turn adm
       (case out of Some o' \<Rightarrow> o'
        | None \<Rightarrow> outcome_failed (actor_agent a) (adm_turn adm) no_usage 0 non_turn_failure) deliver False a)
       \<lparr>woken := True\<rparr>"

text \<open>A continuation whose results were all withdrawn does not run.\<close>

definition all_withdrawn :: "turn_id \<Rightarrow> actor \<Rightarrow> bool" where
  "all_withdrawn t a = (case hm_get (delivery_runs (state a)) t of
     None \<Rightarrow> False | Some batch \<Rightarrow> list_all (\<lambda>i. \<not> hm_contains (deliveries (state a)) i) batch)"

definition withdraw_turn :: "turn_admission \<Rightarrow> actor \<Rightarrow> actor" where
  "withdraw_turn adm a =
     (let t = adm_turn adm;
          a1 = on_cell t (resolve (ticket_provenance (adm_ticket adm)) (clock a)
                 (cancelled_outcome (actor_agent a) t Withdrawn)) a;
          a2 = on_state (\<lambda>s. s\<lparr>delivery_runs := hm_remove t (delivery_runs s)\<rparr>) a1;
          a3 = a2\<lparr>tickets := hm_remove t (tickets a2)\<rparr>
      in clear_runner True a3)"

definition install_active :: "string \<Rightarrow> actor \<Rightarrow> actor \<times> nat" where
  "install_active corr a =
     (let tok = next_addr a
      in ((on_state (\<lambda>s. s\<lparr>active := Some \<lparr>active_token = tok, active_correlation = Some corr\<rparr>\<rparr>) a)
            \<lparr>next_addr := tok + 1, run_tokens := (run_tokens a)(tok := reasoned_new)\<rparr>, tok))"

fun lifecycle_reason :: "actor_lifecycle \<Rightarrow> cancel_reason" where
  "lifecycle_reason Closed = Closed_reason"
| "lifecycle_reason Shutdown = Shutdown_reason"
| "lifecycle_reason Open = User"

definition recorded_reason :: "actor \<Rightarrow> cancel_reason option" where
  "recorded_reason a = Option.bind (processing (state a)) proc_reason"

text \<open>\<open>run_turn\<close> up to the installation of the active cancellation: a withdrawn continuation, a
  cancellation cut since the pop, a close, and a cancellation recorded for this work each settle
  the turn without running it.\<close>

definition begin_turn :: "turn_admission \<Rightarrow> u64 \<Rightarrow> actor \<Rightarrow> actor \<times> nat option" where
  "begin_turn adm popped_generation a =
     (let t = adm_turn adm; cancelled = (\<lambda>r. settle_turn adm (Some (cancelled_outcome (actor_agent a) t r)) True a)
      in if all_withdrawn t a then (withdraw_turn adm a, None)
         else if cancellation_generation (state a) \<noteq> popped_generation then (cancelled User, None)
         else if lifecycle (state a) \<noteq> Open then (cancelled (lifecycle_reason (lifecycle (state a))), None)
         else case recorded_reason a of
           Some r \<Rightarrow> (cancelled r, None)
         | None \<Rightarrow>
             (case install_active (adm_correlation adm) a of
                (a1, tok) \<Rightarrow> (on_state (\<lambda>s. s\<lparr>status := Running t\<rparr>) a1, Some tok)))"

text \<open>The cancellation check between the installation and the managed admission.\<close>

definition check_started :: "turn_admission \<Rightarrow> nat \<Rightarrow> actor \<Rightarrow> actor \<times> bool" where
  "check_started adm tok a =
     (let r = run_tokens a tok
      in if rs_cancelled r
         then (settle_turn adm (Some (cancelled_outcome (actor_agent a) (adm_turn adm)
                 (case rs_reason r of Some x \<Rightarrow> x | None \<Rightarrow> User))) True a, False)
         else (a, True))"

text \<open>The manager refused the turn.\<close>

definition refuse_managed :: "turn_admission \<Rightarrow> cancel_reason \<Rightarrow> actor \<Rightarrow> actor" where
  "refuse_managed adm reason a =
     settle_turn adm (Some (cancelled_outcome (actor_agent a) (adm_turn adm) reason)) True a"

definition launch_turn :: "turn_admission \<Rightarrow> nat \<Rightarrow> actor \<Rightarrow> actor \<times> bool" where
  "launch_turn adm tok a =
     (let t = adm_turn adm; r = run_tokens a tok
      in if lifecycle (state a) \<noteq> Open \<or> rs_cancelled r
         then (settle_turn adm (Some (cancelled_outcome (actor_agent a) t
                 (case rs_reason r of Some x \<Rightarrow> x | None \<Rightarrow> Closed_reason))) True a, False)
         else if all_withdrawn t a then (withdraw_turn adm a, False)
         else (emit (EvStart (actor_agent a) t (ticket_provenance (adm_ticket adm))
                   (map_option (\<lambda>c. (adm_generation adm, c)) (adm_policy adm)))
                 (on_cell t (\<lambda>c. c\<lparr>cell_output := mark_started (clock a) (cell_output c)\<rparr>) a), True))"

definition setup_failure :: turn_failure where
  "setup_failure = \<lparr>failure_kind = Internal, diagnostic = ''actor setup failed'',
     user_message = ''The agent could not start this turn.'', retryable = True\<rparr>"

definition finish_turn :: "turn_admission \<Rightarrow> backend_result \<Rightarrow> actor \<Rightarrow> actor" where
  "finish_turn adm res a =
     (case res of
        EnteredRun out \<Rightarrow> (settle_and_finalize_turn adm out True True a)\<lparr>woken := True\<rparr>
      | SetupFailed f \<Rightarrow> (settle_and_finalize_turn adm
          (outcome_failed (actor_agent a) (adm_turn adm) no_usage 0
             (case f of Some x \<Rightarrow> x | None \<Rightarrow> setup_failure)) True False a)\<lparr>woken := True\<rparr>
      | _ \<Rightarrow> settle_turn adm None False a)"

section \<open>Controls and compactions\<close>

definition clear_active :: "actor \<Rightarrow> actor" where
  "clear_active a = on_state (\<lambda>s. s\<lparr>active := None\<rparr>) (drop_active a)"

definition begin_control :: "control_work \<Rightarrow> actor \<Rightarrow> actor \<times> nat option" where
  "begin_control c a =
     (if lifecycle (state a) \<noteq> Open \<or> recorded_reason a \<noteq> None then (a, None)
      else (case install_active (control_correlation c) a of (a1, tok) \<Rightarrow> (a1, Some tok)))"

definition finish_control :: "nat \<Rightarrow> backend_result option \<Rightarrow> actor \<Rightarrow> actor" where
  "finish_control tok res a =
     (case res of
        Some (ControlCompacted st) \<Rightarrow> emit (EvCompactionEnd st) (clear_active a)
      | _ \<Rightarrow> clear_active a)"

definition begin_compact :: "compact_work \<Rightarrow> actor \<Rightarrow> actor \<times> nat option" where
  "begin_compact c a =
     (if lifecycle (state a) \<noteq> Open then (a, None)
      else if recorded_reason a \<noteq> None then (emit (EvCompactionEnd CompactionCancelled) a, None)
      else (case install_active (run_correlation (compact_run c)) a of (a1, tok) \<Rightarrow> (a1, Some tok)))"

text \<open>The status a compaction ends with: \<open>None\<close> is the cancellation seen before the backend ran.\<close>

definition compact_end_status :: "backend_result option \<Rightarrow> bool \<Rightarrow> compaction_status" where
  "compact_end_status res cancelled =
     (case res of
        None \<Rightarrow> CompactionCancelled
      | Some CompactDone \<Rightarrow> CompactionCompleted
      | Some _ \<Rightarrow> if cancelled then CompactionCancelled else CompactionFailed)"

definition finish_compact :: "nat \<Rightarrow> backend_result option \<Rightarrow> actor \<Rightarrow> actor" where
  "finish_compact tok res a =
     emit (EvCompactionEnd (compact_end_status res (rs_cancelled (run_tokens a tok)))) (clear_active a)"

text \<open>The running turn may take a compaction from the front of the queue (\<open>InterruptQueue::poll\<close>).\<close>

definition poll_interrupt :: "u64 \<Rightarrow> u64 \<Rightarrow> actor \<Rightarrow> string option option \<times> actor" where
  "poll_interrupt cancel_gen policy_gen a =
     (if cancellation_generation (state a) = cancel_gen
      then (let (c, q) = pop_interrupt policy_gen (queue a) in (c, a\<lparr>queue := q\<rparr>))
      else (None, a))"

section \<open>Interleaving host and runner\<close>

text \<open>The wait at the end of \<open>step\<close>: the notification channel is polled first, then the wake flag, and
  only the one that was ready is consumed.\<close>

definition wake_pending :: "actor \<Rightarrow> bool" where
  "wake_pending a \<longleftrightarrow> notified (queue a) \<or> woken a"

definition consume_wake :: "actor \<Rightarrow> actor" where
  "consume_wake a = (if notified (queue a) then on_queue (\<lambda>q. q\<lparr>notified := False\<rparr>) a else a\<lparr>woken := False\<rparr>)"

text \<open>Where the runner is. \<open>Started\<close> and \<open>Entered\<close> are the waits around the managed admission,
  \<open>InTurn\<close>, \<open>InControl\<close> and \<open>InCompact\<close> the backend calls.\<close>

datatype runner_pc =
  AtPop
| Popped actor_work u64
| Started turn_admission nat u64
| Entered turn_admission nat u64
| InTurn turn_admission nat u64
| InControl control_work nat
| InCompact compact_work nat
| Settling "work_identity option"
| Waiting
| Exited

text \<open>The turn the runner holds.\<close>

fun pc_turns :: "runner_pc \<Rightarrow> turn_id list" where
  "pc_turns (Popped (TurnWork adm) _) = [adm_turn adm]"
| "pc_turns (Started adm _ _) = [adm_turn adm]"
| "pc_turns (Entered adm _ _) = [adm_turn adm]"
| "pc_turns (InTurn adm _ _) = [adm_turn adm]"
| "pc_turns _ = []"

definition fresh_turn :: "turn_id \<Rightarrow> actor \<Rightarrow> bool" where
  "fresh_turn t a \<longleftrightarrow> \<not> hm_contains (tickets a) t \<and> \<not> hm_contains (outcomes a) t"

text \<open>What hosts and spawned preparations do to the actor. Completions are matched to the head of the
  FIFO by its operation id, which a 64-bit counter allocates; a preparation of a configuration change
  is only ever spawned for a prepared operation.\<close>

inductive host_step :: "actor \<Rightarrow> actor \<Rightarrow> bool" where
  host_admit: "fresh_turn t a \<Longrightarrow> admit_turn_with_options jl t input sender corr opts a = Inr (a', tk) \<Longrightarrow> host_step a a'"
| host_submit: "fresh_turn t a \<Longrightarrow> submit_presented jl t input sender corr opts a = Inr (a', tk, p) \<Longrightarrow> host_step a a'"
| host_control: "push_control name corr payload a = Inr a' \<Longrightarrow> host_step a a'"
| host_compact: "push_compact run ins a = Inr a' \<Longrightarrow> host_step a a'"
| host_initialize: "initialize_config cfg a = Inr (a', g) \<Longrightarrow> host_step a a'"
| host_reserve: "reserve_operation turn owner a = Inr (a', i, p) \<Longrightarrow> host_step a a'"
| host_configure: "configure_parent_delivery auto a = Inr a' \<Longrightarrow> host_step a a'"
| host_remove: "host_step a (snd (remove t a))"
| host_clear: "host_step a (snd (clear_except keep a))"
| host_cancel_existing: "host_step a (cancel_existing a)"
| host_cancel_turn: "cancel_turn_for t reason a = Inr a' \<Longrightarrow> host_step a a'"
| host_cancel_correlation: "host_step a (cancel_correlation c reason a)"
| host_cancel_local: "capture_local_cancel displayed a = (a', k) \<Longrightarrow> host_step a (settle_local_cancel k a')"
| host_close: "host_step a (close a)"
| host_shutdown: "host_step a (shutdown a)"
| host_prepare_idle: "prepare_idle a = Inr (a', owner) \<Longrightarrow> host_step a a'"
| host_allow: "allow_turn owner tk a = Inr a' \<Longrightarrow> host_step a a'"
| host_idle_drop: "host_step a (idle_guard_drop owner a)"
| host_deliver: "admit_delivery rd d a = Inr a' \<Longrightarrow> host_step a a'"
| host_withdraw: "host_step a (snd (withdraw_child_delivery t a))"
| host_remove_submission: "host_step a (snd (remove_submission i a))"
| host_remove_compact: "host_step a (snd (remove_pending_compact n a))"
| host_constraint_done: "host_step a (constraint_done i pol k a)"
| host_preparation_done: "host_step a (preparation_done i pol snap a)"
| host_prepared_done: "operations (state a) = OpPrepared p # rest \<Longrightarrow> host_step a (prepared_done i cfg res a)"
| host_observe: "host_step a (observe_presentation p a)"

inductive turn_step :: "turn_id \<Rightarrow> u64 \<Rightarrow> u64 \<Rightarrow> actor \<Rightarrow> actor \<Rightarrow> bool" for t cg pg where
  turn_initial: "turn_step t cg pg a (snd (take_initial_submission t a))"
| turn_drain: "turn_step t cg pg a (snd (drain_presented_instructions t a))"
| turn_submitted: "turn_step t cg pg a (instructions_submitted t a)"
| turn_commit: "turn_step t cg pg a (snd (commit_deliveries t a))"
| turn_close_admission: "turn_step t cg pg a (snd (close_admission await t a))"
| turn_close: "turn_step t cg pg a (inbox_close t a)"
| turn_present: "allocate_processing_presentation t d a = Inr (a', p) \<Longrightarrow> turn_step t cg pg a a'"
| turn_interrupt: "turn_step t cg pg a (snd (poll_interrupt cg pg a))"

inductive actor_step :: "actor \<times> runner_pc \<Rightarrow> actor \<times> runner_pc \<Rightarrow> bool" where
  step_host: "host_step a a' \<Longrightarrow> actor_step (a, pc) (a', pc)"
| step_tick: "actor_step (a, pc) (a\<lparr>clock := clock a + 1\<rparr>, pc)"
| step_pop: "fresh_turn t a \<Longrightarrow> runner_pop t a = (Some (w, g), a') \<Longrightarrow> actor_step (a, AtPop) (a', Popped w g)"
| step_drained: "fresh_turn t a \<Longrightarrow> runner_pop t a = (None, a') \<Longrightarrow>
    actor_step (a, AtPop) (runner_drained a', if lifecycle (state a') = Open then Waiting else Exited)"
| step_woken: "wake_pending a \<Longrightarrow> actor_step (a, Waiting) (consume_wake a, if lifecycle (state a) = Open then AtPop else Exited)"
| step_begin_turn: "begin_turn adm g a = (a', tok) \<Longrightarrow>
    actor_step (a, Popped (TurnWork adm) g)
      (a', case tok of Some k \<Rightarrow> Started adm k g | None \<Rightarrow> Settling None)"
| step_check: "check_started adm tok a = (a', go) \<Longrightarrow>
    actor_step (a, Started adm tok g) (a', if go then Entered adm tok g else Settling None)"
| step_refused: "actor_step (a, Entered adm tok g) (refuse_managed adm reason a, Settling None)"
| step_launch: "launch_turn adm tok a = (a', go) \<Longrightarrow>
    actor_step (a, Entered adm tok g) (a', if go then InTurn adm tok g else Settling None)"
| step_in_turn: "turn_step (adm_turn adm) cg (adm_generation adm) a a' \<Longrightarrow>
    actor_step (a, InTurn adm tok cg) (a', InTurn adm tok cg)"
| step_finish_turn: "actor_step (a, InTurn adm tok cg) (finish_turn adm res a, Settling None)"
| step_begin_control: "begin_control c a = (a', tok) \<Longrightarrow>
    actor_step (a, Popped (Control c) g)
      (a', case tok of Some k \<Rightarrow> InControl c k | None \<Rightarrow> Settling (Some (control_identity c)))"
| step_control_cancelled: "rs_cancelled (run_tokens a tok) \<Longrightarrow>
    actor_step (a, InControl c tok) (finish_control tok None a, Settling (Some (control_identity c)))"
| step_finish_control: "actor_step (a, InControl c tok) (finish_control tok (Some res) a, Settling (Some (control_identity c)))"
| step_begin_compact: "begin_compact c a = (a', tok) \<Longrightarrow>
    actor_step (a, Popped (Compact c) g)
      (a', case tok of Some k \<Rightarrow> InCompact c k | None \<Rightarrow> Settling (Some (compact_identity c)))"
| step_compact_cancelled: "rs_cancelled (run_tokens a tok) \<Longrightarrow>
    actor_step (a, InCompact c tok) (finish_compact tok None a, Settling (Some (compact_identity c)))"
| step_finish_compact: "actor_step (a, InCompact c tok) (finish_compact tok (Some res) a, Settling (Some (compact_identity c)))"
| step_settled: "actor_step (a, Settling ident) (runner_settled ident a, AtPop)"

inductive reachable :: "actor \<times> runner_pc \<Rightarrow> bool" where
  reach_spawn: "reachable (spawn_actor agent ident child parent cfg prep n, AtPop)"
| reach_step: "reachable s \<Longrightarrow> actor_step s s' \<Longrightarrow> reachable s'"

inductive_cases host_stepE: "host_step a a'"
inductive_cases turn_stepE: "turn_step t cg pg a a'"

end
