(* ===== verification/Actor_Accounting.thy ===== *)
theory Actor_Accounting
  imports Actor_Runner "HOL-Library.Multiset"
begin

text \<open>
  Where the admitted turns of an actor are. Every turn with a live ticket is in exactly one place: the
  execution queue, the operation FIFO, or the hands of the runner; every settled turn has one
  retained outcome until it is evicted. The invariant is stated once (\<open>turns_ok\<close>, with the turns
  somebody has taken out as a parameter), every operation of the scheduler is shown to keep it, and
  it is lifted to all interleavings of host and runner.
\<close>

section \<open>What driving the FIFO leaves alone\<close>

definition live_turns :: "actor \<Rightarrow> turn_id multiset" where
  "live_turns a = mset (queued_turns (items (queue a))) + mset (op_turns (operations (state a)))"

definition steady where
  "steady a = ((live_turns a, tickets a, outcomes a, retained_tickets a, retained_order (state a), lifecycle (state a),
     processing (state a), status (state a), active (state a), cells a),
     (sink a, run_tokens a, idle (state a), actor_agent a,
     actor_identity a, cancellation_generation (state a), usage (state a), latest (state a), close_pending (state a),
     pending_publications (state a), prepared_publication (state a)),
     (deliveries (state a), delivery_order (state a), delivery_runs (state a), delivery_seen (state a),
     coverage a, clock a, woken a, policy (state a), outbox a, history_epoch a, history_len a))"

lemma live_materialize: "live_turns (materialize op snap a) = mset (op_turns [op]) + live_turns a"
  by (cases op; simp add: materialize.simps live_turns_def materialize_turn_def Let_def on_defs q_push_def notify_def
    make_submission_def modify_inbox_def split: option.splits)

lemma steady_materialize: 
  "operations (state b) = ops \<Longrightarrow> steady (materialize op snap b) = steady (on_state (\<lambda>s. s\<lparr>operations := op # ops\<rparr>) b)"
  apply (simp add: steady_def live_materialize)
  apply (cases op; simp add: materialize.simps live_turns_def materialize_turn_def Let_def on_defs q_push_def notify_def
    make_submission_def modify_inbox_def split: option.splits)
  done

lemma steady_simps [simp]:
  "steady (set_preparing p a) = steady a" "steady (spawn_task k a) = steady a" "steady (emit e a) = steady a"
  "steady (publish_idle a) = steady a" "steady (prepared_fail pp er a) = steady a"
  "steady (a\<lparr>next_addr := n\<rparr>) = steady a"
  "steady (on_state (modify_inbox t f) a) = steady a"
  by (simp_all add: steady_def live_turns_def drive_defs emit_def publish_idle_def prepared_fail_def cancel_publication_def modify_inbox_def Let_def split: option.splits)


lemma operations_set [simp]: "operations (state (on_state (\<lambda>s. s\<lparr>operations := ops\<rparr>) a)) = ops"
  by (simp add: on_state_def)

lemma steady_set_ops: "op_turns ops = op_turns (operations (state a)) \<Longrightarrow> steady (on_state (\<lambda>s. s\<lparr>operations := ops\<rparr>) a) = steady a"
  by (simp add: steady_def live_turns_def on_state_def)

lemma materialize_head:
  "operations (state b) = op # rest \<Longrightarrow> steady (materialize op snap (on_state (\<lambda>s. s\<lparr>operations := rest\<rparr>) b)) = steady b"
  by (subst steady_materialize [OF refl]) (simp add: steady_def live_turns_def on_state_def)

lemma drive_steady: "steady (drive_operations a) = steady a" "steady (drive_loop b) = steady b"
proof (induction a and b rule: drive_operations_drive_loop.induct)
  case (1 a)
  then show ?case by (subst drive_operations.simps) (simp add: steady_def live_turns_def on_defs)
next
  case (2 a)
  have ops: "operations (state (set_preparing p (on_state (modify_inbox t f) x))) = operations (state x)" for p t f x
    by (simp add: drive_defs modify_inbox_def)
  have ops': "operations (state (on_state (modify_inbox t f) (set_preparing p x))) = operations (state x)"
     "operations (state (set_preparing p x)) = operations (state x)" for p t f x
    by (simp_all add: drive_defs modify_inbox_def)
  show ?case
  proof (cases "operations (state a)")
    case Nil then show ?thesis by (simp add: drive_loop.simps [of a])
  next
    case (Cons op rest)
    show ?thesis
    proof (cases op)
      case (OpPrepared p)
      then show ?thesis using Cons 2(1)[OF _ Cons OpPrepared]
        by (subst drive_loop.simps) (auto simp: Let_def steady_set_ops ops' split: option.split sum.split)
    next
      case (OpTurn op)
      then show ?thesis using Cons 2(3)[OF _ Cons OpTurn]
        by (subst drive_loop.simps) (auto simp: Let_def materialize_head ops' split: option.split)
    next
      case (OpControl i c)
      then show ?thesis using Cons 2(2)[OF _ Cons OpControl]
        by (subst drive_loop.simps) (auto simp: Let_def materialize_head ops' split: option.split)
    next
      case (OpCompact i c)
      then show ?thesis using Cons 2(4)[OF _ Cons OpCompact]
        by (subst drive_loop.simps) (auto simp: Let_def materialize_head ops' split: option.split)
    qed
  qed
qed


lemma drive_frames [simp]:
  "live_turns (drive_operations a) = live_turns a" "tickets (drive_operations a) = tickets a"
  "outcomes (drive_operations a) = outcomes a" "retained_order (state (drive_operations a)) = retained_order (state a)"
  "lifecycle (state (drive_operations a)) = lifecycle (state a)"
  "processing (state (drive_operations a)) = processing (state a)"
  "status (state (drive_operations a)) = status (state a)" "active (state (drive_operations a)) = active (state a)"
  "cells (drive_operations a) = cells a" "sink (drive_operations a) = sink a"
  "actor_agent (drive_operations a) = actor_agent a" "actor_identity (drive_operations a) = actor_identity a"
  "cancellation_generation (state (drive_operations a)) = cancellation_generation (state a)"
  using drive_steady(1) [of a] by (auto simp: steady_def)

definition turns_ok :: "bool \<Rightarrow> turn_id multiset \<Rightarrow> actor \<Rightarrow> bool" where
  "turns_ok c M a \<longleftrightarrow>
     M + live_turns a = mset (hm_keys (tickets a)) \<and> hm_wf (tickets a)
     \<and> hm_wf (outcomes a) \<and> distinct (retained_order (state a))
     \<and> set (retained_order (state a)) = set (hm_keys (outcomes a))
     \<and> length (retained_order (state a)) \<le> MAX_RETAINED_TURN_RESULTS
     \<and> set (hm_keys (tickets a)) \<inter> set (hm_keys (outcomes a)) = {}
     \<and> (c \<longrightarrow> lifecycle (state a) \<noteq> Open \<longrightarrow> live_turns a = {#})"

lemma turns_ok_cong:
  "live_turns b = live_turns a \<Longrightarrow> tickets b = tickets a \<Longrightarrow> outcomes b = outcomes a \<Longrightarrow>
   retained_order (state b) = retained_order (state a) \<Longrightarrow> lifecycle (state b) = lifecycle (state a)
   \<Longrightarrow> turns_ok c M b = turns_ok c M a"
  by (simp add: turns_ok_def)

lemma turns_ok_steady: "steady b = steady a \<Longrightarrow> turns_ok c M b = turns_ok c M a"
  by (rule turns_ok_cong) (auto simp: steady_def)

lemma turns_ok_frame [simp]:
  "turns_ok c M (publish_idle a) = turns_ok c M a" "turns_ok c M (prepared_fail p e a) = turns_ok c M a"
  "turns_ok c M (emit ev a) = turns_ok c M a" "turns_ok c M (set_preparing i a) = turns_ok c M a"
  "turns_ok c M (on_state (modify_inbox t f) a) = turns_ok c M a"
  by (rule turns_ok_steady, simp)+

lemma keys_remove: "hm_wf m \<Longrightarrow> mset (hm_keys (hm_remove k m)) = mset (hm_keys m) - {#k#}"
  using distinct_remove1_removeAll [of "hm_keys m" k] by (metis delete_keys mset_remove1)

lemma keys_insert_new: "k \<notin> fst ` set m \<Longrightarrow> mset (hm_keys (hm_insert k v m)) = add_mset k (mset (hm_keys m))"
  by (simp add: AList.update_keys)

lemma steady_frame_simps [simp]:
  "live_turns (emit e a) = live_turns a" "live_turns (publish_idle a) = live_turns a"
  "live_turns (finish_close a) = live_turns a" "live_turns (on_cell t f a) = live_turns a"
  "live_turns (on_queue notify a) = live_turns a" "live_turns (drop_active a) = live_turns a"
  "live_turns (send_terminal sn out a) = live_turns a" "live_turns (delivery_publish tk a) = live_turns a"
  "live_turns (delivery_settle t r a) = live_turns a"
  by (simp_all add: live_turns_def on_cell_def on_defs notify_def drop_active_def send_terminal_def delivery_publish_def
    delivery_settle_def Let_def split: option.splits)

lemma outcome_frame [simp]:
  "outcomes (on_cell t f a) = outcomes a" "outcomes (send_terminal sn out a) = outcomes a"
  "outcomes (delivery_publish tk a) = outcomes a" "outcomes (delivery_settle t r a) = outcomes a"
  "tickets (on_cell t f a) = tickets a" "tickets (send_terminal sn out a) = tickets a"
  "tickets (delivery_publish tk a) = tickets a" "tickets (delivery_settle t r a) = tickets a"
  "retained_tickets (on_cell t f a) = retained_tickets a" "retained_tickets (send_terminal sn out a) = retained_tickets a"
  "retained_tickets (delivery_publish tk a) = retained_tickets a" "retained_tickets (delivery_settle t r a) = retained_tickets a"
  "queue (on_cell t f a) = queue a" "queue (send_terminal sn out a) = queue a"
  "queue (delivery_publish tk a) = queue a" "queue (delivery_settle t r a) = queue a"
  "state (on_cell t f a) = state a" "state (send_terminal sn out a) = state a"
  "state (delivery_publish tk a) = state a"
  "retained_order (state (delivery_settle t r a)) = retained_order (state a)"
  "lifecycle (state (delivery_settle t r a)) = lifecycle (state a)"
  "operations (state (delivery_settle t r a)) = operations (state a)"
  "processing (state (delivery_settle t r a)) = processing (state a)"
  "latest (state (delivery_settle t r a)) = latest (state a)"
  "usage (state (delivery_settle t r a)) = usage (state a)"
  "instructions (state (delivery_settle t r a)) = instructions (state a)"
  "idle (state (delivery_settle t r a)) = idle (state a)"
  by (simp_all add: on_cell_def send_terminal_def delivery_publish_def
    delivery_settle_def Let_def on_state_def split: option.splits)

lemma publish_retired_frame [simp]:
  "live_turns (publish_retired t out adm d tk a) = live_turns a"
  "tickets (publish_retired t out adm d tk a) = tickets a"
  "outcomes (publish_retired t out adm d tk a) = outcomes a"
  "retained_tickets (publish_retired t out adm d tk a) = retained_tickets a"
  "queue (publish_retired t out adm d tk a) = queue a"
  "retained_order (state (publish_retired t out adm d tk a)) = retained_order (state a)"
  "lifecycle (state (publish_retired t out adm d tk a)) = lifecycle (state a)"
  "operations (state (publish_retired t out adm d tk a)) = operations (state a)"
  "processing (state (publish_retired t out adm d tk a)) = processing (state a)"
  "latest (state (publish_retired t out adm d tk a)) = latest (state a)"
  "usage (state (publish_retired t out adm d tk a)) = usage (state a)"
  "instructions (state (publish_retired t out adm d tk a)) = instructions (state a)"
  "idle (state (publish_retired t out adm d tk a)) = idle (state a)"
  by (cases tk; simp add: publish_retired_def live_turns_def Let_def on_state_def split: prod.split option.split; force)+

definition retained_after :: "turn_id \<Rightarrow> turn_id list \<Rightarrow> turn_id list" where
  "retained_after t ord = (let o' = ord @ [t] in if length o' > MAX_RETAINED_TURN_RESULTS then tl o' else o')"


lemma clear_runner_frame [simp]:
  "tickets (clear_runner b a) = tickets a" "outcomes (clear_runner b a) = outcomes a"
  "queue (clear_runner b a) = queue a" "live_turns (clear_runner b a) = live_turns a"
  "retained_tickets (clear_runner b a) = retained_tickets a" "cells (clear_runner b a) = cells a" "sink (clear_runner b a) = sink a"
  "lifecycle (state (clear_runner b a)) = lifecycle (state a)" "retained_order (state (clear_runner b a)) = retained_order (state a)"
  "operations (state (clear_runner b a)) = operations (state a)" "instructions (state (clear_runner b a)) = instructions (state a)"
  "idle (state (clear_runner b a)) = idle (state a)" "usage (state (clear_runner b a)) = usage (state a)"
  "latest (state (clear_runner b a)) = latest (state a)"
  "pending_publications (state (clear_runner b a)) = pending_publications (state a)"
  by (simp_all add: clear_runner_def drop_active_def settle_runner_def on_state_def live_turns_def split: option.splits)

lemma release_permission_frame [simp]:
  "tickets (release_permission t a) = tickets a" "outcomes (release_permission t a) = outcomes a"
  "items (queue (release_permission t a)) = items (queue a)" "live_turns (release_permission t a) = live_turns a"
  "retained_tickets (release_permission t a) = retained_tickets a" "cells (release_permission t a) = cells a" "sink (release_permission t a) = sink a"
  "lifecycle (state (release_permission t a)) = lifecycle (state a)" "retained_order (state (release_permission t a)) = retained_order (state a)"
  "operations (state (release_permission t a)) = operations (state a)" "instructions (state (release_permission t a)) = instructions (state a)"
  "usage (state (release_permission t a)) = usage (state a)" "latest (state (release_permission t a)) = latest (state a)"
  "processing (state (release_permission t a)) = processing (state a)"
  "pending_publications (state (release_permission t a)) = pending_publications (state a)"
  by (simp_all add: release_permission_def release_idle_permission_def Let_def on_defs live_turns_def notify_def split: option.splits)

lemma evict_retained_frame [simp]:
  "tickets (evict_retained a) = tickets a" "queue (evict_retained a) = queue a" "live_turns (evict_retained a) = live_turns a"
  "lifecycle (state (evict_retained a)) = lifecycle (state a)" "operations (state (evict_retained a)) = operations (state a)"
  "instructions (state (evict_retained a)) = instructions (state a)" "usage (state (evict_retained a)) = usage (state a)"
  "latest (state (evict_retained a)) = latest (state a)" "processing (state (evict_retained a)) = processing (state a)"
  "cells (evict_retained a) = cells a" "sink (evict_retained a) = sink a"
  "pending_publications (state (evict_retained a)) = pending_publications (state a)"
  by (simp_all add: evict_retained_def on_state_def live_turns_def split: list.splits)

lemma evict_retained_order:
  "retained_order (state (evict_retained a)) = (if length (retained_order (state a)) > MAX_RETAINED_TURN_RESULTS
      then tl (retained_order (state a)) else retained_order (state a))"
  "outcomes (evict_retained a) = (if length (retained_order (state a)) > MAX_RETAINED_TURN_RESULTS
      then hm_remove (hd (retained_order (state a))) (outcomes a) else outcomes a)"
  by (simp_all add: evict_retained_def on_state_def split: list.splits)

lemma retire_turn_present:
  "hm_contains (outcomes a) t \<Longrightarrow> retire_turn t out w s h a =
     (clear_runner s (on_state (\<lambda>s. s\<lparr>instructions := hm_remove t (instructions s)\<rparr>) a), recorded_outcome a t out, None)"
  by (simp add: retire_turn_def Let_def on_state_def)

lemma live_turns_upd [simp]:
  "live_turns (a\<lparr>outcomes := x\<rparr>) = live_turns a" "live_turns (a\<lparr>tickets := y\<rparr>) = live_turns a"
  "live_turns (a\<lparr>retained_tickets := z\<rparr>) = live_turns a" "live_turns (a\<lparr>coverage := cv\<rparr>) = live_turns a"
  by (simp_all add: live_turns_def)

lemma live_turns_on_state: "(\<And>s. operations (f s) = operations s) \<Longrightarrow> live_turns (on_state f a) = live_turns a"
  by (simp add: live_turns_def on_state_def)

lemma on_state_frame [simp]:
  "tickets (on_state f a) = tickets a" "outcomes (on_state f a) = outcomes a" "queue (on_state f a) = queue a"
  "state (on_state f a) = f (state a)" "cells (on_state f a) = cells a" "sink (on_state f a) = sink a"
  "retained_tickets (on_state f a) = retained_tickets a" "run_tokens (on_state f a) = run_tokens a"
  "actor_agent (on_state f a) = actor_agent a"
  by (simp_all add: on_state_def)

lemma retire_turn_absent:
  assumes "\<not> hm_contains (outcomes a) t" "retire_turn t out w s h a = (a', out', r)"
  shows "out' = recorded_outcome a t out" "r = Some (hm_get (tickets a) t)" "tickets a' = hm_remove t (tickets a)"
    "live_turns a' = live_turns a" "lifecycle (state a') = lifecycle (state a)"
    "retained_order (state a') = retained_after t (retained_order (state a))"
    "outcomes a' = (if length (retained_order (state a)) \<ge> MAX_RETAINED_TURN_RESULTS
       then hm_remove (hd (retained_order (state a) @ [t])) (hm_insert t out' (outcomes a)) else hm_insert t out' (outcomes a))"
    "operations (state a') = operations (state a)" "items (queue a') = items (queue a)"
  using assms
  by (auto simp add: retire_turn_def Let_def evict_retained_order retained_after_def live_turns_on_state)

lemma turns_okD:
  assumes "turns_ok c (add_mset t M) a"
  shows "t \<in> fst ` set (tickets a)" "t \<notin> fst ` set (outcomes a)" "\<not> hm_contains (outcomes a) t"
    "t \<notin># M" "t \<notin># live_turns a"
proof -
  have eq: "add_mset t (M + live_turns a) = mset (hm_keys (tickets a))" and d: "hm_wf (tickets a)"
    and dis: "set (hm_keys (tickets a)) \<inter> set (hm_keys (outcomes a)) = {}"
    using assms by (simp_all add: turns_ok_def)
  from eq show mem: "t \<in> fst ` set (tickets a)" by (metis list.set_map set_mset_mset union_single_eq_member)
  with dis show o1: "t \<notin> fst ` set (outcomes a)" by auto
  then show "\<not> hm_contains (outcomes a) t" by (simp add: hm_contains_iff)
  have "count (mset (hm_keys (tickets a))) t = 1" using d mem by (simp add: distinct_count_atmost_1)
  with eq have "count (M + live_turns a) t = 0" by (metis add_mset_eq_single count_add_mset add_left_imp_eq One_nat_def Suc_inject)
  then show "t \<notin># M" "t \<notin># live_turns a" by (simp_all add: not_in_iff)
qed

lemma retained_after_ok:
  assumes "distinct ord" "length ord \<le> MAX_RETAINED_TURN_RESULTS" "t \<notin> set ord"
  shows "distinct (retained_after t ord)" "length (retained_after t ord) \<le> MAX_RETAINED_TURN_RESULTS"
  using assms by (auto simp: retained_after_def Let_def distinct_tl)

lemma retire_turns_ok:
  assumes ok: "turns_ok c (add_mset t M) a" and r: "retire_turn t out w s h a = (a', out', r)"
  shows "turns_ok c M a'"
proof -
  note abs = retire_turn_absent [OF turns_okD(3) [OF ok] r]
  from ok have wf: "hm_wf (tickets a)" "hm_wf (outcomes a)" "distinct (retained_order (state a))"
    "set (retained_order (state a)) = set (hm_keys (outcomes a))" "length (retained_order (state a)) \<le> MAX_RETAINED_TURN_RESULTS"
    and eq: "add_mset t (M + live_turns a) = mset (hm_keys (tickets a))"
    and dis: "set (hm_keys (tickets a)) \<inter> set (hm_keys (outcomes a)) = {}"
    and cl: "c \<longrightarrow> lifecycle (state a) \<noteq> Open \<longrightarrow> live_turns a = {#}"
    by (simp_all add: turns_ok_def)
  have tn: "t \<notin> set (retained_order (state a))" using turns_okD(2) [OF ok] wf(4) by simp
  let ?o = "retained_order (state a)"
  have s1: "set (retained_order (state a')) = set (hm_keys (outcomes a'))"
  proof (cases "length ?o \<ge> MAX_RETAINED_TURN_RESULTS")
    case True
    then obtain e rest where o: "?o = e # rest" by (cases ?o) (auto simp: MAX_RETAINED_TURN_RESULTS_def)
    have "fst ` set (outcomes a) = insert e (set rest)" "e \<notin> set rest" "e \<noteq> t" using wf(3,4) o tn by auto
    then show ?thesis using True o by (auto simp: abs retained_after_def Let_def)
  next
    case False
    then show ?thesis using wf(4) by (auto simp: abs retained_after_def Let_def)
  qed
  have s2: "hm_wf (outcomes a')" using wf(2) by (simp add: abs hm_wf_insert hm_wf_remove)
  have s3: "M + live_turns a' = mset (hm_keys (tickets a'))" using keys_remove [OF wf(1), of t] eq [symmetric] by (simp add: abs)
  have "set (hm_keys (outcomes a')) \<subseteq> insert t (set (hm_keys (outcomes a)))" by (auto simp: abs split: if_splits)
  then have s4: "set (hm_keys (tickets a')) \<inter> set (hm_keys (outcomes a')) = {}" using dis by (auto simp: abs)
  show ?thesis using s1 s2 s3 s4 retained_after_ok [OF wf(3,5) tn] wf(1) cl
    by (simp add: turns_ok_def abs(3-6) hm_wf_remove)
qed

lemma retire_and_publish_ok:
  assumes ok: "turns_ok c (add_mset t M) a"
  shows "turns_ok c M (retire_and_publish t out adm d s h a)"
proof -
  obtain a' out' r where r: "retire_turn t out (adm_work adm) s h a = (a', out', r)" by (metis prod_cases3)
  from retire_turns_ok [OF ok r] have "turns_ok c M a'" .
  then show ?thesis using r by (auto simp: retire_and_publish_def turns_ok_cong [of "publish_retired _ _ _ _ _ _" a'] split: option.split)
qed

lemma finalize_ok: "turns_ok c (add_mset t M) a \<Longrightarrow> turns_ok c M (finalize_turn t out adm d a)"
  by (simp add: finalize_turn_def retire_and_publish_ok)

lemma settle_operation_ok: "turns_ok c (mset (op_turns [op]) + M) a \<Longrightarrow> turns_ok c M (settle_operation reason op a)"
  by (cases op) (simp_all add: finalize_ok Let_def)

lemma fold_settle_ok: "turns_ok c (mset (op_turns ops) + M) a \<Longrightarrow> turns_ok c M (fold (settle_operation reason) ops a)"
proof (induction ops arbitrary: a)
  case (Cons op ops)
  have "op_turns (op # ops) = op_turns [op] @ op_turns ops" by (cases op) simp_all
  with Cons.prems have "turns_ok c (mset (op_turns [op]) + (mset (op_turns ops) + M)) a" by (simp add: add.assoc)
  then show ?case using Cons.IH settle_operation_ok by simp
qed simp

lemma settle_deferred_ok: "turns_ok c (mset (op_turns ops) + M) a \<Longrightarrow> turns_ok c M (settle_deferred ops reason a)"
  unfolding settle_deferred_def by (simp add: fold_settle_ok)

lemma terminalize_one_ok: "turns_ok c (mset (queued_turns [w]) + M) a \<Longrightarrow> turns_ok c M (terminalize_one reason w a)"
  by (cases w) (simp_all add: finalize_ok)

lemma fold_terminalize_ok: "turns_ok c (mset (queued_turns ws) + M) a \<Longrightarrow> turns_ok c M (fold (terminalize_one reason) ws a)"
proof (induction ws arbitrary: a)
  case (Cons w ws)
  have "queued_turns (w # ws) = queued_turns [w] @ queued_turns ws" by (cases w) simp_all
  with Cons.prems have "turns_ok c (mset (queued_turns [w]) + (mset (queued_turns ws) + M)) a" by (simp add: add.assoc)
  then show ?case using Cons.IH terminalize_one_ok by simp
qed simp

lemma terminalize_work_ok: "turns_ok c (mset (queued_turns ws) + M) a \<Longrightarrow> turns_ok c M (terminalize_work ws reason a)"
  unfolding terminalize_work_def by (simp add: fold_terminalize_ok)

lemma turns_ok_drive [simp]: "turns_ok c M (drive_operations a) = turns_ok c M a"
  by (rule turns_ok_steady) (rule drive_steady)

text \<open>Taking turns out of the queue or the FIFO.\<close>

lemma turns_ok_take:
  assumes "turns_ok c M a" "live_turns a = N + live_turns b" "tickets b = tickets a" "outcomes b = outcomes a"
    "retained_order (state b) = retained_order (state a)" "lifecycle (state b) = lifecycle (state a)"
  shows "turns_ok c (N + M) b"
  using assms by (auto simp: turns_ok_def ac_simps)

lemma op_turns_part: "mset (op_turns (filter P xs)) + mset (op_turns (filter (\<lambda>x. \<not> P x) xs)) = mset (op_turns xs)"
proof (induction xs)
  case (Cons x xs) then show ?case by (cases x) auto
qed simp

lemma drain_operations_ok:
  assumes "drain_operations keep a = (ops, b)" "turns_ok c M a"
  shows "turns_ok c (mset (op_turns ops) + M) b"
proof (rule turns_ok_take [OF assms(2)])
  show "live_turns a = mset (op_turns ops) + live_turns b"
    using assms(1) op_turns_part [of "\<lambda>op. \<not> (is_config_barrier op \<or> keep op)" "operations (state a)"]
    by (auto simp: drain_operations_def drain_work_except_partition live_turns_def ac_simps)
qed (use assms(1) in \<open>auto simp: drain_operations_def drain_work_except_partition\<close>)

lemma queued_turns_part: "mset (queued_turns (filter P xs)) + mset (queued_turns (filter (\<lambda>x. \<not> P x) xs)) = mset (queued_turns xs)"
proof (induction xs)
  case (Cons x xs) then show ?case by (cases x) auto
qed simp

lemma drain_queue_ok:
  assumes "drain_queue keep a = (ws, b)" "turns_ok c M a"
  shows "turns_ok c (mset (queued_turns ws) + M) b"
  by (rule turns_ok_take [OF assms(2)])
    (use assms(1) queued_turns_part [of "\<lambda>w. \<not> keep w" "items (queue a)"] in
      \<open>auto simp: drain_queue_def drain_except_partition live_turns_def ac_simps\<close>)

lemma drain_all_ok:
  assumes "drain_all (queue a) = (ws, q)" "turns_ok c M a"
  shows "turns_ok c (mset (queued_turns ws) + M) (a\<lparr>queue := q\<rparr>)"
  by (rule turns_ok_take [OF assms(2)]) (use assms(1) in \<open>auto simp: drain_all_def live_turns_def\<close>)

lemma take_operation_turn_ok:
  assumes "take_operation_turn t a = (op, b)" "turns_ok c M a"
  shows "turns_ok c (mset (op_turns (case op of None \<Rightarrow> [] | Some x \<Rightarrow> [x])) + M) b"
    "op = Some x \<Longrightarrow> op_turns [x] = [t]" "op = None \<Longrightarrow> t \<notin> set (op_turns (operations (state a)))"
proof -
  obtain ops where e: "extract_first (op_is_turn t) (operations (state a)) = (op, ops)" and b: "b = on_state (\<lambda>s. s\<lparr>operations := ops\<rparr>) a"
    using assms(1) by (auto simp: take_operation_turn_def split: prod.splits)
  show 1: "op_turns [x] = [t]" if "op = Some x" using extract_first_Some [OF e [unfolded that]] by (cases x) auto
  show "t \<notin> set (op_turns (operations (state a)))" if "op = None"
    using extract_first_None [of "op_is_turn t" "operations (state a)"] e that by (force simp: op_turns_mem)
  show "turns_ok c (mset (op_turns (case op of None \<Rightarrow> [] | Some x \<Rightarrow> [x])) + M) b"
  proof (rule turns_ok_take [OF assms(2)])
    show "live_turns a = mset (op_turns (case op of None \<Rightarrow> [] | Some x \<Rightarrow> [x])) + live_turns b"
    proof (cases op)
      case None
      with e have "ops = operations (state a)" by (auto dest: extract_first_None_same)
      with None b show ?thesis by (simp add: live_turns_def)
    next
      case (Some x)
      from extract_first_Some [OF e [unfolded Some]] obtain ys zs where "operations (state a) = ys @ x # zs" "ops = ys @ zs" by auto
      with Some b show ?thesis by (cases x) (auto simp: live_turns_def)
    qed
  qed (simp_all add: b)
qed

lemma take_queued_turn_ok:
  assumes "take_queued_turn t a = (adm, b)" "turns_ok c M a"
  shows "turns_ok c (mset (queued_turns (case adm of None \<Rightarrow> [] | Some x \<Rightarrow> [TurnWork x])) + M) b"
    "adm = Some x \<Longrightarrow> adm_turn x = t" "adm = None \<Longrightarrow> b = a"
proof -
  obtain q where e: "remove_turn t (queue a) = (adm, q)" and b: "b = a\<lparr>queue := q\<rparr>"
    using assms(1) by (auto simp: take_queued_turn_def split: prod.splits)
  show 1: "adm_turn x = t" if "adm = Some x" using remove_turn_Some [OF e [unfolded that]] by auto
  show "b = a" if "adm = None" using remove_turn_None e b that by auto
  show "turns_ok c (mset (queued_turns (case adm of None \<Rightarrow> [] | Some x \<Rightarrow> [TurnWork x])) + M) b"
  proof (rule turns_ok_take [OF assms(2)])
    show "live_turns a = mset (queued_turns (case adm of None \<Rightarrow> [] | Some x \<Rightarrow> [TurnWork x])) + live_turns b"
    proof (cases adm)
      case None then show ?thesis using remove_turn_None [of t "queue a" q] e b by (simp add: live_turns_def)
    next
      case (Some x)
      from remove_turn_Some [OF e [unfolded Some]] show ?thesis using Some b by (auto simp: live_turns_def)
    qed
  qed (simp_all add: b)
qed

lemma turns_ok_on_state [simp]:
  "operations (f (state a)) = operations (state a) \<Longrightarrow> retained_order (f (state a)) = retained_order (state a) \<Longrightarrow>
   lifecycle (f (state a)) = lifecycle (state a) \<Longrightarrow> turns_ok c M (on_state f a) = turns_ok c M a"
  by (rule turns_ok_cong) (simp_all add: live_turns_def)

lemma turns_ok_upd [simp]:
  "turns_ok c M (a\<lparr>next_addr := n\<rparr>) = turns_ok c M a" "turns_ok c M (a\<lparr>run_tokens := rt\<rparr>) = turns_ok c M a"
  "turns_ok c M (a\<lparr>actor_phases := ph\<rparr>) = turns_ok c M a" "turns_ok c M (a\<lparr>failures := fl\<rparr>) = turns_ok c M a"
  "turns_ok c M (a\<lparr>woken := wk\<rparr>) = turns_ok c M a" "turns_ok c M (a\<lparr>clock := cl\<rparr>) = turns_ok c M a"
  "turns_ok c M (on_queue notify a) = turns_ok c M a" "turns_ok c M (finish_close a) = turns_ok c M a"
  "turns_ok c M (on_cell t g a) = turns_ok c M a"
  by (rule turns_ok_cong; simp add: live_turns_def on_queue_def notify_def)+

lemma turns_ok_ops [simp]:
  "turns_ok c M (cancel_prepared_where sel a) = turns_ok c M a"
  "turns_ok c M (record_cancellation rsel reason a) = turns_ok c M a"
  "turns_ok c M (fire_active act reason a) = turns_ok c M a"
  "turns_ok c M (take_and_fire_active reason a) = turns_ok c M a"
  "turns_ok c M (forget_inboxes ts a) = turns_ok c M a"
  "turns_ok c M (fail_prepared_operations err a) = turns_ok c M a"
  "turns_ok c M (drop_active a) = turns_ok c M a"
  by (simp_all add: cancel_prepared_where_def record_cancellation_def fire_active_def take_and_fire_active_def
      forget_inboxes_def fail_prepared_operations_def drop_active_def split: option.split)

lemma turns_ok_emit_discarded [simp]: "turns_ok c M (emit_discarded reason ds a) = turns_ok c M a"
  unfolding emit_discarded_def by (induction ds arbitrary: a) simp_all

lemma turns_ok_discard [simp]: "turns_ok c M (discard_deliveries reason a) = turns_ok c M a"
  by (simp add: discard_deliveries_def take_pending_def Let_def)

lemma reserve_ok:
  "reserve_presentation d a = (b, p) \<Longrightarrow> turns_ok c M b = turns_ok c M a"
  "next_operation a = (b, p) \<Longrightarrow> turns_ok c M b = turns_ok c M a"
  "adopt_presentation dd a = (b, p) \<Longrightarrow> turns_ok c M b = turns_ok c M a"
  "make_submission t input dsp nt a = (b, sub) \<Longrightarrow> turns_ok c M b = turns_ok c M a"
  by (auto simp: reserve_presentation_def next_operation_def adopt_presentation_def make_submission_def Let_def split: option.splits)

lemma push_ok: "op_turns [op] = [] \<Longrightarrow> turns_ok c M (on_state (\<lambda>s. s\<lparr>operations := operations s @ [op]\<rparr>) a) = turns_ok c M a"
  by (rule turns_ok_cong) (simp_all add: live_turns_def)

lemma push_turn_ok:
  assumes "turns_ok c (add_mset t M) a" "op_turns [op] = [t]" "lifecycle (state a) = Open"
  shows "turns_ok c M (on_state (\<lambda>s. s\<lparr>operations := operations s @ [op]\<rparr>) a)"
  using assms by (simp add: turns_ok_def live_turns_def ac_simps)

lemma admit_ticket_ok:
  assumes "turns_ok c M a" "fresh_turn (ticket_turn tk) a"
  shows "turns_ok c (add_mset (ticket_turn tk) M) (admit_ticket tk a)"
  using assms by (auto simp: turns_ok_def admit_ticket_def fresh_turn_def hm_contains_iff live_turns_def AList.update_keys distinct_update)

lemma fresh_cong: "tickets b = tickets a \<Longrightarrow> outcomes b = outcomes a \<Longrightarrow> fresh_turn t b = fresh_turn t a"
  by (simp add: fresh_turn_def)

lemma open_turn_frame:
  assumes "open_turn t input sender corr opts bytes shared a = (b, tk, pres, op)"
  shows "tickets b = hm_insert t tk (tickets a)" "ticket_turn tk = t" "op_turns [op] = [t]" "outcomes b = outcomes a"
    "live_turns b = live_turns a" "lifecycle (state b) = lifecycle (state a)" "retained_order (state b) = retained_order (state a)"
    "queue b = queue a" "operations (state b) = operations (state a)"
  using assms
  by (auto simp: open_turn_def Let_def case_prod_beta admit_ticket_def with_provenance_def new_ticket_def live_turns_def
      adopt_presentation_def reserve_presentation_def make_submission_def split: option.splits)

lemma open_turn_ok:
  assumes "open_turn t input sender corr opts bytes shared a = (b, tk, pres, op)" "turns_ok c M a" "fresh_turn t a"
  shows "turns_ok c (add_mset t M) b"
  using open_turn_frame [OF assms(1)] assms(2,3)
  by (auto simp: turns_ok_def fresh_turn_def hm_contains_iff AList.update_keys distinct_update)

lemma enter_turn_ok:
  assumes "turns_ok c M a" "fresh_turn t a" "lifecycle (state a) = Open"
    "enter_turn t input sender corr opts bytes shared a = (a', res)"
  shows "turns_ok c M a'"
proof -
  obtain b tk pres op where o: "open_turn t input sender corr opts bytes shared a = (b, tk, pres, op)" by (metis prod_cases4)
  note ok = open_turn_ok [OF o assms(1,2)] and fr = open_turn_frame [OF o]
  have sd: "turns_ok c M (settle_deferred [op] r e)" if "turns_ok c (add_mset t M) e" for r e
    using settle_deferred_ok [of c "[op]" M e r] that by (simp add: fr(3))
  show ?thesis using assms(3,4) ok sd push_turn_ok [OF ok fr(3)]
    by (auto simp: enter_turn_def o fr(6) split: option.splits if_splits)
qed

lemma admit_ok:
  assumes "admit_turn_with_options jl t input sender corr opts a = Inr (a', tk)" "turns_ok c M a" "fresh_turn t a"
  shows "turns_ok c M a'"
  using assms enter_turn_ok [OF assms(2,3)]
  by (auto simp: admit_turn_with_options_def split: option.splits if_splits prod.splits)

lemma constrain_turn_turns: "constrain_turn t k ops = Some ops' \<Longrightarrow> op_turns ops' = op_turns ops"
proof (induction ops arbitrary: ops')
  case (Cons op ops)
  then show ?case by (cases op) (auto split: if_splits)
qed simp

lemma turns_ok_set_ops: "op_turns (operations (f (state a))) = op_turns (operations (state a)) \<Longrightarrow>
   retained_order (f (state a)) = retained_order (state a) \<Longrightarrow>
   lifecycle (f (state a)) = lifecycle (state a) \<Longrightarrow> turns_ok c M (on_state f a) = turns_ok c M a"
  by (rule turns_ok_cong) (simp_all add: live_turns_def)

lemma join_ok:
  assumes "join_turn t i input corr opts bytes a = Inr (a', tk, p)" "turns_ok c M a"
  shows "turns_ok c M a'"
proof -
  obtain ops where ops: "op_turns ops = op_turns (operations (state a))"
    and a': "\<exists>g sub e a2. make_submission t input (opt_displayed opts) (opt_notice opts)
      (on_state (\<lambda>s. s\<lparr>operations := ops, processing := g s\<rparr>) a) = (a2, sub) \<and> a' = on_state (modify_inbox t e) a2"
    using assms(1) constrain_turn_turns
    by (fastforce simp: join_turn_def Let_def split: if_splits option.splits sum.splits prod.splits)
  then obtain g sub e a2 where m: "make_submission t input (opt_displayed opts) (opt_notice opts)
      (on_state (\<lambda>s. s\<lparr>operations := ops, processing := g s\<rparr>) a) = (a2, sub)" and a'': "a' = on_state (modify_inbox t e) a2" by blast
  have "turns_ok c M (on_state (\<lambda>s. s\<lparr>operations := ops, processing := g s\<rparr>) a)"
    using assms(2) by (subst turns_ok_set_ops) (simp_all add: ops)
  then show ?thesis using reserve_ok(4) [OF m] a'' by simp
qed

lemma submit_ok:
  assumes "submit_presented jl t input sender corr opts a = Inr (a', tk, p)" "turns_ok c M a" "fresh_turn t a"
  shows "turns_ok c M a'"
  using assms enter_turn_ok [OF assms(2,3)] join_ok [OF _ assms(2)]
  by (auto simp: submit_presented_def split: option.splits if_splits prod.splits)

lemma push_operation_ok: "op_turns [op] = [] \<Longrightarrow> turns_ok c M (push_operation op a) = turns_ok c M a"
  by (simp add: push_operation_def push_ok)

lemma controls_ok:
  "push_control name corr payload a = Inr a' \<Longrightarrow> turns_ok c M a' = turns_ok c M a"
  "push_compact run ins a = Inr a' \<Longrightarrow> turns_ok c M a' = turns_ok c M a"
  "initialize_config cfg a = Inr (a', g) \<Longrightarrow> turns_ok c M a' = turns_ok c M a"
  "configure_parent_delivery auto a = Inr a' \<Longrightarrow> turns_ok c M a' = turns_ok c M a"
  by (auto simp: push_control_def push_compact_def initialize_config_def configure_parent_delivery_def Let_def
      push_operation_ok reserve_ok split: if_splits prod.splits)

lemma turns_ok_push_prepared [simp]:
  "turns_ok c M (on_state (\<lambda>s. s\<lparr>operations := operations s @ [OpPrepared p], idle_pending := x\<rparr>) a) = turns_ok c M a"
  by (rule turns_ok_set_ops) simp_all

lemma reserve_operation_ok:
  "reserve_operation turn owner a = Inr (a', i, p) \<Longrightarrow> turns_ok c M a' = turns_ok c M a"
  by (auto simp: reserve_operation_def Let_def reserve_ok turns_ok_set_ops split: if_splits prod.splits option.splits)

lemma remove_ok: 
  assumes "turns_ok c M a" shows "turns_ok c M (snd (remove t a))"
proof -
  obtain deferred a1 where 1: "take_operation_turn t a = (deferred, a1)" by fastforce
  obtain queued a2 where 2: "take_queued_turn t a1 = (queued, a2)" by fastforce
  note ok1 = take_operation_turn_ok [OF 1 assms]
  note ok2 = take_queued_turn_ok [OF 2 ok1(1)]
  let ?a3 = "if deferred \<noteq> None \<or> queued \<noteq> None then on_state (\<lambda>s. s\<lparr>instructions := hm_remove t (instructions s)\<rparr>) a2 else a2"
  have ok3: "turns_ok c N ?a3 = turns_ok c N a2" for N by simp
  show ?thesis
  proof (cases deferred)
    case None
    then show ?thesis using ok1 ok2 ok3 finalize_ok 
      by (cases queued) (auto simp: remove_def 1 2 Let_def)
  next
    case (Some op)
    have "queued = None"
    proof (rule ccontr)
      assume "queued \<noteq> None" 
      then obtain x where q: "queued = Some x" by auto
      with ok2(1) ok1(2) Some ok2(2) [OF q] have "turns_ok c (add_mset t (add_mset t M)) a2" by simp
      from turns_okD(4) [OF this] show False by simp
    qed
    then show ?thesis using Some ok1 ok2 ok3 settle_deferred_ok [of c "[op]" M]
      by (auto simp: remove_def 1 2 Let_def)
  qed
qed

lemma clear_ok:
  assumes "turns_ok c M a" shows "turns_ok c M (snd (clear_except keep a))"
proof -
  define a0 where "a0 = (if keep then a else discard_deliveries User a)"
  define kept where "kept = (if keep then hm_keys (delivery_runs (state a0)) else [])"
  have ok0: "turns_ok c M a0" using assms by (simp add: a0_def)
  obtain deferred a1 where 1: "drain_operations (op_turn_of kept) a0 = (deferred, a1)" by fastforce
  obtain dr a2 where 2: "drain_queue (is_turn_of kept) a1 = (dr, a2)" by fastforce
  from drain_queue_ok [OF 2 drain_operations_ok [OF 1 ok0]]
  have "turns_ok c (mset (op_turns deferred) + (mset (queued_turns dr) + M)) a2" by (simp add: ac_simps)
  then have "turns_ok c M (terminalize_work dr User (settle_deferred deferred User
    (drive_operations (forget_inboxes (queued_turns dr @ op_turns deferred) a2))))"
    by (intro terminalize_work_ok settle_deferred_ok) simp
  moreover have "snd (clear_except keep a) = terminalize_work dr User (settle_deferred deferred User
    (drive_operations (forget_inboxes (queued_turns dr @ op_turns deferred) a2)))"
    by (simp only: clear_except_def Let_def a0_def [symmetric] kept_def [symmetric] 1 2 prod.case snd_conv)
  ultimately show ?thesis by simp
qed

lemma cancel_existing_ok:
  assumes "turns_ok c M a" shows "turns_ok c M (cancel_existing a)"
proof -
  define a3 where "a3 = record_cancellation (\<lambda>_. True) User (on_state (\<lambda>s. s\<lparr>instructions := [],
    cancellation_generation := cancellation_generation s + 1\<rparr>) (cancel_prepared_where (\<lambda>c. c \<noteq> None) a))"
  have ok3: "turns_ok c M a3" using assms by (simp add: a3_def)
  obtain deferred a4 where 4: "drain_operations (\<lambda>_. False) a3 = (deferred, a4)" by fastforce
  define a5 where "a5 = on_state (\<lambda>s. s\<lparr>active := None\<rparr>) a4"
  obtain dr q where 5: "drain_all (queue a5) = (dr, q)" by fastforce
  have "turns_ok c (mset (op_turns deferred) + M) a5" using drain_operations_ok [OF 4 ok3] by (simp add: a5_def)
  from drain_all_ok [OF 5 this] have "turns_ok c (mset (op_turns deferred) + (mset (queued_turns dr) + M)) (a5\<lparr>queue := q\<rparr>)"
    by (simp add: ac_simps)
  then have ok7: "turns_ok c (mset (queued_turns dr) + M) (settle_deferred deferred User (drive_operations (a5\<lparr>queue := q\<rparr>)))"
    by (intro settle_deferred_ok) simp
  have "cancel_existing a = terminalize_work dr User (case active (state a4) of
      None \<Rightarrow> settle_deferred deferred User (drive_operations (a5\<lparr>queue := q\<rparr>))
    | Some x \<Rightarrow> fire_active x User (settle_deferred deferred User (drive_operations (a5\<lparr>queue := q\<rparr>))))"
    by (simp only: cancel_existing_def Let_def a3_def [symmetric] 4 a5_def [symmetric] 5 prod.case)
  then show ?thesis using ok7 terminalize_work_ok by (auto split: option.split)
qed

lemma settle_turn_cancel_ok:
  assumes "turns_ok c (mset (op_turns deferred) + (mset (queued_turns (case queued of None \<Rightarrow> [] | Some x \<Rightarrow> [TurnWork x])) + M)) a"
  shows "turns_ok c M (settle_turn_cancel deferred queued reason a)"
  using settle_deferred_ok [OF assms, of reason] finalize_ok
  by (cases queued) (auto simp: settle_turn_cancel_def Let_def)

lemma capture_turn_cancel_ok:
  assumes "capture_turn_cancel t reason a = Inr (b, deferred, queued)" "turns_ok c M a"
  shows "turns_ok c (mset (op_turns deferred) + (mset (queued_turns (case queued of None \<Rightarrow> [] | Some x \<Rightarrow> [TurnWork x])) + M)) b"
proof -
  obtain a3 a4 op a5 where 4: "take_queued_turn t a3 = (queued, a4)" and 5: "take_operation_turn t a4 = (op, a5)"
    and d: "deferred = (case op of None \<Rightarrow> [] | Some x \<Rightarrow> [x])" and b: "b = drive_operations a5" and 3: "turns_ok c M a3"
    using assms by (auto simp: capture_turn_cancel_def Let_def split: if_splits prod.splits option.splits)
  show ?thesis using take_operation_turn_ok(1) [OF 5 take_queued_turn_ok(1) [OF 4 3]] by (simp add: b d)
qed

lemma cancel_turn_ok: "cancel_turn_for t reason a = Inr a' \<Longrightarrow> turns_ok c M a \<Longrightarrow> turns_ok c M a'"
  by (auto simp: cancel_turn_for_def intro!: settle_turn_cancel_ok dest: capture_turn_cancel_ok split: sum.splits)

lemma take_queued_turns_ok:
  "take_queued_turns ts a = (ws, b) \<Longrightarrow> turns_ok c M a \<Longrightarrow> turns_ok c (mset (queued_turns ws) + M) b"
proof (induction ts arbitrary: a b ws M)
  case (Cons t ts)
  obtain adm a1 where 1: "take_queued_turn t a = (adm, a1)" by fastforce
  obtain ws' a2 where 2: "take_queued_turns ts a1 = (ws', a2)" by fastforce
  from Cons.IH [OF 2 take_queued_turn_ok(1) [OF 1 Cons.prems(2)]] Cons.prems(1) show ?case
    by (cases adm) (auto simp: 1 2 ac_simps)
qed simp

lemma remove_correlation_ok:
  assumes "remove_correlation k (queue a) = (ws, q)" "turns_ok c M a"
  shows "turns_ok c (mset (queued_turns ws) + M) (a\<lparr>queue := q\<rparr>)"
proof (rule turns_ok_take [OF assms(2)])
  show "live_turns a = mset (queued_turns ws) + live_turns (a\<lparr>queue := q\<rparr>)"
    using assms(1) remove_correlation_partition [of k "queue a"] queued_turns_part [of "\<lambda>w. correlation_of w = Some k" "items (queue a)"]
    by (auto simp: live_turns_def ac_simps)
qed simp_all

lemma partition_ops_ok:
  assumes "turns_ok c M a"
  shows "turns_ok c (mset (op_turns (filter P (operations (state a)))) + M)
    (on_state (\<lambda>s. s\<lparr>operations := filter (\<lambda>x. \<not> P x) (operations (state a))\<rparr>) a)"
proof (rule turns_ok_take [OF assms])
  show "live_turns a = mset (op_turns (filter P (operations (state a)))) +
    live_turns (on_state (\<lambda>s. s\<lparr>operations := filter (\<lambda>x. \<not> P x) (operations (state a))\<rparr>) a)"
    using op_turns_part [of P "operations (state a)"] by (simp add: live_turns_def ac_simps)
qed simp_all

lemma capture_correlation_ok:
  assumes "capture_correlation_cancel k reason a = (b, t, deferred, matched)" "turns_ok c M a"
  shows "turns_ok c (mset (op_turns deferred) + (mset (queued_turns matched) + M)) b"
proof -
  define a1 where "a1 = cancel_prepared_where (\<lambda>x. x = Some k) a"
  define ma where "ma = active_matches_correlation k (state a1)"
  define act where "act = (case status (state a1) of Running t \<Rightarrow> if ma then Some t else None | Idle \<Rightarrow> None)"
  define a2 where "a2 = (if ma then take_and_fire_active reason a1 else a1)"
  define mp where "mp = (case processing (state a2) of None \<Rightarrow> False | Some p \<Rightarrow> k \<in> set (proc_correlations p))"
  define a3 where "a3 = (if mp then record_cancellation (\<lambda>_. True) reason a2 else a2)"
  define joined where "joined = List.map_filter (\<lambda>(t, i). if k \<in> set (inbox_correlations i) then Some t else None) (instructions (state a3))"
  have ok3: "turns_ok c M a3" using assms(2) by (simp add: a3_def a2_def a1_def)
  obtain m1 q where 1: "remove_correlation k (queue a3) = (m1, q)" by fastforce
  obtain m2 a4 where 2: "take_queued_turns joined (a3\<lparr>queue := q\<rparr>) = (m2, a4)" by fastforce
  let ?P = "op_matches_correlation k joined"
  from take_queued_turns_ok [OF 2 remove_correlation_ok [OF 1 ok3]]
  have ok4: "turns_ok c (mset (queued_turns (m1 @ m2)) + M) a4" by (simp add: ac_simps)
  define ts where "ts = (case act of None \<Rightarrow> [] | Some t \<Rightarrow> [t]) @ (case (if mp then Option.bind (processing (state a4)) proc_turn else None) of None \<Rightarrow> [] | Some t \<Rightarrow> [t])
                 @ queued_turns (m1 @ m2) @ op_turns (filter ?P (operations (state a4)))"
  define a6 where "a6 = drive_operations (on_state (\<lambda>s. s\<lparr>operations := filter (\<lambda>x. \<not> ?P x) (operations (state a4))\<rparr>) (forget_inboxes ts a4))"
  have "deferred = filter ?P (operations (state a4)) \<and> matched = m1 @ m2 \<and> (b = a6 \<or> b = on_state (\<lambda>s. s\<lparr>cancelled_correlations := hm_insert k reason (cancelled_correlations s)\<rparr>) a6)"
    using assms(1)
    by (simp only: capture_correlation_cancel_def Let_def a1_def [symmetric] ma_def [symmetric] act_def [symmetric] a2_def [symmetric]
      mp_def [symmetric] a3_def [symmetric] joined_def [symmetric] 1 2 prod.case partition_filter_conv o_def not_not ts_def [symmetric] a6_def [symmetric])
      (auto split: if_splits)
  moreover have "turns_ok c (mset (op_turns (filter ?P (operations (state a4)))) + (mset (queued_turns (m1 @ m2)) + M)) a6"
    using partition_ops_ok [of c "mset (queued_turns (m1 @ m2)) + M" "forget_inboxes ts a4" ?P] ok4
    by (simp add: a6_def forget_inboxes_def)
  ultimately show ?thesis by auto
qed

lemma cancel_correlation_ok: "turns_ok c M a \<Longrightarrow> turns_ok c M (cancel_correlation k reason a)"
  by (auto simp: cancel_correlation_def settle_correlation_cancel_def intro!: terminalize_work_ok settle_deferred_ok
    dest: capture_correlation_ok split: prod.split)

lemma capture_local_ok:
  assumes "capture_local_cancel displayed a = (b, k)" "turns_ok c M a"
  shows "turns_ok c (mset (op_turns (local_deferred k)) + (mset (queued_turns (local_drained k)) + M)) b"
proof -
  define a1 where "a1 = cancel_prepared_where (\<lambda>c. c \<noteq> None) a"
  define a2 where "a2 = record_cancellation (\<lambda>p. proc_turn p \<noteq> None) User a1"
  define runs where "runs = hm_keys (delivery_runs (state a2))"
  define a3 where "a3 = on_state (\<lambda>s. s\<lparr>instructions := hm_retain (\<lambda>t. t \<in> set runs) (instructions s),
                 cancellation_generation := cancellation_generation s + 1\<rparr>) a2"
  obtain deferred a4 where 4: "drain_operations (\<lambda>op. case op of
             OpTurn d \<Rightarrow> ticket_turn (top_ticket d) \<in> set runs
           | OpPrepared p \<Rightarrow> prep_turn p = None
           | _ \<Rightarrow> True) a3 = (deferred, a4)" by fastforce
  define a5 where "a5 = (if running_turn (state a1) \<noteq> None then take_and_fire_active User a4 else a4)"
  obtain dr a6 where 6: "drain_queue (\<lambda>w. \<not> (case w of TurnWork adm \<Rightarrow> adm_turn adm \<notin> set runs | _ \<Rightarrow> False)) a5 = (dr, a6)" by fastforce
  obtain a8 fence where 8: "reserve_presentation displayed (drive_operations a6) = (a8, fence)" by fastforce
  have eq: "capture_local_cancel displayed a = (a8, \<lparr>local_turn = running_turn (state a1), local_fence = fence, local_deferred = deferred, local_drained = dr\<rparr>)"
    by (simp only: capture_local_cancel_def Let_def a1_def [symmetric] a2_def [symmetric] runs_def [symmetric] a3_def [symmetric] 4
      a5_def [symmetric] 6 8 prod.case)
  have "turns_ok c M a3" using assms(2) by (simp add: a3_def a2_def a1_def)
  from drain_operations_ok [OF 4 this] have "turns_ok c (mset (op_turns deferred) + M) a5" by (simp add: a5_def)
  from drain_queue_ok [OF 6 this] show ?thesis using assms(1) eq reserve_ok(1) [OF 8] by (auto simp: ac_simps)
qed

lemma local_cancel_ok: "capture_local_cancel displayed a = (b, k) \<Longrightarrow> turns_ok c M a \<Longrightarrow> turns_ok c M (settle_local_cancel k b)"
  unfolding settle_local_cancel_def by (intro terminalize_work_ok settle_deferred_ok) (rule capture_local_ok)

text \<open>Closure: the closed clause is re-established once the queue is drained.\<close>

lemma turns_ok_weaken: "turns_ok c M a \<Longrightarrow> turns_ok False M a"
  by (simp add: turns_ok_def)

lemma turns_ok_life: "turns_ok False M (on_state (\<lambda>s. s\<lparr>lifecycle := l, close_pending := x, preparing := y\<rparr>) a) = turns_ok False M a"
  by (simp add: turns_ok_def live_turns_def)

lemma end_prepared_publication_frame [simp]:
  "operations (end_prepared_publication i s) = operations s" "retained_order (end_prepared_publication i s) = retained_order s"
  "lifecycle (end_prepared_publication i s) = lifecycle s" "instructions (end_prepared_publication i s) = instructions s"
  by (simp_all add: end_prepared_publication_def split: option.splits)

lemma lifecycle_frame [simp]:
  "lifecycle (state (take_and_fire_active r a)) = lifecycle (state a)"
  "lifecycle (state (fail_prepared_operations e a)) = lifecycle (state a)"
  "lifecycle (state (fire_active x r a)) = lifecycle (state a)"
  "lifecycle (state (cancel_prepared_where sel a)) = lifecycle (state a)"
  "lifecycle (state (record_cancellation rsel r a)) = lifecycle (state a)"
  by (simp_all add: take_and_fire_active_def fail_prepared_operations_def fire_active_def cancel_prepared_where_def
    record_cancellation_def split: option.split)

lemma clear_operations_ok:
  assumes "turns_ok c M a"
  shows "turns_ok c (mset (op_turns (operations (state a))) + M) (on_state (\<lambda>s. s\<lparr>operations := []\<rparr>) a)"
  by (rule turns_ok_take [OF assms]) (simp_all add: live_turns_def)

lemma capture_close_ok:
  assumes "capture_close sd a = (b, Some k)" "turns_ok c M a"
  shows "turns_ok False (mset (op_turns (cut_deferred k)) + M) b" "operations (state b) = []" "lifecycle (state b) \<noteq> Open"
proof -
  define life where "life = (if sd then Shutdown else Closed)"
  define reason where "reason = (if sd then Shutdown_reason else Closed_reason)"
  define a3 where "a3 = on_state (\<lambda>s. s\<lparr>instructions := []\<rparr>) (cancel_prepared_where (\<lambda>_. True) (record_cancellation (\<lambda>_. True) reason a))"
  obtain ds a4 where 4: "take_pending a3 = (ds, a4)" by fastforce
  define a5 where "a5 = on_state (\<lambda>s. s\<lparr>lifecycle := life, close_pending := True, preparing := None\<rparr>) a4"
  define a6 where "a6 = fail_prepared_operations (lifecycle_error life) a5"
  define edit where "edit = Option.bind (idle (state a6)) idle_edit"
  define a7 where "a7 = on_state (\<lambda>s. case edit of None \<Rightarrow> s\<lparr>cancelled_correlations := [], idle := None\<rparr>
     | Some e \<Rightarrow> end_prepared_publication (edit_prepared e) (s\<lparr>cancelled_correlations := [], idle := None\<rparr>)) a6"
  define a8 where "a8 = take_and_fire_active (case Option.bind (processing (state a7)) proc_reason of Some r \<Rightarrow> r | None \<Rightarrow> reason) a7"
  have eq: "capture_close sd a = (if lifecycle (state a) \<noteq> Open then (a, None) else
      (on_state (\<lambda>s. s\<lparr>operations := []\<rparr>) a8, Some \<lparr>cut_deferred = operations (state a8), cut_deliveries = ds,
         cut_reason = reason, cut_edit = edit, cut_lifecycle = life\<rparr>))"
    by (simp only: capture_close_def Let_def life_def [symmetric] reason_def [symmetric] a3_def [symmetric] 4 a5_def [symmetric]
      a6_def [symmetric] edit_def [symmetric] a7_def [symmetric] a8_def [symmetric] prod.case)
  have l: "life \<noteq> Open" by (simp add: life_def)
  have "turns_ok False M a3" using turns_ok_weaken [OF assms(2)] by (simp add: a3_def)
  then have "turns_ok False M a4" using 4 by (auto simp: take_pending_def)
  then have "turns_ok False M a5" by (simp add: a5_def turns_ok_life)
  then have "turns_ok False M a8" by (auto simp: a8_def a7_def a6_def split: option.split)
  from clear_operations_ok [OF this] have ok: "turns_ok False (mset (op_turns (operations (state a8))) + M) (on_state (\<lambda>s. s\<lparr>operations := []\<rparr>) a8)" .
  have l8: "lifecycle (state a8) = life" by (simp add: a8_def a7_def a6_def a5_def split: option.split)
  from ok l l8
  show "turns_ok False (mset (op_turns (cut_deferred k)) + M) b" "operations (state b) = []" "lifecycle (state b) \<noteq> Open"
    using assms(1) unfolding eq by (auto split: if_splits)
qed

text \<open>Retiring turns touches neither the queue nor the FIFO.\<close>

lemma retire_and_publish_queue [simp]:
  "items (queue (retire_and_publish t out adm d s h a)) = items (queue a)"
  "operations (state (retire_and_publish t out adm d s h a)) = operations (state a)"
  "lifecycle (state (retire_and_publish t out adm d s h a)) = lifecycle (state a)"
proof -
  obtain a' out' r where r: "retire_turn t out (adm_work adm) s h a = (a', out', r)" by (metis prod_cases3)
  have "items (queue a') = items (queue a)" "operations (state a') = operations (state a)" "lifecycle (state a') = lifecycle (state a)"
    using retire_turn_absent(5,8,9) [OF _ r] retire_turn_present [of a t out "adm_work adm" s h] r
    by (cases "hm_contains (outcomes a) t"; simp; fail)+
  then show "items (queue (retire_and_publish t out adm d s h a)) = items (queue a)"
    "operations (state (retire_and_publish t out adm d s h a)) = operations (state a)"
    "lifecycle (state (retire_and_publish t out adm d s h a)) = lifecycle (state a)"
    using r by (auto simp: retire_and_publish_def split: option.split)
qed

lemma settle_operation_queue [simp]:
  "items (queue (settle_operation r op a)) = items (queue a)"
  "operations (state (settle_operation r op a)) = operations (state a)"
  "lifecycle (state (settle_operation r op a)) = lifecycle (state a)"
  by (cases op; simp add: finalize_turn_def prepared_fail_def cancel_publication_def Let_def split: option.split)+

lemma terminalize_one_queue [simp]:
  "items (queue (terminalize_one r w a)) = items (queue a)"
  "operations (state (terminalize_one r w a)) = operations (state a)"
  "lifecycle (state (terminalize_one r w a)) = lifecycle (state a)"
  by (cases w; simp add: finalize_turn_def)+

lemma fold_frame: "(\<And>x a. f (g x a) = f a) \<Longrightarrow> f (fold g xs a) = f a"
  by (induction xs arbitrary: a) simp_all

lemma settle_deferred_queue [simp]:
  "items (queue (settle_deferred ops r a)) = items (queue a)"
  "operations (state (settle_deferred ops r a)) = operations (state a)"
  "lifecycle (state (settle_deferred ops r a)) = lifecycle (state a)"
  by (simp_all add: settle_deferred_def fold_frame [where f = "\<lambda>a. items (queue a)"]
    fold_frame [where f = "\<lambda>a. operations (state a)"] fold_frame [where f = "\<lambda>a. lifecycle (state a)"])

lemma terminalize_work_queue [simp]:
  "items (queue (terminalize_work ws r a)) = items (queue a)"
  "operations (state (terminalize_work ws r a)) = operations (state a)"
  "lifecycle (state (terminalize_work ws r a)) = lifecycle (state a)"
  by (simp_all add: terminalize_work_def fold_frame [where f = "\<lambda>a. items (queue a)"]
    fold_frame [where f = "\<lambda>a. operations (state a)"] fold_frame [where f = "\<lambda>a. lifecycle (state a)"])

lemma emit_discarded_queue [simp]:
  "items (queue (emit_discarded r ds a)) = items (queue a)"
  "operations (state (emit_discarded r ds a)) = operations (state a)"
  "lifecycle (state (emit_discarded r ds a)) = lifecycle (state a)"
  by (simp_all add: emit_discarded_def fold_frame [where f = "\<lambda>a. items (queue a)"]
    fold_frame [where f = "\<lambda>a. operations (state a)"] fold_frame [where f = "\<lambda>a. lifecycle (state a)"])

lemma settle_close_ok:
  assumes "turns_ok False (mset (op_turns (cut_deferred k)) + M) a" "operations (state a) = []"
  shows "turns_ok c M (settle_close k a)" "items (queue (settle_close k a)) = []" "operations (state (settle_close k a)) = []"
    "lifecycle (state (settle_close k a)) = lifecycle (state a)"
proof -
  define a2 where "a2 = settle_deferred (cut_deferred k) (cut_reason k) (emit_discarded (cut_reason k) (cut_deliveries k) a)"
  have 2: "turns_ok False M a2" unfolding a2_def using assms(1) by (intro settle_deferred_ok) simp
  obtain dr q where d: "drain_all (queue a2) = (dr, q)" by fastforce
  have q: "items q = []" using d by (auto simp: drain_all_def)
  define a3 where "a3 = terminalize_work dr (cut_reason k) (a2\<lparr>queue := q\<rparr>)"
  have 3: "turns_ok False M a3" unfolding a3_def by (intro terminalize_work_ok drain_all_ok [OF d 2])
  have e: "items (queue a3) = []" "operations (state a3) = []" "lifecycle (state a3) = lifecycle (state a)"
    using q assms(2) by (simp_all add: a3_def a2_def)
  have eq: "settle_close k a = (on_queue notify (finish_close a3))\<lparr>woken := True\<rparr>"
    by (simp only: settle_close_def Let_def a2_def [symmetric] d a3_def [symmetric] prod.case)
  have "turns_ok c M a3" using 3 e by (simp add: turns_ok_def live_turns_def)
  then show "turns_ok c M (settle_close k a)" by (simp add: eq)
  show "items (queue (settle_close k a)) = []" "operations (state (settle_close k a)) = []"
    "lifecycle (state (settle_close k a)) = lifecycle (state a)" using e by (simp_all add: eq on_queue_def notify_def)
qed

lemma close_ok:
  assumes "turns_ok c M a"
  shows "turns_ok c M (close a)" "turns_ok c M (shutdown a)"
proof -
  have "turns_ok c M (case capture_close sd a of (a', None) \<Rightarrow> a' | (a', Some k) \<Rightarrow> settle_close k a')" for sd
  proof (cases "capture_close sd a")
    case (Pair b k)
    show ?thesis
    proof (cases k)
      case None
      with Pair have "b = a" by (auto simp: capture_close_def Let_def split: if_splits prod.splits)
      with Pair None assms show ?thesis by simp
    next
      case (Some k')
      with settle_close_ok(1) [OF capture_close_ok(1,2) [OF Pair [unfolded Some] assms]] Pair show ?thesis by simp
    qed
  qed
  then show "turns_ok c M (close a)" "turns_ok c M (shutdown a)" by (simp_all add: close_def shutdown_def)
qed

lemma idle_ok:
  "prepare_idle a = Inr (b, owner) \<Longrightarrow> turns_ok c M b = turns_ok c M a"
  "allow_turn ow tk a = Inr b \<Longrightarrow> turns_ok c M b = turns_ok c M a"
  "turns_ok c M (idle_guard_drop ow a) = turns_ok c M a"
  by (auto simp: prepare_idle_def allow_turn_def idle_guard_drop_def Let_def split: if_splits option.splits)

lemma delivery_ok_turns:
  "admit_delivery rd d a = Inr b \<Longrightarrow> turns_ok c M b = turns_ok c M a"
  "turns_ok c M (snd (withdraw_child_delivery t a)) = turns_ok c M a"
  by (auto simp: admit_delivery_def withdraw_child_delivery_def Let_def split: if_splits option.splits prod.splits)

lemma replace_operation_turns: "replace_operation_input t input ops = Some ops' \<Longrightarrow> op_turns ops' = op_turns ops"
proof (induction ops arbitrary: ops')
  case (Cons op ops)
  then show ?case by (cases op) (auto split: if_splits)
qed simp

lemma replace_first_turns: "replace_first_input t input ws = Some ws' \<Longrightarrow> queued_turns ws' = queued_turns ws"
proof (induction ws arbitrary: ws')
  case (Cons w ws)
  then show ?case by (cases w) (auto split: if_splits option.splits)
qed simp

lemma replace_waiting_ok: "replace_waiting_input t input a = Some b \<Longrightarrow> turns_ok c M b = turns_ok c M a"
  by (rule turns_ok_cong)
    (auto simp: replace_waiting_input_def replace_turn_input_def live_turns_def dest: replace_operation_turns replace_first_turns
      split: option.splits)

lemma remove_submission_ok: "turns_ok c M a \<Longrightarrow> turns_ok c M (snd (remove_submission i a))"
  by (auto simp: remove_submission_def Let_def replace_waiting_ok intro!: settle_turn_cancel_ok dest: capture_turn_cancel_ok
      split: option.split prod.split list.split sum.split)

lemma remove_compact_ok: "turns_ok c M (snd (remove_pending_compact i a)) = turns_ok c M a"
proof (cases "extract_first (\<lambda>op. op_id op = i \<and> is_OpCompact op) (operations (state a))")
  case (Pair op rest)
  show ?thesis
  proof (cases op)
    case None
    obtain e q where q: "remove_compact i (queue a) = (e, q)" by fastforce
    have "queued_turns (items q) = queued_turns (items (queue a))"
    proof (cases "extract_first (is_compact i) (items (queue a))")
      case p: (Pair w ws)
      show ?thesis
      proof (cases w)
        case None with p q show ?thesis by (auto simp: remove_compact_def dest: extract_first_None_same)
      next
        case (Some x)
        from extract_first_Some [OF p [unfolded Some]] obtain us vs where "items (queue a) = us @ x # vs" "ws = us @ vs" "is_compact i x" by auto
        with Some p q show ?thesis by (cases x) (auto simp: remove_compact_def)
      qed
    qed
    then have "turns_ok c M (a\<lparr>queue := q\<rparr>) = turns_ok c M a" by (intro turns_ok_cong) (simp_all add: live_turns_def)
    then show ?thesis using Pair None q by (auto simp: remove_pending_compact_def)
  next
    case (Some x)
    from extract_first_Some [OF Pair [unfolded Some]] obtain us vs where "operations (state a) = us @ x # vs" "rest = us @ vs" "is_OpCompact x" by auto
    then have "turns_ok c M (on_state (\<lambda>s. s\<lparr>operations := rest\<rparr>) a) = turns_ok c M a"
      by (intro turns_ok_set_ops) (cases x; simp)+
    then show ?thesis using Pair Some by (simp add: remove_pending_compact_def)
  qed
qed

lemma turns_ok_materialize:
  "turns_ok c M (materialize op snap (pop_operation a)) = turns_ok c M a" if "operations (state a) = op # rest"
  by (rule turns_ok_steady) (use materialize_head [OF that] that in \<open>simp add: pop_operation_def on_state_def\<close>)

lemma turns_ok_pop_turn:
  assumes "turns_ok c M a" "operations (state a) = op # rest"
  shows "turns_ok c (mset (op_turns [op]) + M) (pop_operation a)"
  by (rule turns_ok_take [OF assms(1)]) (use assms(2) in \<open>cases op; simp add: pop_operation_def live_turns_def\<close>)+

lemma fail_admission_ok:
  "turns_ok c (mset (op_turns [op]) + M) a \<Longrightarrow> turns_ok c M (fail_admission op diag retry a)"
  by (cases op) (simp_all add: fail_admission_def Let_def finalize_ok)

lemma head_isD: "head_is i a \<Longrightarrow> \<exists>op rest. operations (state a) = op # rest"
  by (auto simp: head_is_def split: list.splits)

lemma set_preparing_frame [simp]: "operations (state (set_preparing p a)) = operations (state a)"
  "lifecycle (state (set_preparing p a)) = lifecycle (state a)"
  by (simp_all add: set_preparing_def)

lemma constraint_done_ok:
  assumes "turns_ok c M a" shows "turns_ok c M (constraint_done i pol k a)"
proof (cases "preparing (state a) \<noteq> Some i \<or> \<not> head_is i a")
  case True then show ?thesis using assms by (simp add: constraint_done_def)
next
  case False
  then obtain op rest where o: "operations (state a) = op # rest" by (auto dest: head_isD)
  have 1: "turns_ok c M (on_state (\<lambda>s. s\<lparr>operations := case operations s of OpTurn t # rest \<Rightarrow> OpTurn (t\<lparr>top_constraint := None\<rparr>) # rest
                        | ops \<Rightarrow> ops\<rparr>) (set_preparing None a))"
    using assms o by (subst turns_ok_set_ops) (auto split: actor_operation.splits)
  have 2: "turns_ok c (mset (op_turns [op]) + M) (on_state (\<lambda>s. s\<lparr>operations := tl (operations s), pending_publications := pending_publications s + 1\<rparr>)
     (set_preparing None a))"
    by (rule turns_ok_take [OF assms]) (use o in \<open>cases op; simp add: live_turns_def set_preparing_def\<close>)+
  from 1 fail_admission_ok [OF 2] o False show ?thesis
    by (auto simp: constraint_done_def Let_def split: option.splits)
qed

lemma preparation_done_ok:
  assumes "turns_ok c M a" shows "turns_ok c M (preparation_done i pol res a)"
proof (cases "lifecycle (state a) \<noteq> Open \<or> preparing (state a) \<noteq> Some i \<or> \<not> head_is i a")
  case True then show ?thesis using assms by (simp add: preparation_done_def)
next
  case False
  then obtain op rest where o: "operations (state a) = op # rest" by (auto dest: head_isD)
  have o': "operations (state (set_preparing None a)) = op # rest" using o by simp
  have 2: "turns_ok c (mset (op_turns [op]) + M) (pop_operation (set_preparing None a))"
    by (rule turns_ok_pop_turn [OF _ o']) (simp add: assms)
  show ?thesis using False o assms turns_ok_materialize [OF o'] fail_admission_ok [of c op M "drive_operations (on_state (\<lambda>s. s\<lparr>pending_publications := pending_publications s + 1\<rparr>) (pop_operation (set_preparing None a)))"] 2
    by (auto simp: preparation_done_def Let_def split: option.splits)
qed

lemma prepared_done_ok:
  assumes "turns_ok c M a" "operations (state a) = OpPrepared p # rest" shows "turns_ok c M (prepared_done i cfg res a)"
proof -
  have 1: "turns_ok c M (on_state (\<lambda>s. s\<lparr>operations := ops\<rparr>) (set_preparing None a))" if "op_turns ops = op_turns rest" for ops
    using assms that by (subst turns_ok_set_ops) auto
  show ?thesis using assms 1 by (auto simp: prepared_done_def Let_def split: sum.split)
qed

text \<open>Steps of the running turn.\<close>

lemma turns_ok_fold_emit [simp]: "turns_ok c M (fold (\<lambda>(sub, _). emit (EvSubmissionConsumed sub)) xs a) = turns_ok c M a"
  by (rule fold_frame) (auto split: prod.split)

lemma commit_loop_ok: "turns_ok c M (snd (commit_loop t el n b order a)) = turns_ok c M a"
proof (induction order arbitrary: n b a)
  case (Cons i order)
  then show ?case by (cases el) (simp_all add: Let_def case_prod_beta split: option.split)
qed simp

lemma turn_step_ok: "turn_step t cg pg a b \<Longrightarrow> turns_ok c M b = turns_ok c M a"
proof (induction rule: turn_step.induct)
  case (turn_interrupt a)
  have "turns_ok c M (a\<lparr>queue := snd (pop_interrupt pg (queue a))\<rparr>) = turns_ok c M a"
    by (rule turns_ok_cong) (simp_all add: live_turns_def pop_interrupt_keeps_turns)
  then show ?case by (auto simp: poll_interrupt_def split: prod.split)
qed (auto simp: take_initial_submission_def drain_presented_instructions_def instructions_submitted_def commit_deliveries_def
  commit_loop_ok close_admission_def inbox_close_def allocate_processing_presentation_def Let_def split: option.splits prod.splits if_splits)

lemma schedule_ok:
  assumes "turns_ok c M a" "fresh_turn t a" shows "turns_ok c M (schedule t a)"
proof (cases "schedule_ready a")
  case True
  let ?tk = "new_ticket t (actor_identity a)"
  define batch where "batch = within_bytes (deliveries (state (admit_ticket ?tk a))) 0 (take MAX_DELIVERY_BATCH (delivery_order (state (admit_ticket ?tk a))))"
  define a2 where "a2 = on_state (\<lambda>s. s\<lparr>deliveries := map (\<lambda>(i, p). (i, p\<lparr>arrived_during_run := False\<rparr>)) (deliveries s),
                   delivery_runs := hm_insert t batch (delivery_runs s)\<rparr>) (admit_ticket ?tk a)"
  obtain a3 i where 3: "next_operation a2 = (a3, i)" by fastforce
  obtain a4 pres where 4: "reserve_presentation 0 a3 = (a4, pres)" by fastforce
  define op where "op = OpTurn \<lparr>top_id = i, top_input = new_input [] [], top_sender = None,
             top_correlation = ''child-results'', top_ticket = ?tk, top_constraint = None,
             top_identity = \<lparr>work_agent = actor_agent a4, work_kind = TurnKind i t, presentation_id = pres\<rparr>\<rparr>"
  have eq: "schedule t a = push_operation op a4" using True
    by (simp only: schedule_def Let_def batch_def [symmetric] a2_def [symmetric] 3 4 prod.case op_def) simp
  have tk: "ticket_turn ?tk = t" by (simp add: new_ticket_def)
  have "turns_ok c (add_mset t M) a2" using admit_ticket_ok [of c M a ?tk] assms by (simp add: a2_def tk)
  then have 5: "turns_ok c (add_mset t M) a4" using reserve_ok(2) [OF 3] reserve_ok(1) [OF 4] by simp
  have "lifecycle (state a4) = Open" using True 3 4
    by (auto simp: schedule_ready_def a2_def next_operation_def reserve_presentation_def Let_def admit_ticket_def)
  from push_turn_ok [OF 5 _ this, of op] show ?thesis by (simp add: eq push_operation_def op_def tk)
qed (use assms in \<open>simp add: schedule_def\<close>)

lemma take_work_ok:
  assumes "pop_work a = (w, b)" "turns_ok c M a"
  shows "turns_ok c (mset (queued_turns (case w of None \<Rightarrow> [] | Some x \<Rightarrow> [x])) + M) b"
proof (cases "idle (state a)")
  case None
  obtain w' q where q: "q_pop (queue a) = (w', q)" by fastforce
  have "turns_ok c (mset (queued_turns (case w' of None \<Rightarrow> [] | Some x \<Rightarrow> [x])) + M) (a\<lparr>queue := q\<rparr>)"
  proof (rule turns_ok_take [OF assms(2)])
    show "live_turns a = mset (queued_turns (case w' of None \<Rightarrow> [] | Some x \<Rightarrow> [x])) + live_turns (a\<lparr>queue := q\<rparr>)"
      using q by (auto simp: q_pop_def live_turns_def queued_turns_def List.map_filter_def split: list.splits)
  qed simp_all
  then show ?thesis using None q assms(1) by (auto simp: pop_work_def)
next
  case (Some r)
  obtain adm a1 where t: "take_queued_turn (the (permission r)) a = (adm, a1)" by fastforce
  show ?thesis using assms Some t take_queued_turn_ok [OF t assms(2)]
    by (auto simp: pop_work_def split: option.splits)
qed

lemma host_step_ok: "host_step a b \<Longrightarrow> turns_ok c M a \<Longrightarrow> turns_ok c M b"
proof (induction rule: host_step.induct)
  case (host_prepared_done a p rest i cfg res)
  then show ?case by (blast intro: prepared_done_ok)
qed (simp_all add: admit_ok submit_ok controls_ok reserve_operation_ok remove_ok clear_ok cancel_existing_ok cancel_turn_ok
  cancel_correlation_ok local_cancel_ok close_ok idle_ok delivery_ok_turns remove_submission_ok remove_compact_ok
  constraint_done_ok preparation_done_ok observe_presentation_def)

lemma runner_pop_ok:
  assumes "runner_pop t a = (w, b)" "turns_ok c M a" "fresh_turn t a"
  shows "turns_ok c (mset (queued_turns (case w of None \<Rightarrow> [] | Some x \<Rightarrow> [fst x])) + M) b"
proof -
  obtain w' a1 where 1: "pop_work (schedule t a) = (w', a1)" by fastforce
  have ok: "turns_ok c (mset (queued_turns (case w' of None \<Rightarrow> [] | Some x \<Rightarrow> [x])) + M) a1"
    by (rule take_work_ok [OF 1 schedule_ok [OF assms(2,3)]])
  have r: "operations (retire_superseded_precancels v s) = operations s" "retained_order (retire_superseded_precancels v s) = retained_order s"
    "lifecycle (retire_superseded_precancels v s) = lifecycle s" for v s
    by (simp_all add: retire_superseded_precancels_def split: actor_work.split option.split)
  show ?thesis using assms(1) ok 1 by (auto simp: runner_pop_def Let_def r split: option.splits)
qed

lemma settle_turn_ok: "turns_ok c (add_mset (adm_turn adm) M) a \<Longrightarrow> turns_ok c M (settle_turn adm out d a)"
  by (simp add: settle_turn_def settle_and_finalize_turn_def retire_and_publish_ok)

lemma clear_runner_ok [simp]: "turns_ok c M (clear_runner b a) = turns_ok c M a"
  by (rule turns_ok_cong) simp_all

lemma withdraw_turn_ok:
  assumes "turns_ok c (add_mset (adm_turn adm) M) a" shows "turns_ok c M (withdraw_turn adm a)"
proof -
  let ?t = "adm_turn adm"
  have "turns_ok c M (a\<lparr>tickets := hm_remove ?t (tickets a)\<rparr>)"
  proof -
    have eq: "mset (hm_keys (tickets a)) = add_mset ?t (M + live_turns a)" using assms by (simp add: turns_ok_def)
    have "M + live_turns a = mset (hm_keys (hm_remove ?t (tickets a)))"
      using assms keys_remove [of "tickets a" ?t] by (simp only: eq turns_ok_def add_mset_remove_trivial)
    then show ?thesis using assms by (auto simp: turns_ok_def hm_wf_remove)
  qed
  then show ?thesis
    by (simp add: withdraw_turn_def Let_def) (erule turns_ok_cong [THEN iffD1, rotated -1]; simp add: live_turns_def)
qed

lemma install_active_ok: "install_active corr a = (b, tok) \<Longrightarrow> turns_ok c M b = turns_ok c M a"
  by (auto simp: install_active_def Let_def)

lemma runner_ok:
  assumes "turns_ok c (add_mset (adm_turn adm) M) a"
  shows "begin_turn adm g a = (b, None) \<Longrightarrow> turns_ok c M b"
    and "begin_turn adm g a = (b, Some tok) \<Longrightarrow> turns_ok c (add_mset (adm_turn adm) M) b"
    and "check_started adm tok a = (b, False) \<Longrightarrow> turns_ok c M b"
    and "check_started adm tok a = (b, True) \<Longrightarrow> turns_ok c (add_mset (adm_turn adm) M) b"
    and "launch_turn adm tok a = (b, False) \<Longrightarrow> turns_ok c M b"
    and "launch_turn adm tok a = (b, True) \<Longrightarrow> turns_ok c (add_mset (adm_turn adm) M) b"
    and "turns_ok c M (refuse_managed adm reason a)" "turns_ok c M (finish_turn adm res a)"
  using assms settle_turn_ok [OF assms] withdraw_turn_ok [OF assms] retire_and_publish_ok [OF assms] install_active_ok
  by (auto simp: begin_turn_def check_started_def launch_turn_def refuse_managed_def finish_turn_def Let_def
    settle_and_finalize_turn_def split: if_splits option.splits prod.splits backend_result.splits)

lemma control_ok:
  "begin_control cw a = (b, tok) \<Longrightarrow> turns_ok c M b = turns_ok c M a"
  "begin_compact kw a = (b, tok) \<Longrightarrow> turns_ok c M b = turns_ok c M a"
  "turns_ok c M (finish_control k res a) = turns_ok c M a"
  "turns_ok c M (finish_compact k res a) = turns_ok c M a"
  "turns_ok c M (runner_settled ident a) = turns_ok c M a" "turns_ok c M (runner_drained a) = turns_ok c M a"
  "turns_ok c M (consume_wake a) = turns_ok c M a"
proof -
  show "begin_control cw a = (b, tok) \<Longrightarrow> turns_ok c M b = turns_ok c M a"
    "begin_compact kw a = (b, tok) \<Longrightarrow> turns_ok c M b = turns_ok c M a"
    by (auto simp: begin_control_def begin_compact_def install_active_ok split: if_splits prod.splits)
  show "turns_ok c M (consume_wake a) = turns_ok c M a"
    by (rule turns_ok_cong) (simp_all add: consume_wake_def on_queue_def live_turns_def)
qed (simp_all add: finish_control_def finish_compact_def clear_active_def runner_settled_def runner_drained_def
  split: option.split backend_result.split)

lemma actor_step_ok:
  "actor_step s s' \<Longrightarrow> turns_ok c (mset (pc_turns (snd s))) (fst s) \<Longrightarrow> turns_ok c (mset (pc_turns (snd s'))) (fst s')"
proof (induction rule: actor_step.induct)
  case (step_pop t a w g a')
  then show ?case using runner_pop_ok [OF step_pop(2), of c "{#}"] by (cases w) auto
next
  case (step_drained t a a')
  then show ?case using runner_pop_ok [OF step_drained(2), of c "{#}"] by (auto simp: control_ok)
next
  case (step_begin_turn adm g a a' tok)
  then show ?case using runner_ok(1,2) [of c adm "{#}" a g a'] by (cases tok) auto
next
  case (step_check adm tok a a' go)
  then show ?case using runner_ok(3,4) [of c adm "{#}" a tok a'] by (cases go) auto
next
  case (step_launch adm tok a a' go)
  then show ?case using runner_ok(5,6) [of c adm "{#}" a tok a'] by (cases go) auto
next
  case (step_host a a' pc) then show ?case using host_step_ok by auto
next
  case (step_in_turn adm cg a a' tok) then show ?case using turn_step_ok [OF step_in_turn(1)] by simp
next
  case (step_begin_control cw a a' tok g) then show ?case using control_ok(1) [OF step_begin_control(1)] by (cases tok) auto
next
  case (step_begin_compact kw a a' tok g) then show ?case using control_ok(2) [OF step_begin_compact(1)] by (cases tok) auto
qed (simp_all add: runner_ok(7,8) control_ok(3-7))

lemma reachable_ok: "reachable s \<Longrightarrow> turns_ok True (mset (pc_turns (snd s))) (fst s)"
proof (induction rule: reachable.induct)
  case (reach_spawn agent ident child parent cfg prep n)
  then show ?case by (simp add: spawn_actor_def Let_def turns_ok_def live_turns_def idle_state_def new_queue_def)
next
  case (reach_step s s')
  then show ?case by (blast intro: actor_step_ok)
qed

end
