(* ===== verification/Actor_Order.thy ===== *)
theory Actor_Order
  imports Actor_Accounting
begin

text \<open>
  The order in which an actor serves its turns. The turns that wait stand in one line: the queue of
  materialised work, followed by the FIFO of operations. Driving the FIFO moves operations from the
  second part to the first and never reorders, drops or duplicates a turn; an admitted turn joins the
  end of the line.
\<close>

section \<open>Driving keeps the order\<close>

definition waiting_line :: "actor \<Rightarrow> turn_id list" where
  "waiting_line a = queued_turns (items (queue a)) @ op_turns (operations (state a))"

lemma line_simps [simp]:
  "waiting_line (set_preparing p a) = waiting_line a" "waiting_line (spawn_task k a) = waiting_line a"
  "waiting_line (publish_idle a) = waiting_line a" "waiting_line (prepared_fail pp er a) = waiting_line a"
  "waiting_line (a\<lparr>next_addr := n\<rparr>) = waiting_line a" "waiting_line (on_state (modify_inbox t f) a) = waiting_line a"
  by (simp_all add: waiting_line_def drive_defs prepared_fail_def cancel_publication_def modify_inbox_def Let_def split: option.splits)

lemma line_set_ops: "op_turns ops = op_turns (operations (state a)) \<Longrightarrow> waiting_line (on_state (\<lambda>s. s\<lparr>operations := ops\<rparr>) a) = waiting_line a"
  by (simp add: waiting_line_def)

lemma line_materialize:
  "operations (state b) = op # rest \<Longrightarrow> waiting_line (materialize op snap (on_state (\<lambda>s. s\<lparr>operations := rest\<rparr>) b)) = waiting_line b"
  by (cases op) (simp_all add: waiting_line_def materialize.simps materialize_turn_def Let_def on_defs q_push_def notify_def
    make_submission_def modify_inbox_def split: option.splits)

lemma drive_line: "waiting_line (drive_operations a) = waiting_line a" "waiting_line (drive_loop b) = waiting_line b"
proof (induction a and b rule: drive_operations_drive_loop.induct)
  case (1 a)
  then show ?case by (subst drive_operations.simps) (simp add: waiting_line_def)
next
  case (2 a)
  have ops': "operations (modify_inbox t f s) = operations s" for t f s
    by (simp add: modify_inbox_def)
  show ?case
  proof (cases "operations (state a)")
    case Nil then show ?thesis by (simp add: drive_loop.simps [of a])
  next
    case (Cons op rest)
    show ?thesis
    proof (cases op)
      case (OpPrepared p)
      then show ?thesis using Cons 2(1)[OF _ Cons OpPrepared]
        by (subst drive_loop.simps) (auto simp: Let_def line_set_ops split: option.split sum.split)
    next
      case (OpTurn op)
      then show ?thesis using Cons 2(3)[OF _ Cons OpTurn]
        by (subst drive_loop.simps) (auto simp: Let_def line_materialize ops' split: option.split)
    next
      case (OpControl i c)
      then show ?thesis using Cons 2(2)[OF _ Cons OpControl]
        by (subst drive_loop.simps) (auto simp: Let_def line_materialize)
    next
      case (OpCompact i r ins pres)
      then show ?thesis using Cons 2(4)[OF _ Cons OpCompact]
        by (subst drive_loop.simps) (auto simp: Let_def line_materialize)
    qed
  qed
qed

text \<open>An admitted turn joins the end of the line.\<close>

lemma enter_turn_line:
  assumes "enter_turn t input sender corr opts bytes shared a = (b, x)" "hm_get (cancelled_correlations (state a)) corr = None"
  shows "waiting_line b = waiting_line a @ [t]"
proof -
  obtain c tk pres op where o: "open_turn t input sender corr opts bytes shared a = (c, tk, pres, op)" by (metis prod_cases4)
  have "cancelled_correlations (state c) = cancelled_correlations (state a)"
    using o by (auto simp: open_turn_def Let_def case_prod_beta admit_ticket_def adopt_presentation_def reserve_presentation_def
        make_submission_def split: option.splits)
  then have "waiting_line b = waiting_line (on_state (\<lambda>s. s\<lparr>operations := operations s @ [op]\<rparr>) c)"
    using assms by (auto simp: enter_turn_def o drive_line)
  then show ?thesis using open_turn_frame [OF o] by (simp add: waiting_line_def)
qed

end
