(* ===== verification/Actor_Lifecycle.thy ===== *)
theory Actor_Lifecycle
  imports Actor_Accounting
begin

text \<open>
  The lifecycle of an actor and the number of its live tickets, over all interleavings of host and
  runner: the first terminal lifecycle is final, at most \<open>MAX_RETAINED_TURN_RESULTS\<close> turns are
  unsettled at any time, and a runner that exited has left no unsettled turn behind.
\<close>

definition calm :: "actor \<Rightarrow> actor \<Rightarrow> bool" where
  "calm a b \<longleftrightarrow> lifecycle (state b) = lifecycle (state a) \<and> length (tickets b) \<le> length (tickets a)"

lemma calm_refl [simp, intro]: "calm a a" by (simp add: calm_def)
lemma calm_trans [trans]: "calm a b \<Longrightarrow> calm b c \<Longrightarrow> calm a c" by (auto simp: calm_def)
lemma calmI: "lifecycle (state b) = lifecycle (state a) \<Longrightarrow> tickets b = tickets a \<Longrightarrow> calm a b" by (simp add: calm_def)

lemma calm_simps [simp]:
  "calm a (publish_idle b) = calm a b" "calm a (finish_close b) = calm a b" "calm a (emit e b) = calm a b"
  "calm a (drive_operations b) = calm a b" "calm a (cancel_prepared_where sel b) = calm a b"
  "calm a (record_cancellation rsel r b) = calm a b" "calm a (fire_active x r b) = calm a b"
  "calm a (take_and_fire_active r b) = calm a b" "calm a (forget_inboxes ts b) = calm a b"
  "calm a (set_preparing i b) = calm a b" "calm a (on_queue notify b) = calm a b"
  "calm a (b\<lparr>woken := wk\<rparr>) = calm a b" "calm a (b\<lparr>queue := q\<rparr>) = calm a b"
  "calm a (b\<lparr>next_addr := na\<rparr>) = calm a b"
  "calm a (prepared_fail p er b) = calm a b" "calm a (materialize op snap b) = calm a b"
  "calm a (clear_runner cr b) = calm a b"
  by (simp_all add: calm_def cancel_prepared_where_def record_cancellation_def fire_active_def take_and_fire_active_def
    forget_inboxes_def set_preparing_def on_queue_def prepared_fail_def cancel_publication_def Let_def split: option.split)

lemma calm_on_state [simp]: "lifecycle (f (state b)) = lifecycle (state b) \<Longrightarrow> calm a (on_state f b) = calm a b"
  by (simp add: calm_def)

lemma calm_modify [simp]: "calm a (on_state (modify_inbox t f) b) = calm a b"
  by (simp add: calm_def modify_inbox_def)

lemma calm_left [simp]: "calm (on_state (modify_inbox t f) a) b = calm a b"
  by (simp add: calm_def modify_inbox_def)

lemma calm_emit_discarded [simp]: "calm a (emit_discarded r ds b) = calm a b"
  unfolding emit_discarded_def by (rule fold_frame) simp

lemma calm_discard [simp]: "calm a (discard_deliveries r b) = calm a b"
  by (simp add: discard_deliveries_def take_pending_def Let_def)

lemma calm_retire: "calm b (retire_and_publish t out adm d s h b)"
proof -
  obtain a' out' r where r: "retire_turn t out (adm_work adm) s h b = (a', out', r)" by (metis prod_cases3)
  have "length (tickets a') \<le> length (tickets b)"
    using retire_turn_absent(3) [OF _ r] retire_turn_present [of b t out "adm_work adm" s h] r length_hm_remove_le [of t "tickets b"]
    by (cases "hm_contains (outcomes b) t") auto
  then have "length (tickets (retire_and_publish t out adm d s h b)) \<le> length (tickets b)"
    using r by (auto simp: retire_and_publish_def split: option.split)
  then show ?thesis by (simp add: calm_def)
qed

lemma calm_finalize: "calm a b \<Longrightarrow> calm a (finalize_turn t out adm d b)"
  unfolding finalize_turn_def by (blast intro: calm_trans calm_retire)

lemma calm_fold: "(\<And>x b. calm b (g x b)) \<Longrightarrow> calm a b \<Longrightarrow> calm a (fold g xs b)"
  by (induction xs arbitrary: b) (simp_all, meson calm_trans)

lemma calm_settle_deferred: "calm a b \<Longrightarrow> calm a (settle_deferred ops r b)"
proof -
  have "calm b (settle_operation r x b)" for x b by (cases x) (simp_all add: calm_finalize Let_def)
  then show "calm a b \<Longrightarrow> calm a (settle_deferred ops r b)"
    unfolding settle_deferred_def by (auto intro: calm_trans calm_fold)
qed

lemma calm_terminalize: "calm a b \<Longrightarrow> calm a (terminalize_work ws r b)"
proof -
  have "calm b (terminalize_one r x b)" for x b by (cases x) (simp_all add: calm_finalize)
  then show "calm a b \<Longrightarrow> calm a (terminalize_work ws r b)"
    unfolding terminalize_work_def by (auto intro: calm_trans calm_fold)
qed

lemmas calm_settles = calm_settle_deferred calm_terminalize calm_finalize

lemma calm_pieces [simp]:
  "calm a (snd (drain_operations keep b)) = calm a b" "calm a (snd (drain_queue keepq b)) = calm a b"
  "calm a (snd (take_operation_turn t b)) = calm a b" "calm a (snd (take_queued_turn t b)) = calm a b"
  "calm a (fst (reserve_presentation d b)) = calm a b" "calm a (fst (next_operation b)) = calm a b"
  "calm a (fst (make_submission t input dsp nt b)) = calm a b" "calm a (fst (adopt_presentation dd b)) = calm a b"
  "calm a (fst (install_active corr b)) = calm a b" "calm a (snd (take_pending b)) = calm a b"
  by (simp_all add: calm_def drain_operations_def drain_work_except_partition drain_queue_def take_operation_turn_def take_queued_turn_def
    reserve_presentation_def next_operation_def make_submission_def adopt_presentation_def install_active_def take_pending_def Let_def
    split: prod.split option.split)

lemma calm_take_queued_turns [simp]: "calm a (snd (take_queued_turns ts b)) = calm a b"
  by (induction ts arbitrary: b) (simp_all add: case_prod_beta Let_def)

lemma calm_remove: "calm a (snd (remove t a))"
  by (simp add: remove_def Let_def case_prod_beta calm_settles split: option.split)

lemma calm_clear: "calm a (snd (clear_except keep a))"
  by (simp add: clear_except_def Let_def case_prod_beta calm_settles)

lemma calm_cancel_existing: "calm a (cancel_existing a)"
  by (simp add: cancel_existing_def Let_def case_prod_beta calm_settles split: option.split)

lemma calm_capture_turn: "capture_turn_cancel t r a = Inr (b, x) \<Longrightarrow> calm a b"
  by (auto simp: capture_turn_cancel_def Let_def case_prod_beta split: if_splits)

lemma calm_settle_turn_cancel: "calm a b \<Longrightarrow> calm a (settle_turn_cancel d q r b)"
  by (simp add: settle_turn_cancel_def Let_def calm_settles split: option.split)

lemma calm_cancel_turn: "cancel_turn_for t reason a = Inr b \<Longrightarrow> calm a b"
  by (auto simp: cancel_turn_for_def intro: calm_settle_turn_cancel calm_capture_turn split: sum.splits)

lemma calm_correlation: "calm a (cancel_correlation k r a)"
  by (simp add: cancel_correlation_def capture_correlation_cancel_def settle_correlation_cancel_def Let_def case_prod_beta calm_settles)

lemma calm_local: "capture_local_cancel d a = (b, k) \<Longrightarrow> calm a (settle_local_cancel k b)"
  by (auto simp: capture_local_cancel_def settle_local_cancel_def Let_def case_prod_beta calm_settles)

lemma calm_join: "join_turn t i input corr opts bytes a = Inr (b, x) \<Longrightarrow> calm a b"
  by (auto simp: join_turn_def Let_def case_prod_beta split: if_splits option.splits sum.splits)

lemma calm_controls:
  "push_control name corr payload a = Inr b \<Longrightarrow> calm a b" "push_compact run ins a = Inr b \<Longrightarrow> calm a b"
  "initialize_config cfg a = Inr (b, g) \<Longrightarrow> calm a b" "configure_parent_delivery auto a = Inr b \<Longrightarrow> calm a b"
  "reserve_operation turn owner a = Inr (b, x) \<Longrightarrow> calm a b"
  by (auto simp: push_control_def push_compact_def initialize_config_def configure_parent_delivery_def reserve_operation_def push_operation_def
    Let_def case_prod_beta split: if_splits option.splits)

lemma calm_idle:
  "prepare_idle a = Inr (b, ow) \<Longrightarrow> calm a b" "allow_turn ow tk a = Inr b \<Longrightarrow> calm a b" "calm a (idle_guard_drop ow a)"
  by (auto simp: prepare_idle_def allow_turn_def idle_guard_drop_def Let_def split: if_splits option.splits)

lemma calm_delivery:
  "admit_delivery rd d a = Inr b \<Longrightarrow> calm a b" "calm a (snd (withdraw_child_delivery t a))"
  by (auto simp: admit_delivery_def withdraw_child_delivery_def Let_def case_prod_beta split: if_splits option.splits)

lemma calm_replace: "replace_waiting_input t input a = Some b \<Longrightarrow> calm c b = calm c a"
  by (auto simp: replace_waiting_input_def split: option.splits)

lemma calm_remove_submission: "calm a (snd (remove_submission i a))"
  by (auto simp: remove_submission_def Let_def calm_replace intro!: calm_settle_turn_cancel dest: calm_capture_turn
      split: option.split prod.split list.split sum.split intro: calm_trans)

lemma calm_remove_compact: "calm a (snd (remove_pending_compact i a))"
  by (simp add: remove_pending_compact_def case_prod_beta split: option.split prod.split)

lemma calm_fail: "calm a b \<Longrightarrow> calm a (fail_admission op diag retry b)"
  by (cases op) (simp_all add: fail_admission_def Let_def calm_finalize)

lemma calm_done:
  "calm a (constraint_done i pol k a)" "calm a (preparation_done i pol snap a)" "calm a (prepared_done i cfg res a)"
  by (auto simp: constraint_done_def preparation_done_def prepared_done_def Let_def pop_operation_def intro!: calm_fail
    split: option.split sum.split list.split actor_operation.split)

text \<open>The first terminal lifecycle wins, and the number of live tickets stays bounded.\<close>

definition tame :: "actor \<Rightarrow> actor \<Rightarrow> bool" where
  "tame a b \<longleftrightarrow> (lifecycle (state b) = lifecycle (state a) \<or> lifecycle (state a) = Open)
     \<and> (length (tickets a) \<le> MAX_RETAINED_TURN_RESULTS \<longrightarrow> length (tickets b) \<le> MAX_RETAINED_TURN_RESULTS)"

lemma calm_tame: "calm a b \<Longrightarrow> tame a b"
  by (auto simp: calm_def tame_def)

lemma length_insert_le: "length (hm_insert k v m) \<le> Suc (length m)"
  by (induction m) auto

lemma enter_turn_grows:
  assumes "enter_turn t input sender corr opts bytes shared a = (b, x)"
  shows "lifecycle (state b) = lifecycle (state a)" "length (tickets b) \<le> Suc (length (tickets a))"
proof -
  obtain e tk pres op where o: "open_turn t input sender corr opts bytes shared a = (e, tk, pres, op)" by (metis prod_cases4)
  have "calm e b" using assms by (auto simp: enter_turn_def o calm_settles split: option.splits if_splits)
  then show "lifecycle (state b) = lifecycle (state a)" "length (tickets b) \<le> Suc (length (tickets a))"
    using open_turn_frame(1,6) [OF o] length_insert_le [of t tk "tickets a"] by (simp_all add: calm_def)
qed

lemma tame_enter:
  "enter_turn t input sender corr opts bytes shared a = (b, x) \<Longrightarrow> length (tickets a) < MAX_RETAINED_TURN_RESULTS \<Longrightarrow> tame a b"
  using enter_turn_grows [of t input sender corr opts bytes shared a b x] by (auto simp: tame_def)

lemma tame_admit: "admit_turn_with_options jl t input sender corr opts a = Inr (b, x) \<Longrightarrow> tame a b"
  by (auto simp: admit_turn_with_options_def intro: tame_enter split: option.splits if_splits prod.splits)

lemma tame_submit: "submit_presented jl t input sender corr opts a = Inr (b, x) \<Longrightarrow> tame a b"
  by (auto simp: submit_presented_def intro: tame_enter calm_tame calm_join split: option.splits if_splits prod.splits)

lemma settle_close_calm: "calm a (settle_close k a)"
  by (simp add: settle_close_def Let_def case_prod_beta calm_settles)

lemma capture_close_tickets: "tickets (fst (capture_close sd a)) = tickets a"
  by (simp add: capture_close_def Let_def case_prod_beta take_and_fire_active_def fire_active_def fail_prepared_operations_def
    take_pending_def cancel_prepared_where_def record_cancellation_def split: option.split)

lemma capture_close_cases:
  obtains (already) "capture_close sd a = (a, None)" "lifecycle (state a) \<noteq> Open"
  | (captured) b k where "capture_close sd a = (b, Some k)" "lifecycle (state a) = Open"
proof (cases "lifecycle (state a) = Open")
  case True
  then have "snd (capture_close sd a) \<noteq> None" by (simp add: capture_close_def Let_def case_prod_beta)
  then obtain b k where "capture_close sd a = (b, Some k)" by (cases "capture_close sd a") auto
  with True captured show ?thesis by blast
next
  case False
  with already show ?thesis by (simp add: capture_close_def Let_def)
qed

lemma tame_close: "tame a (close a)" "tame a (shutdown a)"
proof -
  have "tame a (case capture_close sd a of (a', None) \<Rightarrow> a' | (a', Some k) \<Rightarrow> settle_close k a')" for sd
  proof (cases rule: capture_close_cases [of sd a])
    case (captured b k)
    with capture_close_tickets [of sd a] settle_close_calm [of b k] show ?thesis by (auto simp: tame_def calm_def)
  qed (simp add: tame_def)
  then show "tame a (close a)" "tame a (shutdown a)" by (simp_all add: close_def shutdown_def)
qed

lemma calm_observe: "calm a (observe_presentation p a)"
  by (simp add: observe_presentation_def)

lemmas calm_host = calm_controls calm_remove calm_clear calm_cancel_existing calm_cancel_turn
      calm_correlation calm_local calm_idle calm_delivery calm_remove_submission calm_remove_compact calm_done calm_observe

lemma host_step_tame: "host_step a b \<Longrightarrow> tame a b"
  by (cases rule: host_step.cases, assumption)
    (blast intro: tame_admit tame_submit tame_close calm_tame calm_host)+

text \<open>The steps of the runner and of the running turn.\<close>

lemma calm_commit_loop [simp]: "calm c (snd (commit_loop t el n b order a)) = calm c a"
proof (induction order arbitrary: n b a)
  case (Cons i order)
  then show ?case by (cases el) (simp_all add: Let_def case_prod_beta split: option.split)
qed simp

lemma calm_fold_emit [simp]: "calm c (fold (\<lambda>(sub, _). emit (EvSubmissionConsumed sub)) xs a) = calm c a"
  by (rule fold_frame) (auto split: prod.split)

lemma calm_turn_step: "turn_step t cg pg a b \<Longrightarrow> calm a b"
  by (induction rule: turn_step.induct)
    (auto simp: take_initial_submission_def drain_presented_instructions_def instructions_submitted_def commit_deliveries_def
      close_admission_def inbox_close_def allocate_processing_presentation_def poll_interrupt_def Let_def case_prod_beta
      split: option.splits if_splits)

lemma tame_schedule:
  assumes "turns_ok c {#} a"
  shows "lifecycle (state (schedule t a)) = lifecycle (state a)" "length (tickets a) \<le> MAX_RETAINED_TURN_RESULTS \<Longrightarrow> length (tickets (schedule t a)) \<le> MAX_RETAINED_TURN_RESULTS"
proof -
  show "lifecycle (state (schedule t a)) = lifecycle (state a)"
    by (simp add: schedule_def push_operation_def next_operation_def reserve_presentation_def admit_ticket_def Let_def)
  assume "length (tickets a) \<le> MAX_RETAINED_TURN_RESULTS"
  show "length (tickets (schedule t a)) \<le> MAX_RETAINED_TURN_RESULTS"
  proof (cases "schedule_ready a")
    case True
    then have "live_turns a = {#}"
      by (auto simp: schedule_ready_def has_pending_work_def live_turns_def q_is_empty_def)
    then have "tickets a = []" using assms by (simp add: turns_ok_def)
    then show ?thesis
      by (simp add: schedule_def push_operation_def next_operation_def reserve_presentation_def admit_ticket_def Let_def
        MAX_RETAINED_TURN_RESULTS_def)
  qed (simp add: schedule_def \<open>length (tickets a) \<le> MAX_RETAINED_TURN_RESULTS\<close>)
qed

lemma calm_pop_work: "calm a (snd (pop_work a))"
  by (auto simp: pop_work_def case_prod_beta Let_def split: option.split prod.split)

lemma tame_runner_pop:
  assumes "turns_ok c {#} a" shows "tame a (snd (runner_pop t a))"
proof -
  have r: "lifecycle (retire_superseded_precancels v s) = lifecycle s" for v s
    by (simp add: retire_superseded_precancels_def split: actor_work.split option.split)
  have "calm (schedule t a) (snd (runner_pop t a))"
    using calm_pop_work [of "schedule t a"] by (auto simp: runner_pop_def Let_def case_prod_beta r split: option.split prod.split)
  with tame_schedule [OF assms, of t] show ?thesis by (auto simp: tame_def calm_def)
qed

lemma calm_settle_turn: "calm a (settle_turn adm out d a)"
  by (simp add: settle_turn_def settle_and_finalize_turn_def calm_retire)

lemma calm_withdraw: "calm a (withdraw_turn adm a)"
  by (simp add: withdraw_turn_def Let_def calm_def on_cell_def length_hm_remove_le)

lemma calm_runner:
  "calm a (fst (begin_turn adm g a))" "calm a (fst (check_started adm tok a))" "calm a (fst (launch_turn adm tok a))"
  "calm a (refuse_managed adm r a)" "calm a (finish_turn adm res a)"
  using calm_settle_turn calm_withdraw calm_retire
  by (auto simp: begin_turn_def check_started_def launch_turn_def refuse_managed_def finish_turn_def settle_and_finalize_turn_def
    install_active_def Let_def case_prod_beta on_cell_def calm_def split: option.split backend_result.split)

lemma calm_control:
  "calm a (fst (begin_control w a))" "calm a (fst (begin_compact k a))" "calm a (finish_control tok r a)" "calm a (finish_compact tok r a)"
  "calm a (runner_settled i a)" "calm a (runner_drained a)" "calm a (consume_wake a)"
  by (auto simp: begin_control_def begin_compact_def finish_control_def finish_compact_def clear_active_def drop_active_def
    runner_settled_def runner_drained_def consume_wake_def on_queue_def install_active_def Let_def case_prod_beta calm_def split: option.split backend_result.split)

lemma calm_eqs:
  "begin_turn adm g a = (b, x) \<Longrightarrow> calm a b" "check_started adm tok a = (b, go) \<Longrightarrow> calm a b"
  "launch_turn adm tok a = (b, go) \<Longrightarrow> calm a b" "begin_control w a = (b, x) \<Longrightarrow> calm a b" "begin_compact kw a = (b, x) \<Longrightarrow> calm a b"
  by (metis calm_runner(1-3) calm_control(1,2) fst_conv)+

lemma actor_step_tame:
  assumes "actor_step (a, pc) (b, pc')" "turns_ok c (mset (pc_turns pc)) a"
  shows "tame a b \<and> (pc' = Exited \<longrightarrow> pc = Exited \<or> lifecycle (state b) \<noteq> Open)"
  using assms
proof (cases rule: actor_step.cases)
  case (step_pop t w g)
  then show ?thesis using tame_runner_pop [of c a t] assms(2) by auto
next
  case (step_drained t a')
  then have "tame a a'" using tame_runner_pop [of c a t] assms(2) by auto
  then show ?thesis using step_drained calm_control(6) [of a'] by (auto simp: tame_def calm_def)
next
  case step_woken
  then show ?thesis using calm_control(7) [of a] by (auto simp: tame_def calm_def)
next
  case step_tick
  then show ?thesis by (simp add: tame_def)
qed (auto simp: calm_runner calm_control intro: calm_tame calm_eqs calm_turn_step host_step_tame split: option.splits if_splits)

lemma reachable_bounds:
  assumes "reachable s"
  shows "length (tickets (fst s)) \<le> MAX_RETAINED_TURN_RESULTS \<and> (snd s = Exited \<longrightarrow> lifecycle (state (fst s)) \<noteq> Open)"
  using assms
proof (induction rule: reachable.induct)
  case (reach_spawn agent ident child parent cfg prep n)
  then show ?case by (simp add: spawn_actor_def Let_def)
next
  case (reach_step s s')
  then show ?case using actor_step_tame [of "fst s" "snd s" "fst s'" "snd s'" True] reachable_ok [of s]
    by (auto simp: tame_def)
qed

lemma exited_no_turns:
  assumes "reachable (a, Exited)"
  shows "lifecycle (state a) \<noteq> Open" "tickets a = []"
  using reachable_ok [OF assms] reachable_bounds [OF assms] by (auto simp: turns_ok_def)
end
