(* ===== verification/Actor_Settling.thy ===== *)
theory Actor_Settling
  imports Actor_Order Actor_Lifecycle
begin

text \<open>
  What the holder of a ticket reads. In every reachable state the ticket of a live turn is
  unresolved; closing, shutting down and cancelling an actor resolve the ticket of every waiting turn
  to a cancellation with the reason of the call, and touch no other ticket.
\<close>

section \<open>Settling resolves tickets\<close>

text \<open>What a ticket holder reads.\<close>

definition ticket_outcome_of :: "actor \<Rightarrow> turn_id \<Rightarrow> turn_outcome option" where
  "ticket_outcome_of a t = peek (cells a t)"

lemma cell_simps [simp]:
  "cells (delivery_publish tk a) = cells a" "cells (send_terminal sn out a) = cells a" "cells (delivery_settle t r a) = cells a"
  "cells (prepared_fail p e a) = cells a"
  by (simp_all add: delivery_publish_def send_terminal_def delivery_settle_def prepared_fail_def cancel_publication_def Let_def
    split: option.split)

lemma publish_retired_cells:
  assumes "peek (cells a t) = None"
  shows "peek (cells (publish_retired t out adm d (Some tk) a) t) = Some out"
    "t' \<noteq> t \<Longrightarrow> cells (publish_retired t out adm d tko a) t' = cells a t'"
  using assms
  by (auto simp: publish_retired_def Let_def case_prod_beta on_cell_def ticket_defs take_terminal_sender_def split: option.split)

lemma retire_turn_cells: "cells (fst (retire_turn t out w s h a)) = cells a"
  by (simp add: retire_turn_def Let_def)

lemma finalize_cells:
  assumes "turns_ok c (add_mset t M) a" "peek (cells a t) = None"
  shows "peek (cells (finalize_turn t out adm d a) t) = Some (recorded_outcome a t out)"
    "t' \<noteq> t \<Longrightarrow> cells (finalize_turn t out adm d a) t' = cells a t'"
proof -
  obtain a' out' r where r: "retire_turn t out (adm_work adm) False False a = (a', out', r)" by (metis prod_cases3)
  note abs = retire_turn_absent [OF turns_okD(3) [OF assms(1)] r]
  have "t \<in> fst ` set (tickets a)" by (rule turns_okD(1) [OF assms(1)])
  then obtain tk where tk: "hm_get (tickets a) t = Some tk" by (metis (no_types) hm_contains_def hm_contains_iff not_None_eq)
  have cells: "cells a' = cells a" using retire_turn_cells [of t out "adm_work adm" False False a] r by simp
  have eq: "finalize_turn t out adm d a = publish_retired t out' adm d (Some tk) a'"
    by (simp add: finalize_turn_def retire_and_publish_def r abs(2) tk)
  have "peek (cells a' t) = None" using assms(2) cells by simp
  from publish_retired_cells [OF this] show "peek (cells (finalize_turn t out adm d a) t) = Some (recorded_outcome a t out)"
    "t' \<noteq> t \<Longrightarrow> cells (finalize_turn t out adm d a) t' = cells a t'"
    unfolding eq abs(1) by (simp_all add: cells)
qed

lemma recorded_cancelled [simp]: "recorded_outcome a t (cancelled_outcome g t r) = cancelled_outcome g t r"
  by (simp add: recorded_outcome_def split: option.split)

lemma agent_frames [simp]:
  "actor_agent (on_cell t f a) = actor_agent a" "actor_agent (send_terminal sn out a) = actor_agent a"
  "actor_agent (delivery_publish tk a) = actor_agent a" "actor_agent (delivery_settle t r a) = actor_agent a"
  "actor_agent (clear_runner b a) = actor_agent a" "actor_agent (release_permission t a) = actor_agent a"
  "actor_agent (evict_retained a) = actor_agent a" "actor_agent (prepared_fail p e a) = actor_agent a"
  by (simp_all add: on_cell_def send_terminal_def delivery_publish_def delivery_settle_def clear_runner_def drop_active_def
    release_permission_def evict_retained_def prepared_fail_def cancel_publication_def on_queue_def Let_def split: option.split list.split)

lemma finalize_agent [simp]: "actor_agent (finalize_turn t out adm d a) = actor_agent a"
proof -
  have "actor_agent (fst (retire_turn t out w s h a)) = actor_agent a" for w s h by (simp add: retire_turn_def Let_def)
  moreover have "actor_agent (publish_retired t out' adm d tk b) = actor_agent b" for out' tk b
    by (simp add: publish_retired_def Let_def case_prod_beta split: option.split)
  ultimately show ?thesis by (auto simp: finalize_turn_def retire_and_publish_def split: prod.split option.split) (metis fst_conv)+
qed

lemma settle_operation_agent [simp]: "actor_agent (settle_operation r op a) = actor_agent a"
  by (cases op) (simp_all add: Let_def)

lemma terminalize_one_agent [simp]: "actor_agent (terminalize_one r w a) = actor_agent a"
  by (cases w) simp_all

text \<open>One settlement of a list of turns: each ticket resolves with a cancellation of the given reason,
  and no other cell changes.\<close>

definition settles_to :: "cancel_reason \<Rightarrow> turn_id list \<Rightarrow> actor \<Rightarrow> actor \<Rightarrow> bool" where
  "settles_to r ts a b \<longleftrightarrow> actor_agent b = actor_agent a
     \<and> (\<forall>t \<in> set ts. peek (cells b t) = Some (cancelled_outcome (actor_agent a) t r))
     \<and> (\<forall>t. t \<notin> set ts \<longrightarrow> cells b t = cells a t)"

lemma settles_none: "settles_to r [] a b \<longleftrightarrow> actor_agent b = actor_agent a \<and> cells b = cells a"
  by (auto simp: settles_to_def)

lemma settles_append:
  assumes "settles_to r ts a b" "settles_to r us b c" "set ts \<inter> set us = {}"
  shows "settles_to r (ts @ us) a c"
  using assms by (auto simp: settles_to_def)

lemma settles_same: "settles_to r ts a b \<Longrightarrow> actor_agent c = actor_agent b \<Longrightarrow> cells c = cells b \<Longrightarrow> settles_to r ts a c"
  by (simp add: settles_to_def)

lemma settles_from: "settles_to r ts a b \<Longrightarrow> actor_agent c = actor_agent a \<Longrightarrow> cells c = cells a \<Longrightarrow> settles_to r ts c b"
  by (simp add: settles_to_def)

lemma settles_operation:
  assumes "turns_ok c (mset (op_turns [op]) + M) a" "\<forall>t \<in> set (op_turns [op]). peek (cells a t) = None"
  shows "settles_to r (op_turns [op]) a (settle_operation r op a)"
  using assms finalize_cells [of c _ M a]
  by (cases op) (auto simp: settles_to_def Let_def)

lemma op_turns_Cons: "op_turns (op # ops) = op_turns [op] @ op_turns ops"
  by (cases op) simp_all

lemma settles_fold:
  assumes "turns_ok c (mset (op_turns ops) + M) a" "\<forall>t \<in> set (op_turns ops). peek (cells a t) = None"
  shows "settles_to r (op_turns ops) a (fold (settle_operation r) ops a)"
  using assms
proof (induction ops arbitrary: a)
  case Nil then show ?case by (simp add: settles_none)
next
  case (Cons op ops)
  have eq: "mset (op_turns (op # ops)) + M = mset (op_turns [op]) + (mset (op_turns ops) + M)"
    by (subst op_turns_Cons) (simp add: add.assoc)
  note ok = Cons.prems(1) [unfolded eq]
  have d: "set (op_turns [op]) \<inter> set (op_turns ops) = {}"
  proof (cases "op_turns [op]")
    case (Cons t ts)
    then have ts: "ts = []" by (cases op) auto
    have "t \<notin># mset (op_turns ops) + M" using turns_okD(4) [of c t "mset (op_turns ops) + M" a] ok Cons ts by simp
    then show ?thesis using Cons ts by auto
  qed simp
  have 1: "settles_to r (op_turns [op]) a (settle_operation r op a)"
    by (rule settles_operation [OF ok]) (use Cons.prems(2) in \<open>subst (asm) op_turns_Cons, simp\<close>)
  have "settles_to r (op_turns ops) (settle_operation r op a) (fold (settle_operation r) ops (settle_operation r op a))"
  proof (rule Cons.IH)
    show "turns_ok c (mset (op_turns ops) + M) (settle_operation r op a)" by (rule settle_operation_ok [OF ok])
    show "\<forall>t \<in> set (op_turns ops). peek (cells (settle_operation r op a) t) = None"
      using 1 d Cons.prems(2) by (subst (asm) (2) op_turns_Cons) (auto simp: settles_to_def disjoint_iff)
  qed
  from settles_append [OF 1 this d] show ?case by (subst op_turns_Cons) simp
qed

lemma settles_deferred:
  assumes "turns_ok c (mset (op_turns ops) + M) a" "\<forall>t \<in> set (op_turns ops). peek (cells a t) = None"
  shows "settles_to r (op_turns ops) a (settle_deferred ops r a)"
  unfolding settle_deferred_def by (rule settles_same [OF settles_fold [OF assms]]) simp_all

section \<open>Live tickets are unresolved\<close>

text \<open>Along an operation, a ticket that is still live keeps what its holder reads.\<close>

definition holds :: "actor \<Rightarrow> actor \<Rightarrow> bool" where
  "holds a b \<longleftrightarrow> (\<forall>t \<in> fst ` set (tickets b). peek (cells b t) = None
     \<or> (t \<in> fst ` set (tickets a) \<and> peek (cells b t) = peek (cells a t)))"

lemma holds_refl [simp, intro]: "holds a a" by (simp add: holds_def)
lemma holds_trans [trans]: assumes "holds a b" "holds b c" shows "holds a c"
  unfolding holds_def
proof
  fix t assume t: "t \<in> fst ` set (tickets c)"
  show "peek (cells c t) = None \<or> (t \<in> fst ` set (tickets a) \<and> peek (cells c t) = peek (cells a t))"
  proof (cases "peek (cells c t) = None")
    case False
    with bspec [OF assms(2) [unfolded holds_def] t]
    have b: "t \<in> fst ` set (tickets b)" "peek (cells c t) = peek (cells b t)" by simp_all
    with False bspec [OF assms(1) [unfolded holds_def] b(1)] show ?thesis by simp
  qed simp
qed
lemma holds_same: "tickets b = tickets b' \<Longrightarrow> (\<And>t. peek (cells b t) = peek (cells b' t)) \<Longrightarrow> holds a b = holds a b'"
  by (simp add: holds_def)

lemma holds_simps [simp]:
  "holds a (publish_idle b) = holds a b" "holds a (finish_close b) = holds a b" "holds a (emit e b) = holds a b"
  "holds a (drive_operations b) = holds a b" "holds a (cancel_prepared_where sel b) = holds a b"
  "holds a (record_cancellation rsel r b) = holds a b" "holds a (fire_active x r b) = holds a b"
  "holds a (take_and_fire_active r b) = holds a b" "holds a (forget_inboxes ts b) = holds a b"
  "holds a (set_preparing i b) = holds a b" "holds a (on_queue notify b) = holds a b"
  "holds a (b\<lparr>woken := wk\<rparr>) = holds a b" "holds a (b\<lparr>queue := q\<rparr>) = holds a b"
  "holds a (b\<lparr>next_addr := na\<rparr>) = holds a b"
  "holds a (prepared_fail p er b) = holds a b" "holds a (materialize op snap b) = holds a b"
  "holds a (clear_runner cr b) = holds a b"
  by (simp_all add: holds_def cancel_prepared_where_def record_cancellation_def fire_active_def take_and_fire_active_def
    forget_inboxes_def set_preparing_def on_queue_def prepared_fail_def cancel_publication_def Let_def split: option.split)

lemma holds_on_state [simp]: "holds a (on_state f b) = holds a b"
  by (simp add: holds_def)

lemma holds_modify [simp]: "holds a (on_state (modify_inbox t f) b) = holds a b"
  by (simp add: holds_def modify_inbox_def)

lemma holds_left [simp]: "holds (on_state (modify_inbox t f) a) b = holds a b"
  by (simp add: holds_def modify_inbox_def)

lemma holds_emit_discarded [simp]: "holds a (emit_discarded r ds b) = holds a b"
  unfolding emit_discarded_def by (rule fold_frame) simp

lemma holds_discard [simp]: "holds a (discard_deliveries r b) = holds a b"
  by (simp add: discard_deliveries_def take_pending_def Let_def)

lemma publish_retired_other: "t' \<noteq> t \<Longrightarrow> cells (publish_retired t out adm d tko a) t' = cells a t'"
  by (auto simp: publish_retired_def Let_def case_prod_beta on_cell_def split: option.split)

lemma holds_retire: "holds b (retire_and_publish t out adm d s h b)"
proof -
  obtain a' out' r where r: "retire_turn t out (adm_work adm) s h b = (a', out', r)" by (metis prod_cases3)
  have cells: "cells a' = cells b" using retire_turn_cells [of t out "adm_work adm" s h b] r by simp
  show ?thesis
  proof (cases "hm_contains (outcomes b) t")
    case True
    then show ?thesis using retire_turn_present [OF True, of out "adm_work adm" s h]
      by (simp add: retire_and_publish_def holds_def)
  next
    case False
    note abs = retire_turn_absent [OF False r]
    have eq: "retire_and_publish t out adm d s h b = publish_retired t out' adm d (hm_get (tickets b) t) a'"
      by (simp add: retire_and_publish_def r abs(2))
    have "tickets (publish_retired t out' adm d (hm_get (tickets b) t) a') = hm_remove t (tickets b)"
      by (simp add: abs(3))
    then show ?thesis unfolding eq holds_def by (auto simp: publish_retired_other cells)
  qed
qed

lemma holds_finalize: "holds a b \<Longrightarrow> holds a (finalize_turn t out adm d b)"
  unfolding finalize_turn_def by (blast intro: holds_trans holds_retire)

lemma holds_fold: "(\<And>x b. holds b (g x b)) \<Longrightarrow> holds a b \<Longrightarrow> holds a (fold g xs b)"
  by (induction xs arbitrary: b) (simp_all, meson holds_trans)

lemma holds_settle_deferred: "holds a b \<Longrightarrow> holds a (settle_deferred ops r b)"
proof -
  have "holds b (settle_operation r x b)" for x b by (cases x) (simp_all add: holds_finalize Let_def)
  then show "holds a b \<Longrightarrow> holds a (settle_deferred ops r b)"
    unfolding settle_deferred_def by (auto intro: holds_trans holds_fold)
qed

lemma holds_terminalize: "holds a b \<Longrightarrow> holds a (terminalize_work ws r b)"
proof -
  have "holds b (terminalize_one r x b)" for x b by (cases x) (simp_all add: holds_finalize)
  then show "holds a b \<Longrightarrow> holds a (terminalize_work ws r b)"
    unfolding terminalize_work_def by (auto intro: holds_trans holds_fold)
qed

lemmas holds_settles = holds_settle_deferred holds_terminalize holds_finalize

lemma holds_pieces [simp]:
  "holds a (snd (drain_operations keep b)) = holds a b" "holds a (snd (drain_queue keepq b)) = holds a b"
  "holds a (snd (take_operation_turn t b)) = holds a b" "holds a (snd (take_queued_turn t b)) = holds a b"
  "holds a (fst (reserve_presentation d b)) = holds a b" "holds a (fst (next_operation b)) = holds a b"
  "holds a (fst (make_submission t input dsp nt b)) = holds a b" "holds a (fst (adopt_presentation dd b)) = holds a b"
  "holds a (fst (install_active corr b)) = holds a b" "holds a (snd (take_pending b)) = holds a b"
  by (simp_all add: holds_def drain_operations_def drain_work_except_partition drain_queue_def take_operation_turn_def take_queued_turn_def
    reserve_presentation_def next_operation_def make_submission_def adopt_presentation_def install_active_def take_pending_def Let_def
    split: prod.split option.split)

lemma holds_take_queued_turns [simp]: "holds a (snd (take_queued_turns ts b)) = holds a b"
  by (induction ts arbitrary: b) (simp_all add: case_prod_beta Let_def)

lemma holds_remove: "holds a (snd (remove t a))"
  by (simp add: remove_def Let_def case_prod_beta holds_settles split: option.split)

lemma holds_clear: "holds a (snd (clear_except keep a))"
  by (simp add: clear_except_def Let_def case_prod_beta holds_settles)

lemma holds_cancel_existing: "holds a (cancel_existing a)"
  by (simp add: cancel_existing_def Let_def case_prod_beta holds_settles split: option.split)

lemma holds_capture_turn: "capture_turn_cancel t r a = Inr (b, x) \<Longrightarrow> holds a b"
  by (auto simp: capture_turn_cancel_def Let_def case_prod_beta split: if_splits)

lemma holds_settle_turn_cancel: "holds a b \<Longrightarrow> holds a (settle_turn_cancel d q r b)"
  by (simp add: settle_turn_cancel_def Let_def holds_settles split: option.split)

lemma holds_cancel_turn: "cancel_turn_for t reason a = Inr b \<Longrightarrow> holds a b"
  by (auto simp: cancel_turn_for_def intro: holds_settle_turn_cancel holds_capture_turn split: sum.splits)

lemma holds_correlation: "holds a (cancel_correlation k r a)"
  by (simp add: cancel_correlation_def capture_correlation_cancel_def settle_correlation_cancel_def Let_def case_prod_beta holds_settles)

lemma holds_local: "capture_local_cancel d a = (b, k) \<Longrightarrow> holds a (settle_local_cancel k b)"
  by (auto simp: capture_local_cancel_def settle_local_cancel_def Let_def case_prod_beta holds_settles)

lemma holds_join: "join_turn t i input corr opts bytes a = Inr (b, x) \<Longrightarrow> holds a b"
  by (auto simp: join_turn_def Let_def case_prod_beta split: if_splits option.splits sum.splits)

lemma holds_controls:
  "push_control name corr payload a = Inr b \<Longrightarrow> holds a b" "push_compact run ins a = Inr b \<Longrightarrow> holds a b"
  "initialize_config cfg a = Inr (b, g) \<Longrightarrow> holds a b" "configure_parent_delivery auto a = Inr b \<Longrightarrow> holds a b"
  "reserve_operation turn owner a = Inr (b, x) \<Longrightarrow> holds a b"
  by (auto simp: push_control_def push_compact_def initialize_config_def configure_parent_delivery_def reserve_operation_def push_operation_def
    Let_def case_prod_beta split: if_splits option.splits)

lemma holds_idle:
  "prepare_idle a = Inr (b, ow) \<Longrightarrow> holds a b" "allow_turn ow tk a = Inr b \<Longrightarrow> holds a b" "holds a (idle_guard_drop ow a)"
  by (auto simp: prepare_idle_def allow_turn_def idle_guard_drop_def Let_def split: if_splits option.splits)

lemma holds_delivery:
  "admit_delivery rd d a = Inr b \<Longrightarrow> holds a b" "holds a (snd (withdraw_child_delivery t a))"
  by (auto simp: admit_delivery_def withdraw_child_delivery_def Let_def case_prod_beta split: if_splits option.splits)

lemma holds_replace: "replace_waiting_input t input a = Some b \<Longrightarrow> holds c b = holds c a"
  by (auto simp: replace_waiting_input_def split: option.splits)

lemma holds_remove_submission: "holds a (snd (remove_submission i a))"
  by (auto simp: remove_submission_def Let_def holds_replace intro!: holds_settle_turn_cancel dest: holds_capture_turn
      split: option.split prod.split list.split sum.split intro: holds_trans)

lemma holds_remove_compact: "holds a (snd (remove_pending_compact i a))"
  by (simp add: remove_pending_compact_def case_prod_beta split: option.split prod.split)

lemma holds_fail: "holds a b \<Longrightarrow> holds a (fail_admission op diag retry b)"
  by (cases op) (simp_all add: fail_admission_def Let_def holds_finalize)

lemma holds_done:
  "holds a (constraint_done i pol k a)" "holds a (preparation_done i pol snap a)" "holds a (prepared_done i cfg res a)"
  by (auto simp: constraint_done_def preparation_done_def prepared_done_def Let_def pop_operation_def intro!: holds_fail
    split: option.split sum.split list.split actor_operation.split)

lemma holds_observe: "holds a (observe_presentation p a)"
  by (simp add: observe_presentation_def)

lemmas holds_host = holds_controls holds_remove holds_clear holds_cancel_existing holds_cancel_turn
      holds_correlation holds_local holds_idle holds_delivery holds_remove_submission holds_remove_compact holds_done holds_observe

text \<open>The steps of the runner and of the running turn.\<close>

lemma holds_commit_loop [simp]: "holds c (snd (commit_loop t el n b order a)) = holds c a"
proof (induction order arbitrary: n b a)
  case (Cons i order)
  then show ?case by (cases el) (simp_all add: Let_def case_prod_beta split: option.split)
qed simp

lemma holds_fold_emit [simp]: "holds c (fold (\<lambda>(sub, _). emit (EvSubmissionConsumed sub)) xs a) = holds c a"
  by (rule fold_frame) (auto split: prod.split)

lemma holds_turn_step: "turn_step t cg pg a b \<Longrightarrow> holds a b"
  by (induction rule: turn_step.induct)
    (auto simp: take_initial_submission_def drain_presented_instructions_def instructions_submitted_def commit_deliveries_def
      close_admission_def inbox_close_def allocate_processing_presentation_def poll_interrupt_def Let_def case_prod_beta
      split: option.splits if_splits)

lemma holds_pop_work: "holds a (snd (pop_work a))"
  by (auto simp: pop_work_def case_prod_beta Let_def split: option.split prod.split)

lemma holds_settle_turn: "holds a (settle_turn adm out d a)"
  by (simp add: settle_turn_def settle_and_finalize_turn_def holds_retire)

lemma holds_withdraw: "holds a (withdraw_turn adm a)"
  by (simp add: withdraw_turn_def Let_def holds_def on_cell_def length_hm_remove_le)

lemma holds_runner:
  "holds a (fst (begin_turn adm g a))" "holds a (fst (check_started adm tok a))" "holds a (fst (launch_turn adm tok a))"
  "holds a (refuse_managed adm r a)" "holds a (finish_turn adm res a)"
  using holds_settle_turn holds_withdraw holds_retire
  by (auto simp: begin_turn_def check_started_def launch_turn_def refuse_managed_def finish_turn_def settle_and_finalize_turn_def
    install_active_def Let_def case_prod_beta on_cell_def holds_def peek_def split: option.split backend_result.split)

lemma holds_control:
  "holds a (fst (begin_control w a))" "holds a (fst (begin_compact k a))" "holds a (finish_control tok r a)" "holds a (finish_compact tok r a)"
  "holds a (runner_settled i a)" "holds a (runner_drained a)" "holds a (consume_wake a)"
  by (auto simp: begin_control_def begin_compact_def finish_control_def finish_compact_def clear_active_def drop_active_def
    runner_settled_def runner_drained_def consume_wake_def on_queue_def install_active_def Let_def case_prod_beta holds_def split: option.split backend_result.split)

lemma holds_eqs:
  "begin_turn adm g a = (b, x) \<Longrightarrow> holds a b" "check_started adm tok a = (b, go) \<Longrightarrow> holds a b"
  "launch_turn adm tok a = (b, go) \<Longrightarrow> holds a b" "begin_control w a = (b, x) \<Longrightarrow> holds a b" "begin_compact kw a = (b, x) \<Longrightarrow> holds a b"
  by (metis holds_runner(1-3) holds_control(1,2) fst_conv)+

text \<open>Every live ticket is unresolved, in every reachable state.\<close>

definition unresolved :: "actor \<Rightarrow> bool" where
  "unresolved a \<longleftrightarrow> (\<forall>t \<in> fst ` set (tickets a). peek (cells a t) = None)"

lemma holds_unresolved: "holds a b \<Longrightarrow> unresolved a \<Longrightarrow> unresolved b"
  by (fastforce simp: holds_def unresolved_def)

lemma peek_new [simp]: "peek new_cell = None"
  by (simp add: peek_def new_cell_def)

lemma unresolved_ticket: "unresolved a \<Longrightarrow> unresolved (admit_ticket tk a)"
  by (auto simp: unresolved_def admit_ticket_def AList.update_keys)

lemma open_turn_cells:
  assumes "open_turn t input sender corr opts bytes shared a = (b, tk, pres, op)"
  shows "cells b = (cells a)(t := new_cell)"
  using assms by (auto simp: open_turn_def Let_def case_prod_beta admit_ticket_def with_provenance_def new_ticket_def
      adopt_presentation_def reserve_presentation_def make_submission_def split: option.splits)

lemma unresolved_enter:
  assumes "enter_turn t input sender corr opts bytes shared a = (b, x)" "unresolved a"
  shows "unresolved b"
proof -
  obtain e tk pres op where o: "open_turn t input sender corr opts bytes shared a = (e, tk, pres, op)" by (metis prod_cases4)
  have "holds e b" using assms(1) by (auto simp: enter_turn_def o holds_settles split: option.splits if_splits)
  moreover have "unresolved e"
    using assms(2) open_turn_frame(1) [OF o] open_turn_cells [OF o] by (auto simp: unresolved_def AList.update_keys)
  ultimately show ?thesis by (rule holds_unresolved)
qed

lemma unresolved_close: "unresolved a \<Longrightarrow> unresolved (close a)" "unresolved a \<Longrightarrow> unresolved (shutdown a)"
proof -
  have sc: "holds b (settle_close k b)" for k b
    by (simp add: settle_close_def Let_def case_prod_beta holds_settles)
  have cc: "cells (fst (capture_close sd a)) = cells a" for sd
    by (simp add: capture_close_def Let_def case_prod_beta take_and_fire_active_def fire_active_def fail_prepared_operations_def
      take_pending_def cancel_prepared_where_def record_cancellation_def split: option.split)
  have "unresolved (case capture_close sd a of (a', None) \<Rightarrow> a' | (a', Some k) \<Rightarrow> settle_close k a')" if "unresolved a" for sd
  proof (cases rule: capture_close_cases [of sd a])
    case (captured b k)
    then have "unresolved b" using that cc [of sd] capture_close_tickets [of sd a] by (simp add: unresolved_def)
    with captured holds_unresolved [OF sc] show ?thesis by simp
  qed (use that in simp)
  then show "unresolved a \<Longrightarrow> unresolved (close a)" "unresolved a \<Longrightarrow> unresolved (shutdown a)"
    by (simp_all add: close_def shutdown_def)
qed

lemma unresolved_host: "host_step a b \<Longrightarrow> unresolved a \<Longrightarrow> unresolved b"
proof (induction rule: host_step.induct)
  case (host_admit t a jl input sender corr opts a' tk)
  then show ?case by (auto simp: admit_turn_with_options_def intro: unresolved_enter split: option.splits if_splits prod.splits)
next
  case (host_submit t a jl input sender corr opts a' tk p)
  then show ?case
    by (auto simp: submit_presented_def intro: unresolved_enter holds_unresolved [OF holds_join] split: option.splits if_splits prod.splits)
next
  case (host_close a) then show ?case by (simp add: unresolved_close)
next
  case (host_shutdown a) then show ?case by (simp add: unresolved_close)
qed (blast intro: holds_unresolved holds_host)+

lemma unresolved_schedule: "unresolved a \<Longrightarrow> unresolved (schedule t a)"
proof -
  assume a: "unresolved a"
  have c: "cells (schedule t a) = (if schedule_ready a then cells (admit_ticket (new_ticket t (actor_identity a)) a) else cells a)"
    "tickets (schedule t a) = (if schedule_ready a then tickets (admit_ticket (new_ticket t (actor_identity a)) a) else tickets a)"
    by (simp_all add: schedule_def push_operation_def next_operation_def reserve_presentation_def Let_def)
  show ?thesis using a unresolved_ticket [OF a] by (auto simp: unresolved_def c)
qed

lemma unresolved_pop: "unresolved a \<Longrightarrow> unresolved (snd (runner_pop t a))"
proof -
  assume a: "unresolved a"
  have "holds (schedule t a) (snd (runner_pop t a))"
    using holds_pop_work [of "schedule t a"] by (auto simp: runner_pop_def Let_def case_prod_beta split: option.split prod.split)
  with unresolved_schedule [OF a] show ?thesis by (blast intro: holds_unresolved)
qed

lemma unresolved_step:
  assumes "actor_step (a, pc) (b, pc')" "unresolved a" shows "unresolved b"
  using assms
proof (cases rule: actor_step.cases)
  case (step_pop t w g)
  then show ?thesis using unresolved_pop [of a t] assms(2) by auto
next
  case (step_drained t a')
  then show ?thesis using unresolved_pop [of a t] assms(2) holds_unresolved [OF holds_control(6)] by auto
next
  case step_tick
  then show ?thesis using assms(2) by (simp add: unresolved_def)
qed (auto simp: holds_runner holds_control intro: holds_unresolved [OF _ assms(2)] holds_eqs holds_turn_step unresolved_host split: option.splits if_splits)

lemma reachable_unresolved: "reachable s \<Longrightarrow> unresolved (fst s)"
proof (induction rule: reachable.induct)
  case (reach_spawn agent ident child parent cfg prep n)
  then show ?case by (simp add: unresolved_def spawn_actor_def Let_def)
next
  case (reach_step s s')
  then show ?case using unresolved_step [of "fst s" "snd s" "fst s'" "snd s'"] by simp
qed

section \<open>Settling the whole line\<close>

lemma queued_turns_Cons: "queued_turns (w # ws) = queued_turns [w] @ queued_turns ws"
  by (cases w) simp_all

lemma settles_one_work:
  assumes "turns_ok c (mset (queued_turns [w]) + M) a" "\<forall>t \<in> set (queued_turns [w]). peek (cells a t) = None"
  shows "settles_to r (queued_turns [w]) a (terminalize_one r w a)"
  using assms finalize_cells [of c _ M a]
  by (cases w) (auto simp: settles_to_def)

lemma settles_work_fold:
  assumes "turns_ok c (mset (queued_turns ws) + M) a" "\<forall>t \<in> set (queued_turns ws). peek (cells a t) = None"
  shows "settles_to r (queued_turns ws) a (fold (terminalize_one r) ws a)"
  using assms
proof (induction ws arbitrary: a)
  case Nil then show ?case by (simp add: settles_none)
next
  case (Cons w ws)
  have eq: "mset (queued_turns (w # ws)) + M = mset (queued_turns [w]) + (mset (queued_turns ws) + M)"
    by (subst queued_turns_Cons) (simp add: add.assoc)
  note ok = Cons.prems(1) [unfolded eq]
  have d: "set (queued_turns [w]) \<inter> set (queued_turns ws) = {}"
    using turns_okD(4) [of c _ "mset (queued_turns ws) + M" a] ok by (cases w) auto
  have 1: "settles_to r (queued_turns [w]) a (terminalize_one r w a)"
    by (rule settles_one_work [OF ok]) (use Cons.prems(2) in \<open>subst (asm) queued_turns_Cons, simp\<close>)
  have "settles_to r (queued_turns ws) (terminalize_one r w a) (fold (terminalize_one r) ws (terminalize_one r w a))"
  proof (rule Cons.IH)
    show "turns_ok c (mset (queued_turns ws) + M) (terminalize_one r w a)" by (rule terminalize_one_ok [OF ok])
    show "\<forall>t \<in> set (queued_turns ws). peek (cells (terminalize_one r w a) t) = None"
      using 1 d Cons.prems(2) by (subst (asm) (2) queued_turns_Cons) (auto simp: settles_to_def disjoint_iff)
  qed
  from settles_append [OF 1 this d] show ?case by (subst queued_turns_Cons) simp
qed

lemma settles_work:
  assumes "turns_ok c (mset (queued_turns ws) + M) a" "\<forall>t \<in> set (queued_turns ws). peek (cells a t) = None"
  shows "settles_to r (queued_turns ws) a (terminalize_work ws r a)"
  unfolding terminalize_work_def by (rule settles_same [OF settles_work_fold [OF assms]]) simp_all

lemma mset_distinct_sub: "mset xs \<subseteq># mset ys \<Longrightarrow> distinct ys \<Longrightarrow> distinct xs"
proof -
  assume "mset xs \<subseteq># mset ys" "distinct ys"
  then have "count (mset xs) x \<le> 1" for x
    using mset_subset_eq_count [of "mset xs" "mset ys" x] distinct_count_atmost_1 [of ys] by (metis le_zero_eq order.refl order.trans zero_le_one)
  then show "distinct xs"
    by (auto simp: distinct_count_atmost_1 intro: antisym)
qed

lemma settles_line:
  assumes ok: "turns_ok c (mset (op_turns ops) + M) a" "turns_ok c' (mset (queued_turns ws) + M') d"
    and fresh: "\<forall>t \<in> set (queued_turns ws @ op_turns ops). peek (cells a t) = None"
    and dis: "distinct (queued_turns ws @ op_turns ops)"
    and d: "cells d = cells (settle_deferred ops r a)" "actor_agent d = actor_agent (settle_deferred ops r a)"
  shows "settles_to r (queued_turns ws @ op_turns ops) a (terminalize_work ws r d)"
proof -
  have 1: "settles_to r (op_turns ops) a d"
    by (rule settles_same [OF settles_deferred [OF ok(1)]]) (use fresh d in auto)
  have "settles_to r (queued_turns ws) d (terminalize_work ws r d)"
    by (rule settles_work [OF ok(2)]) (use 1 fresh dis in \<open>auto simp: settles_to_def disjoint_iff\<close>)
  from settles_append [OF 1 this] dis have "settles_to r (op_turns ops @ queued_turns ws) a (terminalize_work ws r d)" by auto
  then show ?thesis by (auto simp: settles_to_def)
qed

lemma line_distinct:
  assumes "turns_ok c M a" shows "distinct (waiting_line a)"
proof (rule mset_distinct_sub)
  show "mset (waiting_line a) \<subseteq># mset (hm_keys (tickets a))"
    using assms by (simp add: turns_ok_def live_turns_def waiting_line_def) (metis mset_subset_eq_add_right)
  show "distinct (hm_keys (tickets a))" using assms by (simp add: turns_ok_def)
qed

text \<open>Closing, shutting down and cancelling settle the whole line.\<close>

lemma capture_close_cut:
  assumes "capture_close sd a = (b, Some k)"
  shows "op_turns (cut_deferred k) = op_turns (operations (state a))" "items (queue b) = items (queue a)" "cells b = cells a"
    "actor_agent b = actor_agent a" "cut_reason k = (if sd then Shutdown_reason else Closed_reason)"
proof -
  have fp: "op_turns (operations (state (fail_prepared_operations e x))) = op_turns (operations (state x))"
    "queue (fail_prepared_operations e x) = queue x" "cells (fail_prepared_operations e x) = cells x"
    "actor_agent (fail_prepared_operations e x) = actor_agent x" "processing (state (fail_prepared_operations e x)) = processing (state x)" for e x
    by (simp_all add: fail_prepared_operations_def Let_def)
  show "op_turns (cut_deferred k) = op_turns (operations (state a))" "items (queue b) = items (queue a)" "cells b = cells a"
    "actor_agent b = actor_agent a" "cut_reason k = (if sd then Shutdown_reason else Closed_reason)"
    using assms
    by (auto simp: capture_close_def Let_def case_prod_beta take_and_fire_active_def fire_active_def fp
      take_pending_def cancel_prepared_where_def record_cancellation_def split: if_splits option.splits)
qed

lemma unresolved_line:
  assumes "turns_ok c M a" "unresolved a" "t \<in> set (waiting_line a)"
  shows "peek (cells a t) = None"
proof -
  have "t \<in># mset (hm_keys (tickets a))" using assms(1,3)
    by (metis (no_types, lifting) Un_iff live_turns_def mset_append set_mset_mset set_mset_union turns_ok_def waiting_line_def)
  then show ?thesis using assms(2) by (auto simp: unresolved_def)
qed

lemma emit_discarded_cells [simp]:
  "cells (emit_discarded r ds b) = cells b" "actor_agent (emit_discarded r ds b) = actor_agent b"
  by (simp_all add: emit_discarded_def fold_frame [where f = cells] fold_frame [where f = actor_agent])

lemma closing_settles:
  assumes ok: "turns_ok c M a" and un: "unresolved a" and cap: "capture_close sd a = (b, Some k)"
  shows "settles_to (cut_reason k) (waiting_line a) a (settle_close k b)" "waiting_line (settle_close k b) = []"
proof -
  note cut = capture_close_cut [OF cap] and okb = capture_close_ok [OF cap ok]
  define b1 where "b1 = emit_discarded (cut_reason k) (cut_deliveries k) b"
  define b2 where "b2 = settle_deferred (cut_deferred k) (cut_reason k) b1"
  have ok1: "turns_ok False (mset (op_turns (cut_deferred k)) + M) b1" using okb(1) by (simp add: b1_def)
  obtain dr q where d: "drain_all (queue b2) = (dr, q)" by fastforce
  have line: "waiting_line a = queued_turns dr @ op_turns (cut_deferred k)"
    using d cut(1,2) by (auto simp: drain_all_def b2_def b1_def waiting_line_def)
  have ok2: "turns_ok False (mset (queued_turns dr) + M) (b2\<lparr>queue := q\<rparr>)"
    by (rule drain_all_ok [OF d]) (unfold b2_def, rule settle_deferred_ok [OF ok1])
  have "settles_to (cut_reason k) (waiting_line a) b1 (terminalize_work dr (cut_reason k) (b2\<lparr>queue := q\<rparr>))"
    unfolding line
    by (rule settles_line [OF ok1 ok2])
      (use line_distinct [OF ok] unresolved_line [OF ok un] cut(3) in \<open>auto simp: line b1_def b2_def\<close>)
  moreover have "settle_close k b = (on_queue notify (finish_close (terminalize_work dr (cut_reason k) (b2\<lparr>queue := q\<rparr>))))\<lparr>woken := True\<rparr>"
    by (simp only: settle_close_def Let_def b1_def [symmetric] b2_def [symmetric] d prod.case)
  ultimately have "settles_to (cut_reason k) (waiting_line a) b1 (settle_close k b)"
    by (simp add: settles_to_def on_queue_def)
  then show "settles_to (cut_reason k) (waiting_line a) a (settle_close k b)"
    by (rule settles_from) (use cut(3,4) in \<open>simp_all add: b1_def\<close>)
  show "waiting_line (settle_close k b) = []"
    using settle_close_ok(2,3) [OF okb(1,2)] by (simp add: waiting_line_def)
qed

lemma close_settles:
  assumes "turns_ok c M a" "unresolved a" "lifecycle (state a) = Open"
  shows "settles_to Closed_reason (waiting_line a) a (close a) \<and> waiting_line (close a) = []" (is ?close)
    "settles_to Shutdown_reason (waiting_line a) a (shutdown a) \<and> waiting_line (shutdown a) = []" (is ?shutdown)
proof -
  show ?close
  proof (cases rule: capture_close_cases [of False a])
    case (captured b k)
    from closing_settles [OF assms(1,2) captured(1)] capture_close_cut(5) [OF captured(1)] captured show ?thesis by (simp add: close_def)
  qed (use assms(3) in simp)
  show ?shutdown
  proof (cases rule: capture_close_cases [of True a])
    case (captured b k)
    from closing_settles [OF assms(1,2) captured(1)] capture_close_cut(5) [OF captured(1)] captured show ?thesis by (simp add: shutdown_def)
  qed (use assms(3) in simp)
qed

lemma barrier_turns [simp]:
  "op_turns (filter is_config_barrier ops) = []" "op_turns (filter (\<lambda>op. \<not> is_config_barrier op) ops) = op_turns ops"
proof -
  have b: "is_config_barrier op \<Longrightarrow> op_turns (op # xs) = op_turns xs" for op xs by (cases op) auto
  show "op_turns (filter is_config_barrier ops) = []" "op_turns (filter (\<lambda>op. \<not> is_config_barrier op) ops) = op_turns ops"
    by (induction ops) (simp_all add: b, metis op_turns_Cons)
qed

lemma fire_active_cells [simp]: "cells (fire_active x r a) = cells a" "actor_agent (fire_active x r a) = actor_agent a"
  by (simp_all add: fire_active_def)

lemma cancel_existing_settles:
  assumes ok: "turns_ok c M a" and un: "unresolved a"
  shows "settles_to User (waiting_line a) a (cancel_existing a)" "waiting_line (cancel_existing a) = []"
proof -
  define a3 where "a3 = record_cancellation (\<lambda>_. True) User (on_state (\<lambda>s. s\<lparr>instructions := [],
    cancellation_generation := cancellation_generation s + 1\<rparr>) (cancel_prepared_where (\<lambda>c. c \<noteq> None) a))"
  have ok3: "turns_ok c M a3" using ok by (simp add: a3_def)
  obtain deferred a4 where 4: "drain_operations (\<lambda>_. False) a3 = (deferred, a4)" by fastforce
  define a5 where "a5 = on_state (\<lambda>s. s\<lparr>active := None\<rparr>) a4"
  obtain dr q where 5: "drain_all (queue a5) = (dr, q)" by fastforce
  define a6 where "a6 = drive_operations (a5\<lparr>queue := q\<rparr>)"
  have "turns_ok c (mset (op_turns deferred) + M) a5" using drain_operations_ok [OF 4 ok3] by (simp add: a5_def)
  from drain_all_ok [OF 5 this] have ok6: "turns_ok c (mset (op_turns deferred) + (mset (queued_turns dr) + M)) a6"
    by (simp add: ac_simps a6_def)
  have line: "waiting_line a = queued_turns dr @ op_turns deferred" and e: "waiting_line (a5\<lparr>queue := q\<rparr>) = []"
    using 4 5 by (auto simp: drain_all_def drain_operations_def drain_work_except_partition a5_def a3_def waiting_line_def
        cancel_prepared_where_def record_cancellation_def Let_def split: option.splits)
  have c6: "cells a6 = cells a" "actor_agent a6 = actor_agent a"
    using 4 by (auto simp: drain_operations_def a6_def a5_def a3_def cancel_prepared_where_def record_cancellation_def Let_def
        case_prod_beta split: option.splits)
  define d where "d = (case active (state a4) of None \<Rightarrow> settle_deferred deferred User a6 | Some x \<Rightarrow> fire_active x User (settle_deferred deferred User a6))"
  have okd: "turns_ok c (mset (queued_turns dr) + M) d" using settle_deferred_ok [OF ok6] by (simp add: d_def split: option.split)
  have eq: "cancel_existing a = terminalize_work dr User d"
    by (simp only: cancel_existing_def Let_def a3_def [symmetric] 4 a5_def [symmetric] 5 a6_def [symmetric] d_def [symmetric] prod.case)
  have "settles_to User (waiting_line a) a6 (terminalize_work dr User d)"
    unfolding line by (rule settles_line [OF ok6 okd])
      (use line_distinct [OF ok] unresolved_line [OF ok un] c6 in \<open>auto simp: line d_def split: option.split\<close>)
  then show "settles_to User (waiting_line a) a (cancel_existing a)" unfolding eq by (rule settles_from) (simp_all add: c6)
  have "waiting_line a6 = []" by (simp add: a6_def drive_line e)
  then show "waiting_line (cancel_existing a) = []" unfolding eq d_def by (auto simp: waiting_line_def fire_active_def split: option.split)
qed

end
