(* ===== verification/Actor_Wakeup.thy ===== *)
theory Actor_Wakeup
  imports Actor_Accounting
begin

text \<open>
  Whether the runner can sleep on work. While it waits, everything it could pop comes with a pending
  wake-up: no queued turn, control or compaction is ever stranded. The same does not hold for child
  results: the last section builds a run of the actor after which a pending result could be scheduled
  but nothing will wake the runner.
\<close>

section \<open>Queued work is never stranded\<close>

definition poppable :: "actor \<Rightarrow> bool" where
  "poppable a \<longleftrightarrow> fst (pop_work a) \<noteq> None"

lemma poppable_iff: "poppable a \<longleftrightarrow> (case idle (state a) of
     None \<Rightarrow> items (queue a) \<noteq> []
   | Some r \<Rightarrow> idle_edit r \<noteq> None \<or> (\<exists>t. permission r = Some t \<and> t \<in> set (queued_turns (items (queue a)))))"
proof (cases "idle (state a)")
  case None then show ?thesis by (simp add: poppable_def pop_work_def q_pop_def split: list.split)
next
  case (Some r)
  have "fst (take_queued_turn t a) \<noteq> None \<longleftrightarrow> t \<in> set (queued_turns (items (queue a)))" for t
  proof (cases "remove_turn t (queue a)")
    case (Pair x q)
    show ?thesis
    proof (cases x)
      case None with Pair remove_turn_None [of t "queue a" q] show ?thesis by (simp add: take_queued_turn_def)
    next
      case (Some y) with Pair remove_turn_Some [of t "queue a" y q] show ?thesis by (auto simp: take_queued_turn_def)
    qed
  qed
  then show ?thesis using Some by (auto simp: poppable_def pop_work_def split: option.splits prod.splits) (metis fst_conv option.simps(3))+
qed

definition quiet :: "actor \<Rightarrow> actor \<Rightarrow> bool" where
  "quiet a b \<longleftrightarrow> (wake_pending a \<longrightarrow> wake_pending b) \<and> (poppable b \<longrightarrow> poppable a \<or> wake_pending b)"

lemma quiet_refl [simp, intro]: "quiet a a" by (simp add: quiet_def)
lemma quiet_trans [trans]: "quiet a b \<Longrightarrow> quiet b c \<Longrightarrow> quiet a c" by (auto simp: quiet_def)

lemma quiet_same: "queue b = queue a \<Longrightarrow> woken b = woken a \<Longrightarrow> idle (state b) = idle (state a) \<Longrightarrow> quiet c b = quiet c a"
proof -
  assume *: "queue b = queue a" "woken b = woken a" "idle (state b) = idle (state a)"
  then have "poppable b = poppable a" by (simp add: poppable_iff split: option.split)
  with * show ?thesis by (simp add: quiet_def wake_pending_def)
qed

lemma quiet_wake: "wake_pending b \<Longrightarrow> quiet a b" by (simp add: quiet_def)

lemma quiet_shrink:
  "set (items (queue b)) \<subseteq> set (items (queue a)) \<Longrightarrow> notified (queue b) = notified (queue a) \<Longrightarrow> woken b = woken a \<Longrightarrow>
   idle (state b) = idle (state a) \<Longrightarrow> quiet a b"
  by (auto simp: quiet_def poppable_iff wake_pending_def queued_turns_mem split: option.splits) 

lemma quiet_simps [simp]:
  "quiet a (publish_idle b) = quiet a b" "quiet a (finish_close b) = quiet a b" "quiet a (emit e b) = quiet a b"
  "quiet a (cancel_prepared_where sel b) = quiet a b" "quiet a (record_cancellation rsel r b) = quiet a b"
  "quiet a (fire_active x r b) = quiet a b" "quiet a (take_and_fire_active r b) = quiet a b"
  "quiet a (forget_inboxes ts b) = quiet a b" "quiet a (set_preparing i b) = quiet a b"
  "quiet a (b\<lparr>next_addr := na\<rparr>) = quiet a b" "quiet a (prepared_fail p er b) = quiet a b"
  "quiet a (clear_runner cr b) = quiet a b" "quiet a (on_state (modify_inbox t f) b) = quiet a b"
  "quiet a (on_cell t g b) = quiet a b" "quiet a (send_terminal sn out b) = quiet a b"
  "quiet a (delivery_publish tk b) = quiet a b" "quiet a (delivery_settle t rr b) = quiet a b"
  "quiet a (pop_operation b) = quiet a b"
  by (rule quiet_same; simp add: publish_idle_def finish_close_def emit_def cancel_prepared_where_def record_cancellation_def fire_active_def
    take_and_fire_active_def forget_inboxes_def set_preparing_def prepared_fail_def cancel_publication_def clear_runner_def drop_active_def
    settle_runner_def modify_inbox_def on_cell_def send_terminal_def delivery_publish_def delivery_settle_def pop_operation_def
    on_state_def Let_def split: option.split)+

lemma quiet_on_state [simp]: "idle (f (state b)) = idle (state b) \<Longrightarrow> quiet a (on_state f b) = quiet a b"
  by (rule quiet_same) (simp_all add: on_state_def)

lemma quiet_notify [simp]: "quiet a (on_queue notify b)" "quiet a (on_queue (q_push w) b)"
  by (simp_all add: quiet_wake wake_pending_def on_queue_def notify_def q_push_def)

lemma materialize_notified: "queue (materialize op snap a) = queue a \<or> notified (queue (materialize op snap a))"
  by (cases op) (simp_all add: materialize.simps materialize_turn_def Let_def on_queue_def q_push_def notify_def)

lemma drive_notified:
  "queue (drive_operations a) = queue a \<or> notified (queue (drive_operations a))"
  "queue (drive_loop b) = queue b \<or> notified (queue (drive_loop b))"
proof (induction a and b rule: drive_operations_drive_loop.induct)
  case (1 a)
  then show ?case by (subst (1 2) drive_operations.simps) simp
next
  case (2 a)
  have fr: "queue (set_preparing p x) = queue x" "queue (spawn_task k x) = queue x" "queue (prepared_fail pp e x) = queue x" for p k pp e x
    by (simp_all add: drive_defs prepared_fail_def cancel_publication_def Let_def split: option.split)
  show ?case
  proof (cases "operations (state a)")
    case Nil then show ?thesis by (subst (1 2) drive_loop.simps) (simp add: fr)
  next
    case (Cons op rest)
    show ?thesis
    proof (cases op)
      case (OpPrepared p)
      then show ?thesis using Cons 2(1)[OF _ Cons OpPrepared]
        by (subst (1 2) drive_loop.simps) (auto simp: Let_def fr split: option.split sum.split)
    next
      case (OpTurn op)
      let ?x = "on_state (\<lambda>s. s\<lparr>operations := rest\<rparr>) (on_state (modify_inbox (ticket_turn (top_ticket op))
        (\<lambda>i. i\<lparr>inbox_policy := policy (state a)\<rparr>)) (set_preparing None a))"
      from OpTurn show ?thesis using Cons 2(3)[OF _ Cons OpTurn] materialize_notified [of "OpTurn op" None ?x]
        by (subst (1 2) drive_loop.simps) (auto simp: Let_def fr split: option.split)
    next
      case (OpControl i c)
      let ?x = "on_state (\<lambda>s. s\<lparr>operations := rest\<rparr>) (set_preparing None a)"
      from OpControl show ?thesis using Cons 2(2)[OF _ Cons OpControl] materialize_notified [of "OpControl i c" None ?x]
        by (subst (1 2) drive_loop.simps) (auto simp: Let_def fr split: option.split)
    next
      case (OpCompact i r ins pres)
      let ?x = "on_state (\<lambda>s. s\<lparr>operations := rest\<rparr>) (set_preparing None a)"
      from OpCompact show ?thesis using Cons 2(4)[OF _ Cons OpCompact] materialize_notified [of "OpCompact i r ins pres" None ?x]
        by (subst (1 2) drive_loop.simps) (auto simp: Let_def fr split: option.split)
    qed
  qed
qed

lemma drive_wake_frame [simp]: "woken (drive_operations a) = woken a" "idle (state (drive_operations a)) = idle (state a)"
  using drive_steady(1) [of a] by (auto simp: steady_def)

lemma quiet_drive: "quiet a b \<Longrightarrow> quiet a (drive_operations b)"
proof -
  have "quiet b (drive_operations b)"
    using drive_notified(1) [of b] quiet_same [of "drive_operations b" b b] by (auto intro: quiet_wake simp: wake_pending_def)
  then show "quiet a b \<Longrightarrow> quiet a (drive_operations b)" by (blast intro: quiet_trans)
qed

lemma quiet_materialize: "quiet a b \<Longrightarrow> quiet a (materialize op snap b)"
proof -
  have "woken (materialize op snap b) = woken b"
    by (cases op) (simp_all add: materialize.simps materialize_turn_def Let_def on_defs make_submission_def split: option.split)
  then have "quiet b (materialize op snap b)"
    using materialize_notified [of op snap b] quiet_same [of "materialize op snap b" b b] by (auto intro: quiet_wake simp: wake_pending_def)
  then show "quiet a b \<Longrightarrow> quiet a (materialize op snap b)" by (blast intro: quiet_trans)
qed

lemma quiet_release: "quiet a b \<Longrightarrow> quiet a (release_permission t b)"
  by (simp add: release_permission_def Let_def)

lemma quiet_evict [simp]: "quiet a (evict_retained b) = quiet a b"
  by (rule quiet_same) (simp_all add: evict_retained_def on_state_def split: list.split)

lemma quiet_upd [simp]: "quiet a (b\<lparr>outcomes := x\<rparr>) = quiet a b" "quiet a (b\<lparr>tickets := y\<rparr>) = quiet a b"
  "quiet a (b\<lparr>retained_tickets := z\<rparr>) = quiet a b" "quiet a (b\<lparr>coverage := cv\<rparr>) = quiet a b"
  "quiet a (b\<lparr>clock := cl\<rparr>) = quiet a b"
  by (rule quiet_same; simp)+

lemma quiet_retire_turn: "quiet a (fst (retire_turn t out w s h a))"
  by (simp add: retire_turn_def Let_def quiet_release)

lemma quiet_publish_retired: "quiet a b \<Longrightarrow> quiet a (publish_retired t out adm d tk b)"
  by (simp add: publish_retired_def Let_def case_prod_beta split: option.split)

lemma quiet_retire: "quiet a b \<Longrightarrow> quiet a (retire_and_publish t out adm d s h b)"
proof -
  have "quiet b (retire_and_publish t out adm d s h b)"
    using quiet_retire_turn [of b t out "adm_work adm" s h] by (auto simp: retire_and_publish_def intro: quiet_publish_retired split: prod.split option.split)
  then show "quiet a b \<Longrightarrow> quiet a (retire_and_publish t out adm d s h b)" by (blast intro: quiet_trans)
qed

lemma quiet_finalize: "quiet a b \<Longrightarrow> quiet a (finalize_turn t out adm d b)"
  by (simp add: finalize_turn_def quiet_retire)

lemma quiet_fold: "(\<And>x b. quiet b (g x b)) \<Longrightarrow> quiet a b \<Longrightarrow> quiet a (fold g xs b)"
  by (induction xs arbitrary: b) (simp_all, meson quiet_trans)

lemma quiet_settle_deferred: "quiet a b \<Longrightarrow> quiet a (settle_deferred ops r b)"
proof -
  have "quiet b (settle_operation r x b)" for x b by (cases x) (simp_all add: quiet_finalize Let_def)
  then show "quiet a b \<Longrightarrow> quiet a (settle_deferred ops r b)" unfolding settle_deferred_def by (auto intro: quiet_fold)
qed

lemma quiet_terminalize: "quiet a b \<Longrightarrow> quiet a (terminalize_work ws r b)"
proof -
  have "quiet b (terminalize_one r x b)" for x b by (cases x) (simp_all add: quiet_finalize)
  then show "quiet a b \<Longrightarrow> quiet a (terminalize_work ws r b)" unfolding terminalize_work_def by (auto intro: quiet_fold)
qed

lemma quiet_shrink_trans:
  "quiet a b \<Longrightarrow> set (items q) \<subseteq> set (items (queue b)) \<Longrightarrow> notified q = notified (queue b) \<Longrightarrow> quiet a (b\<lparr>queue := q\<rparr>)"
  by (rule quiet_trans, assumption, rule quiet_shrink) simp_all

lemma remove_turn_shrinks: "set (items (snd (remove_turn t q))) \<subseteq> set (items q)" "notified (snd (remove_turn t q)) = notified q"
proof -
  have "\<exists>q'. snd (remove_turn t q) = q' \<and> set (items q') \<subseteq> set (items q) \<and> notified q' = notified q"
  proof (cases "remove_turn t q")
    case (Pair x q')
    show ?thesis
    proof (cases x)
      case None with Pair remove_turn_None [of t q q'] show ?thesis by simp
    next
      case (Some y) with Pair remove_turn_Some [of t q y q'] show ?thesis by auto
    qed
  qed
  then show "set (items (snd (remove_turn t q))) \<subseteq> set (items q)" "notified (snd (remove_turn t q)) = notified q" by auto
qed

lemma quiet_pieces:
  "quiet a b \<Longrightarrow> quiet a (snd (drain_queue keep b))" "queue b = q \<Longrightarrow> quiet a b \<Longrightarrow> quiet a (b\<lparr>queue := snd (drain_all q)\<rparr>)"
  "quiet a b \<Longrightarrow> quiet a (snd (take_queued_turn t b))"
  "queue b = q \<Longrightarrow> quiet a b \<Longrightarrow> quiet a (b\<lparr>queue := snd (remove_correlation k q)\<rparr>)"
  by (auto simp: drain_queue_def drain_except_partition drain_all_def take_queued_turn_def remove_correlation_partition
    case_prod_beta intro!: quiet_shrink_trans dest: remove_turn_shrinks(1) [THEN subsetD] simp: remove_turn_shrinks)

lemma quiet_take_turns: "quiet a b \<Longrightarrow> quiet a (snd (take_queued_turns ts b))"
  by (induction ts arbitrary: b) (simp_all add: case_prod_beta Let_def quiet_pieces)

lemma quiet_pieces_same [simp]:
  "quiet a (snd (drain_operations keep b)) = quiet a b" "quiet a (snd (take_operation_turn t b)) = quiet a b"
  "quiet a (fst (reserve_presentation d b)) = quiet a b" "quiet a (fst (next_operation b)) = quiet a b"
  "quiet a (fst (make_submission t input dsp nt b)) = quiet a b" "quiet a (fst (adopt_presentation dd b)) = quiet a b"
  "quiet a (snd (take_pending b)) = quiet a b" "quiet a (admit_ticket tk b) = quiet a b"
  by (rule quiet_same; simp add: drain_operations_def drain_work_except_partition take_operation_turn_def reserve_presentation_def
    next_operation_def make_submission_def adopt_presentation_def take_pending_def admit_ticket_def on_state_def case_prod_beta Let_def
    split: option.split)+

lemma quiet_discards [simp]: "quiet a (emit_discarded r ds b) = quiet a b" "quiet a (discard_deliveries r b) = quiet a b"
proof -
  show "quiet a (emit_discarded r ds b) = quiet a b" for b ds unfolding emit_discarded_def by (rule fold_frame) simp
  then show "quiet a (discard_deliveries r b) = quiet a b" by (simp add: discard_deliveries_def Let_def case_prod_beta)
qed

lemmas quiet_steps = quiet_drive quiet_settle_deferred quiet_terminalize quiet_finalize quiet_pieces quiet_take_turns

lemma quiet_cancels:
  "quiet a (snd (remove t a))" "quiet a (snd (clear_except keep a))" "quiet a (cancel_existing a)" "quiet a (cancel_correlation k r a)"
  by (simp_all add: remove_def clear_except_def cancel_existing_def cancel_correlation_def capture_correlation_cancel_def
    settle_correlation_cancel_def Let_def case_prod_beta quiet_steps split: option.split)

lemma quiet_capture_turn: "capture_turn_cancel t r a = Inr (b, x) \<Longrightarrow> quiet a b"
  by (auto simp: capture_turn_cancel_def Let_def case_prod_beta quiet_steps split: if_splits)

lemma quiet_settle_turn_cancel: "quiet a b \<Longrightarrow> quiet a (settle_turn_cancel d q r b)"
  by (simp add: settle_turn_cancel_def Let_def quiet_steps split: option.split)

lemma quiet_cancel_turn: "cancel_turn_for t reason a = Inr b \<Longrightarrow> quiet a b"
  by (auto simp: cancel_turn_for_def intro: quiet_settle_turn_cancel quiet_capture_turn split: sum.splits)

lemma quiet_local: "capture_local_cancel d a = (b, k) \<Longrightarrow> quiet a (settle_local_cancel k b)"
  by (auto simp: capture_local_cancel_def settle_local_cancel_def Let_def case_prod_beta quiet_steps)

lemma quiet_enter: "quiet a (fst (enter_turn t input sender corr opts bytes shared a))"
  by (simp add: enter_turn_def open_turn_def Let_def case_prod_beta quiet_steps split: option.split)


lemma quiet_eq_enter: "enter_turn t input sender corr opts bytes shared a = (b, x) \<Longrightarrow> quiet a b"
  using quiet_enter [of a t input sender corr opts bytes shared] by simp

lemma quiet_join: "join_turn t i input corr opts bytes a = Inr (b, x) \<Longrightarrow> quiet a b"
  by (auto simp: join_turn_def Let_def case_prod_beta split: if_splits option.splits sum.splits)

lemma quiet_admit: "admit_turn_with_options jl t input sender corr opts a = Inr (b, x) \<Longrightarrow> quiet a b"
  by (auto simp: admit_turn_with_options_def intro: quiet_eq_enter split: option.splits if_splits prod.splits)

lemma quiet_submit: "submit_presented jl t input sender corr opts a = Inr (b, x) \<Longrightarrow> quiet a b"
  by (auto simp: submit_presented_def intro: quiet_eq_enter quiet_join split: option.splits if_splits prod.splits)

lemma quiet_controls:
  "push_control name corr payload a = Inr b \<Longrightarrow> quiet a b" "push_compact run ins a = Inr b \<Longrightarrow> quiet a b"
  "initialize_config cfg a = Inr (b, g) \<Longrightarrow> quiet a b" "configure_parent_delivery auto a = Inr b \<Longrightarrow> quiet a b"
  "reserve_operation turn owner a = Inr (b, x) \<Longrightarrow> quiet a b"
  by (auto simp: push_control_def push_compact_def initialize_config_def configure_parent_delivery_def reserve_operation_def push_operation_def
    Let_def case_prod_beta quiet_steps split: if_splits option.splits)

lemma quiet_idle:
  "prepare_idle a = Inr (b, ow) \<Longrightarrow> quiet a b" "allow_turn ow tk a = Inr b \<Longrightarrow> quiet a b" "quiet a (idle_guard_drop ow a)"
proof -
  assume "prepare_idle a = Inr (b, ow)"
  then show "quiet a b"
    by (auto simp: prepare_idle_def Let_def quiet_def poppable_iff wake_pending_def on_state_def split: if_splits)
qed (auto simp: allow_turn_def idle_guard_drop_def split: if_splits option.splits)

lemma quiet_delivery:
  "admit_delivery rd d a = Inr b \<Longrightarrow> quiet a b" "quiet a (snd (withdraw_child_delivery t a))"
  by (auto simp: admit_delivery_def withdraw_child_delivery_def Let_def case_prod_beta split: if_splits option.splits)

lemma replace_first_items:
  "replace_first_input t input ws = Some ws' \<Longrightarrow> queued_turns ws' = queued_turns ws \<and> (ws' = [] \<longleftrightarrow> ws = [])"
  using replace_first_turns by (cases ws) (auto split: if_splits option.splits actor_work.splits)

lemma quiet_replace: "replace_waiting_input t input a = Some b \<Longrightarrow> quiet c b = quiet c a"
proof -
  assume r: "replace_waiting_input t input a = Some b"
  have "poppable b = poppable a" "wake_pending b = wake_pending a"
    using r by (auto simp: replace_waiting_input_def replace_turn_input_def poppable_iff wake_pending_def on_state_def dest: replace_first_items
      split: option.splits)
  then show ?thesis by (simp add: quiet_def)
qed

lemma quiet_left [simp]: "quiet (on_state (modify_inbox t f) a) b = quiet a b"
  by (simp add: quiet_def poppable_iff wake_pending_def modify_inbox_def on_state_def split: option.split)

lemma quiet_remove_submission: "quiet a (snd (remove_submission i a))"
  by (auto simp: remove_submission_def Let_def quiet_replace intro!: quiet_settle_turn_cancel dest: quiet_capture_turn
      split: option.split prod.split list.split sum.split)

lemma quiet_remove_compact: "quiet a (snd (remove_pending_compact i a))"
proof -
  have "set (items (snd (remove_compact i q))) \<subseteq> set (items q)" "notified (snd (remove_compact i q)) = notified q" for q
    using set_extract_first_subset [of "is_compact i" "items q"]
    by (auto simp: remove_compact_def case_prod_beta split: option.splits actor_work.splits)
  then show ?thesis
    by (simp add: remove_pending_compact_def case_prod_beta quiet_drive quiet_shrink_trans split: option.split prod.split)
qed

lemma quiet_fail: "quiet a b \<Longrightarrow> quiet a (fail_admission op diag retry b)"
  by (cases op) (simp_all add: fail_admission_def Let_def quiet_finalize)

lemma quiet_done:
  "quiet a (constraint_done i pol k a)" "quiet a (preparation_done i pol snap a)" "quiet a (prepared_done i cfg res a)"
  by (auto simp: constraint_done_def preparation_done_def prepared_done_def Let_def intro!: quiet_fail quiet_drive quiet_materialize
    split: option.split sum.split list.split actor_operation.split)

lemma quiet_close: "quiet a (close a)" "quiet a (shutdown a)"
proof -
  have "quiet a (settle_close k b)" for k b
    by (rule quiet_wake) (simp add: settle_close_def wake_pending_def Let_def case_prod_beta)
  then have "quiet a (case capture_close sd a of (a', None) \<Rightarrow> a' | (a', Some k) \<Rightarrow> settle_close k a')" for sd
    by (auto simp: capture_close_def Let_def case_prod_beta split: prod.split option.split)
  then show "quiet a (close a)" "quiet a (shutdown a)" by (simp_all add: close_def shutdown_def)
qed

lemma quiet_observe: "quiet a (observe_presentation p a)"
  by (simp add: observe_presentation_def)

lemma host_step_quiet: "host_step a b \<Longrightarrow> quiet a b"
  by (cases rule: host_step.cases, assumption)
    (blast intro: quiet_admit quiet_submit quiet_controls quiet_cancels quiet_cancel_turn quiet_local quiet_idle quiet_delivery
      quiet_remove_submission quiet_remove_compact quiet_done quiet_close quiet_observe)+

lemma drained_not_poppable:
  assumes "runner_pop t a = (None, b)" shows "\<not> poppable (runner_drained b)"
proof -
  from assms obtain a1 where p: "pop_work (schedule t a) = (None, a1)" and b: "b = on_state (\<lambda>s. s\<lparr>processing := None\<rparr>) a1"
    by (auto simp: runner_pop_def Let_def split: option.splits prod.splits)
  have np: "\<not> poppable (schedule t a)" using p by (simp add: poppable_def)
  have "a1 = schedule t a"
  proof (cases "idle (state (schedule t a))")
    case None with p show ?thesis by (auto simp: pop_work_def q_pop_def split: list.splits)
  next
    case (Some r)
    with p show ?thesis using remove_turn_None
      by (auto simp: pop_work_def take_queued_turn_def split: option.splits prod.splits) 
  qed
  with np b show ?thesis by (simp add: poppable_iff runner_drained_def on_state_def split: option.splits)
qed

lemma waiting_is_woken:
  assumes "reachable s" shows "snd s = Waiting \<longrightarrow> poppable (fst s) \<longrightarrow> wake_pending (fst s)"
  using assms
proof (induction rule: reachable.induct)
  case (reach_step s s')
  from reach_step.hyps(2) show ?case
  proof (cases rule: actor_step.cases)
    case (step_host a a' pc)
    then show ?thesis using reach_step.IH host_step_quiet [of a a'] by (auto simp: quiet_def)
  next
    case (step_drained t a a')
    then show ?thesis using drained_not_poppable by auto
  qed (use reach_step.IH in \<open>auto simp: poppable_iff wake_pending_def split: option.splits if_splits\<close>)
qed simp

section \<open>A pending child result can be stranded\<close>

text \<open>A parent that prepares its admissions, with one turn waiting for its preparation and one child
  result pending; \<open>n\<close> tells whether a notification is pending.\<close>

definition stall_result :: child_delivery where
  "stall_result = \<lparr>delivery_label = None, delivery_result = \<lparr>res_outcome = outcome_completed (AgentId 2) (TurnId 7) no_usage 1 EndTurn,
     res_text = ''done'', res_output = [], res_provenance = default_provenance, duration_ms = 0\<rparr>\<rparr>"

definition stall_ticket :: turn_ticket where
  "stall_ticket = \<lparr>ticket_turn = TurnId 5, ticket_actor = 0, ticket_provenance = default_provenance\<rparr>"

definition stall_waiting :: actor where
  "stall_waiting = (spawn_actor (AgentId 0) 0 False None None True 0)
     \<lparr>state := (idle_state None)\<lparr>instructions := [(TurnId 5, (new_inbox stall_ticket 1)\<lparr>drained := [(default_provenance, 2)],
         initial := Some \<lparr>sub_id = SubmissionId 1, sub_turn = TurnId 5, sub_text = ''hi'', sub_images = [],
           already_displayed = False, sub_notice = None\<rparr>, inbox_operation := 1\<rparr>)],
       idle_pending := True, presentation := 1, preparing := Some 1, next_operation_id := 1, next_submission_id := 1,
       operations := [OpTurn \<lparr>top_id = 1, top_input = new_input ''hi'' [], top_sender = None, top_correlation = ''r1'',
         top_ticket = stall_ticket, top_constraint = None,
         top_identity = \<lparr>work_agent = AgentId 0, work_kind = TurnKind 1 (TurnId 5), presentation_id = 1\<rparr>\<rparr>]\<rparr>,
      tickets := [(TurnId 5, stall_ticket)], latest_admitted := Some (TurnId 5),
      tasks := [PreparationTask 1 None (new_input ''hi'' [])]\<rparr>"

definition stall_pending :: "bool \<Rightarrow> actor" where
  "stall_pending n = stall_waiting\<lparr>queue := \<lparr>items = [], notified = n\<rparr>,
     state := (state stall_waiting)\<lparr>deliveries := [(TurnId 7, \<lparr>pd_delivery = stall_result, pd_message = ProviderMessage 0,
         pd_bytes = 100, cancellation_retried = False, arrived_during_run = True\<rparr>)],
       delivery_order := [TurnId 7], delivery_seen := [TurnId 7], events := [EvDelivery stall_result Accepted]\<rparr>\<rparr>"

lemmas stall_evals = admit_turn_with_options_def submission_bytes_def check_instruction_capacity_def total_outstanding_def
  MAX_PENDING_INSTRUCTIONS_def MAX_PENDING_INSTRUCTION_BYTES_def MAX_RETAINED_TURN_RESULTS_def admission_refused_def
  default_options_def enter_turn_def open_turn_def adopt_presentation_def reserve_presentation_def make_submission_def
  new_inbox_def admit_ticket_def drive_operations.simps drive_loop.simps set_preparing_def spawn_task_def modify_inbox_def
  on_state_def on_queue_def spawn_actor_def idle_state_def new_queue_def new_input_def with_provenance_def new_ticket_def Let_def
  has_pending_work_def q_is_empty_def

lemmas stall_evals2 = stall_evals admit_delivery_def stall_result_def delivery_turn_def outcome_completed_def pending_bytes_def delivery_limits remember_seen_def
  emit_def notify_def hm_contains_def
lemmas stall_defs = stall_waiting_def stall_pending_def stall_ticket_def stall_result_def

lemma stall_step_admit: "admit_turn_with_options (\<lambda>_. Some 0) (TurnId 5) (new_input ''hi'' []) None ''r1'' default_options
     (spawn_actor (AgentId 0) 0 False None None True 0) = Inr (stall_waiting, stall_ticket)"
  by (simp add: stall_evals stall_defs fun_upd_idem)

lemma stall_step_deliver: "admit_delivery (\<lambda>d. (d, ProviderMessage 0, 100)) stall_result stall_waiting = Inr (stall_pending True)"
  by (simp add: stall_evals2 stall_defs)

lemma stall_pending_simps:
  "operations (state (stall_pending n)) \<noteq> []" "idle (state (stall_pending n)) = None" "queue (stall_pending n) = \<lparr>items = [], notified = n\<rparr>"
  "lifecycle (state (stall_pending n)) = Open" "woken (stall_pending n) = False" 
  by (simp_all add: stall_defs spawn_actor_def idle_state_def)

lemma stall_step_run: "runner_pop t (stall_pending n) = (None, stall_pending n)" "runner_drained (stall_pending n) = stall_pending n"
  "consume_wake (stall_pending True) = stall_pending False"
  by (simp_all add: runner_pop_def schedule_def schedule_ready_def pop_work_def q_pop_def consume_wake_def runner_drained_def on_defs stall_pending_simps)
   (simp_all add: stall_defs spawn_actor_def idle_state_def)


definition stall_op :: turn_operation where
  "stall_op = \<lparr>top_id = 1, top_input = new_input ''hi'' [], top_sender = None, top_correlation = ''r1'',
         top_ticket = stall_ticket, top_constraint = None,
         top_identity = \<lparr>work_agent = AgentId 0, work_kind = TurnKind 1 (TurnId 5), presentation_id = 1\<rparr>\<rparr>"
definition stall_removed :: actor where
  "stall_removed = (stall_pending False)\<lparr>state := (state (stall_pending False))\<lparr>operations := [], instructions := [], preparing := None\<rparr>\<rparr>"

lemma stall_remove: "snd (remove (TurnId 5) (stall_pending False)) = settle_deferred [OpTurn stall_op] User stall_removed"
  by (simp add: remove_def take_operation_turn_def take_queued_turn_def remove_turn_def stall_removed_def stall_op_def stall_defs stall_evals)

lemma stall_removed_simps: "outcomes stall_removed = []" "tickets stall_removed = [(TurnId 5, stall_ticket)]" "retained_order (state stall_removed) = []"
  "processing (state stall_removed) = None" "instructions (state stall_removed) = []" "idle (state stall_removed) = None"
  "parent_label stall_removed = None" "delivery_runs (state stall_removed) = []" "pending_publications (state stall_removed) = 0"
  "queue stall_removed = \<lparr>items = [], notified = False\<rparr>" "woken stall_removed = False" "lifecycle (state stall_removed) = Open"
  "operations (state stall_removed) = []" "delivery_suspended (state stall_removed) = False" "deliveries (state stall_removed) \<noteq> []"
  "status (state stall_removed) = Idle" "active (state stall_removed) = None" "cells stall_removed = (\<lambda>_. new_cell)"
  "actor_agent stall_removed = AgentId 0" "close_pending (state stall_removed) = False"
  by (simp_all add: stall_removed_def stall_defs spawn_actor_def idle_state_def)


definition schedule_view where
  "schedule_view a = (lifecycle (state a), idle (state a), delivery_suspended (state a), deliveries (state a), delivery_runs (state a),
     status (state a), active (state a), processing (state a), operations (state a), queue a, woken a)"

lemma schedule_view_simps [simp]:
  "schedule_view (emit ev a) = schedule_view a" "schedule_view (publish_idle a) = schedule_view a" "schedule_view (finish_close a) = schedule_view a"
  "schedule_view (on_cell t f a) = schedule_view a" "schedule_view (send_terminal sn out a) = schedule_view a"
  "schedule_view (delivery_publish tk a) = schedule_view a" "schedule_view (evict_retained a) = schedule_view a"
  "schedule_view (on_state (\<lambda>s. s\<lparr>pending_publications := pp s\<rparr>) a) = schedule_view a"
  by (simp_all add: schedule_view_def emit_def publish_idle_def finish_close_def on_cell_def send_terminal_def delivery_publish_def
    evict_retained_def on_state_def split: option.split list.split)

lemma publish_retired_view:
  assumes "hm_get (delivery_runs (state a)) t = None"
  shows "schedule_view (publish_retired t out adm d tk a) = schedule_view a"
    "pending_publications (state (publish_retired t out adm d tk a)) = pending_publications (state a) - 1"
proof -
  have none: "delivery_settle t r b = b" if "schedule_view b = schedule_view a" for r b
    using assms that by (simp add: delivery_settle_def schedule_view_def)
  show "schedule_view (publish_retired t out adm d tk a) = schedule_view a"
    "pending_publications (state (publish_retired t out adm d tk a)) = pending_publications (state a) - 1"
    by (simp_all add: publish_retired_def Let_def case_prod_beta none split: option.split)
qed

lemma retire_turn_view:
  assumes "\<not> hm_contains (outcomes a) t" "idle (state a) = None"
  shows "schedule_view (fst (retire_turn t out w False h a)) = schedule_view a"
    "pending_publications (state (fst (retire_turn t out w False h a))) = pending_publications (state a) + 1"
    "snd (snd (retire_turn t out w False h a)) \<noteq> None"
  using assms by (simp_all add: retire_turn_def Let_def clear_runner_def release_permission_def release_idle_permission_def hm_contains_def)
    (simp_all add: schedule_view_def evict_retained_def on_state_def split: list.split)

lemma finalize_view:
  assumes "\<not> hm_contains (outcomes a) t" "idle (state a) = None" "hm_get (delivery_runs (state a)) t = None"
  shows "schedule_view (finalize_turn t out adm d a) = schedule_view a"
    "pending_publications (state (finalize_turn t out adm d a)) = pending_publications (state a)"
proof -
  obtain b out' r where b: "retire_turn t out (adm_work adm) False False a = (b, out', Some r)"
    using retire_turn_view(3) [OF assms(1,2)] by (metis eq_snd_iff not_None_eq)
  note v = retire_turn_view [OF assms(1,2), of out "adm_work adm" False, unfolded b fst_conv]
  have "hm_get (delivery_runs (state b)) t = None" using v(1) assms(3) by (simp add: schedule_view_def)
  from publish_retired_view [OF this] v show "schedule_view (finalize_turn t out adm d a) = schedule_view a"
    "pending_publications (state (finalize_turn t out adm d a)) = pending_publications (state a)"
    by (simp_all add: finalize_turn_def retire_and_publish_def b)
qed

lemma stall_ready: "schedule_ready (snd (remove (TurnId 5) (stall_pending False))) \<and> \<not> wake_pending (snd (remove (TurnId 5) (stall_pending False)))" 
proof -
  let ?b = "snd (remove (TurnId 5) (stall_pending False))"
  have "schedule_view ?b = schedule_view stall_removed" "pending_publications (state ?b) = 0"
    using finalize_view [of stall_removed "TurnId 5"] 
    by (simp_all add: stall_remove settle_deferred_def stall_op_def stall_ticket_def stall_removed_simps hm_contains_def Let_def)
  then show ?thesis
    by (simp add: schedule_view_def schedule_ready_def has_pending_work_def wake_pending_def q_is_empty_def stall_removed_simps)
qed

lemma stall_fresh: "fresh_turn (TurnId 5) (spawn_actor (AgentId 0) 0 False None None True 0)" "fresh_turn (TurnId 6) (stall_pending n)"
  by (simp_all add: fresh_turn_def hm_contains_def stall_defs spawn_actor_def)

lemma stall_waiting_reachable: "reachable (stall_waiting, AtPop)"
  by (rule reach_step [OF reach_spawn]) (rule step_host, rule host_admit [OF stall_fresh(1) stall_step_admit])

lemma stall_pending_reachable: "reachable (stall_pending True, AtPop)"
  by (rule reach_step [OF stall_waiting_reachable]) (rule step_host, rule host_deliver [OF stall_step_deliver])

lemma stall_parked_reachable: "reachable (stall_pending False, Waiting)"
proof -
  have "reachable (stall_pending True, Waiting)"
    by (rule reach_step [OF stall_pending_reachable])
      (use step_drained [OF stall_fresh(2) stall_step_run(1)] in \<open>simp add: stall_step_run(2) stall_pending_simps\<close>)
  then have "reachable (stall_pending False, AtPop)"
    by (rule reach_step) (use step_woken [of "stall_pending True"] in \<open>simp add: stall_step_run(3) stall_pending_simps wake_pending_def\<close>)
  then show ?thesis
    by (rule reach_step) (use step_drained [OF stall_fresh(2) stall_step_run(1)] in \<open>simp add: stall_step_run(2) stall_pending_simps\<close>)
qed

lemma stall_reachable: "\<exists>a. reachable (a, Waiting) \<and> schedule_ready a \<and> \<not> wake_pending a"
  using reach_step [OF stall_parked_reachable step_host, OF host_remove] stall_ready by blast

end
