(* ===== verification/Actor_Capacity.thy ===== *)
theory Actor_Capacity
  imports Actor_Accounting
begin

text \<open>
  The bounds on unprocessed instructions: over all inboxes of an actor, the messages a run has not
  acknowledged number at most \<open>MAX_PENDING_INSTRUCTIONS\<close> and hold at most
  \<open>MAX_PENDING_INSTRUCTION_BYTES\<close>, in every reachable state. Everything but the two admissions only
  ever lowers the load (\<open>lighter\<close>); the admissions test the capacity first.
\<close>

type_synonym inboxes = "(turn_id, instruction_inbox) hmap"

definition held_count :: "inboxes \<Rightarrow> nat" where
  "held_count m = sum_list (map (\<lambda>i. fst (outstanding i)) (hm_values m))"

definition held_bytes :: "inboxes \<Rightarrow> nat" where
  "held_bytes m = sum_list (map (\<lambda>i. snd (outstanding i)) (hm_values m))"

lemma total_outstanding_eq: "total_outstanding s = (held_count (instructions s), held_bytes (instructions s))"
proof -
  have "fold (\<lambda>i (n, b). (n + fst (outstanding i), b + snd (outstanding i))) xs (n, b) =
    (n + sum_list (map (\<lambda>i. fst (outstanding i)) xs), b + sum_list (map (\<lambda>i. snd (outstanding i)) xs))" for xs n b
    by (induction xs arbitrary: n b) simp_all
  then show ?thesis by (simp add: total_outstanding_def held_count_def held_bytes_def)
qed

definition less_held :: "inboxes \<Rightarrow> inboxes \<Rightarrow> bool" where
  "less_held m m' \<longleftrightarrow> (hm_wf m \<longrightarrow> hm_wf m') \<and> held_count m' \<le> held_count m \<and> held_bytes m' \<le> held_bytes m"

lemma less_held_refl [simp, intro]: "less_held m m" by (simp add: less_held_def)
lemma less_held_trans: "less_held a b \<Longrightarrow> less_held b c \<Longrightarrow> less_held a c" by (auto simp: less_held_def)

lemma held_remove: "less_held m (hm_remove k m)"
proof -
  have "held_count (hm_remove k m) \<le> held_count m" "held_bytes (hm_remove k m) \<le> held_bytes m"
    by (induction m) (auto simp: held_count_def held_bytes_def)
  then show ?thesis by (simp add: less_held_def hm_wf_remove)
qed

lemma held_retain: "less_held m (hm_retain P m)"
proof -
  have "held_count (hm_retain P m) \<le> held_count m" "held_bytes (hm_retain P m) \<le> held_bytes m"
    by (induction m) (auto simp: held_count_def held_bytes_def hm_retain_def)
  then show ?thesis by (simp add: less_held_def hm_wf_retain)
qed

lemma held_fold_remove: "less_held m (fold hm_remove ks m)"
  by (induction ks arbitrary: m) (auto intro: less_held_trans held_remove)

lemma held_modify_le:
  assumes "\<And>i. hm_get m k = Some i \<Longrightarrow> fst (outstanding (f i)) \<le> fst (outstanding i) + n \<and> snd (outstanding (f i)) \<le> snd (outstanding i) + b"
  shows "held_count (hm_modify k f m) \<le> held_count m + n" "held_bytes (hm_modify k f m) \<le> held_bytes m + b"
  using assms by (induction m) (auto simp: held_count_def held_bytes_def split: if_splits)

lemma held_modify:
  "(\<And>i. hm_get m k = Some i \<Longrightarrow> fst (outstanding (f i)) \<le> fst (outstanding i) \<and> snd (outstanding (f i)) \<le> snd (outstanding i))
    \<Longrightarrow> less_held m (hm_modify k f m)"
  using held_modify_le [of m k f 0 0] by (simp add: less_held_def hm_wf_modify)

lemma held_insert: "held_count (hm_insert k i m) \<le> held_count m + fst (outstanding i)"
  "held_bytes (hm_insert k i m) \<le> held_bytes m + snd (outstanding i)"
  by (induction m) (auto simp: held_count_def held_bytes_def)

definition lighter :: "actor \<Rightarrow> actor \<Rightarrow> bool" where
  "lighter a b \<longleftrightarrow> less_held (instructions (state a)) (instructions (state b))"

lemma lighter_refl [simp, intro]: "lighter a a" by (simp add: lighter_def)
lemma lighter_trans [trans]: "lighter a b \<Longrightarrow> lighter b c \<Longrightarrow> lighter a c" unfolding lighter_def by (rule less_held_trans)

lemma lighter_same: "instructions (state b) = instructions (state a) \<Longrightarrow> lighter c b = lighter c a"
  by (simp add: lighter_def)

lemma lighter_step: "lighter a b \<Longrightarrow> less_held (instructions (state b)) (instructions (state c)) \<Longrightarrow> lighter a c"
  unfolding lighter_def by (rule less_held_trans)

lemma lighter_simps [simp]:
  "lighter a (publish_idle b) = lighter a b" "lighter a (finish_close b) = lighter a b" "lighter a (emit e b) = lighter a b"
  "lighter a (cancel_prepared_where sel b) = lighter a b" "lighter a (record_cancellation rsel r b) = lighter a b"
  "lighter a (fire_active x r b) = lighter a b" "lighter a (take_and_fire_active r b) = lighter a b"
  "lighter a (set_preparing i b) = lighter a b" "lighter a (on_queue qf b) = lighter a b"
  "lighter a (prepared_fail p er b) = lighter a b" "lighter a (clear_runner cr b) = lighter a b"
  "lighter a (on_cell t g b) = lighter a b" "lighter a (send_terminal sn out b) = lighter a b"
  "lighter a (delivery_publish tk b) = lighter a b" "lighter a (delivery_settle t rr b) = lighter a b"
  "lighter a (pop_operation b) = lighter a b" "lighter a (release_permission t b) = lighter a b"
  "lighter a (evict_retained b) = lighter a b" "lighter a (spawn_task k b) = lighter a b" "lighter a (drop_active b) = lighter a b"
  by (rule lighter_same; simp add: cancel_prepared_where_def record_cancellation_def fire_active_def
    take_and_fire_active_def set_preparing_def on_queue_def prepared_fail_def cancel_publication_def drop_active_def pop_operation_def
    spawn_task_def Let_def split: option.split)+

lemma lighter_upd [simp]:
  "lighter a (b\<lparr>outcomes := x1\<rparr>) = lighter a b" "lighter a (b\<lparr>tickets := x2\<rparr>) = lighter a b"
  "lighter a (b\<lparr>retained_tickets := x3\<rparr>) = lighter a b" "lighter a (b\<lparr>coverage := x4\<rparr>) = lighter a b"
  "lighter a (b\<lparr>clock := x5\<rparr>) = lighter a b" "lighter a (b\<lparr>queue := x6\<rparr>) = lighter a b" "lighter a (b\<lparr>woken := x7\<rparr>) = lighter a b"
  "lighter a (b\<lparr>next_addr := x8\<rparr>) = lighter a b" "lighter a (b\<lparr>run_tokens := x9\<rparr>) = lighter a b"
  by (rule lighter_same; simp)+

lemma lighter_on_state [simp]: "instructions (f (state b)) = instructions (state b) \<Longrightarrow> lighter a (on_state f b) = lighter a b"
  by (rule lighter_same) simp

lemma lighter_left [simp]:
  "lighter (prepared_fail p er a) b = lighter a b" "lighter (set_preparing i a) b = lighter a b"
  "instructions (f (state a)) = instructions (state a) \<Longrightarrow> lighter (on_state f a) b = lighter a b"
  by (simp_all add: lighter_def prepared_fail_def cancel_publication_def set_preparing_def Let_def split: option.split)

lemma lighter_clear [simp]:
  "lighter a b \<Longrightarrow> lighter a (on_state (\<lambda>s. s\<lparr>instructions := hm_remove t (instructions s)\<rparr>) b)"
  "lighter a b \<Longrightarrow> lighter a (forget_inboxes ts b)"
  by (auto intro: lighter_step simp: held_remove held_fold_remove forget_inboxes_def)

lemma lighter_modify:
  "(\<And>i. fst (outstanding (f i)) \<le> fst (outstanding i) \<and> snd (outstanding (f i)) \<le> snd (outstanding i)) \<Longrightarrow>
    lighter a b \<Longrightarrow> lighter a (on_state (modify_inbox t f) b)"
  by (rule lighter_step, assumption) (simp add: modify_inbox_def held_modify)

lemma outstanding_upd [simp]:
  "outstanding (i\<lparr>inbox_policy := p\<rparr>) = outstanding i" "outstanding (i\<lparr>initial := q\<rparr>) = outstanding i"
  "outstanding (i\<lparr>inbox_open := r\<rparr>) = outstanding i" "outstanding (new_inbox tk pr) = (0, 0)"
  by (simp_all add: outstanding_def new_inbox_def)

lemma lighter_materialize: "lighter a b \<Longrightarrow> lighter a (materialize op snap b)"
proof -
  assume ab: "lighter a b"
  have "lighter b (materialize_turn d snap b)" for d
  proof -
    let ?t = "ticket_turn (top_ticket d)"
    define a1 where "a1 = (if hm_contains (delivery_runs (state b)) ?t \<or> hm_contains (instructions (state b)) ?t then b
                else on_state (\<lambda>s. s\<lparr>instructions := hm_insert ?t
                        (new_inbox (top_ticket d) (presentation_id (top_identity d))) (instructions s)\<rparr>) b)"
    have 1: "lighter b a1" using held_insert [of ?t "new_inbox (top_ticket d) (presentation_id (top_identity d))" "instructions (state b)"]
      by (auto simp: a1_def lighter_def less_held_def hm_wf_insert)
    show ?thesis
      unfolding materialize_turn_def Let_def a1_def [symmetric] lighter_simps
      by (rule lighter_modify, simp)
        (use 1 in \<open>auto simp: make_submission_def Let_def intro!: lighter_modify split: option.split\<close>)
  qed
  then have "lighter b (materialize op snap b)" by (cases op) (simp_all add: materialize.simps)
  with ab show ?thesis by (rule lighter_trans)
qed

lemma drive_lighter: "lighter a (drive_operations a)" "lighter b (drive_loop b)"
proof (induction a and b rule: drive_operations_drive_loop.induct)
  case (1 a)
  then show ?case by (subst drive_operations.simps) (auto simp: lighter_def)
next
  case (2 a)
  show ?case
  proof (cases "operations (state a)")
    case Nil then show ?thesis by (simp add: drive_loop.simps [of a])
  next
    case (Cons op rest)
    show ?thesis
    proof (cases op)
      case (OpPrepared p)
      then show ?thesis using Cons 2(1)[OF _ Cons OpPrepared]
        by (subst drive_loop.simps) (auto simp: Let_def split: option.split sum.split)
    next
      case (OpTurn d)
      let ?x = "materialize (OpTurn d) None (on_state (\<lambda>s. s\<lparr>operations := rest\<rparr>) (on_state (modify_inbox (ticket_turn (top_ticket d))
        (\<lambda>i. i\<lparr>inbox_policy := policy (state a)\<rparr>)) (set_preparing None a)))"
      have "lighter a ?x" by (intro lighter_materialize) (simp add: lighter_modify)
      then show ?thesis using OpTurn Cons 2(3)[OF _ Cons OpTurn]
        by (subst drive_loop.simps) (auto simp: Let_def lighter_modify intro: lighter_trans [of a ?x] split: option.split)
    next
      case (OpControl i c)
      let ?x = "materialize (OpControl i c) None (on_state (\<lambda>s. s\<lparr>operations := rest\<rparr>) (set_preparing None a))"
      have "lighter a ?x" by (intro lighter_materialize) simp
      then show ?thesis using OpControl Cons 2(2)[OF _ Cons OpControl]
        by (subst drive_loop.simps) (auto intro: lighter_trans [of a ?x])
    next
      case (OpCompact i r ins pres)
      let ?x = "materialize (OpCompact i r ins pres) None (on_state (\<lambda>s. s\<lparr>operations := rest\<rparr>) (set_preparing None a))"
      have "lighter a ?x" by (intro lighter_materialize) simp
      then show ?thesis using OpCompact Cons 2(4)[OF _ Cons OpCompact]
        by (subst drive_loop.simps) (auto intro: lighter_trans [of a ?x])
    qed
  qed
qed

lemma lighter_drive: "lighter a b \<Longrightarrow> lighter a (drive_operations b)"
  by (blast intro: lighter_trans drive_lighter)

lemma lighter_retire: "lighter a b \<Longrightarrow> lighter a (retire_and_publish t out adm d s h b)"
proof -
  have "lighter b (fst (retire_turn t out w s h b))" for w by (simp add: retire_turn_def Let_def)
  moreover have "lighter c (publish_retired t out' adm d tk e) = lighter c e" for c out' tk e by (rule lighter_same) simp
  ultimately have "lighter b (retire_and_publish t out adm d s h b)"
    by (auto simp: retire_and_publish_def split: prod.split option.split) (metis fst_conv)+
  then show "lighter a b \<Longrightarrow> lighter a (retire_and_publish t out adm d s h b)" by (blast intro: lighter_trans)
qed

lemma lighter_finalize: "lighter a b \<Longrightarrow> lighter a (finalize_turn t out adm d b)"
  by (simp add: finalize_turn_def lighter_retire)

lemma lighter_fold: "(\<And>x b. lighter b (g x b)) \<Longrightarrow> lighter a b \<Longrightarrow> lighter a (fold g xs b)"
  by (induction xs arbitrary: b) (simp_all, meson lighter_trans)

lemma lighter_settle_deferred: "lighter a b \<Longrightarrow> lighter a (settle_deferred ops r b)"
proof -
  have "lighter b (settle_operation r x b)" for x b by (cases x) (simp_all add: lighter_finalize Let_def)
  then show "lighter a b \<Longrightarrow> lighter a (settle_deferred ops r b)" unfolding settle_deferred_def by (auto intro: lighter_fold)
qed

lemma lighter_terminalize: "lighter a b \<Longrightarrow> lighter a (terminalize_work ws r b)"
proof -
  have "lighter b (terminalize_one r x b)" for x b by (cases x) (simp_all add: lighter_finalize)
  then show "lighter a b \<Longrightarrow> lighter a (terminalize_work ws r b)" unfolding terminalize_work_def by (auto intro: lighter_fold)
qed

lemma lighter_pieces [simp]:
  "lighter a (snd (drain_operations keep b)) = lighter a b" "lighter a (snd (drain_queue keepq b)) = lighter a b"
  "lighter a (snd (take_operation_turn t b)) = lighter a b" "lighter a (snd (take_queued_turn t b)) = lighter a b"
  "lighter a (fst (reserve_presentation d b)) = lighter a b" "lighter a (fst (next_operation b)) = lighter a b"
  "lighter a (fst (make_submission t input dsp nt b)) = lighter a b" "lighter a (fst (adopt_presentation dd b)) = lighter a b"
  "lighter a (snd (take_pending b)) = lighter a b" "lighter a (fst (install_active corr b)) = lighter a b"
  "lighter a (admit_ticket tk b) = lighter a b"
  by (rule lighter_same; simp add: drain_operations_def drain_work_except_partition drain_queue_def take_operation_turn_def take_queued_turn_def
    reserve_presentation_def next_operation_def make_submission_def adopt_presentation_def take_pending_def install_active_def admit_ticket_def
    case_prod_beta Let_def split: option.split)+

lemma lighter_take_turns [simp]: "lighter a (snd (take_queued_turns ts b)) = lighter a b"
  by (induction ts arbitrary: b) (simp_all add: case_prod_beta Let_def)

lemma lighter_discards [simp]: "lighter a (emit_discarded r ds b) = lighter a b" "lighter a (discard_deliveries r b) = lighter a b"
proof -
  show "lighter a (emit_discarded r ds b) = lighter a b" for b ds unfolding emit_discarded_def by (rule fold_frame) simp
  then show "lighter a (discard_deliveries r b) = lighter a b" by (simp add: discard_deliveries_def Let_def case_prod_beta)
qed

lemma lighter_wipe [simp]:
  "lighter a b \<Longrightarrow> lighter a (on_state (\<lambda>s. s\<lparr>instructions := [], cancellation_generation := cancellation_generation s + 1\<rparr>) b)"
  "lighter a b \<Longrightarrow> lighter a (on_state (\<lambda>s. s\<lparr>instructions := []\<rparr>) b)"
  "lighter a b \<Longrightarrow> lighter a (on_state (\<lambda>s. s\<lparr>instructions := hm_retain P (instructions s), cancellation_generation := cancellation_generation s + 1\<rparr>) b)"
proof -
  have "less_held m []" for m by (simp add: less_held_def held_count_def held_bytes_def)
  then show "lighter a b \<Longrightarrow> lighter a (on_state (\<lambda>s. s\<lparr>instructions := [], cancellation_generation := cancellation_generation s + 1\<rparr>) b)"
    "lighter a b \<Longrightarrow> lighter a (on_state (\<lambda>s. s\<lparr>instructions := []\<rparr>) b)" by (auto intro: lighter_step)
qed (auto intro: lighter_step simp: held_retain)

lemmas lighter_steps = lighter_drive lighter_settle_deferred lighter_terminalize lighter_finalize

lemma lighter_cancels:
  "lighter a (snd (remove t a))" "lighter a (snd (clear_except keep a))" "lighter a (cancel_existing a)" "lighter a (cancel_correlation k r a)"
  by (simp_all add: remove_def clear_except_def cancel_existing_def cancel_correlation_def capture_correlation_cancel_def
    settle_correlation_cancel_def Let_def case_prod_beta lighter_steps split: option.split)

lemma lighter_capture_turn: "capture_turn_cancel t r a = Inr (b, x) \<Longrightarrow> lighter a b"
  by (auto simp: capture_turn_cancel_def Let_def case_prod_beta lighter_steps split: if_splits)

lemma lighter_settle_turn_cancel: "lighter a b \<Longrightarrow> lighter a (settle_turn_cancel d q r b)"
  by (simp add: settle_turn_cancel_def Let_def lighter_steps split: option.split)

lemma lighter_cancel_turn: "cancel_turn_for t reason a = Inr b \<Longrightarrow> lighter a b"
  by (auto simp: cancel_turn_for_def intro: lighter_settle_turn_cancel lighter_capture_turn split: sum.splits)

lemma lighter_local: "capture_local_cancel d a = (b, k) \<Longrightarrow> lighter a (settle_local_cancel k b)"
  by (auto simp: capture_local_cancel_def settle_local_cancel_def Let_def case_prod_beta lighter_steps)

lemma lighter_controls:
  "push_control name corr payload a = Inr b \<Longrightarrow> lighter a b" "push_compact run ins a = Inr b \<Longrightarrow> lighter a b"
  "initialize_config cfg a = Inr (b, g) \<Longrightarrow> lighter a b" "configure_parent_delivery auto a = Inr b \<Longrightarrow> lighter a b"
  "reserve_operation turn owner a = Inr (b, x) \<Longrightarrow> lighter a b"
  by (auto simp: push_control_def push_compact_def initialize_config_def configure_parent_delivery_def reserve_operation_def push_operation_def
    Let_def case_prod_beta lighter_steps split: if_splits option.splits)

lemma lighter_idle:
  "prepare_idle a = Inr (b, ow) \<Longrightarrow> lighter a b" "allow_turn ow tk a = Inr b \<Longrightarrow> lighter a b" "lighter a (idle_guard_drop ow a)"
  by (auto simp: prepare_idle_def allow_turn_def idle_guard_drop_def Let_def lighter_drive split: if_splits option.splits)

lemma lighter_delivery:
  "admit_delivery rd d a = Inr b \<Longrightarrow> lighter a b" "lighter a (snd (withdraw_child_delivery t a))"
  by (auto simp: admit_delivery_def withdraw_child_delivery_def Let_def case_prod_beta split: if_splits option.splits)

lemma lighter_remove_compact: "lighter a (snd (remove_pending_compact i a))"
  by (simp add: remove_pending_compact_def case_prod_beta lighter_drive split: option.split prod.split)

lemma lighter_fail: "lighter a b \<Longrightarrow> lighter a (fail_admission op diag retry b)"
  by (cases op) (simp_all add: fail_admission_def Let_def lighter_finalize)

lemma lighter_done:
  "lighter a (constraint_done i pol k a)" "lighter a (preparation_done i pol snap a)" "lighter a (prepared_done i cfg res a)"
  by (auto simp: constraint_done_def preparation_done_def prepared_done_def Let_def intro!: lighter_fail lighter_drive lighter_materialize
    split: option.split sum.split list.split actor_operation.split)

lemma lighter_close: "lighter a (close a)" "lighter a (shutdown a)"
proof -
  have 1: "lighter b (settle_close k b)" for b k
    by (simp add: settle_close_def Let_def case_prod_beta lighter_steps)
  have "instructions (state (fst (capture_close sd a))) = (if lifecycle (state a) = Open then [] else instructions (state a))" for sd
    by (simp add: capture_close_def Let_def case_prod_beta take_and_fire_active_def fire_active_def fail_prepared_operations_def
      take_pending_def cancel_prepared_where_def record_cancellation_def split: option.split)
  then have 2: "lighter a (fst (capture_close sd a))" for sd
    by (auto simp: lighter_def less_held_def held_count_def held_bytes_def)
  have "lighter a (case capture_close sd a of (a', None) \<Rightarrow> a' | (a', Some k) \<Rightarrow> settle_close k a')" for sd
    using 1 2 [of sd] by (auto split: prod.split option.split intro: lighter_trans)
  then show "lighter a (close a)" "lighter a (shutdown a)" by (simp_all add: close_def shutdown_def)
qed

lemma lighter_observe: "lighter a (observe_presentation p a)"
  by (simp add: observe_presentation_def)

lemma replace_waiting_instructions: "replace_waiting_input t input a = Some b \<Longrightarrow> instructions (state b) = instructions (state a)"
  by (auto simp: replace_waiting_input_def split: option.splits)

text \<open>The invariant of the inboxes.\<close>

definition inboxes_ok :: "actor \<Rightarrow> bool" where
  "inboxes_ok a \<longleftrightarrow> hm_wf (instructions (state a)) \<and> held_count (instructions (state a)) \<le> MAX_PENDING_INSTRUCTIONS
     \<and> held_bytes (instructions (state a)) \<le> MAX_PENDING_INSTRUCTION_BYTES"

lemma lighter_ok: "lighter a b \<Longrightarrow> inboxes_ok a \<Longrightarrow> inboxes_ok b"
  by (auto simp: lighter_def less_held_def inboxes_ok_def)

lemma find_entry: "hm_wf m \<Longrightarrow> find P m = Some (k, v) \<Longrightarrow> map_of m k = Some v"
  using find_Some_mem [of P m "(k, v)"] set_hm_get [of m k v] by blast

lemma modify_modify: "hm_modify k f (hm_modify k g m) = hm_modify k (\<lambda>x. f (g x)) m"
  by (induction m) auto

lemma remove_submission_ok_inboxes:
  assumes ok: "inboxes_ok a" shows "inboxes_ok (snd (remove_submission i a))"
proof (cases "find (\<lambda>(t, b). inbox_holds i b) (instructions (state a))")
  case (Some p)
  obtain t b where p: "p = (t, b)" by fastforce
  have wf: "hm_wf (instructions (state a))" using ok by (simp add: inboxes_ok_def)
  with Some p have b: "hm_get (instructions (state a)) t = Some b" by (blast intro: find_entry)
  have mod1: "inboxes_ok (on_state (modify_inbox t f) a)"
    if "fst (outstanding (f b)) \<le> fst (outstanding b) \<and> snd (outstanding (f b)) \<le> snd (outstanding b)" for f
    by (rule lighter_ok [OF _ ok]) (use that b in \<open>auto simp: lighter_def modify_inbox_def intro!: held_modify\<close>)
  show ?thesis
  proof (cases "extract_first (\<lambda>e. sub_id (entry_presentation e) = i) (pending b)")
    case x: (Pair e rest)
    show ?thesis
    proof (cases e)
      case (Some e')
      from extract_first_Some [OF x [unfolded Some]] obtain us vs where "pending b = us @ e' # vs" "rest = us @ vs" by auto
      then have "inboxes_ok (on_state (modify_inbox t (\<lambda>b. b\<lparr>pending := rest\<rparr>)) a)" by (intro mod1) (simp add: outstanding_def)
      then show ?thesis using \<open>find _ _ = Some p\<close> p x Some by (simp add: remove_submission_def)
    next
      case None
      let ?a1 = "on_state (modify_inbox t (\<lambda>b. b\<lparr>initial := None\<rparr>)) a"
      have 1: "inboxes_ok ?a1" by (intro mod1) simp
      have capt: "inboxes_ok (settle_turn_cancel d q r c)" if "capture_turn_cancel t r ?a1 = Inr (c, d, q)" for c d q r
        by (rule lighter_ok [OF lighter_settle_turn_cancel [OF lighter_capture_turn [OF that]] 1])
      show ?thesis
      proof (cases "pending b")
        case Nil
        then show ?thesis using \<open>find _ _ = Some p\<close> p x None ok 1 capt
          by (auto simp: remove_submission_def Let_def split: option.split sum.split)
      next
        case (Cons e rest')
        let ?a2 = "on_state (modify_inbox t (\<lambda>b. b\<lparr>pending := rest'\<rparr>)) ?a1"
        have 2: "inboxes_ok ?a2" using mod1 [of "\<lambda>x. x\<lparr>initial := None, pending := rest'\<rparr>"] Cons
          by (simp add: inboxes_ok_def modify_inbox_def modify_modify outstanding_def)
        have 3: "inboxes_ok (on_state (modify_inbox t (\<lambda>b. b\<lparr>initial := Some (entry_presentation e),
                   drained := [(entry_provenance e, entry_bytes e)]\<rparr>)) a3)"
          if "replace_waiting_input t (entry_input e) ?a2 = Some a3" for a3
          using mod1 [of "\<lambda>x. x\<lparr>pending := rest', initial := Some (entry_presentation e), drained := [(entry_provenance e, entry_bytes e)]\<rparr>"] Cons
            replace_waiting_instructions [OF that]
          by (simp add: inboxes_ok_def modify_inbox_def modify_modify outstanding_def)
        show ?thesis using \<open>find _ _ = Some p\<close> p x None ok 2 3 Cons
          by (auto simp: remove_submission_def Let_def split: option.split)
      qed
    qed
  qed
qed (simp add: remove_submission_def ok)

lemma admitted_ok:
  assumes ok: "inboxes_ok a" and cap: "check_instruction_capacity (state a) bytes"
    and e: "enter_turn t input sender corr opts bytes shared a = (b, x)"
  shows "inboxes_ok b"
proof -
  obtain c tk pres op where o: "open_turn t input sender corr opts bytes shared a = (c, tk, pres, op)" by (metis prod_cases4)
  obtain i where i: "instructions (state c) = hm_insert t i (instructions (state a))" and out: "outstanding i = (1, bytes)"
    using o by (auto simp: open_turn_def Let_def case_prod_beta admit_ticket_def adopt_presentation_def reserve_presentation_def
        make_submission_def outstanding_def new_inbox_def split: option.splits)
  have "inboxes_ok c" using ok cap held_insert [of t i "instructions (state a)"] out
    by (auto simp: inboxes_ok_def i check_instruction_capacity_def total_outstanding_eq hm_wf_insert)
  moreover have "lighter c b" using e by (auto simp: enter_turn_def o lighter_steps split: option.splits if_splits)
  ultimately show ?thesis by (blast intro: lighter_ok)
qed

lemma join_ok_inboxes:
  assumes ok: "inboxes_ok a" and j: "join_turn t i input corr opts bytes a = Inr (b, x)"
  shows "inboxes_ok b"
proof -
  have cap: "check_instruction_capacity (state a) bytes"
    using j by (auto simp: join_turn_def split: if_splits option.splits sum.splits)
  obtain e where b: "instructions (state b) = hm_modify t (\<lambda>i. inbox_push e (inbox_join corr i)) (instructions (state a))"
    and e: "entry_bytes e = bytes"
  proof -
    show thesis using j that
      by (auto simp: join_turn_def Let_def case_prod_beta modify_inbox_def make_submission_def split: if_splits option.splits sum.splits)
  qed
  have "held_count (instructions (state b)) \<le> held_count (instructions (state a)) + 1"
    "held_bytes (instructions (state b)) \<le> held_bytes (instructions (state a)) + bytes"
    using held_modify_le [of "instructions (state a)" t "\<lambda>i. inbox_push e (inbox_join corr i)" 1 bytes]
    by (simp_all add: b outstanding_push e)
  then show ?thesis using ok cap by (auto simp: inboxes_ok_def check_instruction_capacity_def total_outstanding_eq b hm_wf_modify)
qed

lemma host_step_inboxes: "host_step a b \<Longrightarrow> inboxes_ok a \<Longrightarrow> inboxes_ok b"
proof (induction rule: host_step.induct)
  case (host_admit t a jl input sender corr opts a' tk)
  then show ?case by (auto simp: admit_turn_with_options_def intro: admitted_ok split: option.splits if_splits prod.splits)
next
  case (host_submit t a jl input sender corr opts a' tk p)
  then show ?case
    by (auto simp: submit_presented_def intro: admitted_ok join_ok_inboxes split: option.splits if_splits prod.splits)
next
  case (host_remove_submission a i)
  then show ?case by (rule remove_submission_ok_inboxes)
qed (blast intro: lighter_ok lighter_controls lighter_cancels lighter_cancel_turn lighter_local lighter_idle lighter_delivery
      lighter_remove_compact lighter_done lighter_close lighter_observe)+

lemma lighter_commit_loop [simp]: "lighter c (snd (commit_loop t el n b order a)) = lighter c a"
proof (induction order arbitrary: n b a)
  case (Cons i order)
  then show ?case by (cases el) (simp_all add: Let_def case_prod_beta split: option.split)
qed simp

lemma lighter_turn_step: "turn_step t cg pg a b \<Longrightarrow> lighter a b"
proof (induction rule: turn_step.induct)
  case (turn_drain a)
  show ?case
  proof (cases "hm_get (instructions (state a)) t")
    case (Some i)
    have "lighter a (on_state (modify_inbox t (\<lambda>_. fst (inbox_drain i))) a)"
      using Some outstanding_drain [of i] by (auto simp: lighter_def modify_inbox_def intro!: held_modify)
    moreover have "lighter c (fold (\<lambda>(sub, _). emit (EvSubmissionConsumed sub)) xs d) = lighter c d" for c xs d
      by (rule fold_frame) (auto split: prod.split)
    ultimately show ?thesis using Some by (auto simp: drain_presented_instructions_def case_prod_beta split: prod.splits)
  qed (simp add: drain_presented_instructions_def)
next
  case (turn_close_admission a await)
  show ?case
  proof (cases "hm_get (instructions (state a)) t")
    case (Some i)
    have "outstanding (fst (inbox_close_admission x i)) = outstanding i" for x
      by (simp add: inbox_close_admission_def)
    then have "lighter a (on_state (modify_inbox t (\<lambda>_. fst (inbox_close_admission x i))) a)" for x
      using Some by (auto simp: lighter_def modify_inbox_def intro!: held_modify)
    then show ?thesis using Some by (auto simp: close_admission_def case_prod_beta)
  qed (simp add: close_admission_def)
next
  case (turn_submitted a)
  show ?case using outstanding_submitted_le by (auto simp: instructions_submitted_def intro!: lighter_modify)
qed (auto simp: take_initial_submission_def commit_deliveries_def inbox_close_def allocate_processing_presentation_def poll_interrupt_def
  Let_def case_prod_beta intro!: lighter_modify split: option.splits if_splits)

lemma lighter_schedule: "lighter a (schedule t a)"
  by (simp add: schedule_def push_operation_def Let_def case_prod_beta lighter_drive)

lemma lighter_runner_pop: "lighter a (snd (runner_pop t a))"
proof -
  have r: "instructions (retire_superseded_precancels v s) = instructions s" for v s
    by (simp add: retire_superseded_precancels_def split: actor_work.split option.split)
  have "lighter b (snd (pop_work b))" for b
    by (auto simp: pop_work_def case_prod_beta Let_def split: option.split prod.split)
  then have "lighter a (snd (pop_work (schedule t a)))" using lighter_schedule by (blast intro: lighter_trans)
  then show ?thesis by (auto simp: runner_pop_def Let_def r split: option.split prod.split)
qed

lemma lighter_settle_turn: "lighter a (settle_turn adm out d a)" "lighter a (withdraw_turn adm a)"
  by (simp_all add: settle_turn_def settle_and_finalize_turn_def lighter_retire withdraw_turn_def Let_def)

lemma lighter_runner:
  "lighter a (fst (begin_turn adm g a))" "lighter a (fst (check_started adm tok a))"
  "lighter a (fst (launch_turn adm tok a))" "lighter a (refuse_managed adm r a)" "lighter a (finish_turn adm res a)"
  by (simp_all add: begin_turn_def check_started_def launch_turn_def refuse_managed_def finish_turn_def settle_and_finalize_turn_def
    lighter_settle_turn lighter_retire Let_def case_prod_beta split: option.split backend_result.split)

lemma lighter_control:
  "lighter a (fst (begin_control w a))" "lighter a (fst (begin_compact k a))" "lighter a (finish_control tok br a)"
  "lighter a (finish_compact tok br a)" "lighter a (runner_settled i a)" "lighter a (runner_drained a)" "lighter a (consume_wake a)"
  by (simp_all add: begin_control_def begin_compact_def finish_control_def finish_compact_def clear_active_def runner_settled_def
    runner_drained_def consume_wake_def case_prod_beta split: option.split backend_result.split)

lemma lighter_eqs:
  "begin_turn adm g a = (b, x) \<Longrightarrow> lighter a b" "check_started adm tok a = (b, go) \<Longrightarrow> lighter a b"
  "launch_turn adm tok a = (b, go) \<Longrightarrow> lighter a b" "begin_control w a = (b, x) \<Longrightarrow> lighter a b"
  "begin_compact kw a = (b, x) \<Longrightarrow> lighter a b" "runner_pop t a = (y, b) \<Longrightarrow> lighter a b"
  by (metis lighter_runner(1-3) lighter_control(1,2) lighter_runner_pop fst_conv snd_conv)+

lemma actor_step_inboxes:
  assumes "actor_step s s'" "inboxes_ok (fst s)" shows "inboxes_ok (fst s')"
  using assms
proof (cases rule: actor_step.cases)
  case (step_host a a' pc) then show ?thesis using assms(2) by (auto intro: host_step_inboxes)
next
  case (step_drained t a a')
  then show ?thesis using assms(2) lighter_control(6) [of a'] by (auto intro: lighter_ok dest: lighter_eqs(6))
next
  case (step_tick a pc) then show ?thesis using assms(2) by (simp add: inboxes_ok_def)
qed (auto intro: lighter_ok lighter_eqs lighter_runner lighter_control lighter_turn_step)

lemma reachable_inboxes: "reachable s \<Longrightarrow> inboxes_ok (fst s)"
proof (induction rule: reachable.induct)
  case (reach_spawn agent ident child parent cfg prep n)
  then show ?case by (simp add: spawn_actor_def Let_def inboxes_ok_def idle_state_def held_count_def held_bytes_def)
qed (blast intro: actor_step_inboxes)
end
