(* ===== verification/Actor_Batches.thy ===== *)
theory Actor_Batches
  imports Actor_Accounting
begin

text \<open>
  Child results waiting at their parent, over all interleavings: every pending result is in the
  delivery order exactly once, their number and bytes are bounded, a scheduled continuation takes a
  non-empty prefix of the order within the batch limits, and a run consumes results in that order.
\<close>

section \<open>The ledger of pending results\<close>

definition sizes :: "(turn_id, pending_delivery) hmap \<Rightarrow> (turn_id \<times> nat) list" where
  "sizes m = map (\<lambda>(i, p). (i, pd_bytes p)) m"

definition ledger :: "actor \<Rightarrow> turn_id list \<times> (turn_id \<times> nat) list \<times> turn_id list" where
  "ledger a = (delivery_order (state a), sizes (deliveries (state a)), delivery_seen (state a))"

definition ledger_ok :: "turn_id list \<times> (turn_id \<times> nat) list \<times> turn_id list \<Rightarrow> bool" where
  "ledger_ok l = (case l of (order, ds, seen) \<Rightarrow>
     distinct order \<and> distinct (map fst ds) \<and> set order = fst ` set ds
     \<and> length ds \<le> MAX_PENDING_DELIVERIES \<and> sum_list (map snd ds) \<le> MAX_PENDING_PREVIEW_BYTES
     \<and> (\<forall>(i, b) \<in> set ds. b \<le> MAX_DELIVERY_PREVIEW_BYTES) \<and> length seen \<le> MAX_RETAINED_TURN_RESULTS)"

lemma sizes_simps [simp]:
  "map fst (sizes m) = hm_keys m" "length (sizes m) = length m" "fst ` set (sizes m) = fst ` set m"
  "sum_list (map snd (sizes m)) = pending_bytes m"
  by (auto simp: sizes_def pending_bytes_def o_def case_prod_beta image_image)

lemma sizes_modify: "(\<And>p. pd_bytes (f p) = pd_bytes p) \<Longrightarrow> sizes (hm_modify k f m) = sizes m"
  by (induction m) (auto simp: sizes_def)

lemma sizes_fold_modify: "(\<And>p. pd_bytes (f p) = pd_bytes p) \<Longrightarrow> sizes (fold (\<lambda>i. hm_modify i f) is m) = sizes m"
  by (induction "is" arbitrary: m) (auto simp: sizes_modify)

lemma sizes_remove: "sizes (hm_remove k m) = hm_remove k (sizes m)"
  by (induction m) (auto simp: sizes_def)

lemma sizes_insert: "sizes (hm_insert k p m) = hm_insert k (pd_bytes p) (sizes m)"
  by (induction m) (auto simp: sizes_def)

lemma ledger_same: "deliveries (state b) = deliveries (state a) \<Longrightarrow> delivery_order (state b) = delivery_order (state a) \<Longrightarrow>
   delivery_seen (state b) = delivery_seen (state a) \<Longrightarrow> ledger b = ledger a"
  by (simp add: ledger_def)

lemma ledger_settle [simp]: "ledger (delivery_settle t r a) = ledger a"
proof -
  have "sizes (fold (\<lambda>i. hm_modify i (\<lambda>p. p\<lparr>cancellation_retried := True\<rparr>)) batch m) = sizes m" for batch m
    by (rule sizes_fold_modify) simp
  then show ?thesis
    by (auto simp: delivery_settle_def ledger_def Let_def emit_def split: option.split)
qed

lemma ledger_simps [simp]:
  "ledger (emit e a) = ledger a" "ledger (publish_idle a) = ledger a" "ledger (finish_close a) = ledger a"
  "ledger (drive_operations a) = ledger a" "ledger (cancel_prepared_where sel a) = ledger a"
  "ledger (record_cancellation rsel r a) = ledger a" "ledger (fire_active x r a) = ledger a"
  "ledger (take_and_fire_active r a) = ledger a" "ledger (forget_inboxes ts a) = ledger a" "ledger (set_preparing i a) = ledger a"
  "ledger (on_queue qf a) = ledger a" "ledger (prepared_fail p er a) = ledger a" "ledger (clear_runner cr a) = ledger a"
  "ledger (on_cell t g a) = ledger a" "ledger (send_terminal sn out a) = ledger a" "ledger (delivery_publish tk a) = ledger a"
  "ledger (pop_operation a) = ledger a" "ledger (release_permission t a) = ledger a" "ledger (evict_retained a) = ledger a"
  "ledger (drop_active a) = ledger a" "ledger (on_state (modify_inbox t f) a) = ledger a" "ledger (materialize op snap a) = ledger a"
  "ledger (admit_ticket tk a) = ledger a" "ledger (fail_prepared_operations er a) = ledger a"
proof -
  show "ledger (drive_operations a) = ledger a" using drive_steady(1) [of a] by (auto simp: steady_def ledger_def)
  show "ledger (materialize op snap a) = ledger a"
    by (cases op) (simp_all add: ledger_def materialize.simps materialize_turn_def make_submission_def modify_inbox_def on_defs Let_def split: option.split)
qed (simp_all add: ledger_def emit_def publish_idle_def finish_close_def cancel_prepared_where_def record_cancellation_def fire_active_def
    take_and_fire_active_def forget_inboxes_def set_preparing_def on_queue_def prepared_fail_def cancel_publication_def drop_active_def
    clear_runner_def settle_runner_def send_terminal_def on_cell_def delivery_publish_def pop_operation_def release_permission_def
    release_idle_permission_def evict_retained_def modify_inbox_def admit_ticket_def fail_prepared_operations_def materialize.simps
    materialize_turn_def make_submission_def Let_def split: option.split list.split actor_operation.split)

lemma ledger_upd [simp]:
  "ledger (a\<lparr>outcomes := x1\<rparr>) = ledger a" "ledger (a\<lparr>tickets := x2\<rparr>) = ledger a" "ledger (a\<lparr>retained_tickets := x3\<rparr>) = ledger a"
  "ledger (a\<lparr>coverage := x4\<rparr>) = ledger a" "ledger (a\<lparr>clock := x5\<rparr>) = ledger a" "ledger (a\<lparr>queue := x6\<rparr>) = ledger a"
  "ledger (a\<lparr>woken := x7\<rparr>) = ledger a" "ledger (a\<lparr>next_addr := x8\<rparr>) = ledger a" "ledger (a\<lparr>run_tokens := x9\<rparr>) = ledger a"
  by (simp_all add: ledger_def)

lemma ledger_on_state [simp]:
  "deliveries (f (state a)) = deliveries (state a) \<Longrightarrow> delivery_order (f (state a)) = delivery_order (state a) \<Longrightarrow>
   delivery_seen (f (state a)) = delivery_seen (state a) \<Longrightarrow> ledger (on_state f a) = ledger a"
  by (simp add: ledger_def)

lemma ledger_retire [simp]: "ledger (retire_and_publish t out adm d s h a) = ledger a"
proof -
  have "ledger (fst (retire_turn t out w s h a)) = ledger a" for w by (simp add: retire_turn_def Let_def)
  moreover have "ledger (publish_retired t out' adm d tk b) = ledger b" for out' tk b
    by (simp add: publish_retired_def Let_def case_prod_beta split: option.split)
  ultimately show ?thesis by (auto simp: retire_and_publish_def split: prod.split option.split) (metis fst_conv)+
qed

lemma ledger_settles [simp]:
  "ledger (finalize_turn t out adm d a) = ledger a" "ledger (settle_deferred ops r a) = ledger a" "ledger (terminalize_work ws r a) = ledger a"
proof -
  show fin: "ledger (finalize_turn t out adm d a) = ledger a" for t out adm d a by (simp add: finalize_turn_def)
  have "ledger (settle_operation r x b) = ledger b" for x b by (cases x) (simp_all add: fin Let_def)
  then show "ledger (settle_deferred ops r a) = ledger a" by (simp add: settle_deferred_def fold_frame [where f = ledger])
  have "ledger (terminalize_one r x b) = ledger b" for x b by (cases x) (simp_all add: fin)
  then show "ledger (terminalize_work ws r a) = ledger a" by (simp add: terminalize_work_def fold_frame [where f = ledger])
qed

lemma ledger_pieces [simp]:
  "ledger (snd (drain_operations keep a)) = ledger a" "ledger (snd (drain_queue keepq a)) = ledger a"
  "ledger (snd (take_operation_turn t a)) = ledger a" "ledger (snd (take_queued_turn t a)) = ledger a"
  "ledger (fst (reserve_presentation d a)) = ledger a" "ledger (fst (next_operation a)) = ledger a"
  "ledger (fst (make_submission t input dsp nt a)) = ledger a" "ledger (fst (adopt_presentation dd a)) = ledger a"
  "ledger (fst (install_active corr a)) = ledger a"
  by (simp_all add: drain_operations_def drain_work_except_partition drain_queue_def take_operation_turn_def take_queued_turn_def
    reserve_presentation_def next_operation_def make_submission_def adopt_presentation_def install_active_def
    ledger_def case_prod_beta Let_def split: option.split)

lemma ledger_take_turns [simp]: "ledger (snd (take_queued_turns ts a)) = ledger a"
  by (induction ts arbitrary: a) (simp_all add: case_prod_beta Let_def)

lemma ledger_emit_discarded [simp]: "ledger (emit_discarded r ds a) = ledger a"
  unfolding emit_discarded_def by (rule fold_frame) simp

definition emptied :: "actor \<Rightarrow> actor \<Rightarrow> bool" where
  "emptied a b \<longleftrightarrow> ledger b = ledger a \<or> (fst (ledger b) = [] \<and> fst (snd (ledger b)) = [] \<and> snd (snd (ledger b)) = snd (snd (ledger a)))"

lemma emptied_ok: "emptied a b \<Longrightarrow> ledger_ok (ledger a) \<Longrightarrow> ledger_ok (ledger b)"
  by (cases "ledger a"; cases "ledger b") (auto simp: emptied_def ledger_ok_def)

lemma emptied_discard: "emptied a (discard_deliveries r a)"
proof -
  have "ledger (discard_deliveries r a) = ledger (on_state (\<lambda>s. s\<lparr>delivery_order := [], deliveries := []\<rparr>) a)"
    by (simp add: discard_deliveries_def take_pending_def Let_def)
  then show ?thesis by (simp add: emptied_def ledger_def sizes_def)
qed

lemma emptied_sameI: "ledger b = ledger a \<Longrightarrow> emptied a b" by (simp add: emptied_def)

lemma emptied_cancels:
  "emptied a (snd (remove t a))" "emptied a (cancel_existing a)" "emptied a (cancel_correlation k r a)"
  by (rule emptied_sameI, simp add: remove_def cancel_existing_def cancel_correlation_def capture_correlation_cancel_def
    settle_correlation_cancel_def Let_def case_prod_beta split: option.split)+

lemma emptied_clear: "emptied a (snd (clear_except keep a))"
proof -
  have "ledger (snd (clear_except keep a)) = ledger (if keep then a else discard_deliveries User a)"
    by (simp add: clear_except_def Let_def case_prod_beta)
  then show ?thesis using emptied_discard [of a User] by (auto simp: emptied_def split: if_splits)
qed

lemma ledger_capture_turn: "capture_turn_cancel t r a = Inr (b, x) \<Longrightarrow> ledger b = ledger a"
  by (auto simp: capture_turn_cancel_def Let_def case_prod_beta split: if_splits)

lemma ledger_settle_turn_cancel [simp]: "ledger (settle_turn_cancel d q r a) = ledger a"
  by (simp add: settle_turn_cancel_def Let_def split: option.split)

lemma ledger_enter [simp]: "ledger (fst (enter_turn t input sender corr opts bytes shared a)) = ledger a"
  by (simp add: enter_turn_def open_turn_def Let_def case_prod_beta split: option.split)

lemma ledger_enter_eq: "enter_turn t input sender corr opts bytes shared a = (b, x) \<Longrightarrow> ledger b = ledger a"
  using ledger_enter [of t input sender corr opts bytes shared a] by simp

lemma ledger_join: "join_turn t i input corr opts bytes a = Inr (b, x) \<Longrightarrow> ledger b = ledger a"
  by (auto simp: join_turn_def Let_def case_prod_beta split: if_splits option.splits sum.splits)

lemma ledger_replace: "replace_waiting_input t input a = Some b \<Longrightarrow> ledger b = ledger a"
  by (auto simp: replace_waiting_input_def split: option.splits)

lemma ledger_fail [simp]: "ledger (fail_admission op diag retry a) = ledger a"
  by (cases op) (simp_all add: fail_admission_def Let_def)

lemma emptied_host_same:
  "admit_turn_with_options jl t input sender corr opts a = Inr (b, tk) \<Longrightarrow> ledger b = ledger a"
  "submit_presented jl t input sender corr opts a = Inr (b, x) \<Longrightarrow> ledger b = ledger a"
  "push_control name corr payload a = Inr b \<Longrightarrow> ledger b = ledger a" "push_compact run ins a = Inr b \<Longrightarrow> ledger b = ledger a"
  "initialize_config cfg a = Inr (b, g) \<Longrightarrow> ledger b = ledger a" "configure_parent_delivery auto a = Inr b \<Longrightarrow> ledger b = ledger a"
  "reserve_operation turn owner a = Inr (b, y) \<Longrightarrow> ledger b = ledger a" "cancel_turn_for t reason a = Inr b \<Longrightarrow> ledger b = ledger a"
  "capture_local_cancel dd a = (b, k) \<Longrightarrow> ledger (settle_local_cancel k b) = ledger a"
  "prepare_idle a = Inr (b, ow) \<Longrightarrow> ledger b = ledger a" "allow_turn ow' tk' a = Inr b \<Longrightarrow> ledger b = ledger a"
proof -
  show "admit_turn_with_options jl t input sender corr opts a = Inr (b, tk) \<Longrightarrow> ledger b = ledger a"
    by (auto simp: admit_turn_with_options_def dest: ledger_enter_eq split: option.splits if_splits prod.splits)
  show "submit_presented jl t input sender corr opts a = Inr (b, x) \<Longrightarrow> ledger b = ledger a"
    by (auto simp: submit_presented_def dest: ledger_enter_eq ledger_join split: option.splits if_splits prod.splits)
  show "cancel_turn_for t reason a = Inr b \<Longrightarrow> ledger b = ledger a"
    by (auto simp: cancel_turn_for_def dest: ledger_capture_turn split: sum.splits)
  show "capture_local_cancel dd a = (b, k) \<Longrightarrow> ledger (settle_local_cancel k b) = ledger a"
    by (auto simp: capture_local_cancel_def settle_local_cancel_def Let_def case_prod_beta)
qed (auto simp: push_control_def push_compact_def initialize_config_def configure_parent_delivery_def reserve_operation_def push_operation_def
    prepare_idle_def allow_turn_def Let_def case_prod_beta split: if_splits option.splits)

lemma emptied_host_same2:
  "ledger (idle_guard_drop ow a) = ledger a" "ledger (observe_presentation p a) = ledger a" "ledger (snd (remove_pending_compact n a)) = ledger a"
  "ledger (constraint_done i pol k a) = ledger a" "ledger (preparation_done i pol snap a) = ledger a" "ledger (prepared_done i cfg res a) = ledger a"
  by (auto simp: idle_guard_drop_def observe_presentation_def remove_pending_compact_def constraint_done_def preparation_done_def prepared_done_def
    Let_def case_prod_beta split: option.split prod.split sum.split list.split actor_operation.split)

lemma ledger_remove_submission: "ledger (snd (remove_submission i a)) = ledger a"
  by (auto simp: remove_submission_def Let_def dest: ledger_replace ledger_capture_turn split: option.split prod.split list.split sum.split)

lemma emptied_close: "emptied a (close a)" "emptied a (shutdown a)"
proof -
  have 1: "ledger (settle_close k b) = ledger b" for b k by (simp add: settle_close_def Let_def case_prod_beta)
  have e: "deliveries (end_prepared_publication j s) = deliveries s" "delivery_order (end_prepared_publication j s) = delivery_order s"
    "delivery_seen (end_prepared_publication j s) = delivery_seen s" for j s by (simp_all add: end_prepared_publication_def split: option.split)
  have "ledger (fst (capture_close sd a)) = (if lifecycle (state a) = Open then ([], [], delivery_seen (state a)) else ledger a)" for sd
    by (simp add: capture_close_def Let_def case_prod_beta e take_pending_def split: option.split)
      (simp add: ledger_def sizes_def cancel_prepared_where_def record_cancellation_def)
  then have 2: "emptied a (fst (capture_close sd a))" for sd by (simp add: emptied_def) (simp add: ledger_def)
  have "emptied a (case capture_close sd a of (a', None) \<Rightarrow> a' | (a', Some k) \<Rightarrow> settle_close k a')" for sd
    using 1 2 [of sd] by (auto simp: emptied_def split: prod.split option.split)
  then show "emptied a (close a)" "emptied a (shutdown a)" by (simp_all add: close_def shutdown_def)
qed

lemma admit_delivery_ledger:
  assumes "admit_delivery rd d a = Inr b" "ledger_ok (ledger a)" shows "ledger_ok (ledger b)"
proof (cases "ledger b = ledger a")
  case False
  obtain d' msg bytes where rd: "rd d = (d', msg, bytes)" by (metis prod_cases3)
  let ?i = "delivery_turn d'"
  let ?p = "\<lparr>pd_delivery = d', pd_message = msg, pd_bytes = bytes, cancellation_retried = False, arrived_during_run = True\<rparr>"
  have l: "ledger b = (delivery_order (state a) @ [?i], hm_insert ?i bytes (sizes (deliveries (state a))), remember_seen ?i (delivery_seen (state a)))"
    and n: "?i \<notin> fst ` set (deliveries (state a))" and c: "bytes \<le> MAX_DELIVERY_PREVIEW_BYTES" "length (deliveries (state a)) < MAX_PENDING_DELIVERIES"
      "pending_bytes (deliveries (state a)) + bytes \<le> MAX_PENDING_PREVIEW_BYTES"
    using assms(1) False
    by (auto simp: admit_delivery_def rd Let_def sizes_insert hm_contains_iff split: if_splits)
      (simp add: ledger_def sizes_insert)
  have ins: "hm_insert k v m = m @ [(k, v)]" if "k \<notin> fst ` set m" for k v and m :: "(turn_id \<times> nat) list"
    using that by (induction m) auto
  have "hm_insert ?i bytes (sizes (deliveries (state a))) = sizes (deliveries (state a)) @ [(?i, bytes)]"
    by (rule ins) (simp add: n)
  moreover have "ledger_ok (delivery_order (state a), sizes (deliveries (state a)), delivery_seen (state a))"
    using assms(2) by (simp add: ledger_def)
  ultimately show ?thesis unfolding l using n c by (auto simp: ledger_ok_def remember_seen_def Let_def)
qed (use assms in simp)

lemma remove_ledger:
  assumes "ledger_ok (order, sizes m, seen)" "set order' = set order - {t}" "distinct order'"
  shows "ledger_ok (order', sizes (hm_remove t m), seen)"
proof -
  have "pending_bytes (hm_remove t m) \<le> pending_bytes m" by (induction m) (auto simp: pending_bytes_def)
  moreover have "set (sizes (hm_remove t m)) \<subseteq> set (sizes m)" by (auto simp: sizes_def AList.delete_eq)
  ultimately show ?thesis using assms length_hm_remove_le [of t m]
    by (auto simp: ledger_ok_def hm_wf_remove)
qed

lemma withdraw_ledger: "ledger_ok (ledger a) \<Longrightarrow> ledger_ok (ledger (snd (withdraw_child_delivery t a)))"
proof -
  assume ok: "ledger_ok (ledger a)"
  have "ledger_ok (filter (\<lambda>i. i \<noteq> t) (delivery_order (state a)), sizes (hm_remove t (deliveries (state a))), delivery_seen (state a))"
    by (rule remove_ledger [of "delivery_order (state a)"]) (use ok in \<open>auto simp: ledger_def ledger_ok_def\<close>)
  then have "ledger_ok (ledger (on_state (\<lambda>s. s\<lparr>deliveries := hm_remove t (deliveries s),
    delivery_order := filter (\<lambda>i. i \<noteq> t) (delivery_order s)\<rparr>) a))" by (simp add: ledger_def)
  with ok show ?thesis by (simp add: withdraw_child_delivery_def split: option.split)
qed

lemma host_step_ledger: "host_step a b \<Longrightarrow> ledger_ok (ledger a) \<Longrightarrow> ledger_ok (ledger b)"
proof (induction rule: host_step.induct)
  case (host_deliver rd d a a') then show ?case by (blast intro: admit_delivery_ledger)
qed (auto simp: emptied_host_same2 ledger_remove_submission withdraw_ledger
  dest: emptied_host_same emptied_ok [OF emptied_cancels(1)] emptied_ok [OF emptied_cancels(2)] emptied_ok [OF emptied_cancels(3)]
   emptied_ok [OF emptied_clear] emptied_ok [OF emptied_close(1)] emptied_ok [OF emptied_close(2)])

lemma commit_loop_ledger:
  assumes "ledger_ok (order, sizes (deliveries (state a)), delivery_seen (state a))"
  shows "ledger_ok (ledger (snd (commit_loop t el n b order a)))"
  using assms
proof (induction order arbitrary: n b a)
  case Nil
  then show ?case by (simp add: ledger_def)
next
  case (Cons i order)
  let ?stop = "on_state (\<lambda>s. s\<lparr>delivery_order := i # order\<rparr>) a"
  have stop: "ledger_ok (ledger ?stop)" using Cons.prems by (simp add: ledger_def)
  have mem: "i \<in> fst ` set (deliveries (state a))" using Cons.prems by (auto simp: ledger_ok_def)
  then obtain p where p: "hm_get (deliveries (state a)) i = Some p" by (metis (no_types) hm_contains_def hm_contains_iff not_None_eq)
  let ?a' = "emit (EvDelivery (pd_delivery p) (Executed t)) (on_state (\<lambda>s. s\<lparr>deliveries := hm_remove i (deliveries s)\<rparr>) a)"
  have "ledger_ok (order, sizes (hm_remove i (deliveries (state a))), delivery_seen (state a))"
    by (rule remove_ledger [OF Cons.prems]) (use Cons.prems in \<open>auto simp: ledger_ok_def\<close>)
  then have "ledger_ok (order, sizes (deliveries (state ?a')), delivery_seen (state ?a'))" by (simp add: emit_def)
  from Cons.IH [OF this] stop p show ?case by (cases el) (auto simp: Let_def case_prod_beta)
qed

lemma commit_ledger: "ledger_ok (ledger a) \<Longrightarrow> ledger_ok (ledger (snd (commit_deliveries t a)))"
  using commit_loop_ledger [of "delivery_order (state a)" a] by (auto simp: commit_deliveries_def Let_def ledger_def)

lemma turn_step_ledger: "turn_step t cg pg a b \<Longrightarrow> ledger_ok (ledger a) \<Longrightarrow> ledger_ok (ledger b)"
proof (induction rule: turn_step.induct)
  case (turn_drain a)
  have "ledger (fold (\<lambda>(sub, _). emit (EvSubmissionConsumed sub)) xs d) = ledger d" for xs :: "(pending_submission \<times> agent_input) list" and d
    by (rule fold_frame) (auto split: prod.split)
  then show ?case using turn_drain by (auto simp: drain_presented_instructions_def case_prod_beta split: option.split)
qed (auto simp: commit_ledger take_initial_submission_def instructions_submitted_def close_admission_def inbox_close_def
  allocate_processing_presentation_def poll_interrupt_def Let_def case_prod_beta split: option.splits if_splits)

lemma ledger_schedule [simp]: "ledger (schedule t a) = ledger a"
proof -
  have "sizes (map (\<lambda>(i, p). (i, p\<lparr>arrived_during_run := False\<rparr>)) m) = sizes m" for m by (auto simp: sizes_def)
  then have "ledger (on_state (\<lambda>s. s\<lparr>deliveries := map (\<lambda>(i, p). (i, p\<lparr>arrived_during_run := False\<rparr>)) (deliveries s),
                   delivery_runs := h s\<rparr>) b) = ledger b" for h b by (simp add: ledger_def)
  then show ?thesis by (simp add: schedule_def push_operation_def Let_def case_prod_beta)
qed

lemma ledger_runner_pop [simp]: "ledger (snd (runner_pop t a)) = ledger a"
proof -
  have r: "deliveries (retire_superseded_precancels v s) = deliveries s" "delivery_order (retire_superseded_precancels v s) = delivery_order s"
    "delivery_seen (retire_superseded_precancels v s) = delivery_seen s" for v s
    by (simp_all add: retire_superseded_precancels_def split: actor_work.split option.split)
  have "ledger (snd (pop_work b)) = ledger b" for b
    by (auto simp: pop_work_def case_prod_beta Let_def split: option.split prod.split)
  then have "ledger (snd (pop_work (schedule t a))) = ledger a" by simp
  then show ?thesis by (auto simp: runner_pop_def Let_def r split: option.split prod.split)
qed

lemma ledger_runner [simp]:
  "ledger (fst (begin_turn adm g a)) = ledger a" "ledger (fst (check_started adm tok a)) = ledger a"
  "ledger (fst (launch_turn adm tok a)) = ledger a" "ledger (refuse_managed adm r a) = ledger a" "ledger (finish_turn adm res a) = ledger a"
  "ledger (fst (begin_control w a)) = ledger a" "ledger (fst (begin_compact k a)) = ledger a" "ledger (finish_control tok br a) = ledger a"
  "ledger (finish_compact tok br a) = ledger a" "ledger (runner_settled i a) = ledger a" "ledger (runner_drained a) = ledger a"
  "ledger (consume_wake a) = ledger a"
  by (simp_all add: begin_turn_def check_started_def launch_turn_def refuse_managed_def finish_turn_def settle_and_finalize_turn_def settle_turn_def
    withdraw_turn_def begin_control_def begin_compact_def finish_control_def finish_compact_def clear_active_def runner_settled_def
    runner_drained_def consume_wake_def Let_def case_prod_beta split: option.split backend_result.split)

lemma actor_step_ledger:
  assumes "actor_step s s'" "ledger_ok (ledger (fst s))" shows "ledger_ok (ledger (fst s'))"
  using assms
proof (cases rule: actor_step.cases)
  case (step_host a a' pc) then show ?thesis using assms(2) by (auto intro: host_step_ledger)
next
  case (step_in_turn adm cg a a' tok) then show ?thesis using assms(2) by (auto intro: turn_step_ledger)
next
  case (step_pop t a w g a') then show ?thesis using assms(2) ledger_runner_pop [of t a] by simp
next
  case (step_drained t a a') then show ?thesis using assms(2) ledger_runner_pop [of t a] by simp
next
  case (step_begin_turn adm g a a' tok) then show ?thesis using assms(2) ledger_runner(1) [of adm g a] by simp
next
  case (step_check adm tok a a' go g) then show ?thesis using assms(2) ledger_runner(2) [of adm tok a] by simp
next
  case (step_launch adm tok a a' go g) then show ?thesis using assms(2) ledger_runner(3) [of adm tok a] by simp
next
  case (step_begin_control c a a' tok g) then show ?thesis using assms(2) ledger_runner(6) [of c a] by simp
next
  case (step_begin_compact c a a' tok g) then show ?thesis using assms(2) ledger_runner(7) [of c a] by simp
qed simp_all

lemma reachable_ledger: "reachable s \<Longrightarrow> ledger_ok (ledger (fst s))"
proof (induction rule: reachable.induct)
  case (reach_spawn agent ident child parent cfg prep n)
  then show ?case by (simp add: spawn_actor_def Let_def ledger_def sizes_def ledger_ok_def idle_state_def)
qed (blast intro: actor_step_ledger)

section \<open>Batches\<close>

definition batch_bytes :: "(turn_id, pending_delivery) hmap \<Rightarrow> turn_id list \<Rightarrow> nat" where
  "batch_bytes m is = sum_list (map (\<lambda>i. case hm_get m i of None \<Rightarrow> 0 | Some p \<Rightarrow> pd_bytes p) is)"

lemma within_bytes_bound: "b \<le> MAX_DELIVERY_BATCH_BYTES \<Longrightarrow> b + batch_bytes m (within_bytes m b is) \<le> MAX_DELIVERY_BATCH_BYTES"
proof (induction "is" arbitrary: b)
  case (Cons i "is")
  then show ?case using Cons.IH [of "b + (case hm_get m i of None \<Rightarrow> 0 | Some p \<Rightarrow> pd_bytes p)"] by (simp add: batch_bytes_def Let_def add.assoc)
qed (simp add: batch_bytes_def)

lemma within_bytes_prefix: "\<exists>rest. is = within_bytes m b is @ rest"
  by (induction "is" arbitrary: b) (auto simp: Let_def)

text \<open>A continuation takes at least one result: a single one always fits the batch limit.\<close>

lemma within_bytes_nonempty:
  assumes "i # is = order" "(case hm_get m i of None \<Rightarrow> 0 | Some p \<Rightarrow> pd_bytes p) \<le> MAX_DELIVERY_PREVIEW_BYTES"
  shows "within_bytes m 0 order \<noteq> []"
  using assms by (auto simp: delivery_limits)

definition scheduled_batch :: "actor \<Rightarrow> turn_id list" where
  "scheduled_batch a = within_bytes (deliveries (state a)) 0 (take MAX_DELIVERY_BATCH (delivery_order (state a)))"

lemma schedule_runs:
  assumes "schedule_ready a"
  shows "delivery_runs (state (schedule t a)) = [(t, scheduled_batch a)]"
proof -
  have d: "delivery_runs (state (drive_operations b)) = delivery_runs (state b)" for b
    using drive_steady(1) [of b] by (auto simp: steady_def)
  show ?thesis using assms
    by (simp add: schedule_def push_operation_def d next_operation_def reserve_presentation_def admit_ticket_def Let_def scheduled_batch_def
      schedule_ready_def)
qed

lemma scheduled_batch_props:
  assumes "ledger_ok (ledger a)" "deliveries (state a) \<noteq> []"
  shows "scheduled_batch a \<noteq> []" "length (scheduled_batch a) \<le> MAX_DELIVERY_BATCH"
    "batch_bytes (deliveries (state a)) (scheduled_batch a) \<le> MAX_DELIVERY_BATCH_BYTES"
    "\<exists>rest. delivery_order (state a) = scheduled_batch a @ rest"
proof -
  let ?m = "deliveries (state a)" and ?o = "delivery_order (state a)"
  have so: "set ?o = fst ` set ?m" and bnd: "\<And>i b. (i, b) \<in> set (sizes ?m) \<Longrightarrow> b \<le> MAX_DELIVERY_PREVIEW_BYTES"
    using assms(1) by (auto simp: ledger_ok_def ledger_def)
  then obtain i order where o: "?o = i # order" using assms(2) by (cases ?o) auto
  have "(case hm_get ?m i of None \<Rightarrow> 0 | Some p \<Rightarrow> pd_bytes p) \<le> MAX_DELIVERY_PREVIEW_BYTES"
    using bnd by (auto simp: sizes_def split: option.split dest!: map_of_SomeD) (metis (no_types, lifting) case_prod_conv image_eqI)
  then show "scheduled_batch a \<noteq> []"
    unfolding scheduled_batch_def o by (intro within_bytes_nonempty [of i "take (MAX_DELIVERY_BATCH - 1) order"]) (simp_all add: MAX_DELIVERY_BATCH_def)
  obtain rest where r: "take MAX_DELIVERY_BATCH ?o = scheduled_batch a @ rest"
    using within_bytes_prefix [of "take MAX_DELIVERY_BATCH ?o" ?m 0] by (auto simp: scheduled_batch_def)
  then show "length (scheduled_batch a) \<le> MAX_DELIVERY_BATCH" by (metis length_append length_take min.cobounded2 trans_le_add1 add_leD1)
  show "\<exists>rest. ?o = scheduled_batch a @ rest" using r by (metis append_take_drop_id append_assoc)
  show "batch_bytes ?m (scheduled_batch a) \<le> MAX_DELIVERY_BATCH_BYTES"
    using within_bytes_bound [of 0 ?m "take MAX_DELIVERY_BATCH ?o"] by (simp add: scheduled_batch_def)
qed

text \<open>What a run consumes: the messages of a prefix of the order, within the batch limits.\<close>

lemma commit_loop_prefix:
  assumes "distinct order" "set order \<subseteq> fst ` set (deliveries (state a))"
  shows "\<exists>taken rest. order = taken @ rest \<and> fst (commit_loop t el n b order a) = map (\<lambda>i. pd_message (the (hm_get (deliveries (state a)) i))) taken
    \<and> delivery_order (state (snd (commit_loop t el n b order a))) = rest
    \<and> (n \<le> MAX_DELIVERY_BATCH \<longrightarrow> n + length taken \<le> MAX_DELIVERY_BATCH)
    \<and> (b \<le> MAX_DELIVERY_BATCH_BYTES \<longrightarrow> b + batch_bytes (deliveries (state a)) taken \<le> MAX_DELIVERY_BATCH_BYTES)
    \<and> (\<forall>batch. el = Some batch \<longrightarrow> set taken \<subseteq> set batch)"
  using assms
proof (induction order arbitrary: n b a)
  case Nil
  then show ?case by (simp add: batch_bytes_def)
next
  case (Cons i order)
  have stop: ?case if "commit_loop t el n b (i # order) a = ([], on_state (\<lambda>s. s\<lparr>delivery_order := i # order\<rparr>) a)"
    using that by (intro exI [of _ "[]"] exI [of _ "i # order"]) (simp add: batch_bytes_def)
  from Cons.prems obtain p where p: "hm_get (deliveries (state a)) i = Some p" by (metis (no_types) hm_contains_def hm_contains_iff insert_subset list.simps(15) not_None_eq)
  show ?case
  proof (cases "n = MAX_DELIVERY_BATCH \<or> (case el of None \<Rightarrow> False | Some batch \<Rightarrow> i \<notin> set batch) \<or> b + pd_bytes p > MAX_DELIVERY_BATCH_BYTES")
    case True
    then have "commit_loop t el n b (i # order) a = ([], on_state (\<lambda>s. s\<lparr>delivery_order := i # order\<rparr>) a)"
      using p by (auto simp: Let_def split: option.splits)
    then show ?thesis by (rule stop)
  next
    case False
    let ?a' = "emit (EvDelivery (pd_delivery p) (Executed t)) (on_state (\<lambda>s. s\<lparr>deliveries := hm_remove i (deliveries s)\<rparr>) a)"
    have d': "deliveries (state ?a') = hm_remove i (deliveries (state a))" by (simp add: emit_def)
    have e: "commit_loop t el n b (i # order) a = (pd_message p # fst (commit_loop t el (n + 1) (b + pd_bytes p) order ?a'),
        snd (commit_loop t el (n + 1) (b + pd_bytes p) order ?a'))"
      using False p by (auto simp: Let_def case_prod_beta split: option.splits)
    have "distinct order" "set order \<subseteq> fst ` set (deliveries (state ?a'))" using Cons.prems by (auto simp: d')
    from Cons.IH [OF this, of "n + 1" "b + pd_bytes p"] obtain taken rest where
      1: "order = taken @ rest" "fst (commit_loop t el (n + 1) (b + pd_bytes p) order ?a') = map (\<lambda>i. pd_message (the (hm_get (deliveries (state ?a')) i))) taken"
        "delivery_order (state (snd (commit_loop t el (n + 1) (b + pd_bytes p) order ?a'))) = rest"
        "n + 1 \<le> MAX_DELIVERY_BATCH \<longrightarrow> n + 1 + length taken \<le> MAX_DELIVERY_BATCH"
        "b + pd_bytes p \<le> MAX_DELIVERY_BATCH_BYTES \<longrightarrow> b + pd_bytes p + batch_bytes (deliveries (state ?a')) taken \<le> MAX_DELIVERY_BATCH_BYTES"
        "\<forall>batch. el = Some batch \<longrightarrow> set taken \<subseteq> set batch" by blast
    have same: "hm_get (deliveries (state ?a')) j = hm_get (deliveries (state a)) j" if "j \<in> set taken" for j
      using that Cons.prems(1) 1(1) by (auto simp: d' hm_simps)
    have "batch_bytes (deliveries (state ?a')) taken = batch_bytes (deliveries (state a)) taken"
      unfolding batch_bytes_def by (rule arg_cong [where f = sum_list], rule map_cong) (simp_all add: same)
    moreover have "map (\<lambda>i. pd_message (the (hm_get (deliveries (state ?a')) i))) taken =
        map (\<lambda>i. pd_message (the (hm_get (deliveries (state a)) i))) taken" by (rule map_cong) (simp_all add: same)
    moreover have "batch_bytes (deliveries (state a)) (i # taken) = pd_bytes p + batch_bytes (deliveries (state a)) taken"
      by (simp add: batch_bytes_def p)
    ultimately have g:
      "fst (commit_loop t el n b (i # order) a) = map (\<lambda>i. pd_message (the (hm_get (deliveries (state a)) i))) (i # taken)"
      "delivery_order (state (snd (commit_loop t el n b (i # order) a))) = rest"
      "b \<le> MAX_DELIVERY_BATCH_BYTES \<longrightarrow> b + batch_bytes (deliveries (state a)) (i # taken) \<le> MAX_DELIVERY_BATCH_BYTES"
      unfolding e fst_conv snd_conv using 1(2,3,5) False p by simp_all
    have "n \<le> MAX_DELIVERY_BATCH \<longrightarrow> n + length (i # taken) \<le> MAX_DELIVERY_BATCH" "\<forall>batch. el = Some batch \<longrightarrow> set (i # taken) \<subseteq> set batch"
      "i # order = (i # taken) @ rest"
      using 1(1,4,6) False by (auto split: option.splits)
    with g show ?thesis by blast
  qed
qed
end
