(* ===== verification/Agent_Graph.thy ===== *)
theory Agent_Graph
  imports Actor_Settling
begin

text \<open>
  The graph of agents of one session (\<^verbatim>\<open>maki-agent/src/manager\<close>): nodes with their parent, children,
  depth and lifecycle, the reservations of nodes whose backend is being built, and the authority of
  turns that are executing. The actors themselves are those of \<open>Actor_Runner\<close>, kept in a store
  that the nodes point into, with the program counter of each actor's runner. Every definition that
  takes the manager is one section under the graph lock.
\<close>

section \<open>Data\<close>

record agent_limits =
  max_concurrent_agent_turns :: nat
  max_agent_depth :: nat
  max_children_per_agent :: nat
  max_live_agents :: nat

definition default_limits :: agent_limits where
  "default_limits = \<lparr>max_concurrent_agent_turns = 8, max_agent_depth = 4, max_children_per_agent = 16,
     max_live_agents = 64\<rparr>"

datatype graph_lifecycle = Reserved | Live | Closing | GraphClosed | Removed

fun consumes_capacity :: "graph_lifecycle \<Rightarrow> bool" where
  "consumes_capacity Reserved = True"
| "consumes_capacity Live = True"
| "consumes_capacity Closing = True"
| "consumes_capacity GraphClosed = False"
| "consumes_capacity Removed = False"

record agent_metadata =
  meta_label :: "string option"
  spawned_by_tool_use_id :: "string option"

definition no_metadata :: agent_metadata where
  "no_metadata = \<lparr>meta_label = None, spawned_by_tool_use_id = None\<rparr>"

datatype manager_error =
  InvalidLimits
| DuplicateRoot
| MissingRoot
| UnknownAgent agent_id
| NonLiveAgent agent_id
| GraphShutdown
| DepthExceeded nat nat
| ChildLimit agent_id nat
| LiveAgentLimit nat
| WrongManager
| InactiveTurn agent_id turn_id
| ActorMismatch agent_id agent_id
| TurnResultUnavailable agent_id turn_id
| TicketActorMismatch agent_id turn_id
| NotDescendant agent_id agent_id
| Factory string
| BusySubtree agent_id
| PolicyError string

text \<open>A handle to an actor is its address in the store; the task that awaits the actor's runner is
  addressed the same way.\<close>

type_synonym actor_ref = nat

record node =
  n_parent :: "agent_id option"
  n_root :: agent_id
  n_depth :: nat
  n_children :: "agent_id list"
  n_lifecycle :: graph_lifecycle
  n_actor :: "actor_ref option"
  n_task :: "actor_ref option"
  n_metadata :: agent_metadata
  n_reservation :: u64
  n_pending :: bool
  n_cancel_on_commit :: bool
  n_owner :: "(agent_id \<times> turn_id) option"

record node_snapshot =
  ns_agent :: agent_id
  ns_parent :: "agent_id option"
  ns_root :: agent_id
  ns_depth :: nat
  ns_children :: "agent_id list"
  ns_lifecycle :: graph_lifecycle
  ns_actor :: "actor_snapshot option"
  ns_metadata :: agent_metadata

record graph_state =
  g_root :: "agent_id option"
  g_nodes :: "(agent_id, node) hmap"
  g_active :: "(agent_id \<times> turn_id, u64) hmap"
  g_revision :: u64
  g_next_reservation :: u64
  g_shutting_down :: bool

text \<open>The manager: its limits, the locked graph, the store of actors with the runner of each, which
  awaiting tasks have finished, and the terminal snapshots that references keep after their node is
  gone.\<close>

record manager =
  m_identity :: nat
  m_limits :: agent_limits
  m_graph :: graph_state
  m_actors :: "actor_ref \<Rightarrow> actor"
  m_runners :: "actor_ref \<Rightarrow> runner_pc"
  m_finished :: "actor_ref \<Rightarrow> bool"
  m_next_ref :: actor_ref
  m_terminals :: "(agent_id, node_snapshot) hmap"

text \<open>The authority of an executing turn, and a reference to an agent: a reference that was taken while the
  agent was a node shares the node's terminal cell, any other has a cell that stays empty.\<close>

record managed_token =
  tok_manager :: nat
  tok_agent :: agent_id
  tok_turn :: turn_id
  tok_nonce :: u64

record agent_ref =
  ref_manager :: nat
  ref_agent :: agent_id
  ref_linked :: bool

section \<open>Building blocks\<close>

definition on_graph :: "(graph_state \<Rightarrow> graph_state) \<Rightarrow> manager \<Rightarrow> manager" where
  "on_graph f m = m\<lparr>m_graph := f (m_graph m)\<rparr>"

definition get_node :: "manager \<Rightarrow> agent_id \<Rightarrow> node option" where
  "get_node m i = hm_get (g_nodes (m_graph m)) i"

definition modify_node :: "agent_id \<Rightarrow> (node \<Rightarrow> node) \<Rightarrow> graph_state \<Rightarrow> graph_state" where
  "modify_node i f g = g\<lparr>g_nodes := hm_modify i f (g_nodes g)\<rparr>"

definition bump :: "graph_state \<Rightarrow> graph_state" where
  "bump g = g\<lparr>g_revision := g_revision g + 1\<rparr>"

definition on_actor :: "actor_ref \<Rightarrow> (actor \<Rightarrow> actor) \<Rightarrow> manager \<Rightarrow> manager" where
  "on_actor r f m = m\<lparr>m_actors := (m_actors m)(r := f (m_actors m r))\<rparr>"

definition actor_open :: "manager \<Rightarrow> actor_ref \<Rightarrow> bool" where
  "actor_open m r \<longleftrightarrow> lifecycle (state (m_actors m r)) = Open"

definition take_reservation :: "graph_state \<Rightarrow> u64 \<times> graph_state" where
  "take_reservation g = (g_next_reservation g, g\<lparr>g_next_reservation := g_next_reservation g + 1\<rparr>)"

definition new_graph :: graph_state where
  "new_graph = \<lparr>g_root = None, g_nodes = [], g_active = [], g_revision = 0, g_next_reservation = 1, g_shutting_down = False\<rparr>"

definition new_manager :: "nat \<Rightarrow> agent_limits \<Rightarrow> manager_error + manager" where
  "new_manager ident l =
     (if max_concurrent_agent_turns l = 0 \<or> max_agent_depth l = 0 \<or> max_children_per_agent l = 0 \<or> max_live_agents l = 0
      then Inl InvalidLimits
      else Inr \<lparr>m_identity = ident, m_limits = l, m_graph = new_graph,
        m_actors = (\<lambda>_. spawn_actor (AgentId 0) 0 False None None False 0), m_runners = (\<lambda>_. AtPop),
        m_finished = (\<lambda>_. False), m_next_ref = 0, m_terminals = []\<rparr>)"

text \<open>\<open>capture_node_snapshot\<close> and \<open>CapturedNodeSnapshot::snapshot\<close>.\<close>

definition node_snapshot_of :: "manager \<Rightarrow> agent_id \<Rightarrow> node \<Rightarrow> node_snapshot" where
  "node_snapshot_of m i n =
     \<lparr>ns_agent = i, ns_parent = n_parent n, ns_root = n_root n, ns_depth = n_depth n, ns_children = n_children n,
      ns_lifecycle = n_lifecycle n, ns_actor = map_option (\<lambda>r. actor_snapshot_of (m_actors m r)) (n_actor n),
      ns_metadata = n_metadata n\<rparr>"

definition task_finished :: "manager \<Rightarrow> node \<Rightarrow> bool" where
  "task_finished m n = (case n_task n of None \<Rightarrow> False | Some r \<Rightarrow> m_finished m r)"

section \<open>Reclaiming closed nodes\<close>

definition reclaimable :: "manager \<Rightarrow> node \<Rightarrow> bool" where
  "reclaimable m n \<longleftrightarrow> \<not> n_pending n \<and> n_children n = []
     \<and> (n_lifecycle n = GraphClosed \<or> (n_lifecycle n = Closing \<and> task_finished m n))"

definition drop_child :: "agent_id \<Rightarrow> agent_id option \<Rightarrow> graph_state \<Rightarrow> graph_state" where
  "drop_child i parent g = (case parent of None \<Rightarrow> g
     | Some p \<Rightarrow> modify_node p (\<lambda>n. n\<lparr>n_children := filter (\<lambda>c. c \<noteq> i) (n_children n)\<rparr>) g)"

definition retire_node :: "agent_id \<Rightarrow> manager \<Rightarrow> manager" where
  "retire_node i m = (case get_node m i of
     None \<Rightarrow> m
   | Some n \<Rightarrow>
       let g1 = (m_graph m)\<lparr>g_nodes := hm_remove i (g_nodes (m_graph m))\<rparr>;
           snap = node_snapshot_of m i (n\<lparr>n_lifecycle := GraphClosed\<rparr>);
           g2 = drop_child i (n_parent n) g1;
           g3 = bump (g2\<lparr>g_active := filter (\<lambda>((a, _), _). a \<noteq> i) (g_active g2)\<rparr>)
       in m\<lparr>m_graph := g3, m_terminals := hm_insert i snap (m_terminals m)\<rparr>)"

definition retirable :: "manager \<Rightarrow> agent_id list" where
  "retirable m = map fst (filter (\<lambda>(_, n). reclaimable m n) (g_nodes (m_graph m)))"

lemma length_hm_modify [simp]: "length (AList.map_entry k f m) = length m"
  by (induction m) auto

lemma retire_node_length: "length (g_nodes (m_graph (retire_node i m))) \<le> length (g_nodes (m_graph m))"
  by (auto simp: retire_node_def drop_child_def modify_node_def bump_def Let_def length_hm_remove_le split: option.split)

lemma retire_node_less: "get_node m i = Some n \<Longrightarrow> length (g_nodes (m_graph (retire_node i m))) < length (g_nodes (m_graph m))"
  by (auto simp: retire_node_def drop_child_def modify_node_def bump_def Let_def get_node_def hm_contains_def
    intro: length_hm_remove_less split: option.split)

lemma fold_retire_length: "length (g_nodes (m_graph (fold retire_node is m))) \<le> length (g_nodes (m_graph m))"
  by (induction "is" arbitrary: m) (auto intro: le_trans [OF _ retire_node_length])

function reclaim_finished_closings :: "manager \<Rightarrow> manager" where
  "reclaim_finished_closings m =
     (let retired = retirable m
      in if retired = [] then m else reclaim_finished_closings (fold retire_node retired m))"
  by pat_completeness auto
termination
proof (relation "measure (\<lambda>m. length (g_nodes (m_graph m)))")
  fix m :: manager and retired
  assume r: "retired = retirable m" "retired \<noteq> []"
  then obtain i js where js: "retired = i # js" by (meson list.exhaust)
  have "i \<in> set retired" by (simp add: js)
  then have "i \<in> set (retirable m)" by (simp only: r(1))
  then have "i \<in> fst ` set (g_nodes (m_graph m))" by (auto simp: retirable_def)
  then obtain n where "get_node m i = Some n"
    by (metis get_node_def hm_contains_def hm_contains_iff not_None_eq)
  from retire_node_less [OF this] fold_retire_length [of js "retire_node i m"]
  show "(fold retire_node retired m, m) \<in> measure (\<lambda>m. length (g_nodes (m_graph m)))" by (simp add: js)
qed simp

declare reclaim_finished_closings.simps [simp del]

section \<open>Walking the graph\<close>

text \<open>\<open>subtree_ids\<close>: the loop pops an id, appends it, and pushes the children so that the first child is
  popped next. On a graph with a cycle it would not end, which is the value \<open>None\<close>; that it ends on
  every graph a manager can have is shown in \<open>Agent_Tree\<close>.\<close>

partial_function (option) subtree_loop :: "graph_state \<Rightarrow> agent_id list \<Rightarrow> agent_id list \<Rightarrow> agent_id list option" where
  "subtree_loop g todo result =
     (case todo of
        [] \<Rightarrow> Some result
      | i # rest \<Rightarrow> subtree_loop g ((case hm_get (g_nodes g) i of None \<Rightarrow> [] | Some n \<Rightarrow> n_children n) @ rest) (result @ [i]))"

definition subtree_ids :: "graph_state \<Rightarrow> agent_id \<Rightarrow> agent_id list" where
  "subtree_ids g root = (case subtree_loop g [root] [] of Some ids \<Rightarrow> ids | None \<Rightarrow> [])"

text \<open>\<open>validate_descendant\<close>: the walk up the parents.\<close>

partial_function (option) descendant_loop :: "graph_state \<Rightarrow> agent_id \<Rightarrow> agent_id \<Rightarrow> agent_id \<Rightarrow> (manager_error option) option" where
  "descendant_loop g ancestor child cursor =
     (case hm_get (g_nodes g) cursor of
        None \<Rightarrow> Some (Some (UnknownAgent cursor))
      | Some n \<Rightarrow>
          if n_lifecycle n \<noteq> Live then Some (Some (NonLiveAgent cursor))
          else case n_parent n of
            None \<Rightarrow> Some (Some (NotDescendant ancestor child))
          | Some p \<Rightarrow> if p = ancestor then Some None else descendant_loop g ancestor child p)"

section \<open>References and authority\<close>

definition ref_terminal :: "agent_ref \<Rightarrow> manager \<Rightarrow> node_snapshot option" where
  "ref_terminal r m = (if ref_linked r then hm_get (m_terminals m) (ref_agent r) else None)"

definition validate_live_ref :: "agent_ref \<Rightarrow> manager \<Rightarrow> manager_error option" where
  "validate_live_ref r m =
     (if ref_manager r \<noteq> m_identity m then Some WrongManager
      else if g_shutting_down (m_graph m) then Some GraphShutdown
      else case get_node m (ref_agent r) of
        None \<Rightarrow> Some (if ref_terminal r m \<noteq> None then NonLiveAgent (ref_agent r) else UnknownAgent (ref_agent r))
      | Some n \<Rightarrow>
          if n_lifecycle n \<noteq> Live \<or> (case n_actor n of None \<Rightarrow> True | Some a \<Rightarrow> \<not> actor_open m a)
          then Some (NonLiveAgent (ref_agent r)) else None)"

definition reference :: "agent_id \<Rightarrow> manager \<Rightarrow> agent_ref" where
  "reference i m = \<lparr>ref_manager = m_identity m, ref_agent = i, ref_linked = (get_node m i \<noteq> None)\<rparr>"

definition lookup :: "agent_id \<Rightarrow> manager \<Rightarrow> manager_error + agent_ref" where
  "lookup i m = (case get_node m i of
     None \<Rightarrow> Inl (UnknownAgent i)
   | Some _ \<Rightarrow> let r = \<lparr>ref_manager = m_identity m, ref_agent = i, ref_linked = True\<rparr>
       in case validate_live_ref r m of None \<Rightarrow> Inr r | Some e \<Rightarrow> Inl e)"

definition root_id :: "manager \<Rightarrow> manager_error + agent_id" where
  "root_id m = (case g_root (m_graph m) of None \<Rightarrow> Inl MissingRoot | Some i \<Rightarrow> Inr i)"

definition root_ref :: "manager \<Rightarrow> manager_error + agent_ref" where
  "root_ref m = (case root_id m of Inl e \<Rightarrow> Inl e | Inr i \<Rightarrow> lookup i m)"

definition list_live :: "manager \<Rightarrow> agent_ref list" where
  "list_live m = List.map_filter (\<lambda>i. case lookup i m of Inr r \<Rightarrow> Some r | Inl _ \<Rightarrow> None) (hm_keys (g_nodes (m_graph m)))"

definition retained_turn_ticket :: "agent_ref \<Rightarrow> turn_id \<Rightarrow> manager \<Rightarrow> manager_error + turn_ticket" where
  "retained_turn_ticket r t m =
     (if ref_manager r \<noteq> m_identity m then Inl WrongManager
      else case get_node m (ref_agent r) of
        None \<Rightarrow> Inl (UnknownAgent (ref_agent r))
      | Some n \<Rightarrow> (case n_actor n of
            None \<Rightarrow> Inl (NonLiveAgent (ref_agent r))
          | Some a \<Rightarrow> (case turn_ticket_of (m_actors m a) t of
                None \<Rightarrow> Inl (TurnResultUnavailable (ref_agent r) t)
              | Some tk \<Rightarrow> Inr tk)))"

definition manager_actor :: "agent_id \<Rightarrow> manager \<Rightarrow> manager_error + actor_ref" where
  "manager_actor i m = (case get_node m i of
     None \<Rightarrow> Inl (UnknownAgent i)
   | Some n \<Rightarrow> if n_lifecycle n \<noteq> Live then Inl (NonLiveAgent i)
       else case n_actor n of None \<Rightarrow> Inl (NonLiveAgent i) | Some a \<Rightarrow> Inr a)"

text \<open>\<open>AgentRef::snapshot\<close>: the terminal snapshot if the node is gone, the live one otherwise.\<close>

definition manager_node :: "agent_id \<Rightarrow> manager \<Rightarrow> manager_error + node_snapshot" where
  "manager_node i m = (case get_node m i of None \<Rightarrow> Inl (UnknownAgent i) | Some n \<Rightarrow> Inr (node_snapshot_of m i n))"

definition ref_snapshot :: "agent_ref \<Rightarrow> manager \<Rightarrow> manager_error + node_snapshot" where
  "ref_snapshot r m = (case ref_terminal r m of Some s \<Rightarrow> Inr s | None \<Rightarrow> manager_node (ref_agent r) m)"

definition token_active :: "managed_token \<Rightarrow> manager \<Rightarrow> bool" where
  "token_active k m \<longleftrightarrow> hm_get (g_active (m_graph m)) (tok_agent k, tok_turn k) = Some (tok_nonce k)"

definition validate_active :: "managed_token \<Rightarrow> manager \<Rightarrow> manager_error option" where
  "validate_active k m =
     (if tok_manager k \<noteq> m_identity m then Some WrongManager
      else if \<not> token_active k m then Some (InactiveTurn (tok_agent k) (tok_turn k))
      else case get_node m (tok_agent k) of
        None \<Rightarrow> Some (UnknownAgent (tok_agent k))
      | Some n \<Rightarrow> if n_lifecycle n \<noteq> Live then Some (NonLiveAgent (tok_agent k)) else None)"

definition validate_descendant :: "managed_token \<Rightarrow> agent_id \<Rightarrow> manager \<Rightarrow> manager_error option" where
  "validate_descendant k child m =
     (if tok_manager k \<noteq> m_identity m then Some WrongManager
      else if \<not> token_active k m then Some (InactiveTurn (tok_agent k) (tok_turn k))
      else case descendant_loop (m_graph m) (tok_agent k) child child of
        Some e \<Rightarrow> e | None \<Rightarrow> Some (NotDescendant (tok_agent k) child))"

definition runner_finished :: "agent_id \<Rightarrow> manager \<Rightarrow> bool \<times> manager" where
  "runner_finished i m =
     (let m' = reclaim_finished_closings m
      in (case get_node m' i of None \<Rightarrow> True
          | Some n \<Rightarrow> \<not> n_pending n \<and> (n_task n = None \<or> task_finished m' n), m'))"

section \<open>Creating agents\<close>

definition new_node :: "agent_id option \<Rightarrow> agent_id \<Rightarrow> nat \<Rightarrow> agent_metadata \<Rightarrow> u64 \<Rightarrow> (agent_id \<times> turn_id) option \<Rightarrow> node" where
  "new_node parent root depth meta res owner =
     \<lparr>n_parent = parent, n_root = root, n_depth = depth, n_children = [], n_lifecycle = Reserved, n_actor = None,
      n_task = None, n_metadata = meta, n_reservation = res, n_pending = True, n_cancel_on_commit = False, n_owner = owner\<rparr>"

definition insert_node :: "agent_id \<Rightarrow> node \<Rightarrow> graph_state \<Rightarrow> graph_state" where
  "insert_node i n g = bump (g\<lparr>g_nodes := hm_insert i n (g_nodes g)\<rparr>)"

text \<open>\<open>create_root_inner\<close>, up to the call of the factory.\<close>

definition reserve_root :: "agent_id \<Rightarrow> manager \<Rightarrow> manager_error + manager \<times> u64" where
  "reserve_root i m =
     (let g = m_graph m
      in if g_shutting_down g then Inl GraphShutdown
         else if g_root g \<noteq> None then Inl DuplicateRoot
         else
           let (res, g1) = take_reservation g;
               g2 = insert_node i (new_node None i 0 no_metadata res None) (g1\<lparr>g_root := Some i\<rparr>)
           in Inr (m\<lparr>m_graph := g2\<rparr>, res))"

text \<open>\<open>spawn_child_inner\<close>, up to the call of the factory. The caller is the current turn of the parent,
  which presents its token, or the host, which presents none.\<close>

definition spawn_refused :: "agent_id \<Rightarrow> managed_token option \<Rightarrow> manager \<Rightarrow> manager_error option" where
  "spawn_refused p current m =
     (if (case current of None \<Rightarrow> False | Some k \<Rightarrow> hm_get (g_active (m_graph m)) (p, tok_turn k) \<noteq> Some (tok_nonce k))
      then Some (InactiveTurn p (tok_turn (the current)))
      else case get_node m p of
        None \<Rightarrow> Some (UnknownAgent p)
      | Some n \<Rightarrow>
          if n_lifecycle n \<noteq> Live \<or> (case n_actor n of None \<Rightarrow> True | Some a \<Rightarrow> \<not> actor_open m a) then Some (NonLiveAgent p)
          else if n_depth n + 1 > max_agent_depth (m_limits m) then Some (DepthExceeded (n_depth n + 1) (max_agent_depth (m_limits m)))
          else if length (n_children n) \<ge> max_children_per_agent (m_limits m) then Some (ChildLimit p (max_children_per_agent (m_limits m)))
          else if length (g_nodes (m_graph m)) \<ge> max_live_agents (m_limits m) then Some (LiveAgentLimit (max_live_agents (m_limits m)))
          else None)"

definition add_child :: "agent_id \<Rightarrow> agent_id \<Rightarrow> agent_metadata \<Rightarrow> (agent_id \<times> turn_id) option \<Rightarrow> node \<Rightarrow> graph_state \<Rightarrow> graph_state \<times> u64" where
  "add_child p i meta owner pn g =
     (let (res, g1) = take_reservation g;
          g2 = modify_node p (\<lambda>n. n\<lparr>n_children := n_children n @ [i]\<rparr>) g1
      in (insert_node i (new_node (Some p) (n_root pn) (n_depth pn + 1) meta res owner) g2, res))"

definition reserve_child ::
    "agent_id \<Rightarrow> managed_token option \<Rightarrow> effective_config \<Rightarrow> agent_metadata \<Rightarrow> agent_id \<Rightarrow> manager \<Rightarrow> manager \<times> (manager_error + u64)" where
  "reserve_child p current cfg meta i m =
     (if (case mode cfg of Custom _ \<Rightarrow> cfg_mode_def cfg = None | _ \<Rightarrow> False)
      then (m, Inl (PolicyError ''custom mode requires a resolved definition''))
      else if g_shutting_down (m_graph m) then (m, Inl GraphShutdown)
      else
        let m1 = reclaim_finished_closings m
        in case spawn_refused p current m1 of
             Some e \<Rightarrow> (m1, Inl e)
           | None \<Rightarrow>
               (case add_child p i meta (map_option (\<lambda>k. (p, tok_turn k)) current) (the (get_node m1 p)) (m_graph m1) of
                  (g, res) \<Rightarrow> (m1\<lparr>m_graph := g\<rparr>, Inr res)))"

text \<open>\<open>spawn_child_with_config\<close> and \<open>spawn_child_trusted_with_config\<close> validate the caller first.\<close>

definition spawn_child_with_config ::
    "managed_token \<Rightarrow> effective_config \<Rightarrow> agent_metadata \<Rightarrow> agent_id \<Rightarrow> manager \<Rightarrow> manager \<times> (manager_error + u64)" where
  "spawn_child_with_config k cfg meta i m = (case validate_active k m of
     Some e \<Rightarrow> (m, Inl e) | None \<Rightarrow> reserve_child (tok_agent k) (Some k) cfg meta i m)"

definition spawn_child_trusted_with_config ::
    "agent_ref \<Rightarrow> effective_config \<Rightarrow> agent_metadata \<Rightarrow> agent_id \<Rightarrow> manager \<Rightarrow> manager \<times> (manager_error + u64)" where
  "spawn_child_trusted_with_config r cfg meta i m = (case validate_live_ref r m of
     Some e \<Rightarrow> (m, Inl e) | None \<Rightarrow> reserve_child (ref_agent r) None cfg meta i m)"

definition rollback_reservation :: "agent_id \<Rightarrow> u64 \<Rightarrow> graph_state \<Rightarrow> graph_state" where
  "rollback_reservation i res g = (case hm_get (g_nodes g) i of
     None \<Rightarrow> g
   | Some n \<Rightarrow>
       if n_reservation n \<noteq> res \<or> n_actor n \<noteq> None \<or> \<not> n_pending n then g
       else
         let g1 = drop_child i (n_parent n) (g\<lparr>g_nodes := hm_remove i (g_nodes g)\<rparr>)
         in bump (if g_root g1 = Some i then g1\<lparr>g_root := None\<rparr> else g1))"

text \<open>\<open>commit_actor\<close>: the actor is spawned outside the lock, with the delivery target the graph names.\<close>

definition commit_label :: "agent_id \<Rightarrow> manager \<Rightarrow> string option option" where
  "commit_label i m = Option.bind (get_node m i) (\<lambda>n. Option.bind (n_parent n) (\<lambda>p. Option.bind (get_node m p) (\<lambda>pn.
     map_option (\<lambda>_. meta_label (n_metadata n)) (n_actor pn))))"

definition commit_spawn :: "agent_id \<Rightarrow> config_arc option \<Rightarrow> bool \<Rightarrow> nat \<Rightarrow> manager \<Rightarrow> manager \<times> actor_ref" where
  "commit_spawn i cfg prep len m =
     (let r = m_next_ref m;
          is_child = (case get_node m i of None \<Rightarrow> False | Some n \<Rightarrow> n_parent n \<noteq> None)
      in (m\<lparr>m_actors := (m_actors m)(r := spawn_actor i r is_child (commit_label i m) cfg prep len),
            m_runners := (m_runners m)(r := AtPop), m_finished := (m_finished m)(r := False), m_next_ref := r + 1\<rparr>, r))"

datatype commit_phase =
  Committed
| CommitRefused manager_error
| CommitAborting bool
| CommitCancelling

definition can_commit :: "agent_id \<Rightarrow> u64 \<Rightarrow> graph_state \<Rightarrow> bool" where
  "can_commit i res g = (case hm_get (g_nodes g) i of None \<Rightarrow> False
     | Some n \<Rightarrow> n_reservation n = res \<and> n_pending n \<and> (n_lifecycle n = Reserved \<or> n_lifecycle n = Closing))"

definition publish_node :: "agent_id \<Rightarrow> graph_state \<Rightarrow> graph_state" where
  "publish_node i g = bump (modify_node i (\<lambda>n. n\<lparr>n_pending := False, n_lifecycle := Live\<rparr>) g)"

definition commit_install :: "agent_id \<Rightarrow> u64 \<Rightarrow> actor_ref \<Rightarrow> manager \<Rightarrow> manager \<times> commit_phase" where
  "commit_install i res r m =
     (if \<not> can_commit i res (m_graph m)
      then (on_graph (rollback_reservation i res) (on_actor r shutdown m), CommitRefused (NonLiveAgent i))
      else
        let n = the (get_node m i); closing = (n_lifecycle n = Closing); cancel = n_cancel_on_commit n;
            m1 = on_graph (modify_node i (\<lambda>n. n\<lparr>n_cancel_on_commit := False, n_actor := Some r, n_task := Some r\<rparr>)) m
        in if closing then (m1, CommitAborting (g_shutting_down (m_graph m)))
           else if cancel then (m1, CommitCancelling)
           else (on_graph (publish_node i) m1, Committed))"

definition finish_failed_commit :: "agent_id \<Rightarrow> u64 \<Rightarrow> manager \<Rightarrow> manager" where
  "finish_failed_commit i res m =
     reclaim_finished_closings (case get_node m i of
        None \<Rightarrow> m
      | Some n \<Rightarrow> if n_reservation n = res then on_graph (modify_node i (\<lambda>n. n\<lparr>n_pending := False\<rparr>)) m else m)"

text \<open>The commit found its node closing: the actor is closed or shut down and the commit fails.\<close>

definition commit_abort :: "agent_id \<Rightarrow> u64 \<Rightarrow> actor_ref \<Rightarrow> bool \<Rightarrow> manager \<Rightarrow> manager \<times> manager_error" where
  "commit_abort i res r shutting m =
     (finish_failed_commit i res (on_actor r (if shutting then shutdown else close) m),
      if shutting then GraphShutdown else NonLiveAgent i)"

text \<open>The commit of a node that a cancellation cut had marked: its work is cancelled first, then the node
  is published unless it was closed meanwhile.\<close>

definition can_publish :: "agent_id \<Rightarrow> u64 \<Rightarrow> graph_state \<Rightarrow> bool" where
  "can_publish i res g \<longleftrightarrow> \<not> g_shutting_down g \<and> (case hm_get (g_nodes g) i of None \<Rightarrow> False
     | Some n \<Rightarrow> n_reservation n = res \<and> n_pending n \<and> n_lifecycle n = Reserved \<and> n_actor n \<noteq> None \<and> n_task n \<noteq> None)"

definition commit_publish :: "agent_id \<Rightarrow> u64 \<Rightarrow> manager \<Rightarrow> manager \<times> commit_phase" where
  "commit_publish i res m =
     (if can_publish i res (m_graph m) then (on_graph (publish_node i) m, Committed)
      else (m, CommitAborting (g_shutting_down (m_graph m))))"

text \<open>The task that awaits an actor's runner: once the runner exited, the node is closed and what can be
  reclaimed is.\<close>

definition runner_done :: "agent_id \<Rightarrow> u64 \<Rightarrow> manager \<Rightarrow> manager" where
  "runner_done i res m =
     reclaim_finished_closings (case get_node m i of
        None \<Rightarrow> m
      | Some n \<Rightarrow>
          if n_reservation n = res \<and> n_lifecycle n \<noteq> GraphClosed \<and> n_lifecycle n \<noteq> Removed
          then on_graph (\<lambda>g. bump (modify_node i (\<lambda>n. n\<lparr>n_lifecycle := GraphClosed\<rparr>) g)) m else m)"

section \<open>Cancelling and closing\<close>

text \<open>\<open>capture_cancel_cut\<close>: reserved nodes are marked, the actors of the others are collected.\<close>

definition cut_targets :: "bool \<Rightarrow> agent_id \<Rightarrow> graph_state \<Rightarrow> agent_id list" where
  "cut_targets subtree i g = (if subtree then subtree_ids g i else [i])"

definition capture_cancel_cut :: "agent_id \<Rightarrow> bool \<Rightarrow> manager \<Rightarrow> manager_error + manager \<times> actor_ref list" where
  "capture_cancel_cut i subtree m = (case get_node m i of
     None \<Rightarrow> Inl (UnknownAgent i)
   | Some n \<Rightarrow>
       if \<not> consumes_capacity (n_lifecycle n) then Inl (NonLiveAgent i)
       else
         let ids = cut_targets subtree i (m_graph m);
             mark = (\<lambda>j g. modify_node j (\<lambda>n. if n_lifecycle n = Reserved then n\<lparr>n_cancel_on_commit := True\<rparr> else n) g);
             actors = List.map_filter (\<lambda>j. Option.bind (get_node m j) (\<lambda>n. if n_lifecycle n = Reserved then None else n_actor n)) ids
         in Inr (on_graph (\<lambda>g. bump (fold mark ids g)) m, actors))"

definition cancel_actors :: "actor_ref list \<Rightarrow> manager \<Rightarrow> manager" where
  "cancel_actors rs m = fold (\<lambda>r. on_actor r cancel_existing) rs m"

definition cancel_agent :: "agent_id \<Rightarrow> manager \<Rightarrow> manager_error + manager" where
  "cancel_agent i m = (case capture_cancel_cut i False m of Inl e \<Rightarrow> Inl e | Inr (m', rs) \<Rightarrow> Inr (cancel_actors rs m'))"

definition cancel_subtree :: "agent_id \<Rightarrow> manager \<Rightarrow> manager_error + manager" where
  "cancel_subtree i m = (case capture_cancel_cut i True m of Inl e \<Rightarrow> Inl e | Inr (m', rs) \<Rightarrow> Inr (cancel_actors rs m'))"

text \<open>One node of \<open>capture_subtree_locked\<close>: the actor's close is captured and the node becomes closing.
  The boolean tells whether any node changed its lifecycle.\<close>

type_synonym close_cuts = "(actor_ref \<times> close_cut) list"

definition capture_actor :: "bool \<Rightarrow> actor_ref \<Rightarrow> manager \<Rightarrow> manager \<times> close_cuts" where
  "capture_actor sd r m = (case capture_close sd (m_actors m r) of
     (a', taken) \<Rightarrow> (m\<lparr>m_actors := (m_actors m)(r := a')\<rparr>, case taken of None \<Rightarrow> [] | Some k \<Rightarrow> [(r, k)]))"

definition close_node :: "agent_id \<Rightarrow> manager \<times> bool \<times> close_cuts \<Rightarrow> manager \<times> bool \<times> close_cuts" where
  "close_node i s = (case s of (m, changed, cuts) \<Rightarrow>
     (case get_node m i of
        None \<Rightarrow> (m, changed, cuts)
      | Some n \<Rightarrow>
          if \<not> consumes_capacity (n_lifecycle n) then (m, changed, cuts)
          else
            let (m1, taken) = (case n_actor n of None \<Rightarrow> (m, []) | Some r \<Rightarrow> capture_actor False r m)
            in (on_graph (modify_node i (\<lambda>n. n\<lparr>n_lifecycle := Closing\<rparr>)) m1, changed \<or> n_lifecycle n \<noteq> Closing, cuts @ taken)))"

definition capture_subtree_locked :: "agent_id \<Rightarrow> bool \<Rightarrow> manager \<Rightarrow> manager_error + manager \<times> close_cuts" where
  "capture_subtree_locked i include_root m = (case get_node m i of
     None \<Rightarrow> Inl (UnknownAgent i)
   | Some n \<Rightarrow>
       if \<not> consumes_capacity (n_lifecycle n) then Inl (NonLiveAgent i)
       else
         let ids = subtree_ids (m_graph m) i
         in case fold close_node (if include_root then ids else tl ids) (m, False, []) of
              (m', changed, cuts) \<Rightarrow> Inr (if changed then on_graph bump m' else m', cuts))"

definition settle_cuts :: "close_cuts \<Rightarrow> manager \<Rightarrow> manager" where
  "settle_cuts cuts m = fold (\<lambda>(r, k). on_actor r (settle_close k)) cuts m"

definition close_subtree :: "agent_id \<Rightarrow> manager \<Rightarrow> manager_error + manager" where
  "close_subtree i m = (case capture_subtree_locked i True m of Inl e \<Rightarrow> Inl e | Inr (m', cuts) \<Rightarrow> Inr (settle_cuts cuts m'))"

definition close_descendants :: "agent_id \<Rightarrow> manager \<Rightarrow> manager_error + manager" where
  "close_descendants i m = (case capture_subtree_locked i False m of Inl e \<Rightarrow> Inl e | Inr (m', cuts) \<Rightarrow> Inr (settle_cuts cuts m'))"

text \<open>\<open>capture_turn_children\<close>: the turn loses its authority and the children it owns are closed.\<close>

definition owned_children :: "agent_id \<Rightarrow> turn_id \<Rightarrow> manager \<Rightarrow> agent_id list" where
  "owned_children i t m = (case get_node m i of None \<Rightarrow> []
     | Some n \<Rightarrow> filter (\<lambda>c. case get_node m c of None \<Rightarrow> False
         | Some cn \<Rightarrow> n_owner cn = Some (i, t) \<and> consumes_capacity (n_lifecycle cn)) (n_children n))"

definition revoke_turn :: "agent_id \<Rightarrow> turn_id \<Rightarrow> graph_state \<Rightarrow> graph_state" where
  "revoke_turn i t g = g\<lparr>g_active := hm_remove (i, t) (g_active g)\<rparr>"

definition capture_turn_children :: "agent_id \<Rightarrow> turn_id option \<Rightarrow> manager \<Rightarrow> manager \<times> close_cuts" where
  "capture_turn_children i turn m = (case turn of
     None \<Rightarrow> (m, [])
   | Some t \<Rightarrow>
       let m1 = on_graph (revoke_turn i t) m
       in fold (\<lambda>c (m, cuts). case capture_subtree_locked c True m of Inl _ \<Rightarrow> (m, cuts) | Inr (m', ks) \<Rightarrow> (m', cuts @ ks))
            (owned_children i t m1) (m1, []))"

definition capacity_actor :: "agent_id \<Rightarrow> manager \<Rightarrow> manager_error + actor_ref" where
  "capacity_actor i m = (case get_node m i of
     None \<Rightarrow> Inl (UnknownAgent i)
   | Some n \<Rightarrow> if \<not> consumes_capacity (n_lifecycle n) then Inl (NonLiveAgent i)
       else case n_actor n of None \<Rightarrow> Inl (NonLiveAgent i) | Some r \<Rightarrow> Inr r)"

definition manager_cancel_turn :: "agent_id \<Rightarrow> turn_id \<Rightarrow> cancel_reason \<Rightarrow> manager \<Rightarrow> manager \<times> manager_error option" where
  "manager_cancel_turn i t reason m = (case capacity_actor i m of
     Inl e \<Rightarrow> (m, Some e)
   | Inr r \<Rightarrow>
       (case capture_turn_cancel t reason (m_actors m r) of
          Inl e \<Rightarrow>
            if is_closed e then (m, Some (NonLiveAgent i))
            else if (case outcome_of (m_actors m r) t of Some out \<Rightarrow> is_Cancelled out | None \<Rightarrow> False)
            then (case capture_turn_children i (Some t) m of (m1, cuts) \<Rightarrow> (settle_cuts cuts m1, Some (InactiveTurn i t)))
            else (m, Some (InactiveTurn i t))
        | Inr (a', deferred, queued) \<Rightarrow>
            (case capture_turn_children i (Some t) (on_actor r (\<lambda>_. a') m) of
               (m1, cuts) \<Rightarrow> (settle_cuts cuts (on_actor r (settle_turn_cancel deferred queued reason) m1), None))))"

definition manager_cancel_correlation :: "agent_id \<Rightarrow> string \<Rightarrow> cancel_reason \<Rightarrow> manager \<Rightarrow> manager \<times> manager_error option" where
  "manager_cancel_correlation i c reason m = (case capacity_actor i m of
     Inl e \<Rightarrow> (m, Some e)
   | Inr r \<Rightarrow>
       (case capture_correlation_cancel c reason (m_actors m r) of (a', turn, deferred, matched) \<Rightarrow>
          (case capture_turn_children i turn (on_actor r (\<lambda>_. a') m) of
             (m1, cuts) \<Rightarrow> (settle_cuts cuts (on_actor r (settle_correlation_cancel deferred matched reason) m1), None))))"

definition local_cancel :: "agent_id \<Rightarrow> u64 \<Rightarrow> manager \<Rightarrow> manager \<times> (manager_error + turn_id option \<times> u64)" where
  "local_cancel i displayed m = (case capacity_actor i m of
     Inl e \<Rightarrow> (m, Inl e)
   | Inr r \<Rightarrow>
       if \<not> actor_open m r then (m, Inl (NonLiveAgent i))
       else
         (case capture_local_cancel displayed (m_actors m r) of (a', taken) \<Rightarrow>
            let m1 = (case local_turn taken of None \<Rightarrow> m | Some t \<Rightarrow> on_graph (revoke_turn i t) m)
            in (on_actor r (\<lambda>_. settle_local_cancel taken a') m1, Inr (local_turn taken, local_fence taken))))"

text \<open>\<open>prepare_idle_subtree\<close>.\<close>

definition descendant_busy :: "manager \<Rightarrow> agent_id \<Rightarrow> bool" where
  "descendant_busy m i = (case get_node m i of None \<Rightarrow> False
     | Some n \<Rightarrow> (case n_lifecycle n of
         Live \<Rightarrow> (case n_actor n of None \<Rightarrow> True | Some r \<Rightarrow> has_pending_work (m_actors m r))
       | l \<Rightarrow> consumes_capacity l))"

definition prepare_idle_subtree :: "agent_id \<Rightarrow> manager \<Rightarrow> manager_error + manager \<times> nat" where
  "prepare_idle_subtree i m =
     (if g_shutting_down (m_graph m) then Inl GraphShutdown
      else case get_node m i of
        None \<Rightarrow> Inl (UnknownAgent i)
      | Some n \<Rightarrow>
          if n_lifecycle n \<noteq> Live then Inl (NonLiveAgent i)
          else
            let ids = subtree_ids (m_graph m) i
            in if list_ex (\<lambda>((a, _), _). a \<in> set ids) (g_active (m_graph m)) \<or> list_ex (descendant_busy m) (tl ids)
               then Inl (BusySubtree i)
               else case n_actor n of
                 None \<Rightarrow> Inl (NonLiveAgent i)
               | Some r \<Rightarrow> (case prepare_idle (m_actors m r) of
                     Inl e \<Rightarrow> Inl (if is_closed e then NonLiveAgent i else BusySubtree i)
                   | Inr (a', owner) \<Rightarrow> Inr (on_actor r (\<lambda>_. a') m, owner)))"

section \<open>Shutdown\<close>

definition shutdown_ids :: "manager \<Rightarrow> agent_id list" where
  "shutdown_ids m = map fst (filter (\<lambda>(_, n). consumes_capacity (n_lifecycle n) \<or> n_pending n
     \<or> (n_task n \<noteq> None \<and> \<not> task_finished m n)) (g_nodes (m_graph m)))"

definition shutdown_actors :: "agent_id list \<Rightarrow> manager \<Rightarrow> manager \<times> close_cuts" where
  "shutdown_actors ids m = fold (\<lambda>i (m, cuts). case Option.bind (get_node m i) n_actor of
     None \<Rightarrow> (m, cuts) | Some r \<Rightarrow> (case capture_actor True r m of (m', ks) \<Rightarrow> (m', cuts @ ks))) ids (m, [])"

definition mark_closing :: "agent_id \<Rightarrow> graph_state \<Rightarrow> graph_state" where
  "mark_closing i g = modify_node i (\<lambda>n. if consumes_capacity (n_lifecycle n) then n\<lparr>n_lifecycle := Closing\<rparr> else n) g"

definition drop_tombstone_tasks :: "manager \<Rightarrow> manager" where
  "drop_tombstone_tasks m = on_graph (\<lambda>g. g\<lparr>g_nodes := map (\<lambda>(i, n).
     (i, if \<not> consumes_capacity (n_lifecycle n) \<and> \<not> n_pending n \<and> task_finished m n then n\<lparr>n_task := None\<rparr> else n)) (g_nodes g)\<rparr>) m"

text \<open>The first section of \<open>shutdown\<close>, with the settling of the captured actors.\<close>

definition manager_shutdown :: "manager \<Rightarrow> manager \<times> agent_id list" where
  "manager_shutdown m =
     (let ids = shutdown_ids m
      in case shutdown_actors ids m of (m1, cuts) \<Rightarrow>
           let m2 = on_graph (\<lambda>g. fold mark_closing ids (g\<lparr>g_shutting_down := True\<rparr>)) m1
           in (settle_cuts cuts (drop_tombstone_tasks m2), ids))"

text \<open>One round of the waiting loop: the nodes that are done become closed and are reclaimed.\<close>

definition node_done :: "manager \<Rightarrow> agent_id \<Rightarrow> bool" where
  "node_done m i = (case get_node m i of None \<Rightarrow> True
     | Some n \<Rightarrow> \<not> n_pending n \<and> (n_task n = None \<or> task_finished m n))"

definition finished_nodes :: "agent_id list \<Rightarrow> manager \<Rightarrow> agent_id list \<times> manager" where
  "finished_nodes ids m =
     (let done = filter (node_done m) ids
      in (done, reclaim_finished_closings
           (on_graph (\<lambda>g. fold (\<lambda>i. modify_node i (\<lambda>n. n\<lparr>n_lifecycle := GraphClosed\<rparr>)) done g) m)))"

definition take_finished_tasks :: "agent_id list \<Rightarrow> manager \<Rightarrow> manager" where
  "take_finished_tasks ids m = on_graph (\<lambda>g. fold (\<lambda>i. modify_node i (\<lambda>n. n\<lparr>n_task := None\<rparr>)) ids g) m"

section \<open>Managed turns\<close>

text \<open>\<open>enter_managed_turn\<close> after the permit was acquired: the turn gets authority if its node is live and
  its actor is running it. The boolean tells whether it was registered.\<close>

definition register_managed_turn :: "agent_id \<Rightarrow> turn_id \<Rightarrow> u64 \<Rightarrow> manager \<Rightarrow> cancel_reason + manager \<times> bool" where
  "register_managed_turn i t nonce m =
     (if g_shutting_down (m_graph m) then Inl Shutdown_reason
      else case get_node m i of
        None \<Rightarrow> Inl Closed_reason
      | Some n \<Rightarrow>
          if n_lifecycle n \<noteq> Live then Inl Closed_reason
          else case n_actor n of
            None \<Rightarrow> Inl Closed_reason
          | Some r \<Rightarrow>
              let s = state (m_actors m r)
              in if lifecycle s \<noteq> Open then Inl (if lifecycle s = Shutdown then Shutdown_reason else Closed_reason)
                 else if status s = Running t \<and> active s \<noteq> None
                 then Inr (on_graph (\<lambda>g. g\<lparr>g_active := hm_insert (i, t) nonce (g_active g)\<rparr>) m, True)
                 else Inr (m, False))"

text \<open>Dropping the guard of a managed turn, and its cancellation: the authority goes if it is still the
  one that was registered.\<close>

definition release_managed_turn :: "agent_id \<Rightarrow> turn_id \<Rightarrow> u64 \<Rightarrow> manager \<Rightarrow> manager" where
  "release_managed_turn i t nonce m =
     (if hm_get (g_active (m_graph m)) (i, t) = Some nonce then on_graph (revoke_turn i t) m else m)"

section \<open>Interleavings\<close>

text \<open>A creation that is under way: reserved with its factory running, spawned, waiting to abort, or
  cancelled and waiting to be published.\<close>

datatype creation_phase = Building | Spawned actor_ref | Aborting actor_ref bool | Cancelling actor_ref | Publishing actor_ref

type_synonym creation = "agent_id \<times> u64 \<times> creation_phase"

definition fresh_agent :: "agent_id \<Rightarrow> manager \<Rightarrow> bool" where
  "fresh_agent i m \<longleftrightarrow> \<not> hm_contains (g_nodes (m_graph m)) i \<and> \<not> hm_contains (m_terminals m) i"

fun creation_after :: "agent_id \<Rightarrow> u64 \<Rightarrow> actor_ref \<Rightarrow> commit_phase \<Rightarrow> creation list" where
  "creation_after i res r Committed = []"
| "creation_after i res r (CommitRefused _) = []"
| "creation_after i res r (CommitAborting sd) = [(i, res, Aborting r sd)]"
| "creation_after i res r CommitCancelling = [(i, res, Cancelling r)]"

inductive creation_step :: "manager \<times> creation list \<Rightarrow> manager \<times> creation list \<Rightarrow> bool" where
  create_root: "fresh_agent i m \<Longrightarrow> reserve_root i m = Inr (m', res) \<Longrightarrow> creation_step (m, cs) (m', (i, res, Building) # cs)"
| create_child: "fresh_agent i m \<Longrightarrow> spawn_child_with_config k cfg meta i m = (m', Inr res) \<Longrightarrow>
    creation_step (m, cs) (m', (i, res, Building) # cs)"
| create_trusted: "fresh_agent i m \<Longrightarrow> spawn_child_trusted_with_config r cfg meta i m = (m', Inr res) \<Longrightarrow>
    creation_step (m, cs) (m', (i, res, Building) # cs)"
| create_refused: "spawn_child_with_config k cfg meta i m = (m', Inl e) \<Longrightarrow> creation_step (m, cs) (m', cs)"
| create_trusted_refused: "spawn_child_trusted_with_config r cfg meta i m = (m', Inl e) \<Longrightarrow> creation_step (m, cs) (m', cs)"
| factory_failed: "(i, res, Building) \<in> set cs \<Longrightarrow>
    creation_step (m, cs) (on_graph (rollback_reservation i res) m, remove1 (i, res, Building) cs)"
| factory_done: "(i, res, Building) \<in> set cs \<Longrightarrow> commit_spawn i cfg prep len m = (m', r) \<Longrightarrow>
    creation_step (m, cs) (m', (i, res, Spawned r) # remove1 (i, res, Building) cs)"
| install: "(i, res, Spawned r) \<in> set cs \<Longrightarrow> commit_install i res r m = (m', ph) \<Longrightarrow>
    creation_step (m, cs) (m', creation_after i res r ph @ remove1 (i, res, Spawned r) cs)"
| abort: "(i, res, Aborting r sd) \<in> set cs \<Longrightarrow>
    creation_step (m, cs) (fst (commit_abort i res r sd m), remove1 (i, res, Aborting r sd) cs)"
| cancel_first: "(i, res, Cancelling r) \<in> set cs \<Longrightarrow>
    creation_step (m, cs) (on_actor r cancel_existing m, (i, res, Publishing r) # remove1 (i, res, Cancelling r) cs)"
| publish: "(i, res, Publishing r) \<in> set cs \<Longrightarrow> commit_publish i res m = (m', ph) \<Longrightarrow>
    creation_step (m, cs) (m', creation_after i res r ph @ remove1 (i, res, Publishing r) cs)"

inductive manager_step :: "manager \<Rightarrow> manager \<Rightarrow> bool" where
  actor_moves: "r < m_next_ref m \<Longrightarrow> actor_step (m_actors m r, m_runners m r) (a, pc) \<Longrightarrow>
    manager_step m (m\<lparr>m_actors := (m_actors m)(r := a), m_runners := (m_runners m)(r := pc)\<rparr>)"
| await_done: "m_runners m r = Exited \<Longrightarrow> (\<forall>n. get_node m i = Some n \<and> n_reservation n = res \<longrightarrow> n_actor n = Some r) \<Longrightarrow>
    manager_step m (runner_done i res m)"
| await_finished: "m_runners m r = Exited \<Longrightarrow> manager_step m (m\<lparr>m_finished := (m_finished m)(r := True)\<rparr>)"
| query_finished: "manager_step m (snd (runner_finished i m))"
| do_cancel_agent: "cancel_agent i m = Inr m' \<Longrightarrow> manager_step m m'"
| do_cancel_subtree: "cancel_subtree i m = Inr m' \<Longrightarrow> manager_step m m'"
| do_close_subtree: "close_subtree i m = Inr m' \<Longrightarrow> manager_step m m'"
| do_close_descendants: "close_descendants i m = Inr m' \<Longrightarrow> manager_step m m'"
| do_cancel_turn: "manager_step m (fst (manager_cancel_turn i t reason m))"
| do_cancel_correlation: "manager_step m (fst (manager_cancel_correlation i c reason m))"
| do_local_cancel: "manager_step m (fst (local_cancel i displayed m))"
| do_prepare_idle: "prepare_idle_subtree i m = Inr (m', owner) \<Longrightarrow> manager_step m m'"
| do_register: "register_managed_turn i t nonce m = Inr (m', ok) \<Longrightarrow> manager_step m m'"
| do_release: "manager_step m (release_managed_turn i t nonce m)"
| do_shutdown: "manager_step m (fst (manager_shutdown m))"
| do_finished: "g_shutting_down (m_graph m) \<Longrightarrow> manager_step m (snd (finished_nodes ids m))"
| do_take_tasks: "g_shutting_down (m_graph m) \<Longrightarrow> manager_step m (take_finished_tasks ids m)"

inductive system :: "manager \<times> creation list \<Rightarrow> bool" where
  system_new: "new_manager ident l = Inr m \<Longrightarrow> system (m, [])"
| system_create: "system s \<Longrightarrow> creation_step s s' \<Longrightarrow> system s'"
| system_step: "system (m, cs) \<Longrightarrow> manager_step m m' \<Longrightarrow> system (m', cs)"

inductive_cases manager_stepE: "manager_step m m'"

end
