(* ===== verification/Agent_Forest.thy ===== *)
theory Agent_Forest
  imports Prelude
begin

text \<open>
  Forests given by parent pointers, child lists and depths, as an interface. The laws of the locale say
  that the two directions agree and that depths grow by one and are bounded; the lemmas derive that a
  depth-first walk visits each descendant exactly once, and that walking up the parents ends. The graph
  of agents interprets it in \<open>Agent_Tree\<close>.
\<close>

section \<open>Descendants and the walk\<close>

inductive descends :: "('a \<Rightarrow> 'a option) \<Rightarrow> 'a \<Rightarrow> 'a \<Rightarrow> bool" for up where
  descends_refl: "descends up i i"
| descends_up: "up j = Some p \<Longrightarrow> descends up i p \<Longrightarrow> descends up i j"

inductive_cases descendsE: "descends up i j"

lemma descends_trans: "descends up j k \<Longrightarrow> descends up i j \<Longrightarrow> descends up i k"
  by (induction rule: descends.induct) (auto intro: descends.intros)

lemma descends_child: "up j = Some i \<Longrightarrow> descends up i j"
  by (auto intro: descends.intros)

lemma descends_first: "descends up i j \<Longrightarrow> i \<noteq> j \<Longrightarrow> \<exists>c. up c = Some i \<and> descends up c j"
proof (induction rule: descends.induct)
  case (descends_up j p)
  then show ?case by (cases "i = p") (auto intro: descends.intros)
qed simp

fun preorder :: "('a \<Rightarrow> 'a list) \<Rightarrow> nat \<Rightarrow> 'a \<Rightarrow> 'a list" where
  "preorder down 0 i = [i]"
| "preorder down (Suc k) i = i # concat (map (preorder down k) (down i))"

lemma hd_preorder [simp]: "hd (preorder down k i) = i"
  by (cases k) simp_all

lemma preorder_nonempty [simp]: "preorder down k i \<noteq> []"
  by (cases k) simp_all

lemma preorder_hd_tl: "preorder down k i = i # tl (preorder down k i)"
  by (cases k) simp_all

section \<open>The interface of a forest\<close>

locale forest =
  fixes invar :: "'g \<Rightarrow> bool"
    and up :: "'g \<Rightarrow> 'a \<Rightarrow> 'a option"
    and down :: "'g \<Rightarrow> 'a \<Rightarrow> 'a list"
    and level :: "'g \<Rightarrow> 'a \<Rightarrow> nat"
    and bound :: "'g \<Rightarrow> nat"
  assumes down_up: "invar g \<Longrightarrow> c \<in> set (down g p) \<longleftrightarrow> up g c = Some p"
    and down_distinct: "invar g \<Longrightarrow> distinct (down g p)"
    and level_up: "invar g \<Longrightarrow> up g c = Some p \<Longrightarrow> level g c = Suc (level g p)"
    and level_bound: "invar g \<Longrightarrow> level g c \<le> bound g"
begin

lemma descends_level: "descends (up g) i j \<Longrightarrow> invar g \<Longrightarrow> i = j \<or> level g i < level g j"
  by (induction rule: descends.induct) (auto simp: level_up)

lemma descends_antisym: "invar g \<Longrightarrow> descends (up g) i j \<Longrightarrow> descends (up g) j i \<Longrightarrow> i = j"
  using descends_level [of g i j] descends_level [of g j i] by fastforce

lemma descends_via_child: "invar g \<Longrightarrow> descends (up g) i j \<longleftrightarrow> i = j \<or> (\<exists>c \<in> set (down g i). descends (up g) c j)"
  unfolding Bex_def using descends_first [of "up g" i j]
  by (auto simp: down_up intro: descends_refl descends_trans [OF _ descends_child])

text \<open>Two siblings have no common descendant.\<close>

lemma descends_linear:
  "descends (up g) c j \<Longrightarrow> invar g \<Longrightarrow> descends (up g) d j \<Longrightarrow> descends (up g) c d \<or> descends (up g) d c"
proof (induction rule: descends.induct)
  case (descends_up j p)
  then show ?case by (auto elim: descendsE [of "up g" d] intro: descends.intros)
qed auto

lemma siblings_disjoint:
  assumes "invar g" "up g c = Some p" "up g d = Some p" "descends (up g) c j" "descends (up g) d j"
  shows "c = d"
proof -
  from descends_linear [OF assms(4,1,5)] have "descends (up g) c d \<or> descends (up g) d c" .
  moreover have "level g c = level g d" using assms by (simp add: level_up)
  ultimately show ?thesis using descends_level [of g c d] descends_level [of g d c] assms(1) by fastforce
qed

lemma preorder_descends: "invar g \<Longrightarrow> j \<in> set (preorder (down g) k i) \<Longrightarrow> descends (up g) i j"
proof (induction k arbitrary: i)
  case (Suc k)
  then show ?case by (auto simp: descends_via_child [of g i j])
qed (auto intro: descends_refl)

lemma preorder_complete:
  "descends (up g) i j \<Longrightarrow> invar g \<Longrightarrow> bound g \<le> level g i + k \<Longrightarrow> j \<in> set (preorder (down g) k i)"
proof (induction k arbitrary: i)
  case 0
  then show ?case using descends_level [of g i j] level_bound [of g j] by auto
next
  case (Suc k)
  show ?case
  proof (cases "i = j")
    case False
    with Suc.prems obtain c where c: "c \<in> set (down g i)" "descends (up g) c j"
      by (auto simp: descends_via_child [of g i j])
    then have "level g c = Suc (level g i)" using Suc.prems by (simp add: down_up level_up)
    with Suc c have "j \<in> set (preorder (down g) k c)" by simp
    with c show ?thesis by auto
  qed simp
qed

lemma preorder_distinct: "invar g \<Longrightarrow> distinct (preorder (down g) k i)"
proof (induction k arbitrary: i)
  case (Suc k)
  have "distinct (concat (map (preorder (down g) k) (down g i)))"
  proof (rule distinct_concat)
    have "inj_on (preorder (down g) k) (set (down g i))" by (rule inj_onI) (metis hd_preorder)
    then show "distinct (map (preorder (down g) k) (down g i))"
      using Suc.prems by (simp add: distinct_map down_distinct)
  next
    fix xs assume "xs \<in> set (map (preorder (down g) k) (down g i))"
    then show "distinct xs" using Suc by auto
  next
    fix xs ys
    assume xy: "xs \<in> set (map (preorder (down g) k) (down g i))" "ys \<in> set (map (preorder (down g) k) (down g i))" "xs \<noteq> ys"
    then obtain c d where cd: "xs = preorder (down g) k c" "ys = preorder (down g) k d" "up g c = Some i" "up g d = Some i"
      using Suc.prems by (auto simp: down_up)
    show "set xs \<inter> set ys = {}"
    proof (rule ccontr)
      assume "set xs \<inter> set ys \<noteq> {}"
      then obtain j where "descends (up g) c j" "descends (up g) d j"
        using cd Suc.prems preorder_descends by blast
      with siblings_disjoint [OF Suc.prems cd(3,4)] xy(3) cd show False by blast
    qed
  qed
  moreover have "i \<notin> set (concat (map (preorder (down g) k) (down g i)))"
  proof
    assume "i \<in> set (concat (map (preorder (down g) k) (down g i)))"
    then obtain c where "up g c = Some i" "descends (up g) c i"
      using Suc.prems preorder_descends by (auto simp: down_up)
    with descends_level [of g c i] level_up [OF Suc.prems, of c i] Suc.prems show False by auto
  qed
  ultimately show ?case by simp
qed simp

text \<open>Past the bound more fuel changes nothing, which unfolds the walk at one node.\<close>

lemma preorder_more:
  "invar g \<Longrightarrow> bound g \<le> level g i + k \<Longrightarrow> preorder (down g) (Suc k) i = preorder (down g) k i"
proof (induction k arbitrary: i)
  case 0
  have "down g i = []"
  proof (rule ccontr)
    assume "down g i \<noteq> []"
    then obtain c where "c \<in> set (down g i)" by (cases "down g i") auto
    with 0 level_bound [of g c] show False by (simp add: down_up level_up)
  qed
  then show ?case by simp
next
  case (Suc k)
  have "preorder (down g) (Suc k) c = preorder (down g) k c" if "c \<in> set (down g i)" for c
    using Suc that by (simp add: down_up level_up)
  then have "map (preorder (down g) (Suc k)) (down g i) = map (preorder (down g) k) (down g i)" by simp
  then show ?case by (simp only: preorder.simps)
qed

lemma preorder_unfold:
  "invar g \<Longrightarrow> preorder (down g) (bound g) i = i # concat (map (preorder (down g) (bound g)) (down g i))"
  using preorder_more [of g i "bound g"] by simp

lemma set_preorder: "invar g \<Longrightarrow> set (preorder (down g) (bound g) i) = {j. descends (up g) i j}"
  using preorder_descends [of g _ "bound g" i] preorder_complete [of g i _ "bound g"] by auto

end

end
