(* ===== verification/Agent_Tree.thy ===== *)
theory Agent_Tree
  imports Agent_Graph Agent_Forest
begin

text \<open>
  The invariant of the graph of agents: it is a forest with one root, within the limits the manager was
  made with. Every section under the graph lock keeps it (\<open>reachable_graph_ok\<close>), so the graph
  interprets \<open>forest\<close>, and the loops of \<open>subtree_ids\<close> and \<open>validate_descendant\<close> end with the
  descendants and the ancestors.
\<close>

section \<open>The invariant\<close>

definition parent_of :: "graph_state \<Rightarrow> agent_id \<Rightarrow> agent_id option" where
  "parent_of g i = Option.bind (hm_get (g_nodes g) i) n_parent"

definition children_of :: "graph_state \<Rightarrow> agent_id \<Rightarrow> agent_id list" where
  "children_of g i = (case hm_get (g_nodes g) i of None \<Rightarrow> [] | Some n \<Rightarrow> n_children n)"

definition depth_of :: "graph_state \<Rightarrow> agent_id \<Rightarrow> nat" where
  "depth_of g i = (case hm_get (g_nodes g) i of None \<Rightarrow> 0 | Some n \<Rightarrow> n_depth n)"

definition link_ok :: "graph_state \<Rightarrow> agent_id \<Rightarrow> node \<Rightarrow> bool" where
  "link_ok g i n \<longleftrightarrow> distinct (n_children n)
     \<and> (\<forall>c \<in> set (n_children n). parent_of g c = Some i)
     \<and> (case n_parent n of
          None \<Rightarrow> g_root g = Some i \<and> n_depth n = 0 \<and> n_root n = i
        | Some p \<Rightarrow> (\<exists>pn. hm_get (g_nodes g) p = Some pn \<and> i \<in> set (n_children pn) \<and> n_depth n = Suc (n_depth pn)
            \<and> n_root n = n_root pn))"

definition within_limits :: "agent_limits \<Rightarrow> node \<Rightarrow> bool" where
  "within_limits L n \<longleftrightarrow> n_depth n \<le> max_agent_depth L \<and> length (n_children n) \<le> max_children_per_agent L"

definition stage_ok :: "node \<Rightarrow> bool" where
  "stage_ok n \<longleftrightarrow> (n_pending n \<longrightarrow> n_children n = []) \<and> (n_lifecycle n = Live \<longrightarrow> n_actor n \<noteq> None \<and> \<not> n_pending n)
     \<and> n_lifecycle n \<noteq> Removed"

definition registered :: "graph_state \<Rightarrow> agent_id \<Rightarrow> bool" where
  "registered g i = (case hm_get (g_nodes g) i of None \<Rightarrow> False | Some n \<Rightarrow> \<not> n_pending n)"

definition graph_ok :: "agent_limits \<Rightarrow> graph_state \<Rightarrow> bool" where
  "graph_ok L g \<longleftrightarrow> hm_wf (g_nodes g) \<and> length (g_nodes g) \<le> max_live_agents L
     \<and> (\<forall>i n. hm_get (g_nodes g) i = Some n \<longrightarrow> link_ok g i n \<and> within_limits L n \<and> stage_ok n)
     \<and> (g_root g = None \<longrightarrow> g_nodes g = [])
     \<and> (\<forall>k \<in> set (g_active g). registered g (fst (fst k)))"

definition limits_positive :: "agent_limits \<Rightarrow> bool" where
  "limits_positive L \<longleftrightarrow> max_concurrent_agent_turns L > 0 \<and> max_agent_depth L > 0 \<and> max_children_per_agent L > 0
     \<and> max_live_agents L > 0"

definition manager_ok :: "manager \<Rightarrow> bool" where
  "manager_ok m \<longleftrightarrow> limits_positive (m_limits m) \<and> graph_ok (m_limits m) (m_graph m)"

lemma graph_okD:
  assumes "graph_ok L g"
  shows "hm_wf (g_nodes g)" "length (g_nodes g) \<le> max_live_agents L" "g_root g = None \<Longrightarrow> g_nodes g = []"
    "hm_get (g_nodes g) i = Some n \<Longrightarrow> link_ok g i n" "hm_get (g_nodes g) i = Some n \<Longrightarrow> within_limits L n"
    "hm_get (g_nodes g) i = Some n \<Longrightarrow> stage_ok n" "k \<in> set (g_active g) \<Longrightarrow> registered g (fst (fst k))"
  using assms by (auto simp: graph_ok_def)

lemma link_parent: "graph_ok L g \<Longrightarrow> hm_get (g_nodes g) i = Some n \<Longrightarrow> n_parent n = Some p \<Longrightarrow>
    \<exists>pn. hm_get (g_nodes g) p = Some pn \<and> i \<in> set (n_children pn) \<and> n_depth n = Suc (n_depth pn) \<and> n_root n = n_root pn"
  using graph_okD(4) [of L g i n] by (auto simp: link_ok_def)

lemma link_child: "graph_ok L g \<Longrightarrow> hm_get (g_nodes g) i = Some n \<Longrightarrow> c \<in> set (n_children n) \<Longrightarrow> parent_of g c = Some i"
  using graph_okD(4) [of L g i n] by (auto simp: link_ok_def)

section \<open>The graph is a forest\<close>

lemma children_iff_parent: "graph_ok L g \<Longrightarrow> c \<in> set (children_of g p) \<longleftrightarrow> parent_of g c = Some p"
  using link_child [of L g p _ c] link_parent [of L g c _ p]
  by (cases "hm_get (g_nodes g) p") (auto simp: children_of_def parent_of_def bind_eq_Some_conv)

lemma children_distinct: "graph_ok L g \<Longrightarrow> distinct (children_of g p)"
  using graph_okD(4) [of L g p] by (auto simp: children_of_def link_ok_def split: option.split)

lemma depth_bounded: "graph_ok L g \<Longrightarrow> depth_of g c \<le> max_agent_depth L"
  using graph_okD(5) [of L g c] by (auto simp: depth_of_def within_limits_def split: option.split)

lemma depth_parent: "graph_ok L g \<Longrightarrow> parent_of g c = Some p \<Longrightarrow> depth_of g c = Suc (depth_of g p)"
  using link_parent [of L g c _ p] by (auto simp: depth_of_def parent_of_def bind_eq_Some_conv)

interpretation agent_forest: forest "\<lambda>(L, g). graph_ok L g" "\<lambda>(L, g). parent_of g" "\<lambda>(L, g). children_of g" "\<lambda>(L, g). depth_of g"
  "\<lambda>(L, g). max_agent_depth L"
  by unfold_locales (auto simp: children_iff_parent children_distinct depth_parent depth_bounded)

abbreviation below :: "graph_state \<Rightarrow> agent_id \<Rightarrow> agent_id \<Rightarrow> bool" where
  "below g \<equiv> descends (parent_of g)"

abbreviation walk :: "agent_limits \<Rightarrow> graph_state \<Rightarrow> agent_id \<Rightarrow> agent_id list" where
  "walk L g \<equiv> preorder (children_of g) (max_agent_depth L)"

lemmas walk_unfold = agent_forest.preorder_unfold [where g = "(L, g)" for L g, simplified]
lemmas set_walk = agent_forest.set_preorder [where g = "(L, g)" for L g, simplified]
lemmas walk_distinct = agent_forest.preorder_distinct [where g = "(L, g)" for L g, simplified]
lemmas below_depth = agent_forest.descends_level [where g = "(L, g)" for L g, simplified]
lemmas below_antisym = agent_forest.descends_antisym [where g = "(L, g)" for L g, simplified]
lemmas child_parent = agent_forest.down_up [where g = "(L, g)" for L g, simplified]
lemmas parent_depth = agent_forest.level_up [where g = "(L, g)" for L g, simplified]

lemma subtree_loop_walk:
  assumes "graph_ok L g"
  shows "subtree_loop g todo result = Some (result @ concat (map (walk L g) todo))"
proof (induction "length (concat (map (walk L g) todo))" arbitrary: todo result rule: less_induct)
  case less
  show ?case
  proof (cases todo)
    case Nil
    then show ?thesis by (simp add: subtree_loop.simps)
  next
    case (Cons i rest)
    have step: "subtree_loop g todo result = subtree_loop g (children_of g i @ rest) (result @ [i])"
      by (subst subtree_loop.simps) (simp add: Cons children_of_def)
    have "length (concat (map (walk L g) (children_of g i @ rest))) < length (concat (map (walk L g) todo))"
      using walk_unfold [OF assms, of i] by (simp add: Cons)
    from less [OF this] show ?thesis unfolding step using walk_unfold [OF assms, of i] by (simp add: Cons)
  qed
qed

lemma subtree_ids_walk: "graph_ok L g \<Longrightarrow> subtree_ids g i = walk L g i"
  by (simp add: subtree_ids_def subtree_loop_walk)

lemma set_subtree_ids: "graph_ok L g \<Longrightarrow> set (subtree_ids g i) = {j. below g i j}"
  by (simp add: subtree_ids_walk set_walk)

lemma distinct_subtree_ids: "graph_ok L g \<Longrightarrow> distinct (subtree_ids g i)"
  by (simp add: subtree_ids_walk walk_distinct)

lemma subtree_ids_Cons: "graph_ok L g \<Longrightarrow> subtree_ids g i = i # tl (subtree_ids g i)"
  by (simp add: subtree_ids_walk preorder_hd_tl [symmetric])

lemma set_tl_subtree_ids: "graph_ok L g \<Longrightarrow> set (tl (subtree_ids g i)) = {j. below g i j \<and> j \<noteq> i}"
proof -
  assume ok: "graph_ok L g"
  obtain xs where xs: "subtree_ids g i = i # xs" using subtree_ids_Cons [OF ok, of i] by blast
  have "insert i (set xs) = {j. below g i j}" "i \<notin> set xs"
    using set_subtree_ids [OF ok, of i] distinct_subtree_ids [OF ok, of i] by (simp_all add: xs)
  then show ?thesis by (auto simp: xs)
qed

text \<open>Every node of the graph hangs below its root.\<close>

lemma rooted:
  assumes ok: "graph_ok L g"
  shows "hm_get (g_nodes g) j = Some n \<Longrightarrow> \<exists>r. g_root g = Some r \<and> hm_contains (g_nodes g) r \<and> below g r j \<and> n_root n = r"
proof (induction "n_depth n" arbitrary: j n rule: less_induct)
  case less
  show ?case
  proof (cases "n_parent n")
    case None
    with graph_okD(4) [OF ok less.prems] less.prems show ?thesis
      by (auto simp: link_ok_def hm_contains_def intro: descends_refl)
  next
    case (Some p)
    from link_parent [OF ok less.prems Some] obtain pn where
      pn: "hm_get (g_nodes g) p = Some pn" "n_depth n = Suc (n_depth pn)" "n_root n = n_root pn" by blast
    with less.hyps [of pn p] obtain r where "g_root g = Some r" "hm_contains (g_nodes g) r" "below g r p" "n_root pn = r" by auto
    moreover have "parent_of g j = Some p" using less.prems Some by (simp add: parent_of_def)
    ultimately show ?thesis using pn(3) by (auto intro: descends_up)
  qed
qed

section \<open>Changes that keep the shape\<close>

definition same_shape :: "node \<Rightarrow> node \<Rightarrow> bool" where
  "same_shape n n' \<longleftrightarrow> n_parent n' = n_parent n \<and> n_root n' = n_root n \<and> n_depth n' = n_depth n \<and> n_children n' = n_children n
     \<and> n_reservation n' = n_reservation n"

definition benign :: "(node \<Rightarrow> node) \<Rightarrow> node \<Rightarrow> bool" where
  "benign f n \<longleftrightarrow> same_shape n (f n) \<and> stage_ok (f n) \<and> (n_pending (f n) \<longrightarrow> n_pending n)"

lemma graph_ok_map_nodes:
  assumes ok: "graph_ok L g"
    and keys: "map fst ns = map fst (g_nodes g)"
    and node: "\<And>i n'. hm_get ns i = Some n' \<Longrightarrow> \<exists>n. hm_get (g_nodes g) i = Some n \<and> same_shape n n' \<and> stage_ok n' \<and> (n_pending n' \<longrightarrow> n_pending n)"
  shows "graph_ok L (g\<lparr>g_nodes := ns\<rparr>)"
proof -
  let ?g = "g\<lparr>g_nodes := ns\<rparr>"
  have dom: "hm_get ns i = None \<longleftrightarrow> hm_get (g_nodes g) i = None" for i
    using keys by (metis list.set_map map_of_eq_None_iff)
  have up: "hm_get (g_nodes g) i = Some n \<Longrightarrow> \<exists>n'. hm_get ns i = Some n' \<and> same_shape n n' \<and> (n_pending n' \<longrightarrow> n_pending n)" for i n
    using dom [of i] node [of i] by (cases "hm_get ns i") auto
  have parent: "parent_of ?g c = parent_of g c" for c
    using node [of c] dom [of c] by (cases "hm_get ns c") (auto simp: parent_of_def same_shape_def)
  have "link_ok ?g i n'" if get: "hm_get ns i = Some n'" for i n'
  proof -
    obtain n where n: "hm_get (g_nodes g) i = Some n" "same_shape n n'" using node [OF get] by blast
    show ?thesis
    proof (cases "n_parent n")
      case None
      with graph_okD(4) [OF ok n(1)] n(2) show ?thesis by (auto simp: link_ok_def parent same_shape_def)
    next
      case (Some p)
      from link_parent [OF ok n(1) Some] obtain pn where pn: "hm_get (g_nodes g) p = Some pn" "i \<in> set (n_children pn)"
        "n_depth n = Suc (n_depth pn)" "n_root n = n_root pn" by blast
      from up [OF pn(1)] obtain pn' where "hm_get ns p = Some pn'" "same_shape pn pn'" by blast
      with pn graph_okD(4) [OF ok n(1)] n(2) Some show ?thesis by (auto simp: link_ok_def parent same_shape_def)
    qed
  qed
  moreover have "within_limits L n' \<and> stage_ok n'" if "hm_get ns i = Some n'" for i n'
    using node [OF that] graph_okD(5) [OF ok, of i] by (auto simp: within_limits_def same_shape_def)
  moreover have "registered ?g i" if "registered g i" for i
    using that up [of i] by (auto simp: registered_def split: option.splits)
  moreover have "length ns = length (g_nodes g)" using keys by (metis length_map)
  ultimately show ?thesis using ok keys by (auto simp: graph_ok_def)
qed

lemma graph_ok_modify:
  assumes ok: "graph_ok L g" and f: "\<And>n. hm_get (g_nodes g) i = Some n \<Longrightarrow> stage_ok n \<Longrightarrow> benign f n"
  shows "graph_ok L (modify_node i f g)"
  unfolding modify_node_def
proof (rule graph_ok_map_nodes [OF ok])
  fix j n'
  assume "hm_get (hm_modify i f (g_nodes g)) j = Some n'"
  then show "\<exists>n. hm_get (g_nodes g) j = Some n \<and> same_shape n n' \<and> stage_ok n' \<and> (n_pending n' \<longrightarrow> n_pending n)"
    using f graph_okD(6) [OF ok, of j] by (auto simp: hm_simps benign_def same_shape_def split: if_splits)
qed simp

lemma graph_ok_fold_modify:
  assumes "graph_ok L g" "\<And>n. stage_ok n \<Longrightarrow> benign f n"
  shows "graph_ok L (fold (\<lambda>i. modify_node i f) is g)"
  using assms(1) by (induction "is" arbitrary: g) (auto intro: graph_ok_modify assms(2))

text \<open>The invariant reads the nodes and the root, and that the turns with authority belong to nodes.\<close>

lemma link_ok_cong: "g_nodes g' = g_nodes g \<Longrightarrow> g_root g' = g_root g \<Longrightarrow> link_ok g' = link_ok g"
  by (simp add: fun_eq_iff link_ok_def parent_of_def cong: option.case_cong)

lemma graph_ok_active:
  assumes "graph_ok L g" "g_nodes g' = g_nodes g" "g_root g' = g_root g"
    "\<And>k. k \<in> set (g_active g') \<Longrightarrow> k \<in> set (g_active g) \<or> registered g (fst (fst k))"
  shows "graph_ok L g'"
proof -
  have "registered g' = registered g" by (simp add: fun_eq_iff registered_def assms)
  moreover have "registered g (fst (fst k))" if "k \<in> set (g_active g')" for k
    using assms(4) [OF that] graph_okD(7) [OF assms(1), of k] by blast
  ultimately show ?thesis using assms(1) unfolding graph_ok_def link_ok_cong [OF assms(2,3)] assms(2,3) by simp
qed

lemma graph_ok_frame: "graph_ok L g \<Longrightarrow> g_nodes g' = g_nodes g \<Longrightarrow> g_root g' = g_root g \<Longrightarrow> g_active g' = g_active g \<Longrightarrow> graph_ok L g'"
  by (rule graph_ok_active) auto

lemma graph_ok_fields [simp]:
  "graph_ok L (bump g) = graph_ok L g" "graph_ok L (g\<lparr>g_next_reservation := x\<rparr>) = graph_ok L g"
  "graph_ok L (g\<lparr>g_shutting_down := b\<rparr>) = graph_ok L g"
  by (auto intro: graph_ok_frame simp: bump_def)

lemma set_hm_remove_subset: "set (AList.delete k xs) \<subseteq> set xs"
  by (induction xs) auto

lemma graph_ok_revoke: "graph_ok L g \<Longrightarrow> graph_ok L (revoke_turn i t g)"
  using set_hm_remove_subset [of "(i, t)" "g_active g"] by (rule_tac graph_ok_active) (auto simp: revoke_turn_def)

section \<open>Removing a leaf\<close>

definition without :: "agent_id \<Rightarrow> node \<Rightarrow> node" where
  "without i c = c\<lparr>n_children := filter (\<lambda>j. j \<noteq> i) (n_children c)\<rparr>"

lemma without_simps [simp]:
  "n_parent (without i c) = n_parent c" "n_depth (without i c) = n_depth c" "n_root (without i c) = n_root c"
  "n_pending (without i c) = n_pending c" "n_lifecycle (without i c) = n_lifecycle c" "n_actor (without i c) = n_actor c"
  "n_children (without i c) = filter (\<lambda>j. j \<noteq> i) (n_children c)" "n_reservation (without i c) = n_reservation c"
  "n_task (without i c) = n_task c" "n_owner (without i c) = n_owner c" "n_metadata (without i c) = n_metadata c"
  by (simp_all add: without_def)

lemma without_id: "i \<notin> set (n_children c) \<Longrightarrow> without i c = c"
proof -
  assume "i \<notin> set (n_children c)"
  then have "filter (\<lambda>j. j \<noteq> i) (n_children c) = n_children c" by (intro filter_True) auto
  then show ?thesis by (simp add: without_def)
qed

text \<open>The nodes after one left and its parent forgot it: no other node mentioned it.\<close>

lemma get_drop_child:
  assumes ok: "graph_ok L g" and n: "hm_get (g_nodes g) i = Some n"
  shows "hm_get (g_nodes (drop_child i (n_parent n) (g\<lparr>g_nodes := hm_remove i (g_nodes g)\<rparr>))) j
    = (if j = i then None else map_option (without i) (hm_get (g_nodes g) j))"
proof -
  have "without i c = c" if "hm_get (g_nodes g) j = Some c" "n_parent n \<noteq> Some j" for c
    using link_child [OF ok that(1), of i] n that(2) by (auto simp: parent_of_def intro: without_id)
  moreover have "(\<lambda>n. n\<lparr>n_children := filter (\<lambda>c. c \<noteq> i) (n_children n)\<rparr>) = without i" by (simp add: fun_eq_iff without_def)
  ultimately show ?thesis
    by (cases "hm_get (g_nodes g) j") (auto simp: drop_child_def modify_node_def hm_simps split: option.split)
qed

lemma link_ok_without:
  assumes ok: "graph_ok L g" and n: "hm_get (g_nodes g) i = Some n" "n_children n = []"
    and get: "\<And>j. hm_get (g_nodes g') j = (if j = i then None else map_option (without i) (hm_get (g_nodes g) j))"
    and root: "g_root g' = g_root g \<or> (g_root g = Some i \<and> g_root g' = None)"
    and c: "hm_get (g_nodes g) j = Some c" "j \<noteq> i"
  shows "link_ok g' j (without i c)"
proof -
  note link = graph_okD(4) [OF ok c(1)]
  have parent: "parent_of g' d = parent_of g d" if "d \<noteq> i" for d
    using that by (cases "hm_get (g_nodes g) d") (auto simp: parent_of_def get)
  show ?thesis
  proof (cases "n_parent c")
    case None
    with link c root show ?thesis by (auto simp: link_ok_def parent)
  next
    case (Some p)
    from link_parent [OF ok c(1) Some] obtain pn where pn: "hm_get (g_nodes g) p = Some pn" "j \<in> set (n_children pn)"
      "n_depth c = Suc (n_depth pn)" "n_root c = n_root pn" by blast
    then have "p \<noteq> i" using n by auto
    with link c pn Some show ?thesis by (auto simp: link_ok_def parent get)
  qed
qed

lemma root_leaf_alone:
  assumes ok: "graph_ok L g" and "hm_get (g_nodes g) i = Some n" "n_children n = []" "g_root g = Some i" "hm_get (g_nodes g) j = Some c"
  shows "j = i"
proof (rule ccontr)
  assume "j \<noteq> i"
  moreover have "below g i j" using rooted [OF ok assms(5)] assms(4) by auto
  ultimately obtain d where "parent_of g d = Some i" using descends_first [of "parent_of g" i j] by blast
  with children_iff_parent [OF ok, of d i] assms(2,3) show False by (simp add: children_of_def)
qed

lemma graph_ok_remove_leaf:
  assumes ok: "graph_ok L g" and n: "hm_get (g_nodes g) i = Some n" "n_children n = []"
    and g': "g_nodes g' = g_nodes (drop_child i (n_parent n) (g\<lparr>g_nodes := hm_remove i (g_nodes g)\<rparr>))"
    and root: "g_root g' = g_root g \<or> (g_root g = Some i \<and> g_root g' = None)"
    and active: "\<And>k. k \<in> set (g_active g') \<Longrightarrow> k \<in> set (g_active g) \<and> fst (fst k) \<noteq> i"
  shows "graph_ok L g'"
proof -
  have get: "hm_get (g_nodes g') j = (if j = i then None else map_option (without i) (hm_get (g_nodes g) j))" for j
    unfolding g' by (rule get_drop_child [OF ok n(1)])
  have old: "\<exists>c. hm_get (g_nodes g) j = Some c \<and> j \<noteq> i \<and> c' = without i c" if "hm_get (g_nodes g') j = Some c'" for j c'
    using that by (auto simp: get split: if_splits)
  have "link_ok g' j c'" if "hm_get (g_nodes g') j = Some c'" for j c'
    using old [OF that] link_ok_without [OF ok n get root] by blast
  moreover have "within_limits L c' \<and> stage_ok c'" if "hm_get (g_nodes g') j = Some c'" for j c'
    using old [OF that] graph_okD(5,6) [OF ok, of j]
    by (auto simp: within_limits_def stage_ok_def intro: le_trans [OF length_filter_le])
  moreover have "hm_wf (g_nodes g')" "length (g_nodes g') \<le> max_live_agents L"
    using graph_okD(1,2) [OF ok] length_delete_le [of i "g_nodes g"]
    by (auto simp: g' drop_child_def modify_node_def intro: distinct_delete split: option.split)
  moreover have "g_nodes g' = []" if "g_root g' = None"
  proof (rule ccontr)
    assume "g_nodes g' \<noteq> []"
    then obtain j c' where "hm_get (g_nodes g') j = Some c'"
      by (metis list.set_intros(1) neq_Nil_conv old.prod.exhaust weak_map_of_SomeI)
    from old [OF this] obtain c where c: "hm_get (g_nodes g) j = Some c" "j \<noteq> i" by blast
    then have "g_root g \<noteq> None" using graph_okD(3) [OF ok] by fastforce
    with c root_leaf_alone [OF ok n _ c(1)] root that show False by auto
  qed
  moreover have "registered g' (fst (fst k))" if "k \<in> set (g_active g')" for k
    using graph_okD(7) [OF ok, of k] active [OF that] by (auto simp: registered_def get split: option.splits)
  ultimately show ?thesis by (auto simp: graph_ok_def)
qed

section \<open>Adding a node\<close>

lemma graph_ok_root: "limits_positive L \<Longrightarrow> graph_ok L g \<Longrightarrow> g_root g = None \<Longrightarrow> n = new_node None i 0 meta res owner \<Longrightarrow>
    graph_ok L (insert_node i n (g\<lparr>g_root := Some i\<rparr>))"
  using graph_okD(3) [of L g] graph_okD(7) [of L g]
  by (fastforce simp: graph_ok_def insert_node_def bump_def link_ok_def within_limits_def stage_ok_def registered_def limits_positive_def new_node_def)

lemma graph_ok_add_child:
  assumes ok: "graph_ok L g" and pn: "hm_get (g_nodes g) p = Some pn" "\<not> n_pending pn"
    and room: "n_depth pn + 1 \<le> max_agent_depth L" "length (n_children pn) < max_children_per_agent L" "length (g_nodes g) < max_live_agents L"
    and fresh: "hm_get (g_nodes g) i = None"
  shows "graph_ok L (fst (add_child p i meta owner pn g))"
proof -
  let ?g = "fst (add_child p i meta owner pn g)"
  let ?n = "new_node (Some p) (n_root pn) (n_depth pn + 1) meta (g_next_reservation g) owner"
  have pi: "p \<noteq> i" using pn fresh by auto
  have get: "hm_get (g_nodes ?g) j = (if j = i then Some ?n else if j = p then Some (pn\<lparr>n_children := n_children pn @ [i]\<rparr>) else hm_get (g_nodes g) j)" for j
    using pn pi by (auto simp: add_child_def take_reservation_def insert_node_def bump_def modify_node_def hm_simps)
  have nochild: "i \<notin> set (n_children c)" if "hm_get (g_nodes g) j = Some c" for j c
    using link_child [OF ok that, of i] fresh by (auto simp: parent_of_def)
  have other: "g_root ?g = g_root g" "g_active ?g = g_active g"
    by (simp_all add: add_child_def take_reservation_def insert_node_def bump_def modify_node_def)
  have parent: "parent_of ?g c = (if c = i then Some p else parent_of g c)" for c
    using pn by (simp add: parent_of_def get new_node_def)
  have "link_ok ?g j c" if j: "hm_get (g_nodes ?g) j = Some c" for j c
  proof -
    consider "j = i" "c = ?n" | "j = p" "c = pn\<lparr>n_children := n_children pn @ [i]\<rparr>" | "j \<noteq> i" "j \<noteq> p" "hm_get (g_nodes g) j = Some c"
      using j by (auto simp: get split: if_splits)
    then show ?thesis
    proof cases
      case 1
      then show ?thesis using pi by (simp add: link_ok_def new_node_def get)
    next
      case 2
      then show ?thesis using graph_okD(4) [OF ok pn(1)] nochild [OF pn(1)] pn(1) fresh
        by (auto simp: link_ok_def parent other get split: option.splits)
    next
      case 3
      then show ?thesis using graph_okD(4) [OF ok 3(3)] nochild [OF 3(3)] pn(1) fresh
        by (auto simp: link_ok_def parent other get split: option.splits)
    qed
  qed
  moreover have "within_limits L c \<and> stage_ok c" if "hm_get (g_nodes ?g) j = Some c" for j c
    using that room pn graph_okD(5,6) [OF ok, of p] graph_okD(5,6) [OF ok, of j]
    by (auto simp: get within_limits_def stage_ok_def new_node_def split: if_splits)
  moreover have "hm_wf (g_nodes ?g)" "length (g_nodes ?g) \<le> max_live_agents L"
    using graph_okD(1,2) [OF ok] room(3)
    by (auto simp: add_child_def take_reservation_def insert_node_def bump_def modify_node_def length_hm_insert intro!: distinct_update)
  moreover have "registered ?g j" if "registered g j" for j
    using that pn fresh by (auto simp: registered_def get split: option.splits)
  ultimately show ?thesis using ok graph_okD(3) [OF ok] pn by (auto simp: graph_ok_def other)
qed

section \<open>Reclaiming, one node at a time\<close>

inductive retire_step :: "manager \<Rightarrow> manager \<Rightarrow> bool" where
  retire: "get_node m i = Some n \<Longrightarrow> reclaimable m n \<Longrightarrow> retire_step m (retire_node i m)"

lemma m_graph_retire:
  "get_node m i = Some n \<Longrightarrow> m_graph (retire_node i m) =
     bump ((drop_child i (n_parent n) ((m_graph m)\<lparr>g_nodes := hm_remove i (g_nodes (m_graph m))\<rparr>))
       \<lparr>g_active := filter (\<lambda>((a, _), _). a \<noteq> i) (g_active (m_graph m))\<rparr>)"
  by (auto simp: retire_node_def Let_def drop_child_def modify_node_def split: option.split)

lemma retire_node_frame [simp]:
  "m_limits (retire_node i m) = m_limits m" "m_finished (retire_node i m) = m_finished m" "m_actors (retire_node i m) = m_actors m"
  "m_runners (retire_node i m) = m_runners m" "m_identity (retire_node i m) = m_identity m" "m_next_ref (retire_node i m) = m_next_ref m"
  by (simp_all add: retire_node_def Let_def split: option.split)

lemma retire_node_graph_frame [simp]:
  "g_root (m_graph (retire_node i m)) = g_root (m_graph m)" "g_shutting_down (m_graph (retire_node i m)) = g_shutting_down (m_graph m)"
  "g_next_reservation (m_graph (retire_node i m)) = g_next_reservation (m_graph m)"
  by (cases "get_node m i", simp add: retire_node_def,
      simp add: m_graph_retire bump_def drop_child_def modify_node_def split: option.split)+

lemma get_retire: "graph_ok L (m_graph m) \<Longrightarrow> get_node m i = Some n \<Longrightarrow>
    get_node (retire_node i m) j = (if j = i then None else map_option (without i) (get_node m j))"
  using get_drop_child [of L "m_graph m" i n j] by (simp add: get_node_def m_graph_retire bump_def)

lemma graph_ok_retire: "graph_ok L (m_graph m) \<Longrightarrow> get_node m i = Some n \<Longrightarrow> n_children n = [] \<Longrightarrow> graph_ok L (m_graph (retire_node i m))"
  by (rule graph_ok_remove_leaf [of L "m_graph m" i n])
    (auto simp: get_node_def m_graph_retire bump_def drop_child_def modify_node_def split: option.splits)

lemma retire_step_ok: "retire_step m m' \<Longrightarrow> graph_ok L (m_graph m) \<Longrightarrow> graph_ok L (m_graph m')"
  by (auto elim!: retire_step.cases simp: reclaimable_def intro: graph_ok_retire)

lemma retire_steps_ok: "retire_step\<^sup>*\<^sup>* m m' \<Longrightarrow> graph_ok L (m_graph m) \<Longrightarrow> graph_ok L (m_graph m')"
  by (induction rule: rtranclp_induct) (auto intro: retire_step_ok)

lemma reclaimable_without: "reclaimable (retire_node i m) n \<longleftrightarrow> reclaimable m n" "reclaimable m n \<Longrightarrow> reclaimable m (without i n)"
  by (auto simp: reclaimable_def task_finished_def split: option.splits)

lemma fold_retire_steps:
  "graph_ok L (m_graph m) \<Longrightarrow> (\<And>i n. i \<in> set is \<Longrightarrow> get_node m i = Some n \<Longrightarrow> reclaimable m n) \<Longrightarrow> retire_step\<^sup>*\<^sup>* m (fold retire_node is m)"
proof (induction "is" arbitrary: m)
  case (Cons i js)
  show ?case
  proof (cases "get_node m i")
    case None
    then have "retire_node i m = m" by (simp add: retire_node_def)
    moreover have "retire_step\<^sup>*\<^sup>* m (fold retire_node js m)" using Cons.prems by (intro Cons.IH) auto
    ultimately show ?thesis by simp
  next
    case (Some n)
    then have step: "retire_step m (retire_node i m)" using Cons.prems(2) [of i n] by (auto intro: retire)
    have "reclaimable (retire_node i m) n'" if "j \<in> set js" "get_node (retire_node i m) j = Some n'" for j n'
      using that Cons.prems(2) [of j] get_retire [OF Cons.prems(1) Some, of j]
      by (auto simp: reclaimable_without split: if_splits)
    with Cons.IH [of "retire_node i m"] retire_step_ok [OF step Cons.prems(1)]
    have "retire_step\<^sup>*\<^sup>* (retire_node i m) (fold retire_node js (retire_node i m))" by blast
    with step show ?thesis by (simp add: converse_rtranclp_into_rtranclp)
  qed
qed simp

lemma retirable_iff: "graph_ok L (m_graph m) \<Longrightarrow> i \<in> set (retirable m) \<longleftrightarrow> (\<exists>n. get_node m i = Some n \<and> reclaimable m n)"
  using graph_okD(1) [of L "m_graph m"] by (auto simp: retirable_def get_node_def image_iff)

lemma reclaim_steps: "graph_ok L (m_graph m) \<Longrightarrow> retire_step\<^sup>*\<^sup>* m (reclaim_finished_closings m)"
proof (induction m rule: reclaim_finished_closings.induct)
  case (1 m)
  show ?case
  proof (cases "retirable m = []")
    case False
    have first: "retire_step\<^sup>*\<^sup>* m (fold retire_node (retirable m) m)"
      using 1 by (intro fold_retire_steps) (auto simp: retirable_iff)
    with 1 False retire_steps_ok [OF first] show ?thesis
      by (subst reclaim_finished_closings.simps) (auto simp: Let_def intro: rtranclp_trans)
  qed (simp add: reclaim_finished_closings.simps)
qed

lemma reclaim_ends: "retirable (reclaim_finished_closings m) = []"
proof (induction m rule: reclaim_finished_closings.induct)
  case (1 m)
  show ?case
  proof (cases "retirable m = []")
    case False
    with 1 show ?thesis by (subst reclaim_finished_closings.simps) (simp add: Let_def)
  qed (simp add: reclaim_finished_closings.simps)
qed

lemma retire_steps_frame:
  "retire_step\<^sup>*\<^sup>* m m' \<Longrightarrow> m_limits m' = m_limits m \<and> m_finished m' = m_finished m \<and> m_actors m' = m_actors m \<and> m_runners m' = m_runners m
     \<and> m_identity m' = m_identity m \<and> m_next_ref m' = m_next_ref m \<and> g_root (m_graph m') = g_root (m_graph m)
     \<and> g_shutting_down (m_graph m') = g_shutting_down (m_graph m)"
proof (induction rule: rtranclp_induct)
  case (step m1 m2)
  from step(2) obtain i where "m2 = retire_node i m1" by (cases rule: retire_step.cases)
  with step(3) show ?case by simp
qed simp

lemma reclaim_ok: "manager_ok m \<Longrightarrow> manager_ok (reclaim_finished_closings m)"
proof -
  assume ok: "manager_ok m"
  then have steps: "retire_step\<^sup>*\<^sup>* m (reclaim_finished_closings m)" by (auto simp: manager_ok_def intro: reclaim_steps)
  show ?thesis using ok retire_steps_ok [OF steps] retire_steps_frame [OF steps] by (simp add: manager_ok_def)
qed

lemma reclaim_frame:
  assumes "manager_ok m"
  shows "m_limits (reclaim_finished_closings m) = m_limits m" "m_actors (reclaim_finished_closings m) = m_actors m"
    "m_runners (reclaim_finished_closings m) = m_runners m" "m_identity (reclaim_finished_closings m) = m_identity m"
    "g_shutting_down (m_graph (reclaim_finished_closings m)) = g_shutting_down (m_graph m)"
    "m_finished (reclaim_finished_closings m) = m_finished m" "m_next_ref (reclaim_finished_closings m) = m_next_ref m"
    "g_root (m_graph (reclaim_finished_closings m)) = g_root (m_graph m)"
  using retire_steps_frame [OF reclaim_steps [OF conjunct2 [OF assms [unfolded manager_ok_def]]]] by simp_all

end
