(* ===== verification/Agent_Reach.thy ===== *)
theory Agent_Reach
  imports Agent_Tree
begin

text \<open>
  Every section of the manager keeps the invariant of the graph: creation, commit, cancellation, closing,
  the runner's end and shutdown, in any order and with any creations under way.
\<close>

section \<open>Operations that leave the graph alone\<close>

lemma on_actor_frame [simp]:
  "m_graph (on_actor r f m) = m_graph m" "m_limits (on_actor r f m) = m_limits m" "m_terminals (on_actor r f m) = m_terminals m"
  "m_runners (on_actor r f m) = m_runners m" "m_identity (on_actor r f m) = m_identity m" "m_next_ref (on_actor r f m) = m_next_ref m"
  "m_finished (on_actor r f m) = m_finished m" "get_node (on_actor r f m) i = get_node m i"
  by (simp_all add: on_actor_def get_node_def)

lemma on_graph_frame [simp]:
  "m_graph (on_graph f m) = f (m_graph m)" "m_limits (on_graph f m) = m_limits m" "m_terminals (on_graph f m) = m_terminals m"
  "m_runners (on_graph f m) = m_runners m" "m_identity (on_graph f m) = m_identity m" "m_next_ref (on_graph f m) = m_next_ref m"
  "m_finished (on_graph f m) = m_finished m" "m_actors (on_graph f m) = m_actors m"
  by (simp_all add: on_graph_def)

definition same_graph :: "manager \<Rightarrow> manager \<Rightarrow> bool" where
  "same_graph m m' \<longleftrightarrow> m_graph m' = m_graph m \<and> m_limits m' = m_limits m \<and> m_terminals m' = m_terminals m \<and> m_identity m' = m_identity m
     \<and> m_finished m' = m_finished m \<and> m_next_ref m' = m_next_ref m \<and> m_runners m' = m_runners m"

lemma same_graph_refl [simp]: "same_graph m m"
  by (simp add: same_graph_def)

lemma same_graph_trans: "same_graph m m' \<Longrightarrow> same_graph m' m'' \<Longrightarrow> same_graph m m''"
  by (simp add: same_graph_def)

lemma same_graph_actor [simp]: "same_graph m (on_actor r f m)"
  by (simp add: same_graph_def)

lemma same_graph_capture [simp]: "same_graph m (fst (capture_actor sd r m))"
  by (simp add: same_graph_def capture_actor_def split: prod.split)

lemma capture_actor_frame [simp]:
  "m_graph (fst (capture_actor sd r m)) = m_graph m" "m_limits (fst (capture_actor sd r m)) = m_limits m"
  "m_identity (fst (capture_actor sd r m)) = m_identity m" "m_terminals (fst (capture_actor sd r m)) = m_terminals m"
  "m_finished (fst (capture_actor sd r m)) = m_finished m" "m_next_ref (fst (capture_actor sd r m)) = m_next_ref m"
  "m_runners (fst (capture_actor sd r m)) = m_runners m" "get_node (fst (capture_actor sd r m)) i = get_node m i"
  by (simp_all add: capture_actor_def get_node_def case_prod_beta)

lemma same_graph_fold:
  assumes "\<And>x m. same_graph m (f x m)"
  shows "same_graph m (fold f xs m)"
  by (induction xs arbitrary: m) (auto intro: same_graph_trans [OF assms])

lemma same_graph_settle [simp]: "same_graph m (settle_cuts cuts m)"
  unfolding settle_cuts_def by (rule same_graph_fold) (simp split: prod.split)

lemma same_graph_cancel [simp]: "same_graph m (cancel_actors rs m)"
  unfolding cancel_actors_def by (rule same_graph_fold) simp

lemma same_graph_ok: "same_graph m m' \<Longrightarrow> manager_ok m' = manager_ok m"
  by (simp add: same_graph_def manager_ok_def)

lemma same_graph_get: "same_graph m m' \<Longrightarrow> get_node m' i = get_node m i"
  by (simp add: same_graph_def get_node_def)

lemma manager_ok_actor [simp]: "manager_ok (on_actor r f m) = manager_ok m"
  by (simp add: manager_ok_def)

lemma manager_ok_graph: "manager_ok m \<Longrightarrow> (graph_ok (m_limits m) (m_graph m) \<Longrightarrow> graph_ok (m_limits m) (f (m_graph m))) \<Longrightarrow> manager_ok (on_graph f m)"
  by (simp add: manager_ok_def)

section \<open>Benign changes of a node\<close>

lemma benign_actor_task:
  "stage_ok n \<Longrightarrow> benign (\<lambda>n. n\<lparr>n_cancel_on_commit := False, n_actor := Some r, n_task := Some r\<rparr>) n"
  by (auto simp: benign_def same_shape_def stage_ok_def)

lemma benign_task: "stage_ok n \<Longrightarrow> benign (\<lambda>n. n\<lparr>n_task := x\<rparr>) n"
  by (auto simp: benign_def same_shape_def stage_ok_def)

lemma benign_mark: "stage_ok n \<Longrightarrow> benign (\<lambda>n. if n_lifecycle n = Reserved then n\<lparr>n_cancel_on_commit := True\<rparr> else n) n"
  by (auto simp: benign_def same_shape_def stage_ok_def)

lemma benign_closing: "stage_ok n \<Longrightarrow> benign (\<lambda>n. n\<lparr>n_lifecycle := Closing\<rparr>) n"
  by (auto simp: benign_def same_shape_def stage_ok_def)

lemma benign_mark_closing: "stage_ok n \<Longrightarrow> benign (\<lambda>n. if consumes_capacity (n_lifecycle n) then n\<lparr>n_lifecycle := Closing\<rparr> else n) n"
  by (auto simp: benign_def same_shape_def stage_ok_def)

lemma benign_closed: "stage_ok n \<Longrightarrow> benign (\<lambda>n. n\<lparr>n_lifecycle := GraphClosed\<rparr>) n"
  by (auto simp: benign_def same_shape_def stage_ok_def)

lemma benign_settled: "stage_ok n \<Longrightarrow> benign (\<lambda>n. n\<lparr>n_pending := False\<rparr>) n"
  by (auto simp: benign_def same_shape_def stage_ok_def)

lemma benign_publish: "stage_ok n \<Longrightarrow> n_actor n \<noteq> None \<Longrightarrow> benign (\<lambda>n. n\<lparr>n_pending := False, n_lifecycle := Live\<rparr>) n"
  by (auto simp: benign_def same_shape_def stage_ok_def)

lemmas benigns = benign_actor_task benign_task benign_mark benign_closing benign_mark_closing benign_closed benign_settled

section \<open>Every operation keeps the invariant\<close>

lemma new_manager_ok: "new_manager ident l = Inr m \<Longrightarrow> manager_ok m"
  by (auto simp: new_manager_def manager_ok_def limits_positive_def graph_ok_def new_graph_def split: if_splits)

lemma reserve_root_ok: "manager_ok m \<Longrightarrow> reserve_root i m = Inr (m', res) \<Longrightarrow> manager_ok m'"
  using graph_ok_root [of "m_limits m" "(m_graph m)\<lparr>g_next_reservation := g_next_reservation (m_graph m) + 1\<rparr>"]
  by (auto simp: reserve_root_def manager_ok_def take_reservation_def Let_def split: if_splits)

lemma spawn_allowed:
  assumes "spawn_refused p current m = None"
  shows "\<exists>pn r. get_node m p = Some pn \<and> n_lifecycle pn = Live \<and> n_actor pn = Some r \<and> actor_open m r
    \<and> n_depth pn + 1 \<le> max_agent_depth (m_limits m) \<and> length (n_children pn) < max_children_per_agent (m_limits m)
    \<and> length (g_nodes (m_graph m)) < max_live_agents (m_limits m)
    \<and> (\<forall>k. current = Some k \<longrightarrow> hm_get (g_active (m_graph m)) (p, tok_turn k) = Some (tok_nonce k))"
  using assms by (auto simp: spawn_refused_def split: if_splits option.splits)

lemma reclaim_fresh: "graph_ok L (m_graph m) \<Longrightarrow> get_node m i = None \<Longrightarrow> get_node (reclaim_finished_closings m) i = None"
proof -
  assume ok: "graph_ok L (m_graph m)" and fresh: "get_node m i = None"
  have "retire_step\<^sup>*\<^sup>* m m' \<Longrightarrow> graph_ok L (m_graph m') \<and> get_node m' i = None" for m'
    by (induction rule: rtranclp_induct) (auto simp: ok fresh get_retire elim!: retire_step.cases intro: retire_step_ok retire)
  then show ?thesis using reclaim_steps [OF ok] by blast
qed

lemma reserve_child_ok:
  assumes ok: "manager_ok m" and fresh: "get_node m i = None"
  shows "manager_ok (fst (reserve_child p current cfg meta i m))"
proof -
  let ?m = "reclaim_finished_closings m"
  have ok': "manager_ok ?m" using ok by (rule reclaim_ok)
  then have gok: "graph_ok (m_limits ?m) (m_graph ?m)" by (simp add: manager_ok_def)
  have "manager_ok (?m\<lparr>m_graph := fst (add_child p i meta owner (the (get_node ?m p)) (m_graph ?m))\<rparr>)"
    if allowed: "spawn_refused p current ?m = None" for owner
  proof -
    from spawn_allowed [OF allowed] obtain pn r where pn: "get_node ?m p = Some pn" "n_lifecycle pn = Live"
      "n_depth pn + 1 \<le> max_agent_depth (m_limits ?m)" "length (n_children pn) < max_children_per_agent (m_limits ?m)"
      "length (g_nodes (m_graph ?m)) < max_live_agents (m_limits ?m)" by blast
    have "\<not> n_pending pn" using graph_okD(6) [OF gok] pn by (auto simp: get_node_def stage_ok_def)
    moreover have "hm_get (g_nodes (m_graph ?m)) i = None"
      using reclaim_fresh [of "m_limits m" m i] ok fresh by (simp add: manager_ok_def get_node_def)
    ultimately have "graph_ok (m_limits ?m) (fst (add_child p i meta owner pn (m_graph ?m)))"
      using graph_ok_add_child [OF gok] pn by (simp add: get_node_def)
    then show ?thesis using ok' by (simp add: manager_ok_def pn(1))
  qed
  then show ?thesis using ok ok'
    by (auto simp: reserve_child_def Let_def split: option.split prod.split if_split) (metis fst_conv)+
qed

lemma spawn_child_ok: "manager_ok m \<Longrightarrow> fresh_agent i m \<Longrightarrow> manager_ok (fst (spawn_child_with_config k cfg meta i m))"
  by (auto simp: spawn_child_with_config_def fresh_agent_def hm_contains_def get_node_def intro: reserve_child_ok split: option.split)

lemma spawn_trusted_ok: "manager_ok m \<Longrightarrow> fresh_agent i m \<Longrightarrow> manager_ok (fst (spawn_child_trusted_with_config r cfg meta i m))"
  by (auto simp: spawn_child_trusted_with_config_def fresh_agent_def hm_contains_def get_node_def intro: reserve_child_ok split: option.split)

lemma reserve_child_refused: "reserve_child p current cfg meta i m = (m', Inl e) \<Longrightarrow> m' = m \<or> m' = reclaim_finished_closings m"
  by (auto simp: reserve_child_def Let_def split: if_splits option.splits prod.splits)

lemma spawn_refused_ok:
  "manager_ok m \<Longrightarrow> spawn_child_with_config k cfg meta i m = (m', Inl e) \<Longrightarrow> manager_ok m'"
  "manager_ok m \<Longrightarrow> spawn_child_trusted_with_config r cfg meta i m = (m', Inl e) \<Longrightarrow> manager_ok m'"
  by (auto simp: spawn_child_with_config_def spawn_child_trusted_with_config_def dest!: reserve_child_refused intro: reclaim_ok split: option.splits)

subsection \<open>Rollback and commit\<close>

lemma rollback_ok:
  assumes ok: "graph_ok L g" shows "graph_ok L (rollback_reservation i res g)"
proof (cases "hm_get (g_nodes g) i")
  case None
  then show ?thesis using ok by (simp add: rollback_reservation_def)
next
  case (Some n)
  show ?thesis
  proof (cases "n_reservation n \<noteq> res \<or> n_actor n \<noteq> None \<or> \<not> n_pending n")
    case True
    then show ?thesis using ok Some by (simp add: rollback_reservation_def)
  next
    case False
    let ?g1 = "drop_child i (n_parent n) (g\<lparr>g_nodes := hm_remove i (g_nodes g)\<rparr>)"
    have frame: "g_root ?g1 = g_root g" "g_active ?g1 = g_active g"
      by (simp_all add: drop_child_def modify_node_def split: option.split)
    have eq: "rollback_reservation i res g = bump (if g_root ?g1 = Some i then ?g1\<lparr>g_root := None\<rparr> else ?g1)"
      using False Some by (simp add: rollback_reservation_def Let_def)
    have leaf: "n_children n = []" using graph_okD(6) [OF ok Some] False by (simp add: stage_ok_def)
    have fields: "g_active (rollback_reservation i res g) = g_active g" "g_nodes (rollback_reservation i res g) = g_nodes ?g1"
      "g_root (rollback_reservation i res g) = (if g_root g = Some i then None else g_root g)"
      unfolding eq by (simp_all add: frame bump_def)
    have "fst (fst k) \<noteq> i" if "k \<in> set (g_active g)" for k
      using graph_okD(7) [OF ok that] Some False by (auto simp: registered_def)
    then show ?thesis by (intro graph_ok_remove_leaf [OF ok Some leaf]) (auto simp: fields)
  qed
qed

lemma commit_spawn_ok: "manager_ok m \<Longrightarrow> manager_ok (fst (commit_spawn i cfg prep len m))"
  by (simp add: commit_spawn_def manager_ok_def Let_def)

lemma publish_ok:
  "graph_ok L g \<Longrightarrow> (\<And>n. hm_get (g_nodes g) i = Some n \<Longrightarrow> n_actor n \<noteq> None) \<Longrightarrow> graph_ok L (publish_node i g)"
  by (auto simp: publish_node_def intro!: graph_ok_modify benign_publish)

lemma commit_install_ok: "manager_ok m \<Longrightarrow> manager_ok (fst (commit_install i res r m))"
proof (cases "can_commit i res (m_graph m)")
  case False
  assume "manager_ok m"
  then show ?thesis using False by (auto simp: commit_install_def intro!: manager_ok_graph rollback_ok)
next
  case True
  assume ok: "manager_ok m"
  let ?g = "modify_node i (\<lambda>n. n\<lparr>n_cancel_on_commit := False, n_actor := Some r, n_task := Some r\<rparr>) (m_graph m)"
  have "graph_ok (m_limits m) ?g" using ok by (auto simp: manager_ok_def intro!: graph_ok_modify benigns)
  moreover from this have "graph_ok (m_limits m) (publish_node i ?g)"
    by (rule publish_ok) (auto simp: modify_node_def hm_simps)
  ultimately show ?thesis using True ok by (simp add: commit_install_def manager_ok_def Let_def)
qed

lemma finish_failed_ok: "manager_ok m \<Longrightarrow> manager_ok (finish_failed_commit i res m)"
  by (auto simp: finish_failed_commit_def intro!: reclaim_ok manager_ok_graph graph_ok_modify benigns split: option.split)

lemma commit_abort_ok: "manager_ok m \<Longrightarrow> manager_ok (fst (commit_abort i res r sd m))"
  by (simp add: commit_abort_def finish_failed_ok)

lemma commit_publish_ok: "manager_ok m \<Longrightarrow> manager_ok (fst (commit_publish i res m))"
  by (auto simp: commit_publish_def can_publish_def manager_ok_def intro!: publish_ok split: option.splits)

lemma runner_done_ok: "manager_ok m \<Longrightarrow> manager_ok (runner_done i res m)"
  by (auto simp: runner_done_def intro!: reclaim_ok manager_ok_graph graph_ok_modify benigns split: option.split)

subsection \<open>Cancelling and closing\<close>

lemma capture_cancel_cut_ok: "manager_ok m \<Longrightarrow> capture_cancel_cut i sub m = Inr (m', rs) \<Longrightarrow> manager_ok m'"
  by (auto simp: capture_cancel_cut_def Let_def intro!: manager_ok_graph graph_ok_fold_modify benigns split: option.splits if_splits)

lemma cancel_agent_ok: "manager_ok m \<Longrightarrow> cancel_agent i m = Inr m' \<Longrightarrow> manager_ok m'"
  by (auto simp: cancel_agent_def same_graph_ok [OF same_graph_cancel] dest: capture_cancel_cut_ok split: sum.splits prod.splits)

lemma cancel_subtree_ok: "manager_ok m \<Longrightarrow> cancel_subtree i m = Inr m' \<Longrightarrow> manager_ok m'"
  by (auto simp: cancel_subtree_def same_graph_ok [OF same_graph_cancel] dest: capture_cancel_cut_ok split: sum.splits prod.splits)

text \<open>On the graph, closing a list of nodes marks each one that still counts as closing.\<close>

lemma modify_node_id: "(\<And>n. hm_get (g_nodes g) i = Some n \<Longrightarrow> f n = n) \<Longrightarrow> modify_node i f g = g"
proof -
  assume f: "\<And>n. hm_get (g_nodes g) i = Some n \<Longrightarrow> f n = n"
  have "hm_modify i f xs = xs" if "\<And>n. map_of xs i = Some n \<Longrightarrow> f n = n" for xs :: "(agent_id \<times> node) list"
    using that by (induction xs) auto
  then show ?thesis using f by (simp add: modify_node_def)
qed

lemma modify_node_cong: "(\<And>n. hm_get (g_nodes g) i = Some n \<Longrightarrow> f n = f' n) \<Longrightarrow> modify_node i f g = modify_node i f' g"
proof -
  assume f: "\<And>n. hm_get (g_nodes g) i = Some n \<Longrightarrow> f n = f' n"
  have "hm_modify i f xs = hm_modify i f' xs" if "\<And>n. map_of xs i = Some n \<Longrightarrow> f n = f' n" for xs :: "(agent_id \<times> node) list"
    using that by (induction xs) auto
  then show ?thesis using f by (simp add: modify_node_def)
qed

lemma same_graph_graph: "same_graph m m' \<Longrightarrow> m_graph m' = m_graph m"
  by (simp add: same_graph_def)

lemma close_node_graph: "m_graph (fst (close_node i s)) = mark_closing i (m_graph (fst s))"
proof (cases s)
  case (fields m changed cuts)
  show ?thesis
  proof (cases "get_node m i")
    case None
    then have "mark_closing i (m_graph m) = m_graph m" unfolding mark_closing_def by (intro modify_node_id) (simp add: get_node_def)
    with None show ?thesis by (simp add: fields close_node_def)
  next
    case (Some n)
    show ?thesis
    proof (cases "consumes_capacity (n_lifecycle n)")
      case False
      then have "mark_closing i (m_graph m) = m_graph m"
        using Some unfolding mark_closing_def by (intro modify_node_id) (simp add: get_node_def)
      with False Some show ?thesis by (simp add: fields close_node_def)
    next
      case True
      then have "m_graph (fst (close_node i s)) = modify_node i (\<lambda>n. n\<lparr>n_lifecycle := Closing\<rparr>) (m_graph m)"
        using Some by (cases "n_actor n") (simp_all add: fields close_node_def Let_def case_prod_beta same_graph_graph [OF same_graph_capture])
      also have "\<dots> = mark_closing i (m_graph m)"
        unfolding mark_closing_def using Some True by (intro modify_node_cong) (simp add: get_node_def)
      finally show ?thesis by (simp add: fields)
    qed
  qed
qed

lemma fold_close_graph: "m_graph (fst (fold close_node is s)) = fold mark_closing is (m_graph (fst s))"
  by (induction "is" arbitrary: s) (simp_all add: close_node_graph)

lemma graph_ok_mark_closing: "graph_ok L g \<Longrightarrow> graph_ok L (fold mark_closing is g)"
  unfolding mark_closing_def [abs_def] by (intro graph_ok_fold_modify benigns)

lemma capture_subtree_ok: "manager_ok m \<Longrightarrow> capture_subtree_locked i inc m = Inr (m', cuts) \<Longrightarrow> manager_ok m'"
proof -
  assume ok: "manager_ok m" and cap: "capture_subtree_locked i inc m = Inr (m', cuts)"
  let ?s = "fold close_node (if inc then subtree_ids (m_graph m) i else tl (subtree_ids (m_graph m) i)) (m, False, [])"
  have lim: "m_limits (fst (close_node j s)) = m_limits (fst s)" for j s
    by (auto simp: close_node_def Let_def case_prod_beta split: option.split)
  then have "m_limits (fst (fold close_node js s)) = m_limits (fst s)" for js s by (induction js arbitrary: s) auto
  then have "manager_ok (fst ?s)" using ok graph_ok_mark_closing by (simp add: manager_ok_def fold_close_graph)
  moreover have "m' = (if fst (snd ?s) then on_graph bump (fst ?s) else fst ?s)"
    using cap by (auto simp: capture_subtree_locked_def Let_def split: option.splits if_splits prod.splits)
  ultimately show ?thesis by (auto intro: manager_ok_graph)
qed

lemma close_subtree_ok: "manager_ok m \<Longrightarrow> close_subtree i m = Inr m' \<Longrightarrow> manager_ok m'"
  by (auto simp: close_subtree_def same_graph_ok [OF same_graph_settle] dest: capture_subtree_ok split: sum.splits prod.splits)

lemma close_descendants_ok: "manager_ok m \<Longrightarrow> close_descendants i m = Inr m' \<Longrightarrow> manager_ok m'"
  by (auto simp: close_descendants_def same_graph_ok [OF same_graph_settle] dest: capture_subtree_ok split: sum.splits prod.splits)

lemma capture_turn_children_ok: "manager_ok m \<Longrightarrow> manager_ok (fst (capture_turn_children i turn m))"
proof (cases turn)
  case (Some t)
  assume "manager_ok m"
  then have ok: "manager_ok (on_graph (revoke_turn i t) m)" by (auto intro: manager_ok_graph graph_ok_revoke)
  let ?f = "\<lambda>c (m, cuts). case capture_subtree_locked c True m of Inl _ \<Rightarrow> (m, cuts) | Inr (m', ks) \<Rightarrow> (m', cuts @ ks)"
  have step: "manager_ok (fst s) \<Longrightarrow> manager_ok (fst (?f c s))" for c s
    by (auto dest: capture_subtree_ok split: sum.split prod.splits)
  have "manager_ok (fst s) \<Longrightarrow> manager_ok (fst (fold ?f cs s))" for cs s
    using fold_invariant [where P = "\<lambda>s. manager_ok (fst s)" and Q = "\<lambda>_. True" and f = ?f] step by blast
  with ok show ?thesis by (simp add: capture_turn_children_def Some Let_def)
qed (simp add: capture_turn_children_def)

lemma cancel_turn_manager_ok: "manager_ok m \<Longrightarrow> manager_ok (fst (manager_cancel_turn i t reason m))"
  using capture_turn_children_ok [of m i "Some t"] capture_turn_children_ok [of "on_actor _ _ m" i "Some t"]
  by (auto simp: manager_cancel_turn_def same_graph_ok [OF same_graph_settle] case_prod_beta split: sum.split)

lemma cancel_correlation_manager_ok: "manager_ok m \<Longrightarrow> manager_ok (fst (manager_cancel_correlation i c reason m))"
  using capture_turn_children_ok [of "on_actor _ _ m" i]
  by (auto simp: manager_cancel_correlation_def same_graph_ok [OF same_graph_settle] case_prod_beta split: sum.split)

lemma manager_local_cancel_ok: "manager_ok m \<Longrightarrow> manager_ok (fst (local_cancel i d m))"
  by (auto simp: local_cancel_def Let_def intro: manager_ok_graph graph_ok_revoke split: sum.split prod.split option.split)

lemma prepare_idle_subtree_ok: "manager_ok m \<Longrightarrow> prepare_idle_subtree i m = Inr (m', owner) \<Longrightarrow> manager_ok m'"
  by (auto simp: prepare_idle_subtree_def Let_def split: if_splits option.splits sum.splits prod.splits)

subsection \<open>Managed turns and shutdown\<close>

lemma set_update_subset: "set (AList.update k v xs) \<subseteq> insert (k, v) (set xs)"
  by (induction xs) auto

lemma register_ok: "manager_ok m \<Longrightarrow> register_managed_turn i t nonce m = Inr (m', b) \<Longrightarrow> manager_ok m'"
proof -
  assume ok: "manager_ok m" and reg: "register_managed_turn i t nonce m = Inr (m', b)"
  have "graph_ok L (g\<lparr>g_active := hm_insert (i, t) nonce (g_active g)\<rparr>)" if "graph_ok L g" "hm_get (g_nodes g) i = Some n" "n_lifecycle n = Live" for L g n
    using that set_update_subset [of "(i, t)" nonce "g_active g"] graph_okD(6) [OF that(1,2)]
    by (intro graph_ok_active [OF that(1)]) (auto simp: registered_def stage_ok_def)
  with ok reg show ?thesis
    by (auto simp: register_managed_turn_def Let_def manager_ok_def get_node_def split: if_splits option.splits)
qed

lemma release_ok: "manager_ok m \<Longrightarrow> manager_ok (release_managed_turn i t nonce m)"
  by (auto simp: release_managed_turn_def intro: manager_ok_graph graph_ok_revoke)

lemma shutdown_actors_same: "same_graph m (fst (shutdown_actors ids m))"
proof -
  let ?f = "\<lambda>i (m, cuts). case Option.bind (get_node m i) n_actor of None \<Rightarrow> (m, cuts) | Some r \<Rightarrow> (case capture_actor True r m of (m', ks) \<Rightarrow> (m', cuts @ ks))"
  have step: "same_graph (fst s) (fst (?f i s))" for i and s :: "manager \<times> close_cuts"
    by (cases s) (simp add: case_prod_beta split: option.split)
  have "same_graph (fst s) (fst (fold ?f ids s))" for s :: "manager \<times> close_cuts"
    by (rule fold_invariant [where P = "\<lambda>s'. same_graph (fst s) (fst s')" and Q = "\<lambda>_. True"],
      rule TrueI, rule same_graph_refl, erule same_graph_trans, rule step)
  from this [of "(m, [])"] show ?thesis by (simp add: shutdown_actors_def)
qed

lemma drop_tombstone_ok: "manager_ok m \<Longrightarrow> manager_ok (drop_tombstone_tasks m)"
proof -
  assume ok: "manager_ok m"
  let ?f = "\<lambda>n. if \<not> consumes_capacity (n_lifecycle n) \<and> \<not> n_pending n \<and> task_finished m n then n\<lparr>n_task := None\<rparr> else n"
  have get: "map_of (map (\<lambda>(i, n). (i, ?f n)) xs) j = map_option ?f (map_of xs j)" for xs :: "(agent_id \<times> node) list" and j
    by (induction xs) auto
  have "graph_ok (m_limits m) ((m_graph m)\<lparr>g_nodes := map (\<lambda>(i, n). (i, ?f n)) (g_nodes (m_graph m))\<rparr>)"
    using ok graph_okD(6) [of "m_limits m" "m_graph m"]
    by (intro graph_ok_map_nodes) (auto simp: manager_ok_def get same_shape_def stage_ok_def case_prod_beta split: if_splits)
  then show ?thesis using ok by (simp add: drop_tombstone_tasks_def manager_ok_def)
qed

lemma manager_shutdown_ok: "manager_ok m \<Longrightarrow> manager_ok (fst (manager_shutdown m))"
proof -
  assume "manager_ok m"
  then have "manager_ok (fst (shutdown_actors (shutdown_ids m) m))" by (simp add: same_graph_ok [OF shutdown_actors_same])
  then have "manager_ok (on_graph (\<lambda>g. fold mark_closing (shutdown_ids m) (g\<lparr>g_shutting_down := True\<rparr>)) (fst (shutdown_actors (shutdown_ids m) m)))"
    by (intro manager_ok_graph graph_ok_mark_closing) auto
  then show ?thesis
    by (simp add: manager_shutdown_def Let_def case_prod_beta same_graph_ok [OF same_graph_settle] drop_tombstone_ok)
qed

lemma finished_nodes_ok: "manager_ok m \<Longrightarrow> manager_ok (snd (finished_nodes ids m))"
  by (auto simp: finished_nodes_def Let_def intro!: reclaim_ok manager_ok_graph graph_ok_fold_modify benigns)

lemma take_tasks_ok: "manager_ok m \<Longrightarrow> manager_ok (take_finished_tasks ids m)"
  by (auto simp: take_finished_tasks_def intro!: manager_ok_graph graph_ok_fold_modify benigns)

lemma runner_finished_ok: "manager_ok m \<Longrightarrow> manager_ok (snd (runner_finished i m))"
  by (simp add: runner_finished_def Let_def reclaim_ok)

subsection \<open>All reachable states\<close>

lemmas manager_oks = cancel_agent_ok cancel_subtree_ok close_subtree_ok close_descendants_ok cancel_turn_manager_ok
  cancel_correlation_manager_ok manager_local_cancel_ok prepare_idle_subtree_ok register_ok release_ok manager_shutdown_ok finished_nodes_ok
  take_tasks_ok runner_finished_ok runner_done_ok

lemma manager_step_ok: "manager_step m m' \<Longrightarrow> manager_ok m \<Longrightarrow> manager_ok m'"
  by (induction rule: manager_step.induct) (auto intro: manager_oks simp: manager_ok_def [of "manager.m_actors_update _ _"]
    manager_ok_def [of "manager.m_finished_update _ _"] manager_ok_def [of "manager.m_runners_update _ _"] simp flip: manager_ok_def)

lemma creation_step_ok: "creation_step s s' \<Longrightarrow> manager_ok (fst s) \<Longrightarrow> manager_ok (fst s')"
proof (induction rule: creation_step.induct)
  case (create_child i m k cfg meta m' res cs)
  then show ?case using spawn_child_ok [of m i k cfg meta] by simp
next
  case (create_trusted i m r cfg meta m' res cs)
  then show ?case using spawn_trusted_ok [of m i r cfg meta] by simp
next
  case (factory_done i res cs cfg prep len m m' r)
  then show ?case using commit_spawn_ok [of m i cfg prep len] by simp
next
  case (install i res r cs m m' ph)
  then show ?case using commit_install_ok [of m i res r] by simp
next
  case (publish i res r cs m m' ph)
  then show ?case using commit_publish_ok [of m i res] by simp
qed (auto intro: reserve_root_ok spawn_refused_ok commit_abort_ok manager_ok_graph rollback_ok)

lemma system_ok: "system s \<Longrightarrow> manager_ok (fst s)"
  by (induction rule: system.induct) (auto intro: new_manager_ok creation_step_ok manager_step_ok)

lemma system_graph: "system (m, cs) \<Longrightarrow> graph_ok (m_limits m) (m_graph m)"
  using system_ok [of "(m, cs)"] by (simp add: manager_ok_def)

end
