(* ===== verification/Agent_Ages.thy ===== *)
theory Agent_Ages
  imports Agent_Reach
begin

text \<open>
  How nodes age. Apart from the creations themselves, no section of the manager adds a node, moves one,
  gives one another actor or takes a lifecycle back. What follows for whole runs: a terminal snapshot is
  never replaced and its agent never comes back, and once the graph is shutting down no node is live or
  will be.
\<close>

section \<open>Aging\<close>

fun rank :: "graph_lifecycle \<Rightarrow> nat" where
  "rank Reserved = 0"
| "rank Live = 1"
| "rank Closing = 2"
| "rank GraphClosed = 3"
| "rank Removed = 4"

definition older :: "node \<Rightarrow> node \<Rightarrow> bool" where
  "older n n' \<longleftrightarrow> n_parent n' = n_parent n \<and> n_root n' = n_root n \<and> n_depth n' = n_depth n \<and> n_actor n' = n_actor n
     \<and> n_reservation n' = n_reservation n \<and> n_owner n' = n_owner n \<and> n_metadata n' = n_metadata n
     \<and> set (n_children n') \<subseteq> set (n_children n) \<and> rank (n_lifecycle n) \<le> rank (n_lifecycle n') \<and> (n_pending n' \<longrightarrow> n_pending n)"

lemma older_refl [simp]: "older n n"
  by (simp add: older_def)

lemma older_trans: "older n n' \<Longrightarrow> older n' n'' \<Longrightarrow> older n n''"
  by (auto simp: older_def)

lemma older_without [simp]: "older n (without i n)"
  by (auto simp: older_def)

text \<open>Every node is closing or closed: what a shutdown establishes.\<close>

definition wound_down :: "graph_state \<Rightarrow> bool" where
  "wound_down g \<longleftrightarrow> (\<forall>j n. hm_get (g_nodes g) j = Some n \<longrightarrow> 2 \<le> rank (n_lifecycle n))"

lemma wound_down_older:
  "wound_down g \<Longrightarrow> (\<And>j n'. hm_get (g_nodes g') j = Some n' \<Longrightarrow> \<exists>n. hm_get (g_nodes g) j = Some n \<and> older n n') \<Longrightarrow> wound_down g'"
  unfolding wound_down_def older_def by (meson le_trans)

definition aged :: "graph_state \<Rightarrow> graph_state \<Rightarrow> bool" where
  "aged g g' \<longleftrightarrow> (\<forall>j n'. hm_get (g_nodes g') j = Some n' \<longrightarrow> (\<exists>n. hm_get (g_nodes g) j = Some n \<and> older n n'))
     \<and> g_root g' = g_root g \<and> (g_shutting_down g \<longrightarrow> g_shutting_down g') \<and> (g_shutting_down g' \<longrightarrow> g_shutting_down g \<or> wound_down g')"

lemma aged_refl [simp]: "aged g g"
  by (simp add: aged_def)

lemma aged_trans: "aged g g' \<Longrightarrow> aged g' g'' \<Longrightarrow> aged g g''"
proof -
  assume 1: "aged g g'" and 2: "aged g' g''"
  have "wound_down g' \<Longrightarrow> wound_down g''" using 2 by (intro wound_down_older [of g' g'']) (auto simp: aged_def)
  then show ?thesis using 1 2 unfolding aged_def by (metis (no_types, lifting) older_trans)
qed

lemma agedD: "aged g g' \<Longrightarrow> hm_get (g_nodes g') j = Some n' \<Longrightarrow> \<exists>n. hm_get (g_nodes g) j = Some n \<and> older n n'"
  by (simp add: aged_def)

lemma aged_frame [simp]: "aged g (bump g') = aged g g'" "aged g (revoke_turn i t g') = aged g g'" "aged g (g'\<lparr>g_active := as\<rparr>) = aged g g'"
  by (simp_all add: aged_def bump_def revoke_turn_def wound_down_def)

lemma aged_modify: "(\<And>n. hm_get (g_nodes g) i = Some n \<Longrightarrow> older n (f n)) \<Longrightarrow> aged g (modify_node i f g)"
  by (auto simp: aged_def modify_node_def hm_simps)

lemma aged_fold_modify:
  assumes "\<And>n. older n (f n)"
  shows "aged g (fold (\<lambda>i. modify_node i f) is g)"
  by (induction "is" arbitrary: g) (auto intro: aged_trans [OF aged_modify] assms)

lemma older_changes:
  "older n (n\<lparr>n_task := x\<rparr>)" "older n (n\<lparr>n_pending := False\<rparr>)"
  "older n (if n_lifecycle n = Reserved then n\<lparr>n_cancel_on_commit := True\<rparr> else n)"
  "older n (if consumes_capacity (n_lifecycle n) then n\<lparr>n_lifecycle := Closing\<rparr> else n)"
  by (auto simp: older_def) (cases "n_lifecycle n"; simp)+

lemma older_closed: "stage_ok n \<Longrightarrow> older n (n\<lparr>n_lifecycle := GraphClosed\<rparr>)"
  by (cases "n_lifecycle n") (auto simp: older_def stage_ok_def)

lemma aged_mark_closing: "aged g (fold mark_closing is g)"
  unfolding mark_closing_def [abs_def] by (intro aged_fold_modify older_changes)

lemma aged_fold_closed: "graph_ok L g \<Longrightarrow> aged g (fold (\<lambda>i. modify_node i (\<lambda>n. n\<lparr>n_lifecycle := GraphClosed\<rparr>)) is g)"
proof (induction "is" arbitrary: g)
  case (Cons i js)
  have "aged g (modify_node i (\<lambda>n. n\<lparr>n_lifecycle := GraphClosed\<rparr>) g)"
    using graph_okD(6) [OF Cons.prems] by (auto intro!: aged_modify older_closed)
  moreover have "graph_ok L (modify_node i (\<lambda>n. n\<lparr>n_lifecycle := GraphClosed\<rparr>) g)"
    using Cons.prems by (intro graph_ok_modify benigns)
  ultimately show ?case using Cons.IH by (auto intro: aged_trans)
qed simp

section \<open>Sections of the manager age the graph\<close>

text \<open>Terminal snapshots are written once, for an agent that is no longer a node.\<close>

definition graves_ok :: "manager \<Rightarrow> bool" where
  "graves_ok m \<longleftrightarrow> (\<forall>i. hm_contains (m_terminals m) i \<longrightarrow> get_node m i = None)"

definition ages :: "manager \<Rightarrow> manager \<Rightarrow> bool" where
  "ages m m' \<longleftrightarrow> aged (m_graph m) (m_graph m') \<and> m_limits m' = m_limits m \<and> m_identity m' = m_identity m \<and> m_next_ref m' = m_next_ref m
     \<and> (\<forall>i s. hm_get (m_terminals m) i = Some s \<longrightarrow> hm_get (m_terminals m') i = Some s)
     \<and> (\<forall>i s. hm_get (m_terminals m') i = Some s \<longrightarrow> hm_get (m_terminals m) i = Some s
          \<or> (hm_contains (g_nodes (m_graph m)) i \<and> get_node m' i = None \<and> ns_agent s = i \<and> ns_lifecycle s = GraphClosed))"

lemma ages_refl [simp]: "ages m m"
  by (simp add: ages_def)

lemma aged_get: "aged (m_graph m) (m_graph m') \<Longrightarrow> get_node m i = None \<Longrightarrow> get_node m' i = None"
  by (metis agedD get_node_def not_None_eq)

lemma ages_trans: "ages m m' \<Longrightarrow> ages m' m'' \<Longrightarrow> ages m m''"
  unfolding ages_def
  by (smt (verit) aged_get aged_trans get_node_def hm_contains_def)

lemma ages_graves: "ages m m' \<Longrightarrow> graves_ok m \<Longrightarrow> graves_ok m'"
  using aged_get [of m m'] by (fastforce simp: graves_ok_def ages_def hm_contains_def)

lemma ages_fresh: "ages m m' \<Longrightarrow> fresh_agent i m \<Longrightarrow> fresh_agent i m'"
  unfolding ages_def fresh_agent_def hm_contains_def by (metis aged_get get_node_def not_None_eq)

lemma ages_same: "same_graph m m' \<Longrightarrow> ages m m'"
  by (simp add: ages_def same_graph_def)

lemma ages_graph: "aged (m_graph m) (f (m_graph m)) \<Longrightarrow> ages m (on_graph f m)"
  by (simp add: ages_def)

lemma ages_retire:
  assumes ok: "graph_ok L (m_graph m)" and graves: "graves_ok m" and n: "get_node m i = Some n"
  shows "ages m (retire_node i m)"
proof -
  have "aged (m_graph m) (m_graph (retire_node i m))"
    using get_retire [OF ok n] by (auto simp: aged_def get_node_def split: if_splits)
  moreover have "m_terminals (retire_node i m) = hm_insert i (node_snapshot_of m i (n\<lparr>n_lifecycle := GraphClosed\<rparr>)) (m_terminals m)"
    using n by (simp add: retire_node_def Let_def)
  moreover have "hm_get (m_terminals m) i = None" using graves n by (auto simp: graves_ok_def hm_contains_def)
  moreover have "get_node (retire_node i m) i = None" using get_retire [OF ok n, of i] by simp
  ultimately show ?thesis using n by (auto simp: ages_def hm_simps node_snapshot_of_def get_node_def hm_contains_def)
qed

lemma ages_retire_steps: "retire_step\<^sup>*\<^sup>* m m' \<Longrightarrow> graph_ok L (m_graph m) \<Longrightarrow> graves_ok m \<Longrightarrow> ages m m'"
proof (induction rule: rtranclp_induct)
  case (step m1 m2)
  from step(2) obtain i n where "m2 = retire_node i m1" "get_node m1 i = Some n" by (auto elim: retire_step.cases)
  with step ages_retire [of L m1 i n] retire_steps_ok [OF step(1) step(4)] show ?case
    by (blast intro: ages_trans ages_graves)
qed simp

lemma ages_reclaim: "manager_ok m \<Longrightarrow> graves_ok m \<Longrightarrow> ages m (reclaim_finished_closings m)"
  by (auto simp: manager_ok_def intro: ages_retire_steps reclaim_steps)

text \<open>An aging change of the graph followed by reclaiming.\<close>

lemma ages_then_reclaim: "ages m m' \<Longrightarrow> manager_ok m' \<Longrightarrow> graves_ok m \<Longrightarrow> ages m (reclaim_finished_closings m')"
  by (blast intro: ages_trans ages_reclaim ages_graves)

lemma ages_runner_done: "manager_ok m \<Longrightarrow> graves_ok m \<Longrightarrow> ages m (runner_done i res m)"
  unfolding runner_done_def
  by (rule ages_then_reclaim)
    (auto simp: manager_ok_def get_node_def intro!: ages_graph aged_modify older_closed manager_ok_graph graph_ok_modify benigns
      dest: graph_okD(6) split: option.split)

lemma ages_finish_failed: "manager_ok m \<Longrightarrow> graves_ok m \<Longrightarrow> ages m (finish_failed_commit i res m)"
  unfolding finish_failed_commit_def
  by (rule ages_then_reclaim)
    (auto intro!: ages_graph aged_modify older_changes manager_ok_graph graph_ok_modify benigns split: option.split)

lemma ages_finished_nodes: "manager_ok m \<Longrightarrow> graves_ok m \<Longrightarrow> ages m (snd (finished_nodes ids m))"
  unfolding finished_nodes_def Let_def snd_conv
  by (rule ages_then_reclaim)
    (auto simp: manager_ok_def intro!: ages_graph aged_fold_closed manager_ok_graph graph_ok_fold_modify benigns)

lemma ages_take_tasks: "ages m (take_finished_tasks ids m)"
  by (auto simp: take_finished_tasks_def intro!: ages_graph aged_fold_modify older_changes)

lemma ages_cancel_cut: "capture_cancel_cut i sub m = Inr (m', rs) \<Longrightarrow> ages m m'"
  by (auto simp: capture_cancel_cut_def Let_def intro!: ages_graph aged_fold_modify older_changes split: option.splits if_splits)

lemma ages_cancel:
  "cancel_agent i m = Inr m' \<Longrightarrow> ages m m'" "cancel_subtree i m = Inr m' \<Longrightarrow> ages m m'"
  by (auto simp: cancel_agent_def cancel_subtree_def intro: ages_trans [OF _ ages_same [OF same_graph_cancel]] ages_cancel_cut
      split: sum.splits prod.splits)

lemma close_node_frame:
  "m_limits (fst (close_node j s)) = m_limits (fst s)" "m_identity (fst (close_node j s)) = m_identity (fst s)"
  "m_next_ref (fst (close_node j s)) = m_next_ref (fst s)" "m_terminals (fst (close_node j s)) = m_terminals (fst s)"
  "m_runners (fst (close_node j s)) = m_runners (fst s)"
  by (auto simp: close_node_def Let_def case_prod_beta split: option.split)

lemma fold_close_frame:
  "m_limits (fst (fold close_node js s)) = m_limits (fst s)" "m_identity (fst (fold close_node js s)) = m_identity (fst s)"
  "m_next_ref (fst (fold close_node js s)) = m_next_ref (fst s)" "m_terminals (fst (fold close_node js s)) = m_terminals (fst s)"
  "m_runners (fst (fold close_node js s)) = m_runners (fst s)"
  by (induction js arbitrary: s) (auto simp: close_node_frame)

lemma ages_fold_close: "ages (fst s) (fst (fold close_node js s))"
  by (simp add: ages_def fold_close_frame fold_close_graph aged_mark_closing)

definition cut_ids :: "agent_id \<Rightarrow> bool \<Rightarrow> manager \<Rightarrow> agent_id list" where
  "cut_ids i inc m = (if inc then subtree_ids (m_graph m) i else tl (subtree_ids (m_graph m) i))"

lemma capture_subtree_fold:
  assumes "capture_subtree_locked i inc m = Inr (m', cuts)"
  obtains m1 changed where "fold close_node (cut_ids i inc m) (m, False, []) = (m1, changed, cuts)" "m' = m1 \<or> m' = on_graph bump m1"
  using assms by (auto simp: capture_subtree_locked_def cut_ids_def Let_def split: option.splits if_splits prod.splits)

lemma ages_bump: "ages m m' \<Longrightarrow> ages m (on_graph bump m')"
  by (rule ages_trans, assumption, rule ages_graph) simp

lemma ages_capture_subtree: "capture_subtree_locked i inc m = Inr (m', cuts) \<Longrightarrow> ages m m'"
  by (elim capture_subtree_fold) (use ages_fold_close [of "(m, False, [])" "cut_ids i inc m"] in \<open>auto intro: ages_bump\<close>)

lemma ages_close:
  "close_subtree i m = Inr m' \<Longrightarrow> ages m m'" "close_descendants i m = Inr m' \<Longrightarrow> ages m m'"
  by (auto simp: close_subtree_def close_descendants_def intro: ages_trans [OF _ ages_same [OF same_graph_settle]] ages_capture_subtree
      split: sum.splits prod.splits)

lemma ages_turn_children: "ages m (fst (capture_turn_children i turn m))"
proof (cases turn)
  case (Some t)
  let ?f = "\<lambda>c (m, cuts). case capture_subtree_locked c True m of Inl _ \<Rightarrow> (m, cuts) | Inr (m', ks) \<Rightarrow> (m', cuts @ ks)"
  have step: "ages (fst s) (fst (?f c s))" for c and s :: "manager \<times> close_cuts"
    by (cases s) (auto dest: ages_capture_subtree split: sum.split)
  have "ages (fst s) (fst (fold ?f cs s))" for cs and s :: "manager \<times> close_cuts"
    by (rule fold_invariant [where P = "\<lambda>s'. ages (fst s) (fst s')" and Q = "\<lambda>_. True"],
        rule TrueI, rule ages_refl, erule ages_trans, rule step)
  from ages_trans [OF ages_graph this [of "(on_graph (revoke_turn i t) m, [])", unfolded fst_conv]]
  show ?thesis by (simp add: capture_turn_children_def Some Let_def)
qed (simp add: capture_turn_children_def)

lemma ages_cancel_turn: "ages m (fst (manager_cancel_turn i t reason m))"
proof -
  have "ages m (settle_cuts cuts (fst (capture_turn_children i (Some t) m)))" for m cuts
    by (rule ages_trans [OF ages_turn_children ages_same [OF same_graph_settle]])
  moreover have "ages m (settle_cuts cuts (on_actor r f (fst (capture_turn_children i (Some t) (on_actor r' f' m)))))" for cuts r f r' f'
    by (rule ages_trans [OF ages_same [OF same_graph_actor] ages_trans [OF ages_turn_children
        ages_trans [OF ages_same [OF same_graph_actor] ages_same [OF same_graph_settle]]]])
  ultimately show ?thesis by (auto simp: manager_cancel_turn_def case_prod_beta split: sum.split)
qed

lemma ages_cancel_correlation: "ages m (fst (manager_cancel_correlation i c reason m))"
proof -
  have "ages m (settle_cuts cuts (on_actor r f (fst (capture_turn_children i turn (on_actor r' f' m)))))" for cuts r f r' f' turn
    by (rule ages_trans [OF ages_same [OF same_graph_actor] ages_trans [OF ages_turn_children
        ages_trans [OF ages_same [OF same_graph_actor] ages_same [OF same_graph_settle]]]])
  then show ?thesis by (auto simp: manager_cancel_correlation_def case_prod_beta split: sum.split)
qed

lemma ages_local_cancel: "ages m (fst (local_cancel i d m))"
  by (auto simp: local_cancel_def Let_def ages_def split: sum.split prod.split option.split)

lemma ages_prepare_idle: "prepare_idle_subtree i m = Inr (m', owner) \<Longrightarrow> ages m m'"
  by (auto simp: prepare_idle_subtree_def Let_def intro: ages_same split: if_splits option.splits sum.splits prod.splits)

lemma ages_register: "register_managed_turn i t nonce m = Inr (m', b) \<Longrightarrow> ages m m'"
  by (auto simp: register_managed_turn_def Let_def intro!: ages_graph split: if_splits option.splits)

lemma ages_release: "ages m (release_managed_turn i t nonce m)"
  by (auto simp: release_managed_turn_def intro: ages_graph)

lemma get_tombstone: "get_node (drop_tombstone_tasks m) j = map_option (\<lambda>n.
    if \<not> consumes_capacity (n_lifecycle n) \<and> \<not> n_pending n \<and> task_finished m n then n\<lparr>n_task := None\<rparr> else n) (get_node m j)"
proof -
  have "map_of (map (\<lambda>(i, n). (i, f n)) xs) j = map_option f (map_of xs j)" for xs :: "(agent_id \<times> node) list" and f
    by (induction xs) auto
  then show ?thesis by (simp add: drop_tombstone_tasks_def get_node_def)
qed

lemma ages_tombstone: "ages m (drop_tombstone_tasks m)"
proof -
  have "aged (m_graph m) (m_graph (drop_tombstone_tasks m))"
    using get_tombstone [of m] older_changes(1)
    by (auto simp: aged_def get_node_def drop_tombstone_tasks_def split: if_splits)
  then show ?thesis by (simp add: ages_def drop_tombstone_tasks_def)
qed

lemma get_mark_closing: "hm_get (g_nodes (fold mark_closing is g)) j = map_option (\<lambda>n.
    if j \<in> set is \<and> consumes_capacity (n_lifecycle n) then n\<lparr>n_lifecycle := Closing\<rparr> else n) (hm_get (g_nodes g) j)"
  by (induction "is" arbitrary: g) (auto simp: mark_closing_def modify_node_def hm_simps option.map_comp comp_def option.map_ident intro!: option.map_cong)

lemma fold_mark_frame:
  "g_root (fold mark_closing is g) = g_root g" "g_shutting_down (fold mark_closing is g) = g_shutting_down g"
  "g_active (fold mark_closing is g) = g_active g"
  by (induction "is" arbitrary: g) (simp_all add: mark_closing_def modify_node_def)

lemma aged_shutdown: "aged (m_graph m) (fold mark_closing (shutdown_ids m) ((m_graph m)\<lparr>g_shutting_down := True\<rparr>))"
proof -
  let ?g = "fold mark_closing (shutdown_ids m) ((m_graph m)\<lparr>g_shutting_down := True\<rparr>)"
  have "j \<in> set (shutdown_ids m)" if "hm_get (g_nodes (m_graph m)) j = Some n" "consumes_capacity (n_lifecycle n)" for j n
    using that map_of_SomeD [OF that(1)] by (force simp: shutdown_ids_def)
  moreover have "\<not> consumes_capacity l \<Longrightarrow> 2 \<le> rank l" for l by (cases l) simp_all
  ultimately have "2 \<le> rank (n_lifecycle (if j \<in> set (shutdown_ids m) \<and> consumes_capacity (n_lifecycle n) then n\<lparr>n_lifecycle := Closing\<rparr> else n))"
    if "hm_get (g_nodes (m_graph m)) j = Some n" for j n
    using that by auto
  moreover have nodes: "g_nodes ((m_graph m)\<lparr>g_shutting_down := True\<rparr>) = g_nodes (m_graph m)" by simp
  ultimately have "wound_down ?g" unfolding wound_down_def get_mark_closing by (simp only: map_option_eq_Some) blast
  moreover have "older n (if P \<and> consumes_capacity (n_lifecycle n) then n\<lparr>n_lifecycle := Closing\<rparr> else n)" for n P
    using older_changes(4) [of n] by (cases "consumes_capacity (n_lifecycle n)") simp_all
  ultimately show ?thesis
    unfolding aged_def fold_mark_frame get_mark_closing nodes map_option_eq_Some by (intro conjI) (blast, simp_all)
qed

lemma ages_shutdown: "ages m (fst (manager_shutdown m))"
proof -
  let ?m1 = "fst (shutdown_actors (shutdown_ids m) m)"
  let ?mark = "\<lambda>g. fold mark_closing (shutdown_ids m) (g\<lparr>g_shutting_down := True\<rparr>)"
  have "m_graph ?m1 = m_graph m" by (rule same_graph_graph [OF shutdown_actors_same])
  then have "ages ?m1 (on_graph ?mark ?m1)" by (intro ages_graph) (simp add: aged_shutdown)
  then have "ages m (settle_cuts cuts (drop_tombstone_tasks (on_graph ?mark ?m1)))" for cuts
    by (blast intro: ages_trans ages_same shutdown_actors_same ages_tombstone same_graph_settle)
  then show ?thesis by (simp add: manager_shutdown_def Let_def case_prod_beta)
qed

lemmas ages_sections = ages_runner_done ages_finished_nodes ages_take_tasks ages_cancel ages_close ages_cancel_turn ages_cancel_correlation
  ages_local_cancel ages_prepare_idle ages_register ages_release ages_shutdown

lemma manager_step_ages: "manager_step m m' \<Longrightarrow> manager_ok m \<Longrightarrow> graves_ok m \<Longrightarrow> ages m m'"
proof (induction rule: manager_step.induct)
  case (query_finished m i)
  then show ?case by (simp add: runner_finished_def Let_def ages_reclaim)
qed (auto intro: ages_sections simp: ages_def [of _ "manager.m_finished_update _ _"] ages_def [of _ "manager.m_actors_update _ _"]
    ages_def [of _ "manager.m_runners_update _ _"])

section \<open>Creations\<close>

definition down_ok :: "manager \<Rightarrow> bool" where
  "down_ok m \<longleftrightarrow> (g_shutting_down (m_graph m) \<longrightarrow> wound_down (m_graph m))"

lemma ages_down: "ages m m' \<Longrightarrow> down_ok m \<Longrightarrow> down_ok m'"
  using wound_down_older [of "m_graph m" "m_graph m'"] by (auto simp: ages_def aged_def down_ok_def)

text \<open>What a creation may do to the nodes that are already there: they keep their place and their reservation,
  and their lifecycle does not go back.\<close>

definition placed :: "node \<Rightarrow> node \<Rightarrow> bool" where
  "placed n n' \<longleftrightarrow> n_parent n' = n_parent n \<and> n_root n' = n_root n \<and> n_depth n' = n_depth n \<and> n_reservation n' = n_reservation n
     \<and> rank (n_lifecycle n) \<le> rank (n_lifecycle n')"

lemma older_placed: "older n n' \<Longrightarrow> placed n n'"
  by (simp add: older_def placed_def)

lemma placed_refl [simp]: "placed n n"
  by (simp add: placed_def)

lemma placed_trans: "placed n n' \<Longrightarrow> placed n' n'' \<Longrightarrow> placed n n''"
  by (auto simp: placed_def)

definition settled :: "manager \<Rightarrow> manager \<Rightarrow> bool" where
  "settled m m' \<longleftrightarrow> (\<forall>j n n'. get_node m j = Some n \<longrightarrow> get_node m' j = Some n' \<longrightarrow> placed n n')
     \<and> (\<forall>i s. hm_get (m_terminals m) i = Some s \<longrightarrow> hm_get (m_terminals m') i = Some s)
     \<and> (g_shutting_down (m_graph m) \<longrightarrow> g_shutting_down (m_graph m')) \<and> m_limits m' = m_limits m"

lemma ages_settled: "ages m m' \<Longrightarrow> settled m m'"
  unfolding settled_def ages_def aged_def get_node_def by (metis older_placed option.inject)

text \<open>The three ways a creation changes the graph beyond aging it: a node is added, its actor is installed
  and published, a reservation is taken back.\<close>

lemma settled_graph:
  assumes "\<And>j n'. hm_get (g_nodes (f (m_graph m))) j = Some n' \<Longrightarrow> \<exists>n. get_node m j = Some n \<and> placed n n'"
    and "g_shutting_down (f (m_graph m)) = g_shutting_down (m_graph m)"
    and "graves_ok m" "down_ok m"
  shows "settled m (on_graph f m) \<and> graves_ok (on_graph f m) \<and> down_ok (on_graph f m)"
proof (intro conjI)
  show "settled m (on_graph f m)" using assms(1,2) by (fastforce simp: settled_def get_node_def)
  show "graves_ok (on_graph f m)"
    unfolding graves_ok_def using assms(1,3) by (metis get_node_def graves_ok_def not_None_eq on_graph_frame(1) on_graph_frame(3))
  show "down_ok (on_graph f m)"
    using assms(1,2,4) by (fastforce simp: down_ok_def wound_down_def placed_def get_node_def)
qed

definition lasting :: "manager \<Rightarrow> manager \<Rightarrow> bool" where
  "lasting m m' \<longleftrightarrow> settled m m' \<and> graves_ok m' \<and> down_ok m'"

lemma ages_lasting: "ages m m' \<Longrightarrow> graves_ok m \<Longrightarrow> down_ok m \<Longrightarrow> lasting m m'"
  by (simp add: lasting_def ages_settled ages_graves ages_down)

lemma lasting_graph:
  "(\<And>j n'. hm_get (g_nodes (f (m_graph m))) j = Some n' \<Longrightarrow> \<exists>n. get_node m j = Some n \<and> placed n n') \<Longrightarrow>
    g_shutting_down (f (m_graph m)) = g_shutting_down (m_graph m) \<Longrightarrow> graves_ok m \<Longrightarrow> down_ok m \<Longrightarrow> lasting m (on_graph f m)"
  unfolding lasting_def using settled_graph by blast

lemma lasting_same_left: "same_graph m m1 \<Longrightarrow> lasting m1 m2 \<Longrightarrow> lasting m m2"
  by (simp add: lasting_def settled_def same_graph_def get_node_def)

lemma lasting_add:
  assumes "graves_ok m" and fresh: "get_node m i = None" "\<not> hm_contains (m_terminals m) i" and "\<not> g_shutting_down g" "\<not> g_shutting_down (m_graph m)"
    and get: "\<And>j n'. j \<noteq> i \<Longrightarrow> hm_get (g_nodes g) j = Some n' \<Longrightarrow> \<exists>n. get_node m j = Some n \<and> placed n n'"
  shows "lasting m (m\<lparr>m_graph := g\<rparr>)"
proof -
  have "placed n n'" if "get_node m j = Some n" "hm_get (g_nodes g) j = Some n'" for j n n'
    using get [of j n'] fresh that by (cases "j = i") auto
  moreover have "hm_get (g_nodes g) j = None" if "hm_contains (m_terminals m) j" for j
    using get [of j] fresh that assms(1) by (cases "hm_get (g_nodes g) j") (auto simp: graves_ok_def)
  ultimately show ?thesis using assms by (auto simp: lasting_def settled_def graves_ok_def down_ok_def get_node_def)
qed

lemma lasting_root: "graves_ok m \<Longrightarrow> fresh_agent i m \<Longrightarrow> reserve_root i m = Inr (m', res) \<Longrightarrow> lasting m m'"
  by (auto simp: reserve_root_def take_reservation_def insert_node_def bump_def Let_def fresh_agent_def hm_contains_def get_node_def hm_simps
      intro!: lasting_add split: if_splits)

lemma lasting_reserve_child:
  assumes ok: "manager_ok m" "graves_ok m" "down_ok m" and fresh: "fresh_agent i m"
  shows "lasting m (fst (reserve_child p current cfg meta i m))"
proof -
  let ?m = "reclaim_finished_closings m"
  have age: "ages m ?m" using ok by (intro ages_reclaim)
  have "lasting m (?m\<lparr>m_graph := fst (add_child p i meta owner pn (m_graph ?m))\<rparr>)" if run: "\<not> g_shutting_down (m_graph m)" "get_node ?m p = Some pn" for owner pn
  proof -
    let ?g = "fst (add_child p i meta owner pn (m_graph ?m))"
    have i: "get_node ?m i = None" "\<not> hm_contains (m_terminals ?m) i" "get_node m i = None" "\<not> hm_contains (m_terminals m) i"
      using fresh ages_fresh [OF age fresh] by (auto simp: fresh_agent_def get_node_def hm_contains_def)
    have get: "\<exists>n. get_node ?m j = Some n \<and> placed n n'" if "j \<noteq> i" "hm_get (g_nodes ?g) j = Some n'" for j n'
      using that run by (auto simp: add_child_def take_reservation_def insert_node_def bump_def modify_node_def hm_simps get_node_def placed_def split: if_splits)
    have "\<not> g_shutting_down ?g" "\<not> g_shutting_down (m_graph ?m)" using run reclaim_frame(5) [OF ok(1)]
      by (simp_all add: add_child_def take_reservation_def insert_node_def bump_def modify_node_def)
    with get i ages_graves [OF age ok(2)] have last: "lasting ?m (?m\<lparr>m_graph := ?g\<rparr>)" by (intro lasting_add) auto
    have "placed n n'" if "get_node m j = Some n" "hm_get (g_nodes ?g) j = Some n'" for j n n'
    proof -
      have "j \<noteq> i" using that i by auto
      with get [of j n'] that obtain k where k: "get_node ?m j = Some k" "placed k n'" by blast
      moreover obtain n0 where "get_node m j = Some n0" "older n0 k"
        using agedD [of "m_graph m" "m_graph ?m" j k] age k(1) by (auto simp: ages_def get_node_def)
      ultimately show ?thesis using that(1) by (auto intro: placed_trans older_placed)
    qed
    then show ?thesis using last age run(1) by (auto simp: lasting_def settled_def ages_def get_node_def)
  qed
  then show ?thesis using ages_lasting [OF age ok(2,3)] ages_lasting [OF ages_refl ok(2,3)] spawn_allowed [of p current ?m]
    by (auto simp: reserve_child_def Let_def split: option.split prod.split if_split) (metis fst_conv option.sel)+
qed

lemma get_rollback:
  assumes "graph_ok L g" "hm_get (g_nodes (rollback_reservation i res g)) j = Some n'"
  shows "\<exists>n. hm_get (g_nodes g) j = Some n \<and> (n' = n \<or> n' = without i n)"
proof (cases "hm_get (g_nodes g) i")
  case (Some n)
  have "g_nodes (rollback_reservation i res g) = g_nodes g
    \<or> g_nodes (rollback_reservation i res g) = g_nodes (drop_child i (n_parent n) (g\<lparr>g_nodes := hm_remove i (g_nodes g)\<rparr>))"
    using Some by (simp add: rollback_reservation_def Let_def bump_def)
  then show ?thesis using assms(2) get_drop_child [OF assms(1) Some, of j] by (auto split: if_splits)
qed (use assms(2) in \<open>simp add: rollback_reservation_def\<close>)

lemma rollback_flag: "g_shutting_down (rollback_reservation i res g) = g_shutting_down g"
  by (simp add: rollback_reservation_def drop_child_def modify_node_def bump_def Let_def split: option.split)

lemma lasting_rollback: "manager_ok m \<Longrightarrow> graves_ok m \<Longrightarrow> down_ok m \<Longrightarrow> lasting m (on_graph (rollback_reservation i res) m)"
proof (rule lasting_graph)
  fix j n'
  assume "manager_ok m" "hm_get (g_nodes (rollback_reservation i res (m_graph m))) j = Some n'"
  then show "\<exists>n. get_node m j = Some n \<and> placed n n'"
    unfolding get_node_def manager_ok_def by (metis get_rollback older_placed older_refl older_without)
qed (simp_all add: rollback_flag)

lemma lasting_install:
  assumes ok: "manager_ok m" "graves_ok m" "down_ok m"
  shows "lasting m (fst (commit_install i res r m))"
proof (cases "can_commit i res (m_graph m)")
  case False
  have "lasting (on_actor r shutdown m) (on_graph (rollback_reservation i res) (on_actor r shutdown m))"
    using ok by (intro lasting_rollback) (simp_all add: graves_ok_def down_ok_def)
  then have "lasting m (on_graph (rollback_reservation i res) (on_actor r shutdown m))" by (rule lasting_same_left [OF same_graph_actor])
  then show ?thesis using False by (simp add: commit_install_def)
next
  case True
  then obtain n where n: "get_node m i = Some n" "n_lifecycle n = Reserved \<or> n_lifecycle n = Closing"
    by (auto simp: can_commit_def get_node_def split: option.splits)
  let ?set = "modify_node i (\<lambda>n. n\<lparr>n_cancel_on_commit := False, n_actor := Some r, n_task := Some r\<rparr>)"
  have 1: "lasting m (on_graph ?set m)"
    using ok by (intro lasting_graph) (auto simp: modify_node_def hm_simps get_node_def placed_def split: if_splits)
  have 2: "lasting m (on_graph (\<lambda>g. publish_node i (?set g)) m)" if "n_lifecycle n \<noteq> Closing"
    using ok n that by (intro lasting_graph) (auto simp: publish_node_def bump_def modify_node_def hm_simps get_node_def placed_def split: if_splits)
  have "on_graph (publish_node i) (on_graph ?set m) = on_graph (\<lambda>g. publish_node i (?set g)) m" by (simp add: on_graph_def)
  then have "lasting m (on_graph (publish_node i) (on_graph ?set m))" if "n_lifecycle n \<noteq> Closing" using 2 [OF that] by (simp only:)
  then show ?thesis using True n 1 by (simp add: commit_install_def Let_def)
qed

lemma lasting_publish: "graves_ok m \<Longrightarrow> down_ok m \<Longrightarrow> lasting m (fst (commit_publish i res m))"
proof (cases "can_publish i res (m_graph m)")
  case True
  assume "graves_ok m" "down_ok m"
  with True have "lasting m (on_graph (publish_node i) m)"
    by (intro lasting_graph) (auto simp: can_publish_def publish_node_def bump_def modify_node_def hm_simps get_node_def placed_def split: option.splits if_splits)
  with True show ?thesis by (simp add: commit_publish_def)
qed (simp add: commit_publish_def ages_lasting)

lemma lasting_spawn: "manager_ok m \<Longrightarrow> graves_ok m \<Longrightarrow> down_ok m \<Longrightarrow> fresh_agent i m \<Longrightarrow>
    lasting m (fst (spawn_child_with_config k cfg meta i m)) \<and> lasting m (fst (spawn_child_trusted_with_config rf cfg meta i m))"
  by (auto simp: spawn_child_with_config_def spawn_child_trusted_with_config_def intro: lasting_reserve_child ages_lasting split: option.split)

lemma lasting_refused:
  assumes "manager_ok m" "graves_ok m" "down_ok m"
  shows "spawn_child_with_config k cfg meta i m = (m', Inl e) \<Longrightarrow> lasting m m'"
    "spawn_child_trusted_with_config rf cfg meta i m = (m', Inl e) \<Longrightarrow> lasting m m'"
  using assms by (auto simp: spawn_child_with_config_def spawn_child_trusted_with_config_def dest!: reserve_child_refused
      intro: ages_lasting ages_reclaim split: option.splits)

lemma lasting_abort: "manager_ok m \<Longrightarrow> graves_ok m \<Longrightarrow> down_ok m \<Longrightarrow> lasting m (fst (commit_abort i res r sd m))"
proof -
  assume ok: "manager_ok m" "graves_ok m" "down_ok m"
  have "ages (on_actor r f m) (finish_failed_commit i res (on_actor r f m))" for f
    using ok by (intro ages_finish_failed) (simp_all add: graves_ok_def)
  then have "ages m (finish_failed_commit i res (on_actor r f m))" for f by (rule ages_trans [OF ages_same [OF same_graph_actor]])
  then show ?thesis using ok by (simp add: commit_abort_def ages_lasting)
qed

lemma creation_step_lasting:
  "creation_step s s' \<Longrightarrow> manager_ok (fst s) \<Longrightarrow> graves_ok (fst s) \<Longrightarrow> down_ok (fst s) \<Longrightarrow> lasting (fst s) (fst s')"
proof (induction rule: creation_step.induct)
  case (create_child i m k cfg meta m' res cs)
  then show ?case using lasting_spawn [of m i k cfg meta] by simp
next
  case (create_trusted i m r cfg meta m' res cs)
  then show ?case using lasting_spawn [of m i undefined cfg meta r] by simp
next
  case (factory_done i res cs cfg prep len m m' r)
  then have "lasting m (fst (commit_spawn i cfg prep len m))"
    by (auto simp: commit_spawn_def Let_def lasting_def settled_def graves_ok_def down_ok_def get_node_def)
  with factory_done show ?case by simp
next
  case (install i res r cs m m' ph)
  then show ?case using lasting_install [of m i res r] by simp
next
  case (cancel_first i res r cs m)
  then show ?case by (simp add: ages_lasting ages_same)
next
  case (publish i res r cs m m' ph)
  then show ?case using lasting_publish [of m i res] by simp
qed (auto intro: lasting_root lasting_refused lasting_abort lasting_rollback)

section \<open>Whole runs\<close>

lemma system_lasting: "system s \<Longrightarrow> graves_ok (fst s) \<and> down_ok (fst s)"
proof (induction rule: system.induct)
  case (system_new ident l m)
  then show ?case by (auto simp: new_manager_def graves_ok_def down_ok_def new_graph_def hm_contains_def split: if_splits)
next
  case (system_create s s')
  then show ?case using creation_step_lasting system_ok by (auto simp: lasting_def)
next
  case (system_step m cs m')
  then show ?case using manager_step_ages [of m m'] system_ok [of "(m, cs)"] ages_graves ages_down by auto
qed

text \<open>One step of the whole system.\<close>

inductive system_moves :: "manager \<times> creation list \<Rightarrow> manager \<times> creation list \<Rightarrow> bool" where
  moves_create: "creation_step s s' \<Longrightarrow> system_moves s s'"
| moves_step: "manager_step m m' \<Longrightarrow> system_moves (m, cs) (m', cs)"

lemma system_moves_system: "system s \<Longrightarrow> system_moves s s' \<Longrightarrow> system s'"
  by (auto elim!: system_moves.cases intro: system.intros)

lemma system_moves_lasting: "system_moves s s' \<Longrightarrow> system s \<Longrightarrow> lasting (fst s) (fst s')"
proof (induction rule: system_moves.induct [consumes 1, case_names create step])
  case (create s s')
  then show ?case using system_lasting [of s] system_ok [of s] by (intro creation_step_lasting) auto
next
  case (step m m' cs)
  then show ?case using system_lasting [of "(m, cs)"] system_ok [of "(m, cs)"] by (auto intro: ages_lasting manager_step_ages)
qed

end
