(* ===== verification/Agent_Actors.thy ===== *)
theory Agent_Actors
  imports Agent_Ages
begin

text \<open>
  The actors inside the graph. What the manager relies on when it closes actors in two phases, under the
  graph lock and after it, is the locale \<open>closing_cell\<close>, which the actor model interprets. With it,
  every section of the manager is a sequence of host operations on each actor, so each actor of a running
  manager is in a state the actor alone could reach (\<open>system_actors\<close>), and every property of single
  actors holds for all actors of a manager.
\<close>

section \<open>Closing in two phases\<close>

text \<open>A store of cells of which some were captured: \<open>cuts\<close> lists the captured ones with what was taken.\<close>

definition cut_store :: "('a \<Rightarrow> 'a \<times> 'k option) \<Rightarrow> ('r \<Rightarrow> 'a) \<Rightarrow> ('r \<Rightarrow> 'a) \<Rightarrow> ('r \<times> 'k) list \<Rightarrow> bool" where
  "cut_store cap st0 st cuts \<longleftrightarrow> distinct (map fst cuts)
     \<and> (\<forall>r. case map_of cuts r of None \<Rightarrow> st r = st0 r | Some k \<Rightarrow> cap (st0 r) = (st r, Some k))"

lemma cut_storeD: "cut_store cap st0 st cuts \<Longrightarrow> case map_of cuts r of None \<Rightarrow> st r = st0 r | Some k \<Rightarrow> cap (st0 r) = (st r, Some k)"
  by (simp only: cut_store_def)

definition settle_store :: "('k \<Rightarrow> 'a \<Rightarrow> 'a) \<Rightarrow> ('r \<times> 'k) list \<Rightarrow> ('r \<Rightarrow> 'a) \<Rightarrow> 'r \<Rightarrow> 'a" where
  "settle_store settle cuts st = fold (\<lambda>(r, k) st. st(r := settle k (st r))) cuts st"

lemma settle_store_at:
  "distinct (map fst cuts) \<Longrightarrow> settle_store settle cuts st r = (case map_of cuts r of None \<Rightarrow> st r | Some k \<Rightarrow> settle k (st r))"
proof (induction cuts arbitrary: st)
  case (Cons c cuts)
  obtain r' k where c: "c = (r', k)" by (cases c)
  have "map_of cuts r' = None" using Cons.prems c by (simp add: map_of_eq_None_iff)
  with Cons c show ?case by (auto simp: settle_store_def split: option.split)
qed (simp add: settle_store_def)

definition shut_cell :: "('a \<Rightarrow> 'a \<times> 'k option) \<Rightarrow> ('k \<Rightarrow> 'a \<Rightarrow> 'a) \<Rightarrow> 'a \<Rightarrow> 'a" where
  "shut_cell cap settle a = (case cap a of (b, None) \<Rightarrow> b | (b, Some k) \<Rightarrow> settle k b)"

locale closing_cell =
  fixes opened :: "'a \<Rightarrow> bool"
    and capture :: "bool \<Rightarrow> 'a \<Rightarrow> 'a \<times> 'k option"
    and settle :: "'k \<Rightarrow> 'a \<Rightarrow> 'a"
  assumes capture_open: "opened a \<Longrightarrow> \<exists>b k. capture sd a = (b, Some k) \<and> \<not> opened b"
    and capture_shut: "\<not> opened a \<Longrightarrow> capture sd a = (a, None)"
    and settle_open: "opened (settle k a) = opened a"
begin

lemma captured_shut: "capture sd a = (b, Some k) \<Longrightarrow> \<not> opened b"
  using capture_open [of a sd] capture_shut [of a sd] by (cases "opened a") auto

lemma captured_was_open: "capture sd a = (b, Some k) \<Longrightarrow> opened a"
  using capture_shut [of a sd] by auto

lemma capture_shuts: "\<not> opened (fst (capture sd a))"
  using capture_open [of a sd] capture_shut [of a sd] by (cases "opened a") auto

lemma cut_refl: "cut_store (capture sd) st st []"
  by (simp add: cut_store_def)

lemma cut_one: "cut_store (capture sd) st (st(r := fst (capture sd (st r)))) (case snd (capture sd (st r)) of None \<Rightarrow> [] | Some k \<Rightarrow> [(r, k)])"
  using capture_open [of "st r" sd] capture_shut [of "st r" sd] by (cases "opened (st r)") (auto simp: cut_store_def)

text \<open>A captured cell is shut, so a later capture finds nothing in it.\<close>

lemma cut_append:
  assumes 1: "cut_store (capture sd) st0 st cuts" and 2: "cut_store (capture sd) st st' cuts'"
  shows "cut_store (capture sd) st0 st' (cuts @ cuts')"
proof -
  have disj: "map_of cuts r = None" if "map_of cuts' r = Some k" for r k
  proof (rule ccontr)
    assume "map_of cuts r \<noteq> None"
    then obtain k' where "capture sd (st0 r) = (st r, Some k')" using 1 by (auto simp: cut_store_def split: option.splits)
    moreover have "capture sd (st r) = (st' r, Some k)" using 2 that by (auto simp: cut_store_def split: option.splits)
    ultimately show False using captured_shut captured_was_open by blast
  qed
  have "set (map fst cuts) \<inter> set (map fst cuts') = {}"
    using disj by (metis disjoint_iff hm_contains_def hm_contains_iff list.set_map not_None_eq)
  moreover have "case map_of (cuts @ cuts') r of None \<Rightarrow> st' r = st0 r | Some k \<Rightarrow> capture sd (st0 r) = (st' r, Some k)" for r
    using cut_storeD [OF 1, of r] cut_storeD [OF 2, of r] disj [of r]
    by (cases "map_of cuts' r"; cases "map_of cuts r") (simp_all add: map_add_def)
  ultimately show ?thesis using 1 2 by (auto simp: cut_store_def)
qed

text \<open>Settling what was captured closes each captured cell as one operation and leaves the others alone.\<close>

lemma settled_at:
  "cut_store (capture sd) st0 st cuts \<Longrightarrow> settle_store settle cuts st r = (if r \<in> fst ` set cuts then shut_cell (capture sd) settle (st0 r) else st0 r)"
proof -
  assume cut: "cut_store (capture sd) st0 st cuts"
  then have at: "settle_store settle cuts st r = (case map_of cuts r of None \<Rightarrow> st r | Some k \<Rightarrow> settle k (st r))"
    by (intro settle_store_at) (simp add: cut_store_def)
  have "r \<in> fst ` set cuts \<longleftrightarrow> map_of cuts r \<noteq> None" by (simp add: map_of_eq_None_iff)
  with at cut_storeD [OF cut, of r] show ?thesis by (cases "map_of cuts r") (simp_all add: shut_cell_def)
qed

lemma shut_shuts: "\<not> opened (shut_cell (capture sd) settle a)"
  using capture_shuts [of sd a] by (cases "capture sd a") (auto simp: shut_cell_def settle_open split: option.split)

lemma shut_id: "\<not> opened a \<Longrightarrow> shut_cell (capture sd) settle a = a"
  by (simp add: shut_cell_def capture_shut)

end

lemma capture_close_life: "capture_close sd a = (b, Some k) \<Longrightarrow> lifecycle (state b) \<noteq> Open"
proof -
  assume cap: "capture_close sd a = (b, Some k)"
  have life: "lifecycle (end_prepared_publication p s) = lifecycle s" for p s by (simp add: end_prepared_publication_def split: option.split)
  from cap show ?thesis
    by (auto simp: capture_close_def Let_def case_prod_beta life take_and_fire_active_def fail_prepared_operations_def split: if_splits option.splits)
qed

interpretation actor_cut: closing_cell "\<lambda>a. lifecycle (state a) = Open" capture_close settle_close
proof
  show "\<exists>b k. capture_close sd a = (b, Some k) \<and> lifecycle (state b) \<noteq> Open" if "lifecycle (state a) = Open" for sd a
    using that by (cases rule: capture_close_cases [of sd a]) (auto dest: capture_close_life)
  show "capture_close sd a = (a, None)" if "lifecycle (state a) \<noteq> Open" for sd a
    using that by (cases rule: capture_close_cases [of sd a]) auto
  show "(lifecycle (state (settle_close k a)) = Open) = (lifecycle (state a) = Open)" for k a
    using settle_close_calm [of a k] by (simp add: calm_def)
qed

lemma shut_actor: "shut_cell (capture_close sd) settle_close a = (if sd then shutdown a else close a)"
  by (simp add: shut_cell_def close_def shutdown_def)

section \<open>Which actors a cut takes\<close>

definition node_ref :: "manager \<Rightarrow> agent_id \<Rightarrow> actor_ref option" where
  "node_ref m i = Option.bind (get_node m i) n_actor"

text \<open>The actors a section captured: each is the actor of a node among \<open>is\<close>.\<close>

definition cutting :: "bool \<Rightarrow> agent_id set \<Rightarrow> manager \<Rightarrow> manager \<Rightarrow> close_cuts \<Rightarrow> bool" where
  "cutting sd is m m' cuts \<longleftrightarrow> cut_store (capture_close sd) (m_actors m) (m_actors m') cuts
     \<and> (\<forall>r \<in> fst ` set cuts. \<exists>i \<in> is. node_ref m i = Some r) \<and> m_runners m' = m_runners m \<and> m_next_ref m' = m_next_ref m
     \<and> (\<forall>i. node_ref m' i = node_ref m i)"

lemma cutting_refl: "cutting sd {} m m []"
  by (simp add: cutting_def actor_cut.cut_refl)

lemma cutting_append: "cutting sd is m m' cuts \<Longrightarrow> cutting sd js m' m'' cuts' \<Longrightarrow> cutting sd (is \<union> js) m m'' (cuts @ cuts')"
  unfolding cutting_def by (auto intro: actor_cut.cut_append)

lemma cutting_mono: "cutting sd is m m' cuts \<Longrightarrow> is \<subseteq> js \<Longrightarrow> cutting sd js m m' cuts"
  unfolding cutting_def by blast

lemma node_ref_capture [simp]: "node_ref (fst (capture_actor sd r m)) i = node_ref m i"
  by (simp add: node_ref_def)

lemma cutting_capture: "node_ref m i = Some r \<Longrightarrow> cutting sd {i} m (fst (capture_actor sd r m)) (snd (capture_actor sd r m))"
proof -
  assume ref: "node_ref m i = Some r"
  have "cut_store (capture_close sd) (m_actors m) (m_actors (fst (capture_actor sd r m))) (snd (capture_actor sd r m))"
    using actor_cut.cut_one [of sd "m_actors m" r] by (simp add: capture_actor_def case_prod_beta)
  moreover have "fst ` set (snd (capture_actor sd r m)) \<subseteq> {r}" by (auto simp: capture_actor_def split: prod.splits option.splits)
  ultimately show ?thesis using ref by (auto simp: cutting_def)
qed

lemma cutting_on_graph: "(\<And>i. node_ref (on_graph f m') i = node_ref m' i) \<Longrightarrow> cutting sd is m m' cuts \<Longrightarrow> cutting sd is m (on_graph f m') cuts"
  by (simp add: cutting_def)

lemma node_ref_mark [simp]: "node_ref (on_graph (modify_node i (\<lambda>n. n\<lparr>n_lifecycle := l\<rparr>)) m) j = node_ref m j"
  by (cases "get_node m i") (auto simp: node_ref_def get_node_def modify_node_def hm_simps)

lemma node_ref_bump [simp]: "node_ref (on_graph bump m) j = node_ref m j"
  by (simp add: node_ref_def get_node_def bump_def)

lemma node_ref_revoke [simp]: "node_ref (on_graph (revoke_turn i t) m) j = node_ref m j"
  by (simp add: node_ref_def get_node_def revoke_turn_def)

definition counts :: "manager \<Rightarrow> agent_id \<Rightarrow> bool" where
  "counts m i = (case get_node m i of None \<Rightarrow> False | Some n \<Rightarrow> consumes_capacity (n_lifecycle n))"

lemma counts_close_node: "counts (fst (close_node i s)) j = counts (fst s) j"
  unfolding counts_def get_node_def close_node_graph mark_closing_def modify_node_def
  by (auto simp: hm_simps split: option.split)

lemma cutting_close_node:
  assumes cut: "cutting False is m0 (fst s) (snd (snd s))"
  shows "cutting False (if counts (fst s) i then insert i is else is) m0 (fst (close_node i s)) (snd (snd (close_node i s)))"
proof -
  obtain m changed cuts where s: "s = (m, changed, cuts)" by (cases s)
  show ?thesis
  proof (cases "counts m i")
    case True
    then obtain n where n: "get_node m i = Some n" "consumes_capacity (n_lifecycle n)" by (auto simp: counts_def split: option.splits)
    have "cutting False {i} m (fst (case n_actor n of None \<Rightarrow> (m, []) | Some r \<Rightarrow> capture_actor False r m))
       (snd (case n_actor n of None \<Rightarrow> (m, []) | Some r \<Rightarrow> capture_actor False r m))"
      using n(1) cutting_capture [of m i] cutting_mono [OF cutting_refl, of "{i}"] by (auto simp: node_ref_def split: option.split)
    from cutting_on_graph [OF node_ref_mark cutting_append [OF _ this]] cut s True n show ?thesis
      by (cases "n_actor n") (auto simp: close_node_def Let_def case_prod_beta)
  next
    case False
    then have "close_node i s = s" by (auto simp: s close_node_def counts_def split: option.splits)
    with cut False s show ?thesis by simp
  qed
qed

lemma cutting_fold_close:
  "cutting False is m0 (fst s) (snd (snd s)) \<Longrightarrow> cutting False (is \<union> {j \<in> set js. counts (fst s) j}) m0 (fst (fold close_node js s)) (snd (snd (fold close_node js s)))"
proof (induction js arbitrary: s "is")
  case (Cons j js)
  from Cons.IH [OF cutting_close_node [OF Cons.prems, of j]] show ?case
    by (rule_tac cutting_mono) (auto simp: counts_close_node split: if_splits)
qed simp

lemma cutting_subtree: "capture_subtree_locked i inc m = Inr (m', cuts) \<Longrightarrow> cutting False {j \<in> set (cut_ids i inc m). counts m j} m m' cuts"
proof (elim capture_subtree_fold)
  fix m1 changed
  assume "fold close_node (cut_ids i inc m) (m, False, []) = (m1, changed, cuts)" "m' = m1 \<or> m' = on_graph bump m1"
  with cutting_fold_close [of "{}" m "(m, False, [])" "cut_ids i inc m"] cutting_refl [of False m]
  show ?thesis by (auto intro: cutting_on_graph)
qed

lemma settle_cuts_store: "m_actors (settle_cuts cuts m) = settle_store settle_close cuts (m_actors m)"
proof -
  have "m_actors (fold (\<lambda>(r, k). on_actor r (settle_close k)) cuts m) = fold (\<lambda>(r, k) st. st(r := settle_close k (st r))) cuts (m_actors m)"
    by (induction cuts arbitrary: m) (auto simp: on_actor_def)
  then show ?thesis by (simp add: settle_cuts_def settle_store_def)
qed

lemma cutting_settled:
  "cutting sd is m m' cuts \<Longrightarrow> m_actors (settle_cuts cuts m') r =
     (if r \<in> fst ` set cuts then (if sd then shutdown else close) (m_actors m r) else m_actors m r)"
  unfolding cutting_def settle_cuts_store using actor_cut.settled_at [of sd "m_actors m" "m_actors m'" cuts r] by (simp add: shut_actor)

lemma parent_aged: "aged g g' \<Longrightarrow> parent_of g' j = Some p \<Longrightarrow> parent_of g j = Some p"
  using agedD [of g g' j] by (auto simp: parent_of_def bind_eq_Some_conv older_def)

lemma below_aged: "below g' i j \<Longrightarrow> aged g g' \<Longrightarrow> below g i j"
  by (induction rule: descends.induct) (auto intro: descends.intros dest: parent_aged)

lemma owned_children_parent: "graph_ok L (m_graph m) \<Longrightarrow> c \<in> set (owned_children i t m) \<Longrightarrow> parent_of (m_graph m) c = Some i"
  using link_child [of L "m_graph m" i _ c] by (cases "get_node m i") (auto simp: owned_children_def get_node_def)

lemma cut_child_below:
  assumes ok: "graph_ok L2 (m_graph m2)" "graph_ok L (m_graph m)" "aged (m_graph m) (m_graph m2)" and c: "parent_of (m_graph m) c = Some i"
  shows "set (cut_ids c True m2) \<subseteq> {j. below (m_graph m) i j \<and> j \<noteq> i}"
proof
  fix j assume "j \<in> set (cut_ids c True m2)"
  then have "below (m_graph m2) c j" using set_subtree_ids [OF ok(1)] by (simp add: cut_ids_def)
  then have cj: "below (m_graph m) c j" using ok(3) by (rule below_aged)
  moreover have "j \<noteq> i" using below_depth [OF cj ok(2)] parent_depth [OF ok(2) c] by auto
  ultimately show "j \<in> {j. below (m_graph m) i j \<and> j \<noteq> i}"
    using descends_trans [OF cj descends_child [of "parent_of (m_graph m)"]] c by simp
qed

text \<open>Closing the children of a turn takes the actors of nodes strictly below it.\<close>

lemma cutting_turn_children:
  assumes ok: "manager_ok m"
  shows "cutting False {j. below (m_graph m) i j \<and> j \<noteq> i} m (fst (capture_turn_children i turn m)) (snd (capture_turn_children i turn m))"
proof (cases turn)
  case None
  then show ?thesis using cutting_mono [OF cutting_refl] by (simp add: capture_turn_children_def)
next
  case (Some t)
  let ?m1 = "on_graph (revoke_turn i t) m"
  let ?below = "{j. below (m_graph m) i j \<and> j \<noteq> i}"
  let ?f = "\<lambda>c (m, cuts). case capture_subtree_locked c True m of Inl _ \<Rightarrow> (m, cuts) | Inr (m', ks) \<Rightarrow> (m', cuts @ ks)"
  define P where "P s \<longleftrightarrow> manager_ok (fst s) \<and> aged (m_graph m) (m_graph (fst s)) \<and> cutting False ?below m (fst s) (snd s)" for s
  have ok1: "manager_ok ?m1" using ok by (auto intro: manager_ok_graph graph_ok_revoke)
  have init: "P (?m1, [])" unfolding P_def using ok1 cutting_on_graph [OF node_ref_revoke cutting_mono [OF cutting_refl]] by simp
  have step: "P (?f c s)" if c: "parent_of (m_graph m) c = Some i" and P: "P s" for c s
  proof (cases s)
    case (Pair m2 cuts)
    show ?thesis
    proof (cases "capture_subtree_locked c True m2")
      case (Inr res)
      obtain m3 ks where res: "res = (m3, ks)" by (cases res)
      have cap: "capture_subtree_locked c True m2 = Inr (m3, ks)" using Inr res by simp
      have "set (cut_ids c True m2) \<subseteq> ?below"
        using P Pair ok c by (intro cut_child_below [of "m_limits m2" m2 "m_limits m" m c i]) (simp_all add: P_def manager_ok_def)
      then have "{j \<in> set (cut_ids c True m2). counts m2 j} \<subseteq> ?below" by blast
      from cutting_append [of False ?below m m2 cuts, OF _ cutting_mono [OF cutting_subtree [OF cap] this]] P Pair
      have "cutting False ?below m m3 (cuts @ ks)" by (simp add: P_def)
      moreover have "manager_ok m3" "aged (m_graph m) (m_graph m3)"
        using capture_subtree_ok [OF _ cap] ages_capture_subtree [OF cap] P Pair by (auto simp: P_def ages_def intro: aged_trans)
      ultimately show ?thesis by (simp add: Pair cap P_def)
    qed (use P Pair in simp)
  qed
  have "parent_of (m_graph m) c = Some i" if "c \<in> set (owned_children i t ?m1)" for c
    using owned_children_parent [OF _ that, of "m_limits ?m1"] ok1 by (simp add: manager_ok_def revoke_turn_def parent_of_def)
  then have "P (fold ?f (owned_children i t ?m1) (?m1, []))"
    by (rule fold_invariant [where Q = "\<lambda>c. parent_of (m_graph m) c = Some i"]) (assumption, rule init, rule step)
  then show ?thesis by (simp add: P_def capture_turn_children_def Some Let_def)
qed

section \<open>One actor per node\<close>

definition spawned :: "creation list \<Rightarrow> actor_ref list" where
  "spawned cs = List.map_filter (\<lambda>(_, _, ph). case ph of Spawned r \<Rightarrow> Some r | _ \<Rightarrow> None) cs"

lemma spawned_simps [simp]:
  "spawned [] = []" "spawned ((i, res, Spawned r) # cs) = r # spawned cs"
  "spawned ((i, res, Building) # cs) = spawned cs" "spawned ((i, res, Aborting r sd) # cs) = spawned cs"
  "spawned ((i, res, Cancelling r) # cs) = spawned cs" "spawned ((i, res, Publishing r) # cs) = spawned cs"
  by (simp_all add: spawned_def map_filter_def)

lemma spawned_Cons: "spawned (c # cs) = (case snd (snd c) of Spawned r \<Rightarrow> [r] | _ \<Rightarrow> []) @ spawned cs"
  by (simp add: spawned_def map_filter_def case_prod_beta split: creation_phase.split)

lemma spawned_append [simp]: "spawned (cs @ ds) = spawned cs @ spawned ds"
  by (simp add: spawned_def map_filter_def)

lemma spawned_after [simp]: "spawned (creation_after i res r ph) = []"
  by (cases ph) simp_all

lemma set_spawned_remove1: "set (spawned (remove1 c cs)) \<subseteq> set (spawned cs)"
  by (induction cs) (auto simp: spawned_Cons)

lemma distinct_spawned_remove1: "distinct (spawned cs) \<Longrightarrow> distinct (spawned (remove1 c cs))"
proof (induction cs)
  case (Cons d cs)
  then show ?case using set_spawned_remove1 [of c cs] by (auto simp: spawned_Cons split: creation_phase.splits)
qed simp

lemma spawned_removed: "distinct (spawned cs) \<Longrightarrow> (i, res, Spawned r) \<in> set cs \<Longrightarrow> r \<in> set (spawned cs) \<and> r \<notin> set (spawned (remove1 (i, res, Spawned r) cs))"
proof (induction cs)
  case (Cons d cs)
  then show ?case using set_spawned_remove1 [of "(i, res, Spawned r)" cs] by (auto simp: spawned_Cons split: creation_phase.splits)
qed simp

definition refs_ok :: "manager \<times> creation list \<Rightarrow> bool" where
  "refs_ok s \<longleftrightarrow> (\<forall>i r. node_ref (fst s) i = Some r \<longrightarrow> r < m_next_ref (fst s))
     \<and> (\<forall>i j r. node_ref (fst s) i = Some r \<longrightarrow> node_ref (fst s) j = Some r \<longrightarrow> i = j)
     \<and> distinct (spawned (snd s)) \<and> (\<forall>r \<in> set (spawned (snd s)). r < m_next_ref (fst s) \<and> (\<forall>i. node_ref (fst s) i \<noteq> Some r))"

lemma refs_ok_less:
  assumes "refs_ok (m, cs)" "\<And>i r. node_ref m' i = Some r \<Longrightarrow> node_ref m i = Some r" "m_next_ref m' = m_next_ref m"
    "set (spawned cs') \<subseteq> set (spawned cs)" "distinct (spawned cs')"
  shows "refs_ok (m', cs')"
  using assms unfolding refs_ok_def fst_conv snd_conv by (metis subsetD)

lemma refs_ok_drop:
  "refs_ok (m, cs) \<Longrightarrow> (\<And>i r. node_ref m' i = Some r \<Longrightarrow> node_ref m i = Some r) \<Longrightarrow> m_next_ref m' = m_next_ref m \<Longrightarrow> spawned ds = [] \<Longrightarrow>
    refs_ok (m', ds @ remove1 c cs)"
  by (rule refs_ok_less [of m cs]) (simp_all add: set_spawned_remove1 distinct_spawned_remove1 refs_ok_def)

lemma node_ref_aged: "aged (m_graph m) (m_graph m') \<Longrightarrow> node_ref m' i = Some r \<Longrightarrow> node_ref m i = Some r"
  using agedD [of "m_graph m" "m_graph m'" i] by (auto simp: node_ref_def get_node_def bind_eq_Some_conv older_def)

lemma refs_ok_ages: "refs_ok (m, cs) \<Longrightarrow> ages m m' \<Longrightarrow> refs_ok (m', cs)"
  by (rule refs_ok_less) (auto simp: ages_def refs_ok_def intro: node_ref_aged)

lemma node_ref_reserve:
  assumes "manager_ok m" "graves_ok m" "fresh_agent i m" "node_ref (fst (reserve_child p current cfg meta i m)) j = Some r"
  shows "node_ref m j = Some r"
proof -
  let ?m = "reclaim_finished_closings m"
  have earlier: "node_ref ?m j = Some r \<Longrightarrow> node_ref m j = Some r"
    using node_ref_aged [of m ?m j r] ages_reclaim [OF assms(1,2)] by (simp add: ages_def)
  have added: "node_ref ?m j = Some r" if "get_node ?m p = Some pn" "node_ref (?m\<lparr>m_graph := fst (add_child p i meta owner pn (m_graph ?m))\<rparr>) j = Some r" for owner pn
    using that by (auto simp: add_child_def take_reservation_def insert_node_def bump_def modify_node_def hm_simps node_ref_def get_node_def new_node_def
      split: if_splits)
  show ?thesis using assms(4) earlier added spawn_allowed [of p current ?m]
    by (auto simp: reserve_child_def Let_def split: option.splits prod.splits if_splits) (metis fst_conv option.sel)+
qed

lemma refs_ok_reserve: "refs_ok (m, cs) \<Longrightarrow> manager_ok m \<Longrightarrow> graves_ok m \<Longrightarrow> fresh_agent i m \<Longrightarrow>
    refs_ok (fst (reserve_child p current cfg meta i m), (i, res, Building) # cs)"
proof (rule refs_ok_less)
  assume ok: "manager_ok m"
  show "m_next_ref (fst (reserve_child p current cfg meta i m)) = m_next_ref m"
    using reclaim_frame(7) [OF ok] by (auto simp: reserve_child_def Let_def split: option.split prod.split)
qed (auto simp: refs_ok_def intro: node_ref_reserve)

lemma refs_ok_spawn:
  "refs_ok (m, cs) \<Longrightarrow> commit_spawn i cfg prep len m = (m', r) \<Longrightarrow> (i, res, Building) \<in> set cs \<Longrightarrow> refs_ok (m', (i, res, Spawned r) # remove1 (i, res, Building) cs)"
  using set_spawned_remove1 [of "(i, res, Building)" cs] distinct_spawned_remove1 [of cs "(i, res, Building)"]
  unfolding refs_ok_def commit_spawn_def Let_def by (fastforce simp: node_ref_def get_node_def)

lemma node_ref_rollback: "manager_ok m \<Longrightarrow> node_ref (on_graph (rollback_reservation i res) m) j = Some r \<Longrightarrow> node_ref m j = Some r"
  using get_rollback [of "m_limits m" "m_graph m" i res j] by (auto simp: manager_ok_def node_ref_def get_node_def bind_eq_Some_conv)

lemma node_ref_install:
  assumes "can_commit i res (m_graph m)"
  shows "node_ref (fst (commit_install i res r m)) j = (if j = i then Some r else node_ref m j)" "m_next_ref (fst (commit_install i res r m)) = m_next_ref m"
  using assms by (auto simp: commit_install_def can_commit_def Let_def node_ref_def get_node_def modify_node_def publish_node_def bump_def hm_simps
    split: option.splits)

lemma refs_ok_install:
  assumes ok: "refs_ok (m, cs)" "manager_ok m" and c: "(i, res, Spawned r) \<in> set cs"
  shows "refs_ok (fst (commit_install i res r m), creation_after i res r ph @ remove1 (i, res, Spawned r) cs)"
proof (cases "can_commit i res (m_graph m)")
  case False
  have "node_ref (fst (commit_install i res r m)) j = Some r' \<Longrightarrow> node_ref m j = Some r'" for j r'
    using False node_ref_rollback [of "on_actor r shutdown m" i res j r'] ok(2) by (simp add: commit_install_def node_ref_def)
  moreover have "m_next_ref (fst (commit_install i res r m)) = m_next_ref m" using False by (simp add: commit_install_def)
  ultimately show ?thesis by (intro refs_ok_drop [OF ok(1)]) simp_all
next
  case True
  let ?cs = "remove1 (i, res, Spawned r) cs"
  have r: "r \<in> set (spawned cs)" "r \<notin> set (spawned ?cs)" "distinct (spawned ?cs)" "set (spawned ?cs) \<subseteq> set (spawned cs)"
    using spawned_removed [OF _ c] distinct_spawned_remove1 set_spawned_remove1 [of "(i, res, Spawned r)" cs] ok(1) by (auto simp: refs_ok_def)
  show ?thesis using ok(1) r unfolding refs_ok_def fst_conv snd_conv node_ref_install [OF True]
    by (auto split: if_splits)
qed

lemma node_ref_publish: "node_ref (fst (commit_publish i res m)) j = node_ref m j"
  by (cases "get_node m i") (auto simp: commit_publish_def publish_node_def bump_def modify_node_def hm_simps node_ref_def get_node_def)

lemma node_ref_root:
  assumes "reserve_root i m = Inr (m', res)"
  shows "node_ref m' j = Some r \<Longrightarrow> node_ref m j = Some r" "m_next_ref m' = m_next_ref m"
proof -
  have m': "m' = m\<lparr>m_graph := insert_node i (new_node None i 0 no_metadata res None) ((snd (take_reservation (m_graph m)))\<lparr>g_root := Some i\<rparr>)\<rparr>"
    using assms by (auto simp: reserve_root_def Let_def case_prod_beta split: if_splits)
  show "node_ref m' j = Some r \<Longrightarrow> node_ref m j = Some r" "m_next_ref m' = m_next_ref m"
    unfolding m' by (auto simp: take_reservation_def insert_node_def bump_def node_ref_def get_node_def hm_simps new_node_def split: if_splits)
qed

lemma creation_step_refs:
  "creation_step s s' \<Longrightarrow> refs_ok s \<Longrightarrow> manager_ok (fst s) \<Longrightarrow> graves_ok (fst s) \<Longrightarrow> refs_ok s'"
proof (induction rule: creation_step.induct)
  case (create_root i m m' res cs)
  then show ?case by (intro refs_ok_less [OF create_root(3)]) (auto dest: node_ref_root simp: refs_ok_def)
next
  case (create_child i m k cfg meta m' res cs)
  then show ?case using refs_ok_reserve [of m cs i "tok_agent k" "Some k" cfg meta res]
    by (auto simp: spawn_child_with_config_def split: option.splits)
next
  case (create_trusted i m r cfg meta m' res cs)
  then show ?case using refs_ok_reserve [of m cs i "ref_agent r" None cfg meta res]
    by (auto simp: spawn_child_trusted_with_config_def split: option.splits)
next
  case (create_refused k cfg meta i m m' e cs)
  then show ?case
    by (auto simp: spawn_child_with_config_def dest!: reserve_child_refused intro: refs_ok_ages ages_reclaim split: option.splits)
next
  case (create_trusted_refused r cfg meta i m m' e cs)
  then show ?case
    by (auto simp: spawn_child_trusted_with_config_def dest!: reserve_child_refused intro: refs_ok_ages ages_reclaim split: option.splits)
next
  case (factory_failed i res cs m)
  with refs_ok_drop [of m cs "on_graph (rollback_reservation i res) m" "[]"] node_ref_rollback [of m i res] show ?case by simp
next
  case (factory_done i res cs cfg prep len m m' r)
  then show ?case by (simp add: refs_ok_spawn)
next
  case (install i res r cs m m' ph)
  then show ?case using refs_ok_install [of m cs i res r ph] by simp
next
  case (abort i res r sd cs m)
  have "ages m (finish_failed_commit i res (on_actor r f m))" for f
    using abort by (intro ages_trans [OF ages_same [OF same_graph_actor] ages_finish_failed]) (simp_all add: graves_ok_def)
  then have "refs_ok (fst (commit_abort i res r sd m), cs)" using abort by (auto simp: commit_abort_def intro: refs_ok_ages)
  from refs_ok_drop [OF this, of _ "[]"] show ?case by simp
next
  case (cancel_first i res r cs m)
  from refs_ok_drop [OF this(2), of "on_actor r cancel_existing m" "[(i, res, Publishing r)]"] show ?case by (simp add: node_ref_def)
next
  case (publish i res r cs m m' ph)
  have "m_next_ref m' = m_next_ref m" using publish(2) by (auto simp: commit_publish_def split: if_splits)
  with publish(3) node_ref_publish [of i res m] publish(2) show ?case by (intro refs_ok_drop) auto
qed

lemma system_refs: "system s \<Longrightarrow> refs_ok s"
proof (induction rule: system.induct)
  case (system_new ident l m)
  then show ?case by (auto simp: new_manager_def refs_ok_def node_ref_def get_node_def new_graph_def split: if_splits)
next
  case (system_create s s')
  then show ?case using creation_step_refs system_ok system_lasting by blast
next
  case (system_step m cs m')
  then show ?case using refs_ok_ages manager_step_ages [of m m'] system_ok [of "(m, cs)"] system_lasting [of "(m, cs)"] by auto
qed

section \<open>Sections are host operations on each actor\<close>

definition hosted :: "manager \<Rightarrow> manager \<Rightarrow> bool" where
  "hosted m m' \<longleftrightarrow> (\<forall>r. host_step\<^sup>*\<^sup>* (m_actors m r) (m_actors m' r)) \<and> m_runners m' = m_runners m \<and> m_next_ref m' = m_next_ref m"

lemma hosted_refl [simp]: "hosted m m"
  by (simp add: hosted_def)

lemma hosted_trans: "hosted m m' \<Longrightarrow> hosted m' m'' \<Longrightarrow> hosted m m''"
  unfolding hosted_def by (metis rtranclp_trans)

lemma hosted_eq: "m_actors m' = m_actors m \<Longrightarrow> m_runners m' = m_runners m \<Longrightarrow> m_next_ref m' = m_next_ref m \<Longrightarrow> hosted m m'"
  by (simp add: hosted_def)

lemma hosted_on_graph [simp]: "hosted m (on_graph f m') = hosted m m'"
  by (simp add: hosted_def)

lemma hosted_on_actor: "host_step (m_actors m r) (f (m_actors m r)) \<Longrightarrow> hosted m (on_actor r f m)"
  by (auto simp: hosted_def on_actor_def)

lemma hosted_reclaim: "manager_ok m \<Longrightarrow> hosted m' m \<Longrightarrow> hosted m' (reclaim_finished_closings m)"
  using reclaim_frame [of m] by (simp add: hosted_def)

lemma hosted_cutting: "cutting sd is m m' cuts \<Longrightarrow> hosted m (settle_cuts cuts m')"
proof -
  assume cut: "cutting sd is m m' cuts"
  have "host_step a ((if sd then shutdown else close) a)" for a by (simp add: host_close host_shutdown)
  then have "host_step\<^sup>*\<^sup>* (m_actors m r) (m_actors (settle_cuts cuts m') r)" for r
    unfolding cutting_settled [OF cut] by (simp add: r_into_rtranclp)
  moreover have "m_runners (settle_cuts cuts m') = m_runners m'" "m_next_ref (settle_cuts cuts m') = m_next_ref m'"
    using same_graph_settle [of m' cuts] by (simp_all add: same_graph_def)
  ultimately show ?thesis using cut by (simp add: hosted_def cutting_def)
qed

lemma hosted_cancel_actors: "hosted m (cancel_actors rs m)"
  unfolding cancel_actors_def
  by (rule fold_invariant [where P = "hosted m" and Q = "\<lambda>_. True"]) (auto intro: hosted_trans hosted_on_actor host_cancel_existing)

lemma hosted_cancel:
  "cancel_agent i m = Inr m' \<Longrightarrow> hosted m m'" "cancel_subtree i m = Inr m' \<Longrightarrow> hosted m m'"
proof -
  have "hosted m m1" if "capture_cancel_cut i sub m = Inr (m1, rs)" for sub m1 rs
    using that by (auto simp: capture_cancel_cut_def Let_def split: option.splits if_splits)
  then show "cancel_agent i m = Inr m' \<Longrightarrow> hosted m m'" "cancel_subtree i m = Inr m' \<Longrightarrow> hosted m m'"
    by (auto simp: cancel_agent_def cancel_subtree_def split: sum.splits prod.splits intro: hosted_trans [OF _ hosted_cancel_actors])
qed

lemma hosted_close:
  "close_subtree i m = Inr m' \<Longrightarrow> hosted m m'" "close_descendants i m = Inr m' \<Longrightarrow> hosted m m'"
  by (auto simp: close_subtree_def close_descendants_def split: sum.splits prod.splits intro: hosted_cutting cutting_subtree)

text \<open>Cancelling a turn: its actor is not among the ones its children's closing takes.\<close>

lemma capacity_actor_ref: "capacity_actor i m = Inr r \<Longrightarrow> node_ref m i = Some r"
  by (auto simp: capacity_actor_def node_ref_def split: option.splits if_splits)

lemma hosted_turn_cut:
  assumes ok: "manager_ok m" "refs_ok (m, cs)" and r: "node_ref m i = Some r"
    and cap: "capture_turn_children i turn (on_actor r (\<lambda>_. a') m) = (m1, cuts)" and host: "host_step (m_actors m r) (f a')"
  shows "hosted m (settle_cuts cuts (on_actor r f m1))"
proof -
  let ?m = "on_actor r (\<lambda>_. a') m"
  have cut: "cutting False {j. below (m_graph m) i j \<and> j \<noteq> i} ?m m1 cuts"
    using cutting_turn_children [of ?m i turn] ok(1) cap by simp
  have notin: "r \<notin> fst ` set cuts"
    using cut ok(2) r by (auto simp: cutting_def refs_ok_def node_ref_def)
  have "cut_store (capture_close False) (m_actors (on_actor r (\<lambda>_. f a') m)) (m_actors (on_actor r f m1)) cuts"
  proof -
    have base: "cut_store (capture_close False) (m_actors ?m) (m_actors m1) cuts" using cut by (simp add: cutting_def)
    have "map_of cuts r = None" using notin by (simp add: map_of_eq_None_iff)
    with cut_storeD [OF base, of r] have "m_actors m1 r = a'" by (simp add: on_actor_def)
    then have "case map_of cuts r' of None \<Rightarrow> m_actors (on_actor r f m1) r' = m_actors (on_actor r (\<lambda>_. f a') m) r'
      | Some k \<Rightarrow> capture_close False (m_actors (on_actor r (\<lambda>_. f a') m) r') = (m_actors (on_actor r f m1) r', Some k)" for r'
      using cut_storeD [OF base, of r'] \<open>map_of cuts r = None\<close> by (cases "r' = r") (auto simp: on_actor_def split: option.split)
    then show ?thesis using base unfolding cut_store_def by blast
  qed
  then have "cutting False {j. below (m_graph m) i j \<and> j \<noteq> i} (on_actor r (\<lambda>_. f a') m) (on_actor r f m1) cuts"
    using cut by (simp add: cutting_def node_ref_def)
  from hosted_cutting [OF this] have "hosted (on_actor r (\<lambda>_. f a') m) (settle_cuts cuts (on_actor r f m1))" .
  moreover have "hosted m (on_actor r (\<lambda>_. f a') m)" using host by (intro hosted_on_actor)
  ultimately show ?thesis by (rule hosted_trans [rotated])
qed

lemma hosted_cancel_turn: "manager_ok m \<Longrightarrow> refs_ok (m, cs) \<Longrightarrow> hosted m (fst (manager_cancel_turn i t reason m))"
proof (cases "capacity_actor i m")
  case (Inr r)
  assume ok: "manager_ok m" "refs_ok (m, cs)"
  note ref = capacity_actor_ref [OF Inr]
  show ?thesis
  proof (cases "capture_turn_cancel t reason (m_actors m r)")
    case (Inl e)
    have "hosted m (settle_cuts (snd (capture_turn_children i (Some t) m)) (fst (capture_turn_children i (Some t) m)))"
      using cutting_turn_children [OF ok(1)] by (rule hosted_cutting)
    then show ?thesis using Inr Inl by (simp add: manager_cancel_turn_def case_prod_beta)
  next
    case cap: (Inr res)
    obtain a' d q where res: "res = (a', d, q)" by (cases res)
    have "cancel_turn_for t reason (m_actors m r) = Inr (settle_turn_cancel d q reason a')" using cap res by (simp add: cancel_turn_for_def)
    then have "host_step (m_actors m r) (settle_turn_cancel d q reason a')" by (rule host_cancel_turn)
    then show ?thesis using Inr cap res hosted_turn_cut [OF ok ref, of "Some t" a' _ _ "settle_turn_cancel d q reason"]
      by (simp add: manager_cancel_turn_def case_prod_beta)
  qed
qed (simp add: manager_cancel_turn_def)

lemma hosted_cancel_correlation: "manager_ok m \<Longrightarrow> refs_ok (m, cs) \<Longrightarrow> hosted m (fst (manager_cancel_correlation i c reason m))"
proof (cases "capacity_actor i m")
  case (Inr r)
  assume ok: "manager_ok m" "refs_ok (m, cs)"
  obtain a' turn d w where cap: "capture_correlation_cancel c reason (m_actors m r) = (a', turn, d, w)" by (metis prod_cases4)
  have "cancel_correlation c reason (m_actors m r) = settle_correlation_cancel d w reason a'" by (simp add: cancel_correlation_def cap)
  then have "host_step (m_actors m r) (settle_correlation_cancel d w reason a')" by (metis host_cancel_correlation)
  then show ?thesis using Inr cap hosted_turn_cut [OF ok capacity_actor_ref [OF Inr], of turn a' _ _ "settle_correlation_cancel d w reason"]
    by (simp add: manager_cancel_correlation_def case_prod_beta)
qed (simp add: manager_cancel_correlation_def)

lemma hosted_local_cancel: "hosted m (fst (local_cancel i d m))"
proof (cases "capacity_actor i m")
  case (Inr r)
  obtain a' taken where cap: "capture_local_cancel d (m_actors m r) = (a', taken)" by (cases "capture_local_cancel d (m_actors m r)")
  then have "host_step (m_actors m r) (settle_local_cancel taken a')" by (rule host_cancel_local)
  then have "hosted m (on_actor r (\<lambda>_. settle_local_cancel taken a') (case local_turn taken of None \<Rightarrow> m | Some t \<Rightarrow> on_graph (revoke_turn i t) m))"
    by (auto simp: hosted_def on_actor_def split: option.split)
  then show ?thesis using Inr cap by (simp add: local_cancel_def Let_def)
qed (simp add: local_cancel_def)

lemma hosted_prepare_idle: "prepare_idle_subtree i m = Inr (m', owner) \<Longrightarrow> hosted m m'"
  by (auto simp: prepare_idle_subtree_def Let_def intro!: hosted_on_actor host_prepare_idle split: if_splits option.splits sum.splits prod.splits)

lemma hosted_shutdown: "hosted m (fst (manager_shutdown m))"
proof -
  let ?f = "\<lambda>i (m, cuts). case Option.bind (get_node m i) n_actor of None \<Rightarrow> (m, cuts) | Some r \<Rightarrow> (case capture_actor True r m of (m', ks) \<Rightarrow> (m', cuts @ ks))"
  have step: "cutting True UNIV m (fst (?f i s)) (snd (?f i s))" if "cutting True UNIV m (fst s) (snd s)" for i s
  proof (cases "node_ref (fst s) i")
    case (Some r)
    from cutting_append [OF that cutting_capture [OF Some, of True]] Some show ?thesis by (simp add: node_ref_def case_prod_beta)
  qed (use that in \<open>simp add: node_ref_def case_prod_beta\<close>)
  have "cutting True UNIV m (fst (fold ?f ids (m, []))) (snd (fold ?f ids (m, [])))" for ids
    by (rule fold_invariant [where P = "\<lambda>s. cutting True UNIV m (fst s) (snd s)" and Q = "\<lambda>_. True"])
      (rule TrueI, use cutting_mono [OF cutting_refl, of UNIV] in simp, rule step)
  then have cut: "cutting True UNIV m (fst (shutdown_actors ids m)) (snd (shutdown_actors ids m))" for ids by (simp add: shutdown_actors_def)
  have same: "m_actors (drop_tombstone_tasks x) = m_actors x" "m_runners (drop_tombstone_tasks x) = m_runners x"
    "m_next_ref (drop_tombstone_tasks x) = m_next_ref x" for x by (simp_all add: drop_tombstone_tasks_def)
  have "hosted m (settle_cuts (snd (shutdown_actors ids m)) (drop_tombstone_tasks (on_graph f (fst (shutdown_actors ids m)))))" for ids f
    using hosted_cutting [OF cut [of ids]] same_graph_settle [of _ "snd (shutdown_actors ids m)"]
    by (simp add: hosted_def settle_cuts_store same same_graph_def)
  then show ?thesis by (simp add: manager_shutdown_def Let_def case_prod_beta)
qed

lemma hosted_reclaims:
  assumes "manager_ok m"
  shows "hosted m (runner_done i res m)" "hosted m (snd (runner_finished i m))" "hosted m (snd (finished_nodes ids m))"
    "hosted m (finish_failed_commit i res m)"
  unfolding runner_done_def runner_finished_def finished_nodes_def finish_failed_commit_def Let_def snd_conv
  using assms by (auto intro!: hosted_reclaim manager_ok_graph graph_ok_modify graph_ok_fold_modify benigns split: option.split)

lemma hosted_fields:
  "register_managed_turn i t nonce m = Inr (m', b) \<Longrightarrow> hosted m m'" "hosted m (release_managed_turn i t nonce m)"
  "hosted m (take_finished_tasks ids m)"
  by (auto simp: register_managed_turn_def release_managed_turn_def take_finished_tasks_def Let_def split: if_splits option.splits)

section \<open>Every actor of a manager is a reachable actor\<close>

definition actors_ok :: "manager \<Rightarrow> bool" where
  "actors_ok m \<longleftrightarrow> (\<forall>r < m_next_ref m. reachable (m_actors m r, m_runners m r))"

lemma reachable_host: "host_step\<^sup>*\<^sup>* a b \<Longrightarrow> reachable (a, pc) \<Longrightarrow> reachable (b, pc)"
  by (induction rule: rtranclp_induct) (auto intro: reach_step step_host)

lemma hosted_actors: "hosted m m' \<Longrightarrow> actors_ok m \<Longrightarrow> actors_ok m'"
  unfolding hosted_def actors_ok_def by (metis reachable_host)

lemma manager_step_actors: "manager_step m m' \<Longrightarrow> manager_ok m \<Longrightarrow> refs_ok (m, cs) \<Longrightarrow> actors_ok m \<Longrightarrow> actors_ok m'"
proof (induction rule: manager_step.induct)
  case (actor_moves r m a pc)
  then show ?case using reach_step [of "(m_actors m r, m_runners m r)" "(a, pc)"] by (auto simp: actors_ok_def)
next
  case (await_finished m r)
  then show ?case by (simp add: actors_ok_def)
qed (blast intro: hosted_actors hosted_cancel hosted_close hosted_cancel_turn hosted_cancel_correlation hosted_local_cancel hosted_prepare_idle
    hosted_shutdown hosted_reclaims hosted_fields)+

lemma creation_step_actors: "creation_step s s' \<Longrightarrow> manager_ok (fst s) \<Longrightarrow> refs_ok s \<Longrightarrow> actors_ok (fst s) \<Longrightarrow> actors_ok (fst s')"
proof (induction rule: creation_step.induct)
  case (factory_done i res cs cfg prep len m m' r)
  then show ?case using reach_spawn by (auto simp: commit_spawn_def Let_def actors_ok_def less_Suc_eq)
next
  case (install i res r cs m m' ph)
  then have "hosted m m'" using hosted_on_actor [of m r shutdown] host_shutdown
    by (auto simp: commit_install_def Let_def split: if_splits)
  then show ?case using install by (auto intro: hosted_actors)
next
  case (abort i res r sd cs m)
  have "hosted m (on_actor r (if sd then shutdown else close) m)" by (intro hosted_on_actor) (simp add: host_close host_shutdown)
  then have "hosted m (fst (commit_abort i res r sd m))"
    using abort hosted_reclaims(4) [of "on_actor r (if sd then shutdown else close) m"] by (auto simp: commit_abort_def intro: hosted_trans)
  then show ?case using abort by (auto intro: hosted_actors)
next
  case (cancel_first i res r cs m)
  then show ?case using hosted_actors hosted_on_actor [of m r cancel_existing] host_cancel_existing by auto
next
  case (publish i res r cs m m' ph)
  then show ?case by (auto simp: commit_publish_def actors_ok_def split: if_splits)
qed (auto simp: actors_ok_def reserve_root_def spawn_child_with_config_def spawn_child_trusted_with_config_def reserve_child_def Let_def reclaim_frame
    split: if_splits option.splits prod.splits)

lemma system_actors: "system s \<Longrightarrow> actors_ok (fst s)"
proof (induction rule: system.induct)
  case (system_new ident l m)
  then show ?case by (auto simp: new_manager_def actors_ok_def split: if_splits)
next
  case (system_create s s')
  then show ?case using creation_step_actors system_ok system_refs by blast
next
  case (system_step m cs m')
  then show ?case using manager_step_actors [of m m' cs] system_ok [of "(m, cs)"] system_refs [of "(m, cs)"] by simp
qed

end
