(* ===== verification/Agent_Laws.thy ===== *)
theory Agent_Laws
  imports Agent_Actors
begin

text \<open>
  What the manager promises: the lemmas behind its properties. The properties themselves stand in the root
  theory, with the running manager their witnesses use.
\<close>

section \<open>The check of a descendant\<close>

lemma descendant_loop_step:
  "descendant_loop g a c j = (case hm_get (g_nodes g) j of
     None \<Rightarrow> Some (Some (UnknownAgent j))
   | Some n \<Rightarrow> if n_lifecycle n \<noteq> Live then Some (Some (NonLiveAgent j))
       else case n_parent n of None \<Rightarrow> Some (Some (NotDescendant a c)) | Some p \<Rightarrow> if p = a then Some None else descendant_loop g a c p)"
  by (subst descendant_loop.simps) (simp split: option.split)

lemma descendant_loop_total:
  assumes "graph_ok L g" shows "\<exists>e. descendant_loop g a c j = Some e"
proof (induction "depth_of g j" arbitrary: j rule: less_induct)
  case less
  show ?case
  proof (cases "parent_of g j")
    case (Some p)
    then obtain n where n: "hm_get (g_nodes g) j = Some n" "n_parent n = Some p" by (auto simp: parent_of_def bind_eq_Some_conv)
    have "\<exists>e. descendant_loop g a c p = Some e" using parent_depth [OF assms Some] by (intro less) simp
    then show ?thesis by (subst descendant_loop_step) (simp add: n)
  next
    case None
    then show ?thesis by (subst descendant_loop_step) (auto simp: parent_of_def split: option.split)
  qed
qed

text \<open>The nodes between an agent and one of its ancestors, itself included.\<close>

definition path_live :: "graph_state \<Rightarrow> agent_id \<Rightarrow> agent_id \<Rightarrow> bool" where
  "path_live g a c \<longleftrightarrow> (\<forall>j. below g j c \<and> below g a j \<and> j \<noteq> a \<longrightarrow> (\<exists>n. hm_get (g_nodes g) j = Some n \<and> n_lifecycle n = Live))"

lemma path_live_up:
  assumes ok: "graph_ok L g" and p: "parent_of g j = Some p" and a: "below g a p"
  shows "path_live g a j \<longleftrightarrow> (\<exists>n. hm_get (g_nodes g) j = Some n \<and> n_lifecycle n = Live) \<and> path_live g a p"
proof -
  have aj: "below g a j" using p a by (rule descends_up)
  have ja: "j \<noteq> a" using below_depth [OF a ok] parent_depth [OF ok p] by auto
  have up: "below g k j \<longleftrightarrow> k = j \<or> below g k p" for k
    using p by (subst descends.simps) auto
  show ?thesis unfolding path_live_def up using aj ja by metis
qed

lemma descendant_loop_iff:
  assumes ok: "graph_ok L g"
  shows "descendant_loop g a c j = Some None \<longleftrightarrow> j \<noteq> a \<and> below g a j \<and> path_live g a j"
proof (induction "depth_of g j" arbitrary: j rule: less_induct)
  case less
  show ?case
  proof (cases "parent_of g j")
    case None
    then have "\<not> (j \<noteq> a \<and> below g a j)" by (subst descends.simps) auto
    moreover have "descendant_loop g a c j \<noteq> Some None"
      using None by (subst descendant_loop_step) (auto simp: parent_of_def split: option.split)
    ultimately show ?thesis by blast
  next
    case (Some p)
    then obtain n where n: "hm_get (g_nodes g) j = Some n" "n_parent n = Some p" by (auto simp: parent_of_def bind_eq_Some_conv)
    have IH: "descendant_loop g a c p = Some None \<longleftrightarrow> p \<noteq> a \<and> below g a p \<and> path_live g a p"
      using less [of p] parent_depth [OF ok Some] by simp
    have step: "descendant_loop g a c j = Some None \<longleftrightarrow> n_lifecycle n = Live \<and> (p = a \<or> descendant_loop g a c p = Some None)"
      by (subst descendant_loop_step) (simp add: n)
    have "path_live g a a" using below_antisym [OF ok] by (auto simp: path_live_def)
    moreover have "j = a \<Longrightarrow> \<not> below g a p" using below_depth [OF _ ok, of a p] parent_depth [OF ok Some] by auto
    moreover have "j \<noteq> a \<Longrightarrow> below g a j \<longleftrightarrow> below g a p" using Some by (subst descends.simps) auto
    ultimately show ?thesis unfolding step IH using path_live_up [OF ok Some] n(1) descends_refl [of "parent_of g" a]
      by (cases "p = a") auto
  qed
qed

section \<open>What closing a subtree does\<close>

lemma counts_node: "counts m j \<Longrightarrow> \<exists>n. get_node m j = Some n \<and> consumes_capacity (n_lifecycle n)"
  by (auto simp: counts_def split: option.splits)

lemma cutting_stays_shut: "cutting sd is m m' cuts \<Longrightarrow> \<not> actor_open m r \<Longrightarrow> \<not> actor_open m' r"
proof -
  assume cut: "cutting sd is m m' cuts" and shut: "\<not> actor_open m r"
  then have "cut_store (capture_close sd) (m_actors m) (m_actors m') cuts" by (simp add: cutting_def)
  from cut_storeD [OF this, of r] shut actor_cut.capture_shut [of "m_actors m r" sd] show ?thesis
    by (auto simp: actor_open_def split: option.splits)
qed

lemma close_node_shuts:
  assumes "counts (fst s) i" "node_ref (fst s) i = Some r"
  shows "\<not> actor_open (fst (close_node i s)) r"
proof -
  obtain m changed cuts where s: "s = (m, changed, cuts)" by (cases s)
  obtain n where n: "get_node m i = Some n" "consumes_capacity (n_lifecycle n)" "n_actor n = Some r"
    using assms s counts_node [of m i] by (auto simp: node_ref_def)
  have "m_actors (fst (close_node i s)) r = fst (capture_close False (m_actors m r))"
    using n by (simp add: s close_node_def capture_actor_def Let_def case_prod_beta)
  then show ?thesis using actor_cut.capture_shuts by (simp add: actor_open_def)
qed

lemma node_ref_close_node [simp]: "node_ref (fst (close_node i s)) j = node_ref (fst s) j"
  unfolding node_ref_def get_node_def close_node_graph mark_closing_def modify_node_def
  by (cases "hm_get (g_nodes (m_graph (fst s))) i") (auto simp: hm_simps)

lemma close_node_stays_shut: "\<not> actor_open (fst s) r \<Longrightarrow> \<not> actor_open (fst (close_node i s)) r"
proof -
  assume shut: "\<not> actor_open (fst s) r"
  obtain m changed cuts where s: "s = (m, changed, cuts)" by (cases s)
  have "cutting False {} m (fst (m, changed, [])) (snd (snd (m, changed, [])))" using cutting_refl by simp
  from cutting_stays_shut [OF cutting_close_node [OF this, of i], of r] shut
  have "\<not> actor_open (fst (close_node i (m, changed, []))) r" by (simp add: s)
  moreover have "fst (close_node i (m, changed, [])) = fst (close_node i s)"
    by (auto simp: s close_node_def Let_def case_prod_beta split: option.split)
  ultimately show ?thesis by simp
qed

lemma fold_close_shuts:
  "j \<in> set js \<Longrightarrow> counts (fst s) j \<Longrightarrow> node_ref (fst s) j = Some r \<Longrightarrow> \<not> actor_open (fst (fold close_node js s)) r"
proof (induction js arbitrary: s)
  case (Cons i js)
  have stays: "\<not> actor_open (fst s) r \<Longrightarrow> \<not> actor_open (fst (fold close_node js s)) r" for s js
    by (induction js arbitrary: s) (auto simp: close_node_stays_shut)
  show ?case
  proof (cases "j = i")
    case True
    with Cons.prems close_node_shuts [of s i r] stays [of "close_node i s" js] show ?thesis by simp
  next
    case False
    with Cons.prems Cons.IH [of "close_node i s"] show ?thesis by (simp add: counts_close_node)
  qed
qed simp

text \<open>The nodes and actors after \<open>capture_subtree_locked\<close> and after the cut is settled.\<close>

lemma capture_subtree_nodes:
  assumes "capture_subtree_locked i inc m = Inr (m', cuts)"
  shows "get_node m' j = map_option (\<lambda>n. if j \<in> set (cut_ids i inc m) \<and> consumes_capacity (n_lifecycle n) then n\<lparr>n_lifecycle := Closing\<rparr> else n) (get_node m j)"
proof -
  obtain m1 changed where "fold close_node (cut_ids i inc m) (m, False, []) = (m1, changed, cuts)" "m' = m1 \<or> m' = on_graph bump m1"
    by (rule capture_subtree_fold [OF assms])
  moreover from this have "m_graph m1 = fold mark_closing (cut_ids i inc m) (m_graph m)"
    using fold_close_graph [of "cut_ids i inc m" "(m, False, [])"] by simp
  ultimately show ?thesis by (auto simp: get_node_def bump_def get_mark_closing)
qed

lemma capture_subtree_shuts:
  assumes "capture_subtree_locked i inc m = Inr (m', cuts)" "j \<in> set (cut_ids i inc m)" "counts m j" "node_ref m j = Some r"
  shows "\<not> actor_open m' r"
proof -
  obtain m1 changed where "fold close_node (cut_ids i inc m) (m, False, []) = (m1, changed, cuts)" "m' = m1 \<or> m' = on_graph bump m1"
    by (rule capture_subtree_fold [OF assms(1)])
  with fold_close_shuts [of j "cut_ids i inc m" "(m, False, [])" r] assms(2-) show ?thesis by (auto simp: actor_open_def)
qed

lemma close_idem: "\<not> actor_open m r \<Longrightarrow> close (m_actors m r) = m_actors m r"
  using actor_cut.shut_id [of "m_actors m r" False] by (simp add: shut_actor actor_open_def)

lemma close_subtree_actors:
  assumes "close_subtree i m = Inr m'"
  shows "m_actors m' r = (if \<exists>j \<in> set (subtree_ids (m_graph m) i). counts m j \<and> node_ref m j = Some r then close (m_actors m r) else m_actors m r)"
proof -
  obtain m1 cuts where cap: "capture_subtree_locked i True m = Inr (m1, cuts)" and m': "m' = settle_cuts cuts m1"
    using assms by (auto simp: close_subtree_def split: sum.splits prod.splits)
  note cut = cutting_subtree [OF cap]
  have at: "m_actors m' r = (if r \<in> fst ` set cuts then close (m_actors m r) else m_actors m r)"
    using cutting_settled [OF cut, of r] by (simp add: m')
  show ?thesis
  proof (cases "\<exists>j \<in> set (subtree_ids (m_graph m) i). counts m j \<and> node_ref m j = Some r")
    case True
    then have shut: "\<not> actor_open m1 r" using capture_subtree_shuts [OF cap] by (auto simp: cut_ids_def)
    have "close (m_actors m r) = m_actors m r" if "r \<notin> fst ` set cuts"
    proof -
      have "m_actors m1 r = m_actors m r"
        using cut_storeD [of "capture_close False" "m_actors m" "m_actors m1" cuts r] that cut
        by (auto simp: cutting_def map_of_eq_None_iff [symmetric] split: option.splits)
      with shut close_idem [of m r] show ?thesis by (simp add: actor_open_def)
    qed
    with at True show ?thesis by auto
  next
    case False
    then have "r \<notin> fst ` set cuts" using cut by (auto simp: cutting_def cut_ids_def)
    with at False show ?thesis by auto
  qed
qed

section \<open>What cancelling a turn does to its children\<close>

lemma capture_subtree_active: "capture_subtree_locked i inc m = Inr (m', cuts) \<Longrightarrow> g_active (m_graph m') = g_active (m_graph m)"
proof (elim capture_subtree_fold)
  fix m1 changed
  assume "fold close_node (cut_ids i inc m) (m, False, []) = (m1, changed, cuts)" "m' = m1 \<or> m' = on_graph bump m1"
  with fold_close_graph [of "cut_ids i inc m" "(m, False, [])"] show ?thesis by (auto simp: bump_def fold_mark_frame)
qed

definition capture_child :: "agent_id \<Rightarrow> manager \<times> close_cuts \<Rightarrow> manager \<times> close_cuts" where
  "capture_child c s = (case capture_subtree_locked c True (fst s) of Inl _ \<Rightarrow> s | Inr (m', ks) \<Rightarrow> (m', snd s @ ks))"

lemma capture_turn_children_fold:
  "capture_turn_children i (Some t) m =
     fold capture_child (owned_children i t (on_graph (revoke_turn i t) m)) (on_graph (revoke_turn i t) m, [])"
proof -
  have "capture_child = (\<lambda>c (m, cuts). case capture_subtree_locked c True m of Inl _ \<Rightarrow> (m, cuts) | Inr (m', ks) \<Rightarrow> (m', cuts @ ks))"
    by (auto simp: fun_eq_iff capture_child_def split: sum.split)
  then show ?thesis by (simp add: capture_turn_children_def Let_def)
qed

lemma capture_subtree_counts: "counts m i \<Longrightarrow> \<exists>m' cuts. capture_subtree_locked i inc m = Inr (m', cuts)"
  by (auto simp: counts_def capture_subtree_locked_def Let_def split: option.splits prod.splits)

lemma capture_subtree_keeps:
  assumes "capture_subtree_locked c inc m = Inr (m', cuts)"
  shows "counts m' j = counts m j" "node_ref m' j = node_ref m j" "parent_of (m_graph m') = parent_of (m_graph m)"
proof -
  note get = capture_subtree_nodes [OF assms]
  show "counts m' j = counts m j" by (auto simp: counts_def get split: option.split)
  show "node_ref m' j = node_ref m j" by (cases "get_node m j") (auto simp: node_ref_def get)
  have "parent_of (m_graph m') k = parent_of (m_graph m) k" for k
    using get [of k] by (cases "get_node m k") (auto simp: parent_of_def get_node_def)
  then show "parent_of (m_graph m') = parent_of (m_graph m)" by (rule ext)
qed

lemma capture_child_keeps:
  "counts (fst (capture_child c s)) j = counts (fst s) j" "node_ref (fst (capture_child c s)) j = node_ref (fst s) j"
  "parent_of (m_graph (fst (capture_child c s))) = parent_of (m_graph (fst s))"
  "manager_ok (fst s) \<Longrightarrow> manager_ok (fst (capture_child c s))" "g_active (m_graph (fst (capture_child c s))) = g_active (m_graph (fst s))"
  "\<not> actor_open (fst s) r \<Longrightarrow> \<not> actor_open (fst (capture_child c s)) r"
  "get_node (fst s) j = Some n \<Longrightarrow> n_lifecycle n = Closing \<Longrightarrow> get_node (fst (capture_child c s)) j = Some n"
  by (auto simp: capture_child_def capture_subtree_keeps capture_subtree_active capture_subtree_nodes
      dest: capture_subtree_ok cutting_stays_shut [OF cutting_subtree] split: sum.split prod.split)

lemma fold_capture_keeps:
  "g_active (m_graph (fst (fold capture_child cs s))) = g_active (m_graph (fst s))"
  "\<not> actor_open (fst s) r \<Longrightarrow> \<not> actor_open (fst (fold capture_child cs s)) r"
  "get_node (fst s) j = Some n \<Longrightarrow> n_lifecycle n = Closing \<Longrightarrow> get_node (fst (fold capture_child cs s)) j = Some n"
  by (induction cs arbitrary: s) (auto simp: capture_child_keeps)

lemma fold_capture_closes:
  assumes "manager_ok (fst s)" "c \<in> set cs" "counts (fst s) c" "below (m_graph (fst s)) c j" "get_node (fst s) j = Some n" "consumes_capacity (n_lifecycle n)"
  shows "\<exists>n'. get_node (fst (fold capture_child cs s)) j = Some n' \<and> n_lifecycle n' = Closing"
    "n_actor n = Some r \<Longrightarrow> \<not> actor_open (fst (fold capture_child cs s)) r"
proof -
  have "(\<exists>n'. get_node (fst (fold capture_child cs s)) j = Some n' \<and> n_lifecycle n' = Closing)
    \<and> (n_actor n = Some r \<longrightarrow> \<not> actor_open (fst (fold capture_child cs s)) r)"
    using assms
  proof (induction cs arbitrary: s n)
    case (Cons d cs)
    show ?case
    proof (cases "c = d")
      case True
      obtain m' ks where cap: "capture_subtree_locked c True (fst s) = Inr (m', ks)" using capture_subtree_counts [OF Cons.prems(3)] by blast
      have j: "j \<in> set (cut_ids c True (fst s))"
        using Cons.prems(1,4) set_subtree_ids [of "m_limits (fst s)" "m_graph (fst s)" c] by (simp add: cut_ids_def manager_ok_def)
      have s1: "fst (capture_child d s) = m'" using cap True by (simp add: capture_child_def)
      have "get_node m' j = Some (n\<lparr>n_lifecycle := Closing\<rparr>)"
        using capture_subtree_nodes [OF cap, of j] j Cons.prems(5,6) by simp
      moreover have "\<not> actor_open m' r" if "n_actor n = Some r"
        using capture_subtree_shuts [OF cap j] that Cons.prems(5,6) by (simp add: counts_def node_ref_def)
      ultimately show ?thesis using fold_capture_keeps(2) [of "capture_child d s" r cs] fold_capture_keeps(3) [of "capture_child d s" j _ cs] True
        by (auto simp: s1)
    next
      case False
      let ?s = "capture_child d s"
      have "counts (fst ?s) j" using Cons.prems(5,6) by (simp add: capture_child_keeps) (simp add: counts_def)
      then obtain n1 where n1: "get_node (fst ?s) j = Some n1" "consumes_capacity (n_lifecycle n1)" using counts_node by blast
      moreover have "n_actor n1 = n_actor n"
        using capture_child_keeps(2) [of d s j] n1 Cons.prems(5) by (simp add: node_ref_def)
      ultimately show ?thesis using Cons.IH [of ?s n1] Cons.prems False by (simp add: capture_child_keeps)
    qed
  qed simp
  then show "\<exists>n'. get_node (fst (fold capture_child cs s)) j = Some n' \<and> n_lifecycle n' = Closing"
    "n_actor n = Some r \<Longrightarrow> \<not> actor_open (fst (fold capture_child cs s)) r" by auto
qed

text \<open>A cancelled turn: its authority is gone and what its children built is closing.\<close>

lemma owned_children_mem:
  "graph_ok L (m_graph m) \<Longrightarrow> c \<in> set (owned_children i t m) \<longleftrightarrow> (\<exists>n. get_node m c = Some n \<and> n_parent n = Some i \<and> n_owner n = Some (i, t) \<and> counts m c)"
proof -
  assume ok: "graph_ok L (m_graph m)"
  have "c \<in> set (owned_children i t m) \<longleftrightarrow> c \<in> set (children_of (m_graph m) i)
      \<and> (\<exists>n. get_node m c = Some n \<and> n_owner n = Some (i, t) \<and> consumes_capacity (n_lifecycle n))"
    by (cases "get_node m i") (auto simp: owned_children_def children_of_def get_node_def split: option.splits)
  then show ?thesis unfolding children_iff_parent [OF ok] by (auto simp: parent_of_def get_node_def counts_def)
qed

lemma get_node_revoke: "get_node (on_graph (revoke_turn j u) m) = get_node m"
  by (simp add: fun_eq_iff get_node_def revoke_turn_def)

lemma owned_children_revoke: "owned_children i t (on_graph (revoke_turn j u) m) = owned_children i t m"
  by (simp only: owned_children_def get_node_revoke)

lemma counts_revoke: "counts (on_graph (revoke_turn j u) m) c = counts m c"
  by (simp add: counts_def get_node_def revoke_turn_def)

lemma cancelled_children:
  assumes ok: "manager_ok m" and c: "get_node m c = Some cn" "n_parent cn = Some i" "n_owner cn = Some (i, t)" "consumes_capacity (n_lifecycle cn)"
    and j: "below (m_graph m) c j" "get_node m j = Some n" "consumes_capacity (n_lifecycle n)"
    and cap: "capture_turn_children i (Some t) m = (m', cuts)"
  shows "\<exists>n'. get_node m' j = Some n' \<and> n_lifecycle n' = Closing" "n_actor n = Some r \<Longrightarrow> \<not> actor_open m' r"
proof -
  let ?m = "on_graph (revoke_turn i t) m"
  have ok1: "manager_ok ?m" using ok by (auto intro: manager_ok_graph graph_ok_revoke)
  have get: "get_node ?m k = get_node m k" for k by (simp add: get_node_def revoke_turn_def)
  have below: "parent_of (revoke_turn i t (m_graph m)) = parent_of (m_graph m)" by (simp add: fun_eq_iff parent_of_def revoke_turn_def)
  have mem: "c \<in> set (owned_children i t m)"
    using owned_children_mem [of "m_limits m" m c i t] ok c by (auto simp: manager_ok_def counts_def)
  have m': "m' = fst (fold capture_child (owned_children i t m) (?m, []))"
    using cap by (simp add: capture_turn_children_fold owned_children_revoke)
  show "\<exists>n'. get_node m' j = Some n' \<and> n_lifecycle n' = Closing" "n_actor n = Some r \<Longrightarrow> \<not> actor_open m' r"
    using fold_capture_closes [of "(?m, [])" c "owned_children i t m" j n] ok1 mem j c by (auto simp: m' get below counts_def)
qed

lemma revoked_turn: "g_active (m_graph (fst (capture_turn_children i (Some t) m))) = hm_remove (i, t) (g_active (m_graph m))"
  by (simp add: capture_turn_children_fold fold_capture_keeps revoke_turn_def)

lemma cancel_turn_result:
  assumes "manager_cancel_turn i t reason m = (m', None)"
  obtains r a' d q m1 cuts where "node_ref m i = Some r" "capture_turn_cancel t reason (m_actors m r) = Inr (a', d, q)"
    "capture_turn_children i (Some t) (on_actor r (\<lambda>_. a') m) = (m1, cuts)"
    "m' = settle_cuts cuts (on_actor r (settle_turn_cancel d q reason) m1)"
  using assms capacity_actor_ref [of i m]
  by (auto simp: manager_cancel_turn_def split: sum.splits prod.splits if_splits)

lemma settle_stays_shut: "\<not> actor_open m r \<Longrightarrow> \<not> actor_open (settle_cuts cuts m) r"
proof -
  have step: "\<not> actor_open (on_actor r' (settle_close k) m) r" if "\<not> actor_open m r" for r' k m
    using that actor_cut.settle_open [of k "m_actors m r"] by (cases "r = r'") (simp_all add: actor_open_def on_actor_def)
  show "\<not> actor_open m r \<Longrightarrow> \<not> actor_open (settle_cuts cuts m) r"
    unfolding settle_cuts_def
    by (rule fold_invariant [where P = "\<lambda>m. \<not> actor_open m r" and Q = "\<lambda>_. True"]) (use step in auto)
qed

section \<open>Reclaiming\<close>

text \<open>A node that reclaiming took away has left its terminal snapshot.\<close>

lemma retire_steps_snapshot:
  "retire_step\<^sup>*\<^sup>* m m' \<Longrightarrow> graph_ok L (m_graph m) \<Longrightarrow> graves_ok m \<Longrightarrow> get_node m i \<noteq> None \<Longrightarrow> get_node m' i = None \<Longrightarrow>
    \<exists>s. hm_get (m_terminals m') i = Some s \<and> ns_agent s = i \<and> ns_lifecycle s = GraphClosed"
proof (induction rule: rtranclp_induct)
  case (step m1 m2)
  from step(2) obtain j n where j: "m2 = retire_node j m1" "get_node m1 j = Some n" by (auto elim: retire_step.cases)
  have ok: "graph_ok L (m_graph m1)" using retire_steps_ok [OF step(1) step(4)] .
  have graves: "graves_ok m1" using ages_graves [OF ages_retire_steps [OF step(1,4,5)] step(5)] .
  show ?case
  proof (cases "i = j")
    case True
    then show ?thesis using j by (simp add: retire_node_def Let_def hm_simps node_snapshot_of_def)
  next
    case False
    then have "get_node m1 i = None" using step(7) get_retire [OF ok j(2), of i] j(1) by simp
    with step obtain s where "hm_get (m_terminals m1) i = Some s" "ns_agent s = i" "ns_lifecycle s = GraphClosed" by blast
    moreover have "ages m1 m2" using ages_retire [OF ok graves j(2)] j(1) by simp
    ultimately show ?thesis by (auto simp: ages_def)
  qed
qed simp

lemma reclaim_complete:
  "manager_ok m \<Longrightarrow> get_node (reclaim_finished_closings m) i = Some n \<Longrightarrow> \<not> reclaimable (reclaim_finished_closings m) n"
proof -
  assume ok: "manager_ok m" and n: "get_node (reclaim_finished_closings m) i = Some n"
  have "graph_ok (m_limits m) (m_graph (reclaim_finished_closings m))"
    using reclaim_ok [OF ok] reclaim_frame(1) [OF ok] by (simp add: manager_ok_def)
  from retirable_iff [OF this, of i] n reclaim_ends [of m] show ?thesis by auto
qed

section \<open>Whole runs of the system\<close>

lemma runs_system: "system_moves\<^sup>*\<^sup>* s s' \<Longrightarrow> system s \<Longrightarrow> system s'"
  by (induction rule: rtranclp_induct) (auto intro: system_moves_system)

lemma runs_keep:
  "system_moves\<^sup>*\<^sup>* s s' \<Longrightarrow> system s \<Longrightarrow>
    (\<forall>i snap. hm_get (m_terminals (fst s)) i = Some snap \<longrightarrow> hm_get (m_terminals (fst s')) i = Some snap)
    \<and> (g_shutting_down (m_graph (fst s)) \<longrightarrow> g_shutting_down (m_graph (fst s'))) \<and> m_limits (fst s') = m_limits (fst s)"
proof (induction rule: rtranclp_induct)
  case (step s1 s2)
  have "lasting (fst s1) (fst s2)" using system_moves_lasting [OF step(2) runs_system [OF step(1,4)]] .
  then have "settled (fst s1) (fst s2)" by (simp add: lasting_def)
  with step show ?case by (simp add: settled_def)
qed simp

lemma wound_down_not_live: "wound_down (m_graph m) \<Longrightarrow> get_node m i = Some n \<Longrightarrow> n_lifecycle n \<noteq> Live \<and> n_lifecycle n \<noteq> Reserved"
  unfolding wound_down_def get_node_def by fastforce

lemma shutdown_refuses:
  assumes "g_shutting_down (m_graph m)"
  shows "reserve_root i m = Inl GraphShutdown" "\<exists>e. spawn_child_with_config k cfg meta i m = (m, Inl e)"
    "\<exists>e. spawn_child_trusted_with_config rf cfg meta i m = (m, Inl e)"
  using assms by (auto simp: reserve_root_def spawn_child_with_config_def spawn_child_trusted_with_config_def reserve_child_def Let_def split: option.split)

section \<open>Reservations\<close>

lemma reserve_child_result:
  assumes "reserve_child p current cfg meta i m = (m', Inr res)"
  shows "\<not> g_shutting_down (m_graph m)" "spawn_refused p current (reclaim_finished_closings m) = None"
    "\<exists>pn. get_node (reclaim_finished_closings m) p = Some pn
      \<and> m' = (reclaim_finished_closings m)\<lparr>m_graph := fst (add_child p i meta (map_option (\<lambda>k. (p, tok_turn k)) current) pn (m_graph (reclaim_finished_closings m)))\<rparr>
      \<and> res = g_next_reservation (m_graph (reclaim_finished_closings m))"
proof -
  let ?m = "reclaim_finished_closings m"
  show sd: "\<not> g_shutting_down (m_graph m)" and ref: "spawn_refused p current ?m = None"
    using assms by (auto simp: reserve_child_def Let_def split: if_splits option.splits)
  from spawn_allowed [OF ref] obtain pn where "get_node ?m p = Some pn" by blast
  moreover have "(case add_child p i meta (map_option (\<lambda>k. (p, tok_turn k)) current) (the (get_node ?m p)) (m_graph ?m) of
      (g, res) \<Rightarrow> (?m\<lparr>m_graph := g\<rparr>, Inr res :: manager_error + u64)) = (m', Inr res)"
    using assms sd ref by (auto simp: reserve_child_def Let_def split: if_splits)
  ultimately show "\<exists>pn. get_node ?m p = Some pn
      \<and> m' = ?m\<lparr>m_graph := fst (add_child p i meta (map_option (\<lambda>k. (p, tok_turn k)) current) pn (m_graph ?m))\<rparr>
      \<and> res = g_next_reservation (m_graph ?m)"
    by (auto simp: add_child_def take_reservation_def)
qed

text \<open>Taking a reservation back restores every node; only the counters remember it.\<close>

lemma rollback_add_child:
  assumes ok: "graph_ok L g" and p: "hm_get (g_nodes g) p = Some pn" and fresh: "hm_get (g_nodes g) i = None"
  shows "hm_get (g_nodes (rollback_reservation i (g_next_reservation g) (fst (add_child p i meta owner pn g)))) j = hm_get (g_nodes g) j"
    "g_active (rollback_reservation i (g_next_reservation g) (fst (add_child p i meta owner pn g))) = g_active g"
proof -
  have pi: "p \<noteq> i" using p fresh by auto
  have "i \<notin> set (n_children pn)" using link_child [OF ok p, of i] fresh by (auto simp: parent_of_def)
  then have filt: "filter (\<lambda>c. c \<noteq> i) (n_children pn) = n_children pn" by (intro filter_True) auto
  have root: "g_root g \<noteq> Some i"
    using rooted [OF ok p] fresh by (auto simp: hm_contains_def)
  show "hm_get (g_nodes (rollback_reservation i (g_next_reservation g) (fst (add_child p i meta owner pn g)))) j = hm_get (g_nodes g) j"
    using p fresh pi filt root
    by (auto simp: rollback_reservation_def add_child_def take_reservation_def insert_node_def bump_def modify_node_def drop_child_def new_node_def
        hm_simps Let_def)
  show "g_active (rollback_reservation i (g_next_reservation g) (fst (add_child p i meta owner pn g))) = g_active g"
    by (auto simp: rollback_reservation_def add_child_def take_reservation_def insert_node_def bump_def modify_node_def drop_child_def Let_def
        split: option.split)
qed

end
