(* ===== verification/Agent_Fixtures.thy ===== *)
theory Agent_Fixtures
  imports Actor_Wakeup Agent_Laws
begin

text \<open>A running manager for the witnesses: a root agent that runs a turn, and a child the turn
  spawned with its authority.\<close>

section \<open>Closing a parked actor\<close>

lemma closing_wakes:
  assumes "lifecycle (state a) = Open"
  shows "wake_pending (close a) \<and> lifecycle (state (close a)) = Closed"
    "wake_pending (shutdown a) \<and> lifecycle (state (shutdown a)) = Shutdown"
proof -
  have l: "lifecycle (state b) = (if sd then Shutdown else Closed)" if "capture_close sd a = (b, Some k)" for sd b k
    using that assms
    by (auto simp: capture_close_def Let_def case_prod_beta take_and_fire_active_def fire_active_def fail_prepared_operations_def
      split: option.splits if_splits)
  have s: "wake_pending (settle_close k b) \<and> lifecycle (state (settle_close k b)) = lifecycle (state b)" for k b
    using settle_close_calm [of b k] by (simp add: wake_pending_def calm_def) (simp add: settle_close_def Let_def case_prod_beta)
  have "wake_pending (case capture_close sd a of (a', None) \<Rightarrow> a' | (a', Some k) \<Rightarrow> settle_close k a')
     \<and> lifecycle (state (case capture_close sd a of (a', None) \<Rightarrow> a' | (a', Some k) \<Rightarrow> settle_close k a')) = (if sd then Shutdown else Closed)" for sd
  proof (cases rule: capture_close_cases [of sd a])
    case (captured b k)
    then show ?thesis using s [of k b] l [OF captured(1)] by simp
  qed (simp add: assms)
  from this [of False] this [of True] show "wake_pending (close a) \<and> lifecycle (state (close a)) = Closed"
    "wake_pending (shutdown a) \<and> lifecycle (state (shutdown a)) = Shutdown" by (simp_all add: close_def shutdown_def)
qed

lemma closing_exits: "lifecycle (state a) = Open \<Longrightarrow> actor_step (close a, Waiting) (consume_wake (close a), Exited)"
  using step_woken [of "close a"] closing_wakes(1) [of a] by simp

section \<open>A running turn\<close>

lemma drive_go: "prepared_publication (state a) = None \<Longrightarrow> idle (state a) = None \<Longrightarrow>
    drive_operations a = drive_loop (on_state (\<lambda>s. s\<lparr>idle_pending := idle_pending s \<or> has_pending_work a\<rparr>) a)"
  by (simp add: drive_operations.simps)
lemma drive_done: "operations (state a) = [] \<Longrightarrow> lifecycle (state a) = Open \<Longrightarrow> drive_loop a = set_preparing None a"
  by (simp add: drive_loop.simps)
lemma drive_turn: "operations (state a) = OpTurn op # rest \<Longrightarrow> lifecycle (state a) = Open \<Longrightarrow> preparing (state a) = None \<Longrightarrow> top_constraint op = None \<Longrightarrow>
   \<not> has_preparation a \<Longrightarrow>  drive_loop a = drive_loop (materialize_turn op None (on_state (\<lambda>s. s\<lparr>operations := rest\<rparr>)
     (on_state (modify_inbox (ticket_turn (top_ticket op)) (\<lambda>i. i\<lparr>inbox_policy := policy (state a)\<rparr>)) (set_preparing None a))))"
  by (simp add: drive_loop.simps [of a] set_preparing_def materialize.simps Let_def on_state_def)

lemmas run_evals = admit_turn_with_options_def submission_bytes_def check_instruction_capacity_def total_outstanding_def
  MAX_PENDING_INSTRUCTIONS_def MAX_PENDING_INSTRUCTION_BYTES_def MAX_RETAINED_TURN_RESULTS_def admission_refused_def
  default_options_def enter_turn_def open_turn_def adopt_presentation_def reserve_presentation_def make_submission_def
  new_inbox_def admit_ticket_def set_preparing_def spawn_task_def modify_inbox_def
  on_state_def on_queue_def spawn_actor_def idle_state_def new_queue_def new_input_def with_provenance_def new_ticket_def Let_def
  has_pending_work_def q_is_empty_def drive_go drive_done drive_turn materialize_turn_def q_push_def notify_def pop_operation_def hm_contains_def


definition run_adm :: turn_admission where
  "run_adm = \<lparr>adm_turn = TurnId 5, adm_input = Some (new_input ''hi'' []), adm_sender = None, adm_correlation = ''r1'',
     adm_work = \<lparr>work_agent = AgentId 0, work_kind = TurnKind 1 (TurnId 5), presentation_id = 1\<rparr>,
     adm_generation = 0, adm_policy = None, adm_ticket = stall_ticket, adm_snapshot = None\<rparr>"

definition run_admitted :: actor where
  "run_admitted = (spawn_actor (AgentId 0) 0 False None None False 0)
     \<lparr>state := (idle_state None)\<lparr>instructions := [(TurnId 5, (new_inbox stall_ticket 1)\<lparr>drained := [(default_provenance, 2)],
         initial := Some \<lparr>sub_id = SubmissionId 1, sub_turn = TurnId 5, sub_text = ''hi'', sub_images = [],
           already_displayed = False, sub_notice = None\<rparr>, inbox_operation := 1\<rparr>)],
       idle_pending := True, presentation := 1, next_operation_id := 1, next_submission_id := 1\<rparr>,
      queue := \<lparr>items = [TurnWork run_adm], notified = True\<rparr>,
      tickets := [(TurnId 5, stall_ticket)], latest_admitted := Some (TurnId 5)\<rparr>"

lemma run_admit: "admit_turn_with_options (\<lambda>_. Some 0) (TurnId 5) (new_input ''hi'' []) None ''r1'' default_options
     (spawn_actor (AgentId 0) 0 False None None False 0) = Inr (run_admitted, stall_ticket)"
  by (simp add: run_evals run_admitted_def run_adm_def stall_ticket_def option_or_def fun_upd_idem)

definition run_popped :: actor where
  "run_popped = run_admitted\<lparr>queue := \<lparr>items = [], notified = True\<rparr>,
     state := (state run_admitted)\<lparr>runner_busy := True, processing := Some \<lparr>proc_turn = Some (TurnId 5), proc_correlations = [''r1''], proc_reason = None\<rparr>\<rparr>\<rparr>"

lemma run_pop: "runner_pop (TurnId 6) run_admitted = (Some (TurnWork run_adm, 0), run_popped)"
  by (simp add: runner_pop_def schedule_def schedule_ready_def pop_work_def q_pop_def retire_superseded_precancels_def new_processing_def
      run_admitted_def run_popped_def run_adm_def spawn_actor_def idle_state_def on_state_def new_inbox_def hm_retain_def Let_def work_correlations.simps)

definition run_started :: actor where
  "run_started = fst (begin_turn run_adm 0 run_popped)"

lemma run_begin: "begin_turn run_adm 0 run_popped = (run_started, Some 1)"
  "lifecycle (state run_started) = Open" "status (state run_started) = Running (TurnId 5)" "active (state run_started) \<noteq> None"
  by (simp_all add: begin_turn_def all_withdrawn_def run_popped_def run_admitted_def run_adm_def spawn_actor_def idle_state_def
    recorded_reason_def install_active_def on_state_def run_started_def)

section \<open>A running manager\<close>

definition demo_cfg :: effective_config where
  "demo_cfg = \<lparr>settings = undefined, mode = Build, cfg_mode_def = None, cfg_context = \<lparr>ctx_cwd = '''', ctx_generation = 0\<rparr>, mode_authority = None\<rparr>"

definition demo_new :: manager where
  "demo_new = projr (new_manager 7 default_limits)"

definition demo_reserved :: manager where
  "demo_reserved = fst (projr (reserve_root (AgentId 0) demo_new))"

definition demo_spawned :: manager where
  "demo_spawned = fst (commit_spawn (AgentId 0) None False 0 demo_reserved)"

definition demo_root :: manager where
  "demo_root = fst (commit_install (AgentId 0) 1 0 demo_spawned)"

lemma demo_new: "new_manager 7 default_limits = Inr demo_new"
  by (simp add: demo_new_def new_manager_def default_limits_def)

lemmas demo_evals = demo_new_def demo_reserved_def demo_spawned_def demo_root_def new_manager_def default_limits_def reserve_root_def
  take_reservation_def insert_node_def bump_def new_node_def new_graph_def commit_spawn_def commit_install_def can_commit_def publish_node_def
  modify_node_def get_node_def on_graph_def Let_def

lemma demo_reserved: "reserve_root (AgentId 0) demo_new = Inr (demo_reserved, 1)"
  by (simp add: demo_evals)

lemma demo_spawned: "commit_spawn (AgentId 0) None False 0 demo_reserved = (demo_spawned, 0)"
  by (simp add: demo_evals)

lemma demo_root: "commit_install (AgentId 0) 1 0 demo_spawned = (demo_root, Committed)"
  by (simp add: demo_evals)

lemma demo_root_system: "system (demo_root, [])"
proof -
  have "system (demo_new, [])" using demo_new by (rule system_new)
  moreover have "fresh_agent (AgentId 0) demo_new" by (simp add: demo_evals fresh_agent_def hm_contains_def)
  ultimately have "system (demo_reserved, [(AgentId 0, 1, Building)])"
    using create_root [OF _ demo_reserved, of "[]"] by (blast intro: system_create)
  then have "system (demo_spawned, [(AgentId 0, 1, Spawned 0)])"
    using factory_done [OF _ demo_spawned, of 1 "[(AgentId 0, 1, Building)]"] by (auto intro: system_create)
  then show ?thesis using install [OF _ demo_root, of "[(AgentId 0, 1, Spawned 0)]"] by (auto intro: system_create)
qed

text \<open>The root runs a turn, with authority.\<close>

definition demo_running :: manager where
  "demo_running = demo_root\<lparr>m_actors := (m_actors demo_root)(0 := run_started), m_runners := (m_runners demo_root)(0 := Started run_adm 1 0)\<rparr>"

lemma demo_running_system: "system (demo_running, [])"
proof -
  define at where "at a pc = demo_root\<lparr>m_actors := (m_actors demo_root)(0 := a), m_runners := (m_runners demo_root)(0 := pc)\<rparr>" for a pc
  let ?a0 = "spawn_actor (AgentId 0) 0 False None None False 0"
  have zero: "m_actors demo_root 0 = ?a0" "m_runners demo_root 0 = AtPop" "0 < m_next_ref demo_root"
    by (simp_all add: demo_evals commit_label_def)
  have move: "system (at a' pc', [])" if "system (at a pc, [])" "actor_step (a, pc) (a', pc')" for a pc a' pc'
  proof -
    have "manager_step (at a pc) ((at a pc)\<lparr>m_actors := (m_actors (at a pc))(0 := a'), m_runners := (m_runners (at a pc))(0 := pc')\<rparr>)"
      using that(2) zero(3) by (intro actor_moves) (simp_all add: at_def)
    moreover have "(at a pc)\<lparr>m_actors := (m_actors (at a pc))(0 := a'), m_runners := (m_runners (at a pc))(0 := pc')\<rparr> = at a' pc'" by (simp add: at_def)
    ultimately show ?thesis using system_step [OF that(1)] by simp
  qed
  have "at ?a0 AtPop = demo_root" by (simp add: at_def zero(1,2) [symmetric])
  then have "system (at ?a0 AtPop, [])" using demo_root_system by simp
  moreover have "fresh_turn (TurnId 5) ?a0" by (simp add: fresh_turn_def hm_contains_def spawn_actor_def)
  ultimately have "system (at run_admitted AtPop, [])" using step_host [OF host_admit [OF _ run_admit]] by (blast intro: move)
  moreover have "fresh_turn (TurnId 6) run_admitted" by (simp add: fresh_turn_def hm_contains_def run_admitted_def spawn_actor_def)
  ultimately have "system (at run_popped (Popped (TurnWork run_adm) 0), [])" using step_pop [OF _ run_pop] by (blast intro: move)
  then have "system (at run_started (Started run_adm 1 0), [])" using step_begin_turn [OF run_begin(1)] by (auto intro: move)
  then show ?thesis by (simp add: at_def demo_running_def)
qed

definition demo_active :: manager where
  "demo_active = fst (projr (register_managed_turn (AgentId 0) (TurnId 5) 9 demo_running))"

lemma demo_active: "register_managed_turn (AgentId 0) (TurnId 5) 9 demo_running = Inr (demo_active, True)"
  by (simp add: demo_active_def register_managed_turn_def demo_running_def demo_evals run_begin)

lemma demo_active_system: "system (demo_active, [])"
  using demo_running_system do_register [OF demo_active] by (rule system_step)

text \<open>The turn spawns a child with its token.\<close>

definition demo_token :: managed_token where
  "demo_token = \<lparr>tok_manager = 7, tok_agent = AgentId 0, tok_turn = TurnId 5, tok_nonce = 9\<rparr>"

definition demo_child_reserved :: manager where
  "demo_child_reserved = fst (spawn_child_with_config demo_token demo_cfg no_metadata (AgentId 2) demo_active)"

definition demo_child_spawned :: manager where
  "demo_child_spawned = fst (commit_spawn (AgentId 2) None False 0 demo_child_reserved)"

definition demo_tree :: manager where
  "demo_tree = fst (commit_install (AgentId 2) 2 1 demo_child_spawned)"

lemma reclaim_none: "retirable m = [] \<Longrightarrow> reclaim_finished_closings m = m"
  by (simp add: reclaim_finished_closings.simps)

lemmas child_evals = demo_child_reserved_def demo_child_spawned_def demo_tree_def demo_active_def register_managed_turn_def demo_running_def demo_evals
  spawn_child_with_config_def validate_active_def token_active_def demo_token_def reserve_child_def spawn_refused_def add_child_def reclaim_none
  retirable_def reclaimable_def demo_cfg_def actor_open_def run_begin

lemma demo_child_reserved:
  "spawn_child_with_config demo_token demo_cfg no_metadata (AgentId 2) demo_active = (demo_child_reserved, Inr 2)"
  by (simp add: child_evals)

lemma demo_child_spawned: "commit_spawn (AgentId 2) None False 0 demo_child_reserved = (demo_child_spawned, 1)"
  by (simp add: child_evals)

lemma demo_tree: "commit_install (AgentId 2) 2 1 demo_child_spawned = (demo_tree, Committed)"
  by (simp add: child_evals)

lemma demo_tree_system: "system (demo_tree, [])"
proof -
  have "fresh_agent (AgentId 2) demo_active" by (simp add: child_evals fresh_agent_def hm_contains_def)
  then have "system (demo_child_reserved, [(AgentId 2, 2, Building)])"
    using create_child [OF _ demo_child_reserved, of "[]"] demo_active_system by (blast intro: system_create)
  then have "system (demo_child_spawned, [(AgentId 2, 2, Spawned 1)])"
    using factory_done [OF _ demo_child_spawned, of 2 "[(AgentId 2, 2, Building)]"] by (auto intro: system_create)
  then show ?thesis using install [OF _ demo_tree, of "[(AgentId 2, 2, Spawned 1)]"] by (auto intro: system_create)
qed

text \<open>The nodes and the actors of that manager.\<close>

lemma demo_tree_nodes:
  "get_node demo_tree (AgentId 0) = Some \<lparr>n_parent = None, n_root = AgentId 0, n_depth = 0, n_children = [AgentId 2], n_lifecycle = Live,
     n_actor = Some 0, n_task = Some 0, n_metadata = no_metadata, n_reservation = 1, n_pending = False, n_cancel_on_commit = False, n_owner = None\<rparr>"
  "get_node demo_tree (AgentId 2) = Some \<lparr>n_parent = Some (AgentId 0), n_root = AgentId 0, n_depth = 1, n_children = [], n_lifecycle = Live,
     n_actor = Some 1, n_task = Some 1, n_metadata = no_metadata, n_reservation = 2, n_pending = False, n_cancel_on_commit = False,
     n_owner = Some (AgentId 0, TurnId 5)\<rparr>"
  "m_identity demo_tree = 7" "m_limits demo_tree = default_limits" "g_active (m_graph demo_tree) = [((AgentId 0, TurnId 5), 9)]"
  "g_shutting_down (m_graph demo_tree) = False" "m_actors demo_tree 0 = run_started" "m_terminals demo_tree = []" "length (g_nodes (m_graph demo_tree)) = 2"
  by (simp_all add: child_evals)

section \<open>A retired child\<close>

text \<open>The host closes the child's actor, its runner leaves, and the task that awaits it retires the node.\<close>

definition demo_child :: actor where
  "demo_child = spawn_actor (AgentId 2) 1 True (Some None) None False 0"

definition demo_at :: "actor \<Rightarrow> runner_pc \<Rightarrow> manager" where
  "demo_at a pc = demo_tree\<lparr>m_actors := (m_actors demo_tree)(1 := a), m_runners := (m_runners demo_tree)(1 := pc)\<rparr>"

lemma demo_child_simps: "m_actors demo_tree 1 = demo_child" "m_runners demo_tree 1 = AtPop" "1 < m_next_ref demo_tree"
  by (simp_all add: child_evals commit_label_def demo_child_def no_metadata_def)

lemma demo_at_start: "demo_at demo_child AtPop = demo_tree"
  by (simp add: demo_at_def demo_child_simps(1,2) [symmetric])

lemma demo_at_move: "system (demo_at a pc, []) \<Longrightarrow> actor_step (a, pc) (a', pc') \<Longrightarrow> system (demo_at a' pc', [])"
proof -
  assume sys: "system (demo_at a pc, [])" and step: "actor_step (a, pc) (a', pc')"
  have "manager_step (demo_at a pc) ((demo_at a pc)\<lparr>m_actors := (m_actors (demo_at a pc))(1 := a'), m_runners := (m_runners (demo_at a pc))(1 := pc')\<rparr>)"
    using step demo_child_simps(3) by (intro actor_moves) (simp_all add: demo_at_def)
  moreover have "(demo_at a pc)\<lparr>m_actors := (m_actors (demo_at a pc))(1 := a'), m_runners := (m_runners (demo_at a pc))(1 := pc')\<rparr> = demo_at a' pc'"
    by (simp add: demo_at_def)
  ultimately show ?thesis using system_step [OF sys] by simp
qed

lemma demo_child_run: "runner_pop t demo_child = (None, demo_child)" "runner_drained demo_child = demo_child" "lifecycle (state demo_child) = Open"
  by (simp_all add: demo_child_def runner_pop_def schedule_def schedule_ready_def pop_work_def q_pop_def runner_drained_def
    on_state_def spawn_actor_def idle_state_def new_queue_def)

definition demo_left :: manager where
  "demo_left = demo_at (consume_wake (close demo_child)) Exited"

lemma demo_left_system: "system (demo_left, [])"
proof -
  have "fresh_turn (TurnId 5) demo_child" by (simp add: fresh_turn_def hm_contains_def demo_child_def spawn_actor_def)
  from step_drained [OF this demo_child_run(1)] have "actor_step (demo_child, AtPop) (demo_child, Waiting)" by (simp add: demo_child_run)
  moreover have "system (demo_at demo_child AtPop, [])" by (simp add: demo_at_start demo_tree_system)
  ultimately have "system (demo_at demo_child Waiting, [])" by (blast intro: demo_at_move)
  then have "system (demo_at (close demo_child) Waiting, [])" using step_host [OF host_close] by (blast intro: demo_at_move)
  then show ?thesis unfolding demo_left_def using closing_exits [OF demo_child_run(3)] by (blast intro: demo_at_move)
qed

definition demo_retired :: manager where
  "demo_retired = runner_done (AgentId 2) 2 demo_left"

lemma demo_left_frame: "m_runners demo_left 1 = Exited" "m_graph demo_left = m_graph demo_tree" "m_terminals demo_left = []"
  by (simp_all add: demo_left_def demo_at_def demo_tree_nodes)

lemma demo_retired_system: "system (demo_retired, [])"
proof -
  have "manager_step demo_left demo_retired"
    unfolding demo_retired_def
    by (rule await_done [of _ 1]) (use demo_tree_nodes(2) demo_left_frame(1) in \<open>simp_all add: demo_left_frame(2) get_node_def\<close>)
  with demo_left_system show ?thesis by (rule system_step)
qed

text \<open>The child left its terminal snapshot.\<close>

lemma demo_retired_gone: "get_node demo_retired (AgentId 2) = None"
  "\<exists>snap. hm_get (m_terminals demo_retired) (AgentId 2) = Some snap \<and> ns_lifecycle snap = GraphClosed"
proof -
  let ?m = "on_graph (\<lambda>g. bump (modify_node (AgentId 2) (\<lambda>n. n\<lparr>n_lifecycle := GraphClosed\<rparr>) g)) demo_left"
  have run: "demo_retired = reclaim_finished_closings ?m"
    using demo_tree_nodes(2) by (simp add: demo_retired_def runner_done_def demo_left_frame get_node_def)
  have ok: "manager_ok ?m" using system_ok [OF demo_left_system] by (auto intro!: manager_ok_graph graph_ok_modify benigns)
  have node: "\<exists>n. get_node ?m (AgentId 2) = Some n \<and> reclaimable ?m n"
    using demo_tree_nodes(2) by (simp add: get_node_def demo_left_frame bump_def modify_node_def hm_simps reclaimable_def)
  have graves: "graves_ok ?m" by (simp add: graves_ok_def demo_left_frame hm_contains_def)
  have steps: "retire_step\<^sup>*\<^sup>* ?m demo_retired" using reclaim_steps [of "m_limits ?m" ?m] ok run by (simp add: manager_ok_def)
  show gone: "get_node demo_retired (AgentId 2) = None"
  proof (rule ccontr)
    assume "get_node demo_retired (AgentId 2) \<noteq> None"
    then obtain n' where n': "get_node demo_retired (AgentId 2) = Some n'" by blast
    obtain n where n: "get_node ?m (AgentId 2) = Some n" "reclaimable ?m n" using node by blast
    have "ages ?m demo_retired" using ages_reclaim [OF ok graves] by (simp add: run)
    then have "older n n'" using n(1) n' by (auto simp: ages_def get_node_def dest: agedD)
    moreover have "n_lifecycle n' \<noteq> Removed"
      using graph_okD(6) [OF system_graph [OF demo_retired_system]] n' by (auto simp: stage_ok_def get_node_def)
    ultimately have "reclaimable demo_retired n'"
      using n(2) n(1) demo_tree_nodes(2) n' by (cases "n_lifecycle n'") (auto simp: reclaimable_def older_def get_node_def demo_left_frame bump_def modify_node_def hm_simps)
    with reclaim_complete [OF ok] n' show False by (simp add: run)
  qed
  show "\<exists>snap. hm_get (m_terminals demo_retired) (AgentId 2) = Some snap \<and> ns_lifecycle snap = GraphClosed"
    using retire_steps_snapshot [OF steps _ graves _ gone] ok node by (auto simp: manager_ok_def)
qed

end
