(* ===== verification/Manager_Properties.thy ===== *)
theory Manager_Properties
  imports Agent_Fixtures
begin

text \<open>
  The properties of the agent manager, each for every reachable system of a manager and the creations
  under way, with the runners of its actors interleaved with everything. The lemmas behind them are those
  of \<open>Agent_Tree\<close>, \<open>Agent_Reach\<close>, \<open>Agent_Ages\<close>, \<open>Agent_Actors\<close> and \<open>Agent_Laws\<close>.
\<close>

section \<open>The graph\<close>

text \<open>C9. The graph of a session is a tree within its limits: at most the allowed number of nodes, no node
  deeper or with more children than allowed, a node's children are exactly the nodes that name it as
  their parent and are one level deeper, and every node descends from the session's root.\<close>

theorem graph_is_bounded_tree:
  assumes "system (m, cs)" "get_node m i = Some n"
  shows "length (g_nodes (m_graph m)) \<le> max_live_agents (m_limits m) \<and> n_depth n \<le> max_agent_depth (m_limits m)
     \<and> length (n_children n) \<le> max_children_per_agent (m_limits m) \<and> distinct (n_children n)
     \<and> (\<forall>c. c \<in> set (n_children n) \<longleftrightarrow> (\<exists>cn. get_node m c = Some cn \<and> n_parent cn = Some i \<and> n_depth cn = Suc (n_depth n)))
     \<and> (\<exists>r. g_root (m_graph m) = Some r \<and> get_node m r \<noteq> None \<and> below (m_graph m) r i)"
proof -
  note ok = system_graph [OF assms(1)]
  have n: "hm_get (g_nodes (m_graph m)) i = Some n" using assms(2) by (simp add: get_node_def)
  have "c \<in> set (n_children n) \<longleftrightarrow> (\<exists>cn. get_node m c = Some cn \<and> n_parent cn = Some i \<and> n_depth cn = Suc (n_depth n))" for c
    using children_iff_parent [OF ok, of c i] link_parent [OF ok, of c _ i] n
    by (auto simp: children_of_def parent_of_def get_node_def bind_eq_Some_conv)
  moreover have "\<exists>r. g_root (m_graph m) = Some r \<and> get_node m r \<noteq> None \<and> below (m_graph m) r i"
    using rooted [OF ok n] by (auto simp: hm_contains_def get_node_def)
  ultimately show ?thesis
    using graph_okD(2,4,5) [OF ok] n by (simp add: link_ok_def within_limits_def)
qed

theorem graph_is_bounded_tree_witness:
  "system (demo_tree, []) \<and> (\<exists>n. get_node demo_tree (AgentId 2) = Some n \<and> n_depth n = 1) \<and> below (m_graph demo_tree) (AgentId 0) (AgentId 2)"
proof -
  have "g_root (m_graph demo_tree) = Some (AgentId 0)" by (simp add: child_evals)
  then show ?thesis using graph_is_bounded_tree [OF demo_tree_system demo_tree_nodes(2)] demo_tree_system by (simp add: demo_tree_nodes)
qed

text \<open>C33. The depth-first walk of \<open>subtree_ids\<close> ends on every graph a session can have, starts with the
  agent it was asked for, and visits each of its descendants exactly once.\<close>

theorem subtree_walk_ends:
  assumes "system (m, cs)"
  shows "subtree_loop (m_graph m) [i] [] = Some (subtree_ids (m_graph m) i) \<and> distinct (subtree_ids (m_graph m) i)
     \<and> set (subtree_ids (m_graph m) i) = {j. below (m_graph m) i j} \<and> hd (subtree_ids (m_graph m) i) = i"
  using subtree_loop_walk [OF system_graph [OF assms], of "[i]" "[]"] subtree_ids_walk [OF system_graph [OF assms], of i]
    distinct_subtree_ids [OF system_graph [OF assms], of i] set_subtree_ids [OF system_graph [OF assms], of i] by simp

theorem subtree_walk_ends_witness:
  "system (demo_tree, []) \<and> subtree_ids (m_graph demo_tree) (AgentId 0) = [AgentId 0, AgentId 2]
     \<and> subtree_loop (m_graph demo_tree) [AgentId 0] [] = Some [AgentId 0, AgentId 2]"
proof -
  have "subtree_ids (m_graph demo_tree) (AgentId 0) = [AgentId 0, AgentId 2]"
    using demo_tree_nodes(1,2) by (simp add: subtree_ids_def subtree_loop.simps get_node_def)
  then show ?thesis using subtree_walk_ends [OF demo_tree_system, of "AgentId 0"] demo_tree_system by simp
qed

text \<open>The check that an agent is a descendant of the calling turn's agent always ends, and it accepts
  exactly when the caller's token is the registered one, the agent is a proper descendant, and every
  agent on the way up, itself included, is live.\<close>

theorem descendant_check:
  assumes "system (m, cs)"
  shows "(\<exists>e. descendant_loop (m_graph m) a c c = Some e) \<and> (validate_descendant k c m = None \<longleftrightarrow>
       tok_manager k = m_identity m \<and> token_active k m \<and> c \<noteq> tok_agent k \<and> below (m_graph m) (tok_agent k) c
       \<and> path_live (m_graph m) (tok_agent k) c)"
proof (intro conjI)
  note ok = system_graph [OF assms]
  show "\<exists>e. descendant_loop (m_graph m) a c c = Some e" by (rule descendant_loop_total [OF ok])
  obtain e where e: "descendant_loop (m_graph m) (tok_agent k) c c = Some e" using descendant_loop_total [OF ok] by blast
  show "validate_descendant k c m = None \<longleftrightarrow> tok_manager k = m_identity m \<and> token_active k m \<and> c \<noteq> tok_agent k
      \<and> below (m_graph m) (tok_agent k) c \<and> path_live (m_graph m) (tok_agent k) c"
    using descendant_loop_iff [OF ok, of "tok_agent k" c c] by (simp add: validate_descendant_def e)
qed

theorem descendant_check_witness:
  "system (demo_tree, []) \<and> validate_descendant demo_token (AgentId 2) demo_tree = None \<and> below (m_graph demo_tree) (AgentId 0) (AgentId 2)"
proof -
  have "validate_descendant demo_token (AgentId 2) demo_tree = None"
    using demo_tree_nodes by (simp add: validate_descendant_def descendant_loop.simps token_active_def demo_token_def get_node_def)
  then show ?thesis using descendant_check [OF demo_tree_system, where k = demo_token and c = "AgentId 2"] demo_tree_system by (simp add: demo_token_def)
qed

section \<open>Closing and cancelling\<close>

text \<open>C22. Closing a subtree closes exactly that subtree: every descendant that still counts becomes closing
  and its actor is closed, all other nodes keep every field and all other actors their whole state.\<close>

theorem close_subtree_exact:
  assumes "system (m, cs)" "close_subtree i m = Inr m'"
  shows "get_node m' j = map_option (\<lambda>n. if below (m_graph m) i j \<and> consumes_capacity (n_lifecycle n) then n\<lparr>n_lifecycle := Closing\<rparr> else n) (get_node m j)
     \<and> m_actors m' r = (if \<exists>j n. below (m_graph m) i j \<and> get_node m j = Some n \<and> consumes_capacity (n_lifecycle n) \<and> n_actor n = Some r
          then close (m_actors m r) else m_actors m r)"
proof -
  obtain m1 cuts where cap: "capture_subtree_locked i True m = Inr (m1, cuts)" and m': "m' = settle_cuts cuts m1"
    using assms(2) by (auto simp: close_subtree_def split: sum.splits prod.splits)
  have sub: "set (subtree_ids (m_graph m) i) = {j. below (m_graph m) i j}" by (rule set_subtree_ids [OF system_graph [OF assms(1)]])
  have "get_node m' j = get_node m1 j" unfolding m' by (rule same_graph_get) simp
  moreover have "(\<exists>j \<in> set (subtree_ids (m_graph m) i). counts m j \<and> node_ref m j = Some r) \<longleftrightarrow>
      (\<exists>j n. below (m_graph m) i j \<and> get_node m j = Some n \<and> consumes_capacity (n_lifecycle n) \<and> n_actor n = Some r)"
    unfolding sub by (auto simp: counts_def node_ref_def bind_eq_Some_conv split: option.splits)
  ultimately show ?thesis
    using capture_subtree_nodes [OF cap, of j] close_subtree_actors [OF assms(2), of r] sub by (simp add: cut_ids_def)
qed

theorem close_subtree_exact_witness:
  "\<exists>m'. system (demo_tree, []) \<and> close_subtree (AgentId 2) demo_tree = Inr m' \<and> m_actors m' 1 = close (m_actors demo_tree 1) \<and> m_actors m' 0 = m_actors demo_tree 0"
proof -
  obtain m' where m': "close_subtree (AgentId 2) demo_tree = Inr m'"
    using capture_subtree_counts [of demo_tree "AgentId 2" True] demo_tree_nodes(2) by (auto simp: counts_def close_subtree_def)
  have sub: "below (m_graph demo_tree) (AgentId 2) j \<longleftrightarrow> j = AgentId 2" for j
    using set_subtree_ids [OF system_graph [OF demo_tree_system], of "AgentId 2"] demo_tree_nodes
    by (simp add: subtree_ids_def subtree_loop.simps get_node_def) blast
  have "m_actors m' 1 = close (m_actors demo_tree 1)" "m_actors m' 0 = m_actors demo_tree 0"
    using close_subtree_exact [OF demo_tree_system m', where r = 1] close_subtree_exact [OF demo_tree_system m', where r = 0]
    by (simp_all add: sub demo_tree_nodes)
  with m' demo_tree_system show ?thesis by blast
qed

text \<open>C5. Cancelling a turn takes its authority and what it built: its token is no longer accepted, so
  nothing can be spawned with it, and every agent below a child the turn spawned is closing, its
  actor no longer open.\<close>

theorem cancel_turn_revokes:
  assumes "system (m, cs)" "manager_cancel_turn i t reason m = (m', None)"
  shows "(\<forall>k c. tok_agent k = i \<and> tok_turn k = t \<longrightarrow> \<not> token_active k m' \<and> (\<exists>e. spawn_child_with_config k cfg meta c m' = (m', Inl e)))
     \<and> (\<forall>c cn j n. get_node m c = Some cn \<and> n_parent cn = Some i \<and> n_owner cn = Some (i, t) \<and> consumes_capacity (n_lifecycle cn)
          \<and> below (m_graph m) c j \<and> get_node m j = Some n \<and> consumes_capacity (n_lifecycle n) \<longrightarrow>
          (\<exists>n'. get_node m' j = Some n' \<and> n_lifecycle n' = Closing) \<and> (\<forall>r. n_actor n = Some r \<longrightarrow> \<not> actor_open m' r))"
proof -
  obtain r0 a' d q m1 cuts where r0: "node_ref m i = Some r0" and cap: "capture_turn_children i (Some t) (on_actor r0 (\<lambda>_. a') m) = (m1, cuts)"
    and m': "m' = settle_cuts cuts (on_actor r0 (settle_turn_cancel d q reason) m1)"
    by (rule cancel_turn_result [OF assms(2)])
  have ok: "manager_ok (on_actor r0 (\<lambda>_. a') m)" using system_ok [OF assms(1)] by simp
  have same: "m_graph m' = m_graph m1" unfolding m' by (simp add: same_graph_graph [OF same_graph_settle])
  have "g_active (m_graph m') = hm_remove (i, t) (g_active (m_graph m))"
    using revoked_turn [of i t "on_actor r0 (\<lambda>_. a') m"] cap same by simp
  then have revoked: "\<not> token_active k m'" if "tok_agent k = i" "tok_turn k = t" for k
    using that by (simp add: token_active_def hm_simps)
  then have "\<exists>e. spawn_child_with_config k cfg meta c m' = (m', Inl e)" if "tok_agent k = i" "tok_turn k = t" for k c
    using that by (auto simp: spawn_child_with_config_def validate_active_def)
  moreover have "(\<exists>n'. get_node m' j = Some n' \<and> n_lifecycle n' = Closing) \<and> (\<forall>r. n_actor n = Some r \<longrightarrow> \<not> actor_open m' r)"
    if c: "get_node m c = Some cn" "n_parent cn = Some i" "n_owner cn = Some (i, t)" "consumes_capacity (n_lifecycle cn)"
      and j: "below (m_graph m) c j" "get_node m j = Some n" "consumes_capacity (n_lifecycle n)" for c cn j n
  proof -
    note closed = cancelled_children [OF ok _ c(2-4) _ _ j(3) cap, of c j, unfolded on_actor_frame, OF c(1) j(1,2)]
    have "\<not> actor_open m' r" if r: "n_actor n = Some r" for r
    proof -
      have "r \<noteq> r0"
      proof
        assume "r = r0"
        then have "i = j" using system_refs [OF assms(1)] r0 r j(2) by (auto simp: refs_ok_def node_ref_def)
        with below_depth [OF j(1) system_graph [OF assms(1)]] parent_depth [OF system_graph [OF assms(1)], of c i] c show False
          by (auto simp: parent_of_def get_node_def)
      qed
      then have "\<not> actor_open (on_actor r0 (settle_turn_cancel d q reason) m1) r" using closed(2) [OF r] by (simp add: actor_open_def on_actor_def)
      then show ?thesis unfolding m' by (rule settle_stays_shut)
    qed
    then show ?thesis using closed(1) by (simp add: get_node_def same)
  qed
  ultimately show ?thesis using revoked by blast
qed

lemma demo_cancel: "\<exists>m'. manager_cancel_turn (AgentId 0) (TurnId 5) User demo_tree = (m', None)"
proof -
  have "hm_contains (tickets run_started) (TurnId 5)" by (simp add: run_started_def begin_turn_def run_popped_def run_admitted_def run_adm_def
      spawn_actor_def idle_state_def recorded_reason_def install_active_def on_state_def all_withdrawn_def hm_contains_def)
  then obtain x where x: "capture_turn_cancel (TurnId 5) User run_started = Inr x"
    using run_begin(2) by (simp add: capture_turn_cancel_def Let_def case_prod_beta)
  obtain a' d q where "x = (a', d, q)" by (cases x)
  with x have "snd (manager_cancel_turn (AgentId 0) (TurnId 5) User demo_tree) = None"
    using demo_tree_nodes(1,7) by (simp add: manager_cancel_turn_def capacity_actor_def case_prod_beta)
  then show ?thesis by (metis prod.collapse)
qed

theorem cancel_turn_revokes_witness:
  "\<exists>m'. system (demo_tree, []) \<and> token_active demo_token demo_tree \<and> manager_cancel_turn (AgentId 0) (TurnId 5) User demo_tree = (m', None)
     \<and> \<not> token_active demo_token m' \<and> \<not> actor_open m' 1"
proof -
  obtain m' where m': "manager_cancel_turn (AgentId 0) (TurnId 5) User demo_tree = (m', None)" using demo_cancel by blast
  note revokes = cancel_turn_revokes [OF demo_tree_system m']
  have "\<not> token_active demo_token m'" using conjunct1 [OF revokes] by (simp add: demo_token_def)
  moreover have "token_active demo_token demo_tree" by (simp add: token_active_def demo_token_def demo_tree_nodes)
  moreover have "\<not> actor_open m' 1"
    using conjunct2 [OF revokes, THEN spec [where x = "AgentId 2"], THEN spec [where x = "the (get_node demo_tree (AgentId 2))"],
        THEN spec [where x = "AgentId 2"], THEN spec [where x = "the (get_node demo_tree (AgentId 2))"]]
      descends_refl [of "parent_of (m_graph demo_tree)" "AgentId 2"] by (simp add: demo_tree_nodes(2))
  ultimately show ?thesis using m' demo_tree_system by blast
qed

section \<open>Actors and whole runs\<close>

text \<open>C23. Every actor of a manager is in a state that a lone actor with its host can reach, whatever the manager
  and the other actors did, and no two nodes share an actor: so what holds of every reachable actor
  holds of every actor of a session.\<close>

theorem managed_actors_reachable:
  assumes "system (m, cs)"
  shows "(r < m_next_ref m \<longrightarrow> reachable (m_actors m r, m_runners m r))
     \<and> (node_ref m i = Some r \<longrightarrow> r < m_next_ref m \<and> (node_ref m j = Some r \<longrightarrow> i = j))"
  using system_actors [OF assms] system_refs [OF assms] unfolding actors_ok_def refs_ok_def fst_conv by blast

theorem managed_actors_reachable_witness:
  "system (demo_tree, []) \<and> node_ref demo_tree (AgentId 0) = Some 0 \<and> reachable (run_started, m_runners demo_tree 0)"
proof -
  have "node_ref demo_tree (AgentId 0) = Some 0" by (simp add: node_ref_def demo_tree_nodes)
  then show ?thesis using managed_actors_reachable [OF demo_tree_system, of 0] managed_actors_reachable [OF demo_tree_system, of 0 "AgentId 0"]
      demo_tree_system by (simp add: demo_tree_nodes)
qed

text \<open>An agent that was retired stays retired: in every later state of the session its terminal
  snapshot is the one it left, references taken while it was a node report that snapshot, and it is never a node again.\<close>

theorem retired_agents_stay_retired:
  assumes "system s" "system_moves\<^sup>*\<^sup>* s s'" "hm_get (m_terminals (fst s)) i = Some snap"
  shows "get_node (fst s') i = None \<and> ref_snapshot \<lparr>ref_manager = mgr, ref_agent = i, ref_linked = True\<rparr> (fst s') = Inr snap"
proof -
  have "hm_get (m_terminals (fst s')) i = Some snap" using runs_keep [OF assms(2,1)] assms(3) by blast
  moreover from this have "get_node (fst s') i = None"
    using system_lasting [OF runs_system [OF assms(2,1)]] by (auto simp: graves_ok_def hm_contains_def)
  ultimately show ?thesis by (simp add: ref_snapshot_def ref_terminal_def)
qed

theorem retired_agents_stay_retired_witness:
  "\<exists>snap. system (demo_retired, []) \<and> hm_get (m_terminals demo_retired) (AgentId 2) = Some snap
     \<and> ref_snapshot \<lparr>ref_manager = 7, ref_agent = AgentId 2, ref_linked = True\<rparr> (fst (manager_shutdown demo_retired)) = Inr snap"
proof -
  obtain snap where snap: "hm_get (m_terminals demo_retired) (AgentId 2) = Some snap" using demo_retired_gone(2) by blast
  have "system_moves\<^sup>*\<^sup>* (demo_retired, []) (fst (manager_shutdown demo_retired), [])"
    by (rule r_into_rtranclp) (rule moves_step, rule do_shutdown)
  from retired_agents_stay_retired [OF demo_retired_system this] snap demo_retired_system show ?thesis by simp
qed

text \<open>C32. Shutdown is final: once the graph is shutting down it stays so in every later state, no node is
  reserved or live then, and neither a root nor a child can be created.\<close>

theorem shutdown_is_final:
  assumes "system s" "system_moves\<^sup>*\<^sup>* s s'" "g_shutting_down (m_graph (fst s))"
  shows "(\<forall>i n. get_node (fst s') i = Some n \<longrightarrow> n_lifecycle n \<noteq> Live \<and> n_lifecycle n \<noteq> Reserved)
     \<and> reserve_root i (fst s') = Inl GraphShutdown \<and> (\<exists>e. spawn_child_with_config k cfg meta i (fst s') = (fst s', Inl e))
     \<and> (\<exists>e. spawn_child_trusted_with_config rf cfg meta i (fst s') = (fst s', Inl e))"
proof -
  have down: "g_shutting_down (m_graph (fst s'))" using runs_keep [OF assms(2,1)] assms(3) by blast
  then have "wound_down (m_graph (fst s'))" using system_lasting [OF runs_system [OF assms(2,1)]] by (simp add: down_ok_def)
  then show ?thesis using shutdown_refuses [OF down] wound_down_not_live by blast
qed

lemma shutdown_flag: "g_shutting_down (m_graph (fst (manager_shutdown m)))"
  by (simp add: manager_shutdown_def Let_def case_prod_beta same_graph_graph [OF same_graph_settle] drop_tombstone_tasks_def fold_mark_frame)

theorem shutdown_is_final_witness:
  "system (fst (manager_shutdown demo_tree), []) \<and> reserve_root (AgentId 3) (snd (runner_finished (AgentId 2) (fst (manager_shutdown demo_tree)))) = Inl GraphShutdown"
proof -
  let ?m = "fst (manager_shutdown demo_tree)"
  have sys: "system (?m, [])" using demo_tree_system do_shutdown by (rule system_step)
  have "system_moves\<^sup>*\<^sup>* (?m, []) (snd (runner_finished (AgentId 2) ?m), [])"
    by (rule r_into_rtranclp) (rule moves_step, rule query_finished)
  from shutdown_is_final [OF sys this, of "AgentId 3"] shutdown_flag [of demo_tree] sys show ?thesis by simp
qed

section \<open>Creating agents\<close>

text \<open>C34. Taking a reservation back undoes it: after a factory failed, every node is what it was before the
  reservation (once closed nodes were reclaimed), and no turn gained or lost authority.\<close>

theorem rollback_undoes_reservation:
  assumes "system (m, cs)" "fresh_agent i m" "reserve_child p current cfg meta i m = (m', Inr res)"
  shows "get_node (on_graph (rollback_reservation i res) m') j = get_node (reclaim_finished_closings m) j
     \<and> g_active (m_graph (on_graph (rollback_reservation i res) m')) = g_active (m_graph (reclaim_finished_closings m))"
proof -
  let ?m = "reclaim_finished_closings m"
  obtain pn where pn: "get_node ?m p = Some pn"
    "m' = ?m\<lparr>m_graph := fst (add_child p i meta (map_option (\<lambda>k. (p, tok_turn k)) current) pn (m_graph ?m))\<rparr>"
    "res = g_next_reservation (m_graph ?m)" using reserve_child_result(3) [OF assms(3)] by blast
  have ok: "graph_ok (m_limits ?m) (m_graph ?m)" using reclaim_ok [OF system_ok [OF assms(1)]] by (simp add: manager_ok_def)
  have "hm_get (g_nodes (m_graph ?m)) i = None"
    using reclaim_fresh [OF system_graph [OF assms(1)], of i] assms(2) by (simp add: fresh_agent_def hm_contains_def get_node_def)
  from rollback_add_child [OF ok _ this, of p pn] pn show ?thesis by (simp add: get_node_def)
qed

theorem rollback_undoes_reservation_witness:
  "system (demo_active, []) \<and> get_node (on_graph (rollback_reservation (AgentId 2) 2) demo_child_reserved) (AgentId 0) = get_node demo_active (AgentId 0)"
proof -
  have "fresh_agent (AgentId 2) demo_active" by (simp add: child_evals fresh_agent_def hm_contains_def)
  moreover have "reserve_child (AgentId 0) (Some demo_token) demo_cfg no_metadata (AgentId 2) demo_active = (demo_child_reserved, Inr 2)"
    using demo_child_reserved by (simp add: spawn_child_with_config_def demo_token_def split: option.splits)
  moreover have "reclaim_finished_closings demo_active = demo_active" by (intro reclaim_none) (simp add: child_evals)
  ultimately show ?thesis using rollback_undoes_reservation [OF demo_active_system, of "AgentId 2" "AgentId 0"] demo_active_system by simp
qed

text \<open>C31. A turn spawns only with authority and within the limits: a reservation is made only if the token is
  this manager's and registered for the calling turn, the caller's node is live with an open actor and
  the limits leave room; the new node is reserved, pending, one level below the caller and owned by the
  turn.\<close>

theorem spawn_needs_authority:
  assumes "system (m, cs)" "spawn_child_with_config k cfg meta i m = (m', Inr res)"
  shows "tok_manager k = m_identity m \<and> token_active k m \<and> \<not> g_shutting_down (m_graph m)
     \<and> (\<exists>pn r. get_node (reclaim_finished_closings m) (tok_agent k) = Some pn \<and> n_lifecycle pn = Live \<and> n_actor pn = Some r \<and> actor_open m r
          \<and> Suc (n_depth pn) \<le> max_agent_depth (m_limits m) \<and> length (n_children pn) < max_children_per_agent (m_limits m)
          \<and> length (g_nodes (m_graph (reclaim_finished_closings m))) < max_live_agents (m_limits m)
          \<and> get_node m' i = Some (new_node (Some (tok_agent k)) (n_root pn) (Suc (n_depth pn)) meta res (Some (tok_agent k, tok_turn k))))"
proof -
  let ?m = "reclaim_finished_closings m"
  have valid: "validate_active k m = None" and res: "reserve_child (tok_agent k) (Some k) cfg meta i m = (m', Inr res)"
    using assms(2) by (auto simp: spawn_child_with_config_def split: option.splits)
  from reserve_child_result(3) [OF res] obtain pn where pn: "get_node ?m (tok_agent k) = Some pn"
    "m' = ?m\<lparr>m_graph := fst (add_child (tok_agent k) i meta (Some (tok_agent k, tok_turn k)) pn (m_graph ?m))\<rparr>"
    "res = g_next_reservation (m_graph ?m)" by auto
  from spawn_allowed [OF reserve_child_result(2) [OF res]] pn(1) obtain r where "n_lifecycle pn = Live" "n_actor pn = Some r" "actor_open ?m r"
    "n_depth pn + 1 \<le> max_agent_depth (m_limits ?m)" "length (n_children pn) < max_children_per_agent (m_limits ?m)"
    "length (g_nodes (m_graph ?m)) < max_live_agents (m_limits ?m)" by auto
  moreover have "get_node m' i = Some (new_node (Some (tok_agent k)) (n_root pn) (Suc (n_depth pn)) meta res (Some (tok_agent k, tok_turn k)))"
    by (simp add: pn(2,3) get_node_def add_child_def take_reservation_def insert_node_def bump_def modify_node_def hm_simps)
  moreover have "actor_open m r = actor_open ?m r" "m_limits ?m = m_limits m" for r
    using reclaim_frame [OF system_ok [OF assms(1)]] by (simp_all add: actor_open_def)
  moreover have "tok_manager k = m_identity m \<and> token_active k m" using valid by (auto simp: validate_active_def split: if_splits)
  ultimately show ?thesis using pn(1) reserve_child_result(1) [OF res] by simp
qed

theorem spawn_needs_authority_witness:
  "system (demo_active, []) \<and> spawn_child_with_config demo_token demo_cfg no_metadata (AgentId 2) demo_active = (demo_child_reserved, Inr 2)
     \<and> token_active demo_token demo_active"
  using spawn_needs_authority [OF demo_active_system demo_child_reserved] demo_active_system demo_child_reserved by blast

end
