(* ===== verification/Path_Resolution.thy ===== *)
theory Path_Resolution
  imports Prelude
begin

text \<open>
  Paths on a Unix file system and the functions of \<^verbatim>\<open>maki-storage/src/paths.rs\<close> that the permission
  checks rest on: lexical normalisation, canonicalisation one component at a time, and the check that a
  path is physically inside a directory (\<^verbatim>\<open>maki-agent/src/permissions.rs\<close>). The standard library's
  \<open>Path::components\<close>, \<open>absolute\<close> and \<open>fs::canonicalize\<close> are modelled on a file system given as a map
  from physical paths to entries. The Windows forms of paths are not modelled.
\<close>

section \<open>Paths\<close>

text \<open>Strings are UTF-8 byte strings. A path is its component list, with \<open>True\<close> for a leading root.\<close>

datatype component = CurDir | ParentDir | Normal string

type_synonym names = "string list"
type_synonym upath = "bool \<times> component list"
type_synonym pathbuf = "bool \<times> names"

fun split_on :: "char \<Rightarrow> string \<Rightarrow> string list" where
  "split_on c [] = [[]]"
| "split_on c (x # xs) = (if x = c then [] # split_on c xs
     else case split_on c xs of [] \<Rightarrow> [[x]] | p # ps \<Rightarrow> (x # p) # ps)"

definition component_of :: "string \<Rightarrow> component option" where
  "component_of p = (if p = '''' \<or> p = ''.'' then None else if p = ''..'' then Some ParentDir else Some (Normal p))"

text \<open>\<open>Path::components\<close>: repeated separators and inner dots vanish, a leading dot of a relative path is
  kept.\<close>

definition components :: "string \<Rightarrow> upath" where
  "components s =
     (let ab = (s \<noteq> [] \<and> hd s = CHR ''/''); ps = split_on (CHR ''/'') s;
          body = List.map_filter component_of ps
      in (ab, if \<not> ab \<and> hd ps = ''.'' then CurDir # body else body))"

text \<open>The components the system sees: an empty piece asks for a directory just as a dot does.\<close>

definition system_components :: "string \<Rightarrow> upath" where
  "system_components s = (s \<noteq> [] \<and> hd s = CHR ''/'',
     map (\<lambda>p. case component_of p of None \<Rightarrow> CurDir | Some c \<Rightarrow> c) (split_on (CHR ''/'') s))"

definition to_path :: "pathbuf \<Rightarrow> upath" where
  "to_path p = (fst p, map Normal (snd p))"

fun join_with :: "string \<Rightarrow> string list \<Rightarrow> string" where
  "join_with sep [] = []"
| "join_with sep [x] = x"
| "join_with sep (x # y # ys) = x @ sep @ join_with sep (y # ys)"

definition display :: "pathbuf \<Rightarrow> string" where
  "display p = (if fst p then ''/'' else '''') @ join_with ''/'' (snd p)"

text \<open>\<open>Path::starts_with\<close> compares components.\<close>

definition path_starts_with :: "pathbuf \<Rightarrow> pathbuf \<Rightarrow> bool" where
  "path_starts_with p q \<longleftrightarrow> fst p = fst q \<and> take (length (snd q)) (snd p) = snd q"

section \<open>The file system\<close>

datatype entry = Directory | Regular | Symlink upath

record env =
  env_fs :: "names \<Rightarrow> entry option"
  env_cwd :: "names option"
  env_home :: "names option"
  env_max_links :: nat

text \<open>What the operating system does to a path: it walks the components from a directory, replaces a
  symbolic link by its target, and gives up after a bounded number of links. \<open>realpath\<close> needs every
  component to exist; \<open>open_creat\<close> is the same walk for opening a file to write, where the last
  component may be missing and is created then.\<close>

fun walk_path :: "bool \<Rightarrow> (names \<Rightarrow> entry option) \<Rightarrow> nat \<Rightarrow> names \<Rightarrow> component list \<Rightarrow> names option" where
  "walk_path creat fs n cur [] = Some cur"
| "walk_path creat fs n cur (CurDir # cs) = walk_path creat fs n cur cs"
| "walk_path creat fs n cur (ParentDir # cs) = walk_path creat fs n (butlast cur) cs"
| "walk_path creat fs n cur (Normal x # cs) = (case fs (cur @ [x]) of
      None \<Rightarrow> if creat \<and> cs = [] then Some (cur @ [x]) else None
    | Some Directory \<Rightarrow> walk_path creat fs n (cur @ [x]) cs
    | Some Regular \<Rightarrow> if cs = [] then Some (cur @ [x]) else None
    | Some (Symlink (ab, target)) \<Rightarrow> (case n of
          0 \<Rightarrow> None
        | Suc m \<Rightarrow> walk_path creat fs m (if ab then [] else cur) (target @ cs)))"

abbreviation realpath :: "(names \<Rightarrow> entry option) \<Rightarrow> nat \<Rightarrow> names \<Rightarrow> component list \<Rightarrow> names option" where
  "realpath \<equiv> walk_path False"

definition start_dir :: "env \<Rightarrow> bool \<Rightarrow> names option" where
  "start_dir e ab = (if ab then Some [] else env_cwd e)"

definition canonicalize :: "env \<Rightarrow> upath \<Rightarrow> pathbuf option" where
  "canonicalize e p = Option.bind (start_dir e (fst p)) (\<lambda>d.
     map_option (Pair True) (realpath (env_fs e) (env_max_links e) d (snd p)))"

definition open_creat :: "env \<Rightarrow> upath \<Rightarrow> pathbuf option" where
  "open_creat e p = Option.bind (start_dir e (fst p)) (\<lambda>d.
     map_option (Pair True) (walk_path True (env_fs e) (env_max_links e) d (snd p)))"

text \<open>\<open>std::path::absolute\<close>, on the component list: the empty path has none.\<close>

definition absolute :: "env \<Rightarrow> upath \<Rightarrow> upath option" where
  "absolute e p = (if p = (False, []) then None
     else if fst p then Some p
     else map_option (\<lambda>d. (True, map Normal d @ filter (\<lambda>c. c \<noteq> CurDir) (snd p))) (env_cwd e))"

definition absolute_or_same :: "env \<Rightarrow> upath \<Rightarrow> upath" where
  "absolute_or_same e p = (case absolute e p of Some q \<Rightarrow> q | None \<Rightarrow> p)"

section \<open>The functions of the source\<close>

fun pop_name :: "pathbuf \<Rightarrow> pathbuf" where
  "pop_name (ab, ns) = (ab, butlast ns)"

text \<open>\<open>normalize_abs_path\<close>: a parent component pops a name and nothing else.\<close>

fun normalize_step :: "component \<Rightarrow> pathbuf \<Rightarrow> pathbuf" where
  "normalize_step CurDir cur = cur"
| "normalize_step ParentDir cur = pop_name cur"
| "normalize_step (Normal x) cur = (fst cur, snd cur @ [x])"

definition normalize_abs_path :: "upath \<Rightarrow> pathbuf" where
  "normalize_abs_path p = fold normalize_step (snd p) (fst p, [])"

definition normalize_path :: "env \<Rightarrow> upath \<Rightarrow> pathbuf" where
  "normalize_path e p = normalize_abs_path (absolute_or_same e p)"

text \<open>\<open>incremental_canonicalize\<close>: every component is resolved on the file system before the next one
  acts on it; a component that does not resolve is appended as written.\<close>

fun canonicalize_step :: "env \<Rightarrow> component \<Rightarrow> pathbuf \<Rightarrow> pathbuf" where
  "canonicalize_step e CurDir cur = cur"
| "canonicalize_step e ParentDir cur =
     (case canonicalize e (fst cur, map Normal (snd cur) @ [ParentDir]) of Some p \<Rightarrow> p | None \<Rightarrow> pop_name cur)"
| "canonicalize_step e (Normal x) cur =
     (case canonicalize e (fst cur, map Normal (snd cur) @ [Normal x]) of Some p \<Rightarrow> p | None \<Rightarrow> (fst cur, snd cur @ [x]))"

definition incremental_canonicalize :: "env \<Rightarrow> upath \<Rightarrow> pathbuf option" where
  "incremental_canonicalize e p =
     (let r = fold (canonicalize_step e) (snd p) (fst p, [])
      in if r = (False, []) then None else Some r)"

definition canonicalize_clean :: "env \<Rightarrow> string \<Rightarrow> pathbuf" where
  "canonicalize_clean e s = (case if s = [] then None else canonicalize e (system_components s) of
     Some p \<Rightarrow> p | None \<Rightarrow> normalize_path e (components s))"

definition dirs_equal :: "env \<Rightarrow> string \<Rightarrow> string \<Rightarrow> bool" where
  "dirs_equal e a b \<longleftrightarrow> a = b \<or> (a \<noteq> '''' \<and> b \<noteq> '''' \<and> canonicalize_clean e a = canonicalize_clean e b)"

text \<open>\<open>expand_tilde\<close> and \<open>canonical_key\<close>, the identity of a file.\<close>

definition expand_tilde :: "env \<Rightarrow> upath \<Rightarrow> upath" where
  "expand_tilde e p = (case (p, env_home e) of
     ((False, Normal t # rest), Some h) \<Rightarrow> if t = ''~'' then (True, map Normal h @ rest) else p
   | _ \<Rightarrow> p)"

definition canonical_key :: "env \<Rightarrow> string \<Rightarrow> pathbuf" where
  "canonical_key e s =
     (let ab = absolute_or_same e (expand_tilde e (components s))
      in case incremental_canonicalize e ab of Some p \<Rightarrow> p | None \<Rightarrow> normalize_path e ab)"

text \<open>\<open>physical_boundary_check\<close>; \<open>None\<close> if the parent cannot be resolved.\<close>

definition as_written :: "upath \<Rightarrow> pathbuf" where
  "as_written p = (fst p, map (\<lambda>c. case c of CurDir \<Rightarrow> ''.'' | ParentDir \<Rightarrow> ''..'' | Normal x \<Rightarrow> x) (snd p))"

definition physical_boundary_check :: "env \<Rightarrow> upath \<Rightarrow> upath \<Rightarrow> bool option" where
  "physical_boundary_check e parent child = map_option (\<lambda>pc.
     path_starts_with (case incremental_canonicalize e child of Some cc \<Rightarrow> cc | None \<Rightarrow> as_written child) pc)
     (incremental_canonicalize e parent)"


text \<open>A path whose last component is a symbolic link that leads nowhere.\<close>

definition dangling_link :: "env \<Rightarrow> upath \<Rightarrow> bool" where
  "dangling_link e p \<longleftrightarrow> canonicalize e p = None \<and> snd p \<noteq> [] \<and> (case last (snd p) of
     Normal x \<Rightarrow> (case canonicalize e (fst p, butlast (snd p)) of
         Some (_, d) \<Rightarrow> (case env_fs e (d @ [x]) of Some (Symlink _) \<Rightarrow> True | _ \<Rightarrow> False)
       | None \<Rightarrow> False)
   | _ \<Rightarrow> False)"

section \<open>Walks\<close>

text \<open>A place is solid if every prefix is a directory, and grounded if it is solid or a file in a solid
  place: a grounded place is where its names lead.\<close>

definition solid :: "(names \<Rightarrow> entry option) \<Rightarrow> names \<Rightarrow> bool" where
  "solid fs p \<longleftrightarrow> (\<forall>k. 0 < k \<and> k \<le> length p \<longrightarrow> fs (take k p) = Some Directory)"

definition grounded :: "(names \<Rightarrow> entry option) \<Rightarrow> names \<Rightarrow> bool" where
  "grounded fs p \<longleftrightarrow> solid fs p \<or> (p \<noteq> [] \<and> solid fs (butlast p) \<and> fs p = Some Regular)"

lemma solid_Nil [simp]: "solid fs []"
  by (simp add: solid_def)

lemma solid_snoc [simp]: "solid fs (p @ [x]) \<longleftrightarrow> solid fs p \<and> fs (p @ [x]) = Some Directory"
proof
  assume s: "solid fs (p @ [x])"
  have "fs (take k p) = Some Directory" if "0 < k" "k \<le> length p" for k
    using s that by (auto simp: solid_def dest: spec [of _ k])
  moreover have "fs (p @ [x]) = Some Directory" using s by (auto simp: solid_def dest: spec [of _ "Suc (length p)"])
  ultimately show "solid fs p \<and> fs (p @ [x]) = Some Directory" by (simp add: solid_def)
next
  assume s: "solid fs p \<and> fs (p @ [x]) = Some Directory"
  show "solid fs (p @ [x])"
    unfolding solid_def
  proof (intro allI impI)
    fix k assume k: "0 < k \<and> k \<le> length (p @ [x])"
    show "fs (take k (p @ [x])) = Some Directory"
      using s k by (cases "k = Suc (length p)") (auto simp: solid_def)
  qed
qed

lemma solid_butlast: "solid fs p \<Longrightarrow> solid fs (butlast p)"
  by (cases p rule: rev_cases) auto

lemma grounded_walk: "solid fs cur \<Longrightarrow> walk_path False fs n cur cs = Some p \<Longrightarrow> grounded fs p"
  by (induction "False" fs n cur cs rule: walk_path.induct)
    (auto simp: grounded_def solid_butlast split: option.splits entry.splits nat.splits if_splits)

lemma walk_along: "solid fs (cur @ p) \<Longrightarrow> walk_path c fs n cur (map Normal p @ cs) = walk_path c fs n (cur @ p) cs"
proof (induction p arbitrary: cur)
  case (Cons x p)
  have "fs (cur @ [x]) = Some Directory" using Cons.prems by (auto simp: solid_def dest: spec [of _ "Suc (length cur)"])
  then show ?case using Cons.IH [of "cur @ [x]"] Cons.prems by simp
qed simp

lemma walk_grounded: "grounded fs p \<Longrightarrow> walk_path c fs n [] (map Normal p) = Some p"
proof -
  assume g: "grounded fs p"
  consider "solid fs p" | q x where "p = q @ [x]" "solid fs q" "fs p = Some Regular"
    using g by (cases p rule: rev_cases) (auto simp: grounded_def)
  then show ?thesis
  proof cases
    case 1
    then show ?thesis using walk_along [of fs "[]" p c n "[]"] by simp
  next
    case 2
    then show ?thesis using walk_along [of fs "[]" q c n "[Normal x]"] by simp
  qed
qed

lemma walk_fuel: "walk_path c fs m cur cs = Some q \<Longrightarrow> m \<le> n \<Longrightarrow> walk_path c fs n cur cs = Some q"
proof (induction c fs m cur cs arbitrary: n rule: walk_path.induct)
  case (4 creat fs m cur x cs)
  show ?case
  proof (cases "\<exists>ab target. fs (cur @ [x]) = Some (Symlink (ab, target))")
    case True
    then obtain ab target where l: "fs (cur @ [x]) = Some (Symlink (ab, target))" by blast
    with "4.prems"(1) obtain k where k: "m = Suc k" "walk_path creat fs k (if ab then [] else cur) (target @ cs) = Some q"
      by (cases m) auto
    then obtain k' where k': "n = Suc k'" "k \<le> k'" using "4.prems"(2) by (cases n) auto
    have "walk_path creat fs k' (if ab then [] else cur) (target @ cs) = Some q"
      using l refl refl k(1) k(2) k'(2) by (rule "4.IH"(2))
    then show ?thesis using l k' by simp
  next
    case False
    then consider "fs (cur @ [x]) = None" | "fs (cur @ [x]) = Some Directory" | "fs (cur @ [x]) = Some Regular"
      by (metis entry.exhaust not_None_eq surj_pair)
    then show ?thesis using "4.prems" by cases (simp_all add: "4.IH"(1))
  qed
qed simp_all

lemma walk_create: "walk_path False fs n cur cs = Some q \<Longrightarrow> walk_path True fs n cur cs = Some q"
  by (induction "False" fs n cur cs rule: walk_path.induct) (auto split: option.splits entry.splits nat.splits if_splits)

lemma walk_append:
  "walk_path c fs n cur (cs @ ds) = Some q \<Longrightarrow> solid fs cur \<Longrightarrow> ds \<noteq> [] \<Longrightarrow>
     \<exists>p m. m \<le> n \<and> walk_path False fs n cur cs = Some p \<and> solid fs p \<and> walk_path c fs m p ds = Some q"
proof (induction c fs n cur cs rule: walk_path.induct)
  case (3 creat fs n cur cs)
  then show ?case by (simp add: solid_butlast)
next
  case (4 creat fs n cur x cs)
  show ?case
  proof (cases "fs (cur @ [x])")
    case (Some y)
    then show ?thesis
    proof (cases y)
      case Directory
      then show ?thesis using 4 Some by simp
    next
      case Regular
      then show ?thesis using 4 Some by simp
    next
      case (Symlink l)
      obtain ab target where l: "l = (ab, target)" by (cases l)
      from 4 Some Symlink l obtain m where m: "n = Suc m" by (cases n) auto
      have "walk_path creat fs m (if ab then [] else cur) ((target @ cs) @ ds) = Some q"
        using 4 Some Symlink l m by simp
      moreover have "solid fs (if ab then [] else cur)" using "4.prems"(2) by simp
      ultimately obtain p k where "k \<le> m" "walk_path False fs m (if ab then [] else cur) (target @ cs) = Some p" "solid fs p"
        "walk_path creat fs k p ds = Some q" using "4.IH"(2) [OF Some Symlink l [symmetric] m] "4.prems"(3) by blast
      then show ?thesis using Some Symlink l m by (intro exI [of _ p] exI [of _ k]) simp
    qed
  qed (use 4 in simp)
qed auto

end
