(* ===== verification/Rust_Text.thy ===== *)
theory Rust_Text
  imports Prelude
begin

text \<open>
  The operations of Rust's \<^verbatim>\<open>str\<close> that the library's components share. A string is its UTF-8 bytes, so
  lengths and positions are those of the program. White space is Unicode's; changing the case and reading digits
  concern ASCII characters only.
\<close>

section \<open>Cutting strings\<close>

definition byte :: "char \<Rightarrow> nat" where
  "byte c = of_char c"

definition is_alphanumeric :: "char \<Rightarrow> bool" where
  "is_alphanumeric c \<longleftrightarrow> 48 \<le> byte c \<and> byte c \<le> 57 \<or> 65 \<le> byte c \<and> byte c \<le> 90 \<or> 97 \<le> byte c \<and> byte c \<le> 122"

definition starts_with :: "string \<Rightarrow> string \<Rightarrow> bool" where
  "starts_with s p \<longleftrightarrow> take (length p) s = p"

definition strip_prefix :: "string \<Rightarrow> string \<Rightarrow> string option" where
  "strip_prefix p s = (if starts_with s p then Some (drop (length p) s) else None)"

definition strip_suffix :: "string \<Rightarrow> string \<Rightarrow> string option" where
  "strip_suffix p s = (if length p \<le> length s \<and> drop (length s - length p) s = p then Some (take (length s - length p) s) else None)"

fun split_once :: "char \<Rightarrow> string \<Rightarrow> (string \<times> string) option" where
  "split_once c [] = None"
| "split_once c (x # xs) = (if x = c then Some ([], xs) else map_option (map_prod (Cons x) id) (split_once c xs))"

text \<open>The length of the white space character at the front of a UTF-8 string, or zero.\<close>

definition wide_spaces :: "nat list list" where
  "wide_spaces = [[0xC2, 0x85], [0xC2, 0xA0], [0xE1, 0x9A, 0x80], [0xE2, 0x80, 0xA8], [0xE2, 0x80, 0xA9], [0xE2, 0x80, 0xAF],
     [0xE2, 0x81, 0x9F], [0xE3, 0x80, 0x80]] @ map (\<lambda>b. [0xE2, 0x80, b]) [0x80 ..< 0x8B]"

definition space_length :: "string \<Rightarrow> nat" where
  "space_length s = (case s of
     [] \<Rightarrow> 0
   | c # _ \<Rightarrow> if byte c = 32 \<or> 9 \<le> byte c \<and> byte c \<le> 13 then 1
       else (case find (\<lambda>w. take (length w) (map byte s) = w) wide_spaces of Some w \<Rightarrow> length w | None \<Rightarrow> 0))"

fun take_token :: "string \<Rightarrow> string" where
  "take_token [] = []"
| "take_token (c # s) = (if space_length (c # s) = 0 then c # take_token s else [])"

function skip_spaces :: "string \<Rightarrow> string" where
  "skip_spaces s = (if space_length s = 0 then s else skip_spaces (drop (space_length s) s))"
  by pat_completeness auto
termination
  by (relation "measure length") (auto simp: space_length_def split: list.splits)

declare skip_spaces.simps [simp del]

text \<open>\<open>trim_start\<close>, \<open>trim_end\<close> and \<open>trim\<close>: the end is cut where only white space follows. A byte inside a
  character never begins a white space character, so the recursion over bytes is one over characters.\<close>

fun trim_end :: "string \<Rightarrow> string" where
  "trim_end [] = []"
| "trim_end (c # s) = (if skip_spaces (c # s) = [] then [] else c # trim_end s)"

definition trim :: "string \<Rightarrow> string" where
  "trim s = trim_end (skip_spaces s)"

definition is_blank :: "string \<Rightarrow> bool" where
  "is_blank s \<longleftrightarrow> trim s = []"

text \<open>\<open>contains\<close>, and splitting at the first and at the last occurrence of a text.\<close>

fun contains :: "string \<Rightarrow> string \<Rightarrow> bool" where
  "contains [] p \<longleftrightarrow> p = []"
| "contains (c # s) p \<longleftrightarrow> starts_with (c # s) p \<or> contains s p"

fun split_first :: "string \<Rightarrow> string \<Rightarrow> (string \<times> string) option" where
  "split_first p [] = (if p = [] then Some ([], []) else None)"
| "split_first p (c # s) = (if starts_with (c # s) p then Some ([], drop (length p) (c # s))
     else map_option (map_prod (Cons c) id) (split_first p s))"

fun split_last :: "string \<Rightarrow> string \<Rightarrow> (string \<times> string) option" where
  "split_last p [] = (if p = [] then Some ([], []) else None)"
| "split_last p (c # s) = (case split_last p s of
     Some (a, b) \<Rightarrow> Some (c # a, b)
   | None \<Rightarrow> if starts_with (c # s) p then Some ([], drop (length p) (c # s)) else None)"

definition lower_char :: "char \<Rightarrow> char" where
  "lower_char c = (if 65 \<le> byte c \<and> byte c \<le> 90 then char_of (byte c + 32) else c)"

definition to_lowercase :: "string \<Rightarrow> string" where
  "to_lowercase = map lower_char"

definition is_digit :: "char \<Rightarrow> bool" where
  "is_digit c \<longleftrightarrow> 48 \<le> byte c \<and> byte c \<le> 57"

text \<open>\<open>str::parse::<u32>\<close> on a string of digits.\<close>

definition parse_u32 :: "string \<Rightarrow> u32 option" where
  "parse_u32 s = (if s = [] then None else case digits_value 0 s of
     Some n \<Rightarrow> if n < 2 ^ 32 then Some (of_nat n) else None | None \<Rightarrow> None)"

fun join_text :: "string \<Rightarrow> string list \<Rightarrow> string" where
  "join_text sep [] = []"
| "join_text sep [s] = s"
| "join_text sep (s # t # ss) = s @ sep @ join_text sep (t # ss)"

section \<open>Lemmas\<close>

lemma starts_with_append [simp]: "starts_with (p @ s) p"
  by (simp add: starts_with_def)

lemma starts_with_iff: "starts_with s p \<longleftrightarrow> (\<exists>t. s = p @ t)"
  unfolding starts_with_def by (metis append_eq_conv_conj append_take_drop_id)

lemma strip_suffix_append [simp]: "strip_suffix p (s @ p) = Some s"
  by (simp add: strip_suffix_def)

lemma strip_suffix_Some: "strip_suffix p s = Some t \<longleftrightarrow> s = t @ p"
  by (auto simp: strip_suffix_def split: if_splits) (metis append_take_drop_id)

lemma strip_suffix_None: "strip_suffix p s = None \<longleftrightarrow> (\<nexists>t. s = t @ p)"
  using strip_suffix_Some [of p s] by (metis not_None_eq option.distinct(1))

lemma strip_prefix_append [simp]: "strip_prefix p (p @ s) = Some s"
  by (simp add: strip_prefix_def)

lemma split_once_Some: "split_once c s = Some (a, b) \<longleftrightarrow> s = a @ c # b \<and> c \<notin> set a"
proof (induction c s arbitrary: a rule: split_once.induct)
  case (2 c x xs)
  then show ?case by (cases a) (auto simp: map_prod_def)
qed simp

lemma split_once_None: "split_once c s = None \<longleftrightarrow> c \<notin> set s"
  by (induction c s rule: split_once.induct) auto

end
