(* ===== verification/Permission_Rules.thy ===== *)
theory Permission_Rules
  imports Path_Laws Rust_Text
begin

text \<open>
  Tool keys (\<^verbatim>\<open>ToolKey\<close> of \<^verbatim>\<open>maki-config/src/lib.rs\<close>) and permission rules with their scope patterns,
  the generalisation of a remembered scope, and the answers to a permission request
  (\<^verbatim>\<open>maki-agent/src/permissions.rs\<close>). Strings are UTF-8 byte strings.
\<close>

section \<open>Strings\<close>

text \<open>\<open>split_whitespace().next()\<close>\<close>

definition first_token :: "string \<Rightarrow> string option" where
  "first_token s = (let r = skip_spaces s in if r = [] then None else Some (take_token r))"

section \<open>Tool keys\<close>

datatype tool_key = Wildcard | Native string | McpServer string | McpTool string string

datatype tool_key_parse_error =
  EmptyName
| MalformedParts string
| InvalidServerName string
| InvalidToolName string
| WireNameTooLong string string nat

definition MAX_SERVER_NAME_LEN :: nat where
  "MAX_SERVER_NAME_LEN = 64"

definition is_valid_wire_name :: "string \<Rightarrow> bool" where
  "is_valid_wire_name name \<longleftrightarrow> name \<noteq> [] \<and> length name \<le> 64
     \<and> list_all (\<lambda>b. is_alphanumeric b \<or> b = CHR ''-'' \<or> b = CHR ''_'') name"

definition is_valid_server_name :: "string \<Rightarrow> bool" where
  "is_valid_server_name name \<longleftrightarrow> name \<noteq> [] \<and> length name \<le> MAX_SERVER_NAME_LEN
     \<and> list_all (\<lambda>b. is_alphanumeric b \<or> b = CHR ''-'') name"

definition tool_key_parse :: "string \<Rightarrow> tool_key_parse_error + tool_key" where
  "tool_key_parse name =
     (if name = [] then Inl EmptyName
      else if name = ''*'' then Inr Wildcard
      else case split_once (CHR ''.'') name of
        Some (server, tool) \<Rightarrow>
          if server = [] \<or> tool = [] then Inl (MalformedParts name)
          else if \<not> is_valid_server_name server then Inl (InvalidServerName server)
          else if tool = ''*'' then Inr (McpServer server)
          else if \<not> is_valid_wire_name tool then Inl (InvalidToolName tool)
          else let wire_len = length server + 2 + length tool
            in if wire_len > 64 then Inl (WireNameTooLong server tool wire_len) else Inr (McpTool server tool)
      | None \<Rightarrow> if \<not> is_valid_wire_name name then Inl (InvalidToolName name) else Inr (Native name))"

text \<open>\<open>ToolKey::native\<close> panics on an empty or dotted name.\<close>

definition tool_key_native :: "string \<Rightarrow> tool_key option" where
  "tool_key_native name = (if name = ''*'' then Some Wildcard
     else if name = [] \<or> CHR ''.'' \<in> set name then None else Some (Native name))"

fun is_mcp :: "tool_key \<Rightarrow> bool" where
  "is_mcp (McpServer _) = True"
| "is_mcp (McpTool _ _) = True"
| "is_mcp _ = False"

fun tool_key_display :: "tool_key \<Rightarrow> string" where
  "tool_key_display Wildcard = ''*''"
| "tool_key_display (Native name) = name"
| "tool_key_display (McpServer server) = server @ ''.*''"
| "tool_key_display (McpTool server tool) = server @ ''.'' @ tool"

section \<open>Rules and scopes\<close>

datatype effect = Allow | Deny

datatype default_effect = DefaultAllow | DefaultDeny | DefaultPrompt

record permission_rule =
  rule_tool :: tool_key
  rule_scope :: "string option"
  rule_effect :: effect

definition FILE_WRITE_TOOLS :: "string list" where
  "FILE_WRITE_TOOLS = [''write'', ''edit'', ''multiedit'', ''edit_lines'', ''insert_lines'']"

definition TASK_SPAWN_TOOL :: string where
  "TASK_SPAWN_TOOL = ''task_spawn''"

definition BASH_TOOL :: string where
  "BASH_TOOL = ''bash''"

definition SHELL_KEYWORDS :: "string list" where
  "SHELL_KEYWORDS = [''if'', ''then'', ''elif'', ''else'', ''fi'', ''for'', ''while'', ''until'', ''do'', ''done'', ''case'',
     ''esac'', ''select'', ''function'', ''time'']"

definition builtin_rules_for :: "env \<Rightarrow> string \<Rightarrow> permission_rule list" where
  "builtin_rules_for e cwd =
     (let glob = display (canonicalize_clean e cwd) @ ''/**''
      in map (\<lambda>t. \<lparr>rule_tool = Native t, rule_scope = Some glob, rule_effect = Allow\<rparr>) FILE_WRITE_TOOLS
         @ [\<lparr>rule_tool = Native TASK_SPAWN_TOOL, rule_scope = Some ''*'', rule_effect = Allow\<rparr>])"

definition carries_builtin_defaults :: "string \<Rightarrow> bool" where
  "carries_builtin_defaults tool \<longleftrightarrow> tool \<in> set FILE_WRITE_TOOLS \<or> tool = TASK_SPAWN_TOOL \<or> tool = BASH_TOOL"

fun rule_matches_tool :: "tool_key \<Rightarrow> tool_key \<Rightarrow> bool" where
  "rule_matches_tool Wildcard actual = True"
| "rule_matches_tool (McpServer rs) actual = (case actual of McpTool s _ \<Rightarrow> rs = s | _ \<Rightarrow> McpServer rs = actual)"
| "rule_matches_tool k actual = (k = actual)"

definition normalize_scope_prefix :: "env \<Rightarrow> string \<Rightarrow> pathbuf" where
  "normalize_scope_prefix e path =
     (let ab = absolute_or_same e (components path)
      in case incremental_canonicalize e ab of Some p \<Rightarrow> p | None \<Rightarrow> normalize_path e ab)"

definition is_root :: "pathbuf \<Rightarrow> bool" where
  "is_root p \<longleftrightarrow> snd p = []"

fun trim_stars :: "string \<Rightarrow> string" where
  "trim_stars [] = []"
| "trim_stars (c # s) = (case trim_stars s of [] \<Rightarrow> if c = CHR ''*'' then [] else [c] | t \<Rightarrow> c # t)"

definition is_universal_scope :: "env \<Rightarrow> string \<Rightarrow> bool" where
  "is_universal_scope e pattern = (case strip_suffix ''/**'' pattern of
     Some prefix \<Rightarrow> is_root (normalize_scope_prefix e prefix)
   | None \<Rightarrow> let stem = trim_stars pattern in length stem < length pattern \<and> (stem = '''' \<or> stem = ''/''))"

definition scope_matches :: "env \<Rightarrow> string \<Rightarrow> string \<Rightarrow> bool" where
  "scope_matches e pattern value = (case strip_suffix ''/**'' pattern of
     Some prefix \<Rightarrow>
       let norm_prefix = normalize_scope_prefix e prefix
       in is_root norm_prefix \<or> path_starts_with (normalize_scope_prefix e value) norm_prefix
   | None \<Rightarrow>
       if is_universal_scope e pattern then True
       else case strip_suffix '' *'' pattern of
         Some prefix \<Rightarrow> value = prefix \<or> starts_with value (prefix @ '' '')
       | None \<Rightarrow> (case strip_suffix ''*'' pattern of
           Some prefix \<Rightarrow> starts_with value prefix
         | None \<Rightarrow> pattern = value))"

definition rule_matches_scope :: "env \<Rightarrow> permission_rule \<Rightarrow> string \<Rightarrow> bool" where
  "rule_matches_scope e r scope = (case rule_scope r of None \<Rightarrow> True | Some pattern \<Rightarrow> scope_matches e pattern scope)"

text \<open>\<open>normalize_scope_path\<close>: a tilde is expanded, then the path is normalised lexically.\<close>

definition resolve_path :: "env \<Rightarrow> string \<Rightarrow> upath option" where
  "resolve_path e path = Option.bind (env_cwd e) (\<lambda>cwd. Option.bind
     (case strip_prefix ''~/'' path of
        Some rest \<Rightarrow> map_option (\<lambda>h. if fst (components rest) then components rest else (True, map Normal h @ filter (\<lambda>c. c \<noteq> CurDir) (snd (components rest)))) (env_home e)
      | None \<Rightarrow> if path = ''~'' then map_option (\<lambda>h. (True, map Normal h)) (env_home e) else Some (components path))
     (\<lambda>expanded. Some (if fst expanded then expanded else (True, map Normal cwd @ filter (\<lambda>c. c \<noteq> CurDir) (snd expanded)))))"

definition normalize_scope_path :: "env \<Rightarrow> string \<Rightarrow> string" where
  "normalize_scope_path e path =
     display (normalize_path e (case resolve_path e path of Some p \<Rightarrow> p | None \<Rightarrow> components path))"

section \<open>Generalising a remembered scope\<close>

definition is_command_char :: "char \<Rightarrow> bool" where
  "is_command_char c \<longleftrightarrow> is_alphanumeric c \<or> c \<in> set ''_.:/@+-''"

definition is_command_word :: "string \<Rightarrow> bool" where
  "is_command_word t \<longleftrightarrow> t \<noteq> [] \<and> list_all is_command_char t \<and> t \<notin> set SHELL_KEYWORDS"

definition generalize_bash_segment :: "string \<Rightarrow> string" where
  "generalize_bash_segment segment =
     (let t = (case first_token segment of Some t \<Rightarrow> t | None \<Rightarrow> segment)
      in if is_command_word t then t @ '' *'' else segment)"

text \<open>\<open>Path::parent\<close> as a string: the pieces of the body without the last component and without the empty
  and dot pieces before it.\<close>

definition drop_void :: "string list \<Rightarrow> string list" where
  "drop_void ps = rev (dropWhile (\<lambda>p. p = '''' \<or> p = ''.'') (rev ps))"

definition path_parent :: "string \<Rightarrow> string option" where
  "path_parent s =
     (let ab = (s \<noteq> [] \<and> hd s = CHR ''/'');
          ps = split_on (CHR ''/'') (if ab then tl s else s);
          (lead, body) = (if \<not> ab \<and> hd ps = ''.'' then ([hd ps], tl ps) else ([], ps));
          root = (if ab then ''/'' else '''')
      in case rev (drop_void body) of
           [] \<Rightarrow> if lead = [] then None else Some ''''
         | _ # rest \<Rightarrow> Some (root @ join_with ''/'' (lead @ drop_void (rev rest))))"

definition generalize_scope :: "tool_key \<Rightarrow> string \<Rightarrow> string" where
  "generalize_scope tool scope = (case tool of
     Native name \<Rightarrow>
       if name = BASH_TOOL then generalize_bash_segment scope
       else if name \<in> set FILE_WRITE_TOOLS then
         (case path_parent scope of
            Some parent \<Rightarrow> if parent = '''' then ''**'' else parent @ ''/**''
          | None \<Rightarrow> ''**'')
       else scope
   | McpTool _ _ \<Rightarrow> ''*''
   | McpServer _ \<Rightarrow> ''*''
   | Wildcard \<Rightarrow> scope)"

definition generalized_scopes :: "tool_key \<Rightarrow> string list \<Rightarrow> string list" where
  "generalized_scopes tool scopes = rev (remdups (rev (map (generalize_scope tool) scopes)))"

section \<open>Answers\<close>

datatype permission_answer =
  AllowOnce
| AllowSession
| AllowAlwaysProject
| AllowAlwaysLocal
| AllowAlwaysGlobal
| DenyOnce
| DenyWithGuidance string
| DenyAlwaysProject
| DenyAlwaysLocal
| DenyAlwaysGlobal

definition is_allow :: "permission_answer \<Rightarrow> bool" where
  "is_allow a \<longleftrightarrow> a \<in> {AllowOnce, AllowSession, AllowAlwaysProject, AllowAlwaysLocal, AllowAlwaysGlobal}"

fun answer_encode :: "permission_answer \<Rightarrow> string" where
  "answer_encode AllowOnce = ''allow''"
| "answer_encode AllowSession = ''allow_session''"
| "answer_encode AllowAlwaysProject = ''allow_always_project''"
| "answer_encode AllowAlwaysLocal = ''allow_always_local''"
| "answer_encode AllowAlwaysGlobal = ''allow_always_global''"
| "answer_encode DenyOnce = ''deny''"
| "answer_encode (DenyWithGuidance g) = ''deny:'' @ g"
| "answer_encode DenyAlwaysProject = ''deny_always_project''"
| "answer_encode DenyAlwaysLocal = ''deny_always_local''"
| "answer_encode DenyAlwaysGlobal = ''deny_always_global''"

definition answer_decode :: "string \<Rightarrow> permission_answer option" where
  "answer_decode s =
     (if s = ''allow'' then Some AllowOnce
      else if s = ''allow_session'' then Some AllowSession
      else if s = ''allow_always_project'' then Some AllowAlwaysProject
      else if s = ''allow_always_local'' then Some AllowAlwaysLocal
      else if s = ''allow_always_global'' then Some AllowAlwaysGlobal
      else if s = ''deny'' then Some DenyOnce
      else if s = ''deny_always_project'' then Some DenyAlwaysProject
      else if s = ''deny_always_local'' then Some DenyAlwaysLocal
      else if s = ''deny_always_global'' then Some DenyAlwaysGlobal
      else case strip_prefix ''deny:'' s of
        Some g \<Rightarrow> if g = [] then Some DenyOnce else Some (DenyWithGuidance g)
      | None \<Rightarrow> None)"

fun answer_guidance :: "permission_answer \<Rightarrow> string option" where
  "answer_guidance (DenyWithGuidance g) = Some g"
| "answer_guidance _ = None"

definition ANSWER_ID_SEPARATOR :: char where
  "ANSWER_ID_SEPARATOR = CHR 0x1F"

record tagged_answer =
  request_id :: string
  answer :: permission_answer

definition tagged_encode :: "tagged_answer \<Rightarrow> string" where
  "tagged_encode t = request_id t @ [ANSWER_ID_SEPARATOR] @ answer_encode (answer t)"

definition tagged_decode :: "string \<Rightarrow> tagged_answer option" where
  "tagged_decode raw = Option.bind (split_once ANSWER_ID_SEPARATOR raw) (\<lambda>(i, a).
     map_option (\<lambda>a. \<lparr>request_id = i, answer = a\<rparr>) (answer_decode a))"

end
