(* ===== verification/Permission_Checks.thy ===== *)
theory Permission_Checks
  imports Permission_Rules
begin

text \<open>
  The permission manager of a session (\<^verbatim>\<open>maki-agent/src/permissions.rs\<close>): the check that decides a tool
  call, the session's own state, what an answer changes, and the desk where concurrent calls wait for
  the user's answers. The rules of plugins live in a store shared by all sessions and are an argument.
\<close>

section \<open>The manager\<close>

record permission_manager =
  session_rules :: "permission_rule list"
  config_rules :: "permission_rule list"
  builtin_rules :: "permission_rule list"
  yolo :: bool
  yolo_explicit :: bool
  seed_yolo :: bool
  pm_default :: default_effect
  tool_defaults :: "(tool_key, default_effect) hmap"
  pm_cwd :: string
  project_trusted :: bool

record permissions_config =
  pc_default :: default_effect
  pc_tool_defaults :: "(tool_key, default_effect) hmap"
  pc_rules :: "permission_rule list"
  pc_yolo :: bool

type_synonym plugin_store = "(string, permission_rule list) hmap"

definition plugin_replace :: "string \<Rightarrow> permission_rule list \<Rightarrow> plugin_store \<Rightarrow> plugin_store" where
  "plugin_replace plugin rules store = (if rules = [] then hm_remove plugin store else hm_insert plugin rules store)"

definition plugin_remove :: "string \<Rightarrow> plugin_store \<Rightarrow> plugin_store" where
  "plugin_remove plugin store = hm_remove plugin store"

definition plugin_snapshot :: "plugin_store \<Rightarrow> permission_rule list" where
  "plugin_snapshot store = concat (hm_values store)"

definition new_permission_manager :: "env \<Rightarrow> permissions_config \<Rightarrow> string \<Rightarrow> bool \<Rightarrow> permission_manager" where
  "new_permission_manager e cfg cwd trusted =
     \<lparr>session_rules = [], config_rules = pc_rules cfg, builtin_rules = builtin_rules_for e cwd, yolo = pc_yolo cfg,
      yolo_explicit = False, seed_yolo = pc_yolo cfg, pm_default = pc_default cfg, tool_defaults = pc_tool_defaults cfg,
      pm_cwd = cwd, project_trusted = trusted\<rparr>"

definition fork_manager :: "permission_manager \<Rightarrow> permission_manager" where
  "fork_manager m = m\<lparr>session_rules := []\<rparr>"

definition toggle_yolo :: "permission_manager \<Rightarrow> permission_manager \<times> bool" where
  "toggle_yolo m = (m\<lparr>yolo := \<not> yolo m, yolo_explicit := True\<rparr>, \<not> yolo m)"

definition set_yolo :: "bool \<Rightarrow> permission_manager \<Rightarrow> permission_manager" where
  "set_yolo enabled m = m\<lparr>yolo := enabled, yolo_explicit := True\<rparr>"

definition set_session_yolo :: "bool option \<Rightarrow> permission_manager \<Rightarrow> permission_manager" where
  "set_session_yolo stored m = m\<lparr>yolo := (case stored of Some b \<Rightarrow> b | None \<Rightarrow> seed_yolo m), yolo_explicit := (stored \<noteq> None)\<rparr>"

definition persisted_yolo :: "permission_manager \<Rightarrow> bool option" where
  "persisted_yolo m = (if yolo_explicit m then Some (yolo m) else None)"

definition set_cwd :: "env \<Rightarrow> string \<Rightarrow> permission_manager \<Rightarrow> permission_manager" where
  "set_cwd e cwd m = m\<lparr>pm_cwd := cwd, builtin_rules := builtin_rules_for e cwd\<rparr>"

definition load_session_rules :: "permission_rule list \<Rightarrow> permission_manager \<Rightarrow> permission_manager" where
  "load_session_rules rules m = m\<lparr>session_rules := rules\<rparr>"

definition add_session_rule :: "permission_rule \<Rightarrow> permission_manager \<Rightarrow> permission_manager" where
  "add_session_rule r m = (if r \<in> set (session_rules m) then m else m\<lparr>session_rules := session_rules m @ [r]\<rparr>)"

text \<open>\<open>boundary_block_reason\<close>: a path is blocked only if the project root does not resolve.\<close>

definition boundary_blocked :: "env \<Rightarrow> permission_manager \<Rightarrow> upath \<Rightarrow> bool" where
  "boundary_blocked e m path \<longleftrightarrow> physical_boundary_check e (components (pm_cwd m)) path = None"

section \<open>The check\<close>

datatype permission_check = Allowed | Denied | NeedsPrompt tool_key "string list" bool

text \<open>The rules for one scope: the first matching denial ends the check, an allowance is remembered.\<close>

definition rule_applies :: "env \<Rightarrow> tool_key \<Rightarrow> string \<Rightarrow> permission_rule \<Rightarrow> bool" where
  "rule_applies e tool scope r \<longleftrightarrow> rule_matches_tool (rule_tool r) tool \<and> rule_matches_scope e r scope"

fun match_rules :: "env \<Rightarrow> tool_key \<Rightarrow> string \<Rightarrow> bool \<Rightarrow> permission_rule list \<Rightarrow> bool option" where
  "match_rules e tool scope has_allow [] = Some has_allow"
| "match_rules e tool scope has_allow (r # rs) =
     (if \<not> rule_applies e tool scope r then match_rules e tool scope has_allow rs
      else case rule_effect r of Deny \<Rightarrow> None | Allow \<Rightarrow> match_rules e tool scope True rs)"

text \<open>All scopes, collecting those that no rule claims; \<open>None\<close> is a denial.\<close>

fun scan_scopes :: "env \<Rightarrow> tool_key \<Rightarrow> bool \<Rightarrow> permission_rule list \<Rightarrow> string list \<Rightarrow> string list option" where
  "scan_scopes e tool force_prompt rules [] = Some []"
| "scan_scopes e tool force_prompt rules (s # ss) = (case match_rules e tool s False rules of
      None \<Rightarrow> None
    | Some has_allow \<Rightarrow> map_option (\<lambda>u. if \<not> has_allow \<and> \<not> force_prompt then s # u else u) (scan_scopes e tool force_prompt rules ss))"

definition all_rules :: "plugin_store \<Rightarrow> permission_manager \<Rightarrow> permission_rule list" where
  "all_rules plug m = session_rules m @ config_rules m @ builtin_rules m @ plugin_snapshot plug"

definition is_plan_write :: "env \<Rightarrow> tool_key \<Rightarrow> string list \<Rightarrow> string option \<Rightarrow> bool" where
  "is_plan_write e tool pending plan = (case plan of
     None \<Rightarrow> False
   | Some pp \<Rightarrow> (case tool of Native name \<Rightarrow> name \<in> set FILE_WRITE_TOOLS | _ \<Rightarrow> False)
       \<and> list_all (\<lambda>s. normalize_scope_path e s = normalize_scope_path e pp) pending)"

definition default_for :: "permission_manager \<Rightarrow> tool_key \<Rightarrow> default_effect" where
  "default_for m tool = (case hm_get (tool_defaults m) tool of
     Some d \<Rightarrow> d
   | None \<Rightarrow> (case tool of
       McpTool server _ \<Rightarrow> (case hm_get (tool_defaults m) (McpServer server) of Some d \<Rightarrow> d | None \<Rightarrow> pm_default m)
     | _ \<Rightarrow> pm_default m))"

definition check_inner :: "env \<Rightarrow> plugin_store \<Rightarrow> permission_manager \<Rightarrow> tool_key \<Rightarrow> string list \<Rightarrow> bool \<Rightarrow> string option \<Rightarrow> permission_check" where
  "check_inner e plug m tool scopes force_prompt plan = (case scan_scopes e tool force_prompt (all_rules plug m) scopes of
     None \<Rightarrow> Denied
   | Some unclaimed \<Rightarrow>
       if yolo m then Allowed
       else let pending = (if force_prompt then scopes else unclaimed)
         in if pending = [] then Allowed
            else if \<not> force_prompt \<and> is_plan_write e tool pending plan then Allowed
            else (case default_for m tool of
                DefaultDeny \<Rightarrow> Denied
              | DefaultAllow \<Rightarrow> Allowed
              | DefaultPrompt \<Rightarrow> NeedsPrompt tool pending force_prompt))"

section \<open>Decisions\<close>

datatype permission_target = Global | Project

definition persist_target :: "permission_manager \<Rightarrow> permission_answer \<Rightarrow> permission_target option" where
  "persist_target m a = (if a \<in> {AllowAlwaysProject, AllowAlwaysLocal, DenyAlwaysProject, DenyAlwaysLocal}
     then if project_trusted m then Some Project else None else Some Global)"

type_synonym rule_write = "permission_target \<times> tool_key \<times> string \<times> effect"

definition resolved_scopes :: "tool_key \<Rightarrow> string list \<Rightarrow> permission_answer \<Rightarrow> string list" where
  "resolved_scopes tool scopes a = (if is_allow a \<or> is_mcp tool then generalized_scopes tool scopes else scopes)"

definition add_rules :: "tool_key \<Rightarrow> effect \<Rightarrow> string list \<Rightarrow> permission_manager \<Rightarrow> permission_manager" where
  "add_rules tool eff scopes m = fold (\<lambda>s. add_session_rule \<lparr>rule_tool = tool, rule_scope = Some s, rule_effect = eff\<rparr>) scopes m"

text \<open>\<open>apply_decision\<close>: the manager afterwards and the rules it asked to have written to a file.\<close>

definition apply_decision :: "tool_key \<Rightarrow> string list \<Rightarrow> permission_answer \<Rightarrow> permission_manager \<Rightarrow> permission_manager \<times> rule_write list" where
  "apply_decision tool scopes a m =
     (let resolved = resolved_scopes tool scopes a
      in if a \<in> {AllowOnce, DenyOnce} \<or> answer_guidance a \<noteq> None then (m, [])
         else if a = AllowSession then (add_rules tool Allow resolved m, [])
         else let eff = (if is_allow a then Allow else Deny)
           in (add_rules tool eff resolved m,
               case persist_target m a of None \<Rightarrow> [] | Some t \<Rightarrow> map (\<lambda>s. (t, tool, s, eff)) resolved))"

section \<open>Asking the user\<close>

text \<open>\<open>enforce\<close> up to the answer channel: the outcome is decided at once, or the call has to ask. With no
  channel it is refused.\<close>

datatype enforcement = Granted | Refused "string option" | Asks tool_key "string list" bool

definition enforce_check :: "env \<Rightarrow> plugin_store \<Rightarrow> permission_manager \<Rightarrow> tool_key \<Rightarrow> string list \<Rightarrow> bool \<Rightarrow> string option \<Rightarrow> bool \<Rightarrow> enforcement" where
  "enforce_check e plug m tool scopes force_prompt plan has_channel =
     (case check_inner e plug m tool scopes force_prompt plan of
        Allowed \<Rightarrow> Granted
      | Denied \<Rightarrow> Refused None
      | NeedsPrompt t ss f \<Rightarrow> if has_channel then Asks t ss f else Refused None)"

datatype channel_event = Response string | ChannelClosed | TurnCancelled

text \<open>The wait for the answer, over what arrives on the channel: an answer that does not name the request
  is dropped. \<open>None\<close> is a wait that has not ended.\<close>

fun await_answer :: "string \<Rightarrow> channel_event list \<Rightarrow> permission_answer option option" where
  "await_answer i [] = None"
| "await_answer i (Response raw # es) = (case tagged_decode raw of
      Some t \<Rightarrow> if request_id t = i then Some (Some (answer t)) else await_answer i es
    | None \<Rightarrow> await_answer i es)"
| "await_answer i (ChannelClosed # es) = Some None"
| "await_answer i (TurnCancelled # es) = Some None"

definition enforce_answer :: "tool_key \<Rightarrow> string list \<Rightarrow> permission_answer option \<Rightarrow> permission_manager \<Rightarrow> permission_manager \<times> rule_write list \<times> enforcement" where
  "enforce_answer tool scopes a m = (case a of
     None \<Rightarrow> (m, [], Refused None)
   | Some a \<Rightarrow> (case apply_decision tool scopes a m of
       (m', ws) \<Rightarrow> (m', ws, if is_allow a then Granted else Refused (answer_guidance a))))"

text \<open>A whole call with nothing else going on: the check is repeated once the channel is held.\<close>

definition enforce :: "env \<Rightarrow> plugin_store \<Rightarrow> tool_key \<Rightarrow> string list \<Rightarrow> bool \<Rightarrow> string option \<Rightarrow> string \<Rightarrow> channel_event list option
    \<Rightarrow> permission_manager \<Rightarrow> (permission_manager \<times> rule_write list \<times> enforcement) option" where
  "enforce e plug tool scopes force_prompt plan i chan m =
     (case enforce_check e plug m tool scopes force_prompt plan (chan \<noteq> None) of
        Asks t ss f \<Rightarrow>
          (case enforce_check e plug m t ss f plan True of
             Asks t2 s2 _ \<Rightarrow> map_option (\<lambda>a. enforce_answer t2 s2 a m) (await_answer i (the chan))
           | r \<Rightarrow> Some (m, [], r))
      | r \<Rightarrow> Some (m, [], r))"

section \<open>The desk\<close>

text \<open>Concurrent calls of a session: calls wait for the channel, one at a time holds it and asks, answers
  queue up, and the host changes the settings meanwhile. The log records the requests shown to the user,
  the answers applied to them and the rules loaded from a stored session.\<close>

datatype desk_event = Requested string tool_key "string list" | Applied string tool_key "string list" permission_answer
  | Loaded "permission_rule list"

record desk =
  desk_pm :: permission_manager
  desk_waiting :: "(string \<times> tool_key \<times> string list \<times> bool \<times> string option) list"
  desk_asking :: "(string \<times> tool_key \<times> string list) option"
  desk_queue :: "string list"
  desk_log :: "desk_event list"

definition new_desk :: "permission_manager \<Rightarrow> desk" where
  "new_desk m = \<lparr>desk_pm = m, desk_waiting = [], desk_asking = None, desk_queue = [], desk_log = []\<rparr>"

inductive desk_step :: "env \<Rightarrow> desk \<Rightarrow> desk \<Rightarrow> bool" for e where
  arrive: "enforce_check e plug (desk_pm d) tool scopes force plan True = Asks t ss f \<Longrightarrow>
    desk_step e d (d\<lparr>desk_waiting := desk_waiting d @ [(i, t, ss, f, plan)]\<rparr>)"
| hold_asks: "desk_asking d = None \<Longrightarrow> (i, t, ss, f, plan) \<in> set (desk_waiting d) \<Longrightarrow>
    enforce_check e plug (desk_pm d) t ss f plan True = Asks t2 s2 f2 \<Longrightarrow>
    desk_step e d (d\<lparr>desk_waiting := remove1 (i, t, ss, f, plan) (desk_waiting d), desk_asking := Some (i, t2, s2),
      desk_log := desk_log d @ [Requested i t2 s2]\<rparr>)"
| hold_decided: "desk_asking d = None \<Longrightarrow> (i, t, ss, f, plan) \<in> set (desk_waiting d) \<Longrightarrow>
    (\<forall>t2 s2 f2. enforce_check e plug (desk_pm d) t ss f plan True \<noteq> Asks t2 s2 f2) \<Longrightarrow>
    desk_step e d (d\<lparr>desk_waiting := remove1 (i, t, ss, f, plan) (desk_waiting d)\<rparr>)"
| user_answers: "desk_step e d (d\<lparr>desk_queue := desk_queue d @ [raw]\<rparr>)"
| answer_taken: "desk_asking d = Some (i, t, ss) \<Longrightarrow> desk_queue d = raw # q \<Longrightarrow> await_answer i [Response raw] = Some (Some a) \<Longrightarrow>
    desk_step e d (d\<lparr>desk_pm := fst (enforce_answer t ss (Some a) (desk_pm d)), desk_asking := None, desk_queue := q,
      desk_log := desk_log d @ [Applied i t ss a]\<rparr>)"
| answer_dropped: "desk_asking d = Some (i, t, ss) \<Longrightarrow> desk_queue d = raw # q \<Longrightarrow> await_answer i [Response raw] = None \<Longrightarrow>
    desk_step e d (d\<lparr>desk_queue := q\<rparr>)"
| ask_ended: "desk_asking d = Some (i, t, ss) \<Longrightarrow> desk_step e d (d\<lparr>desk_asking := None\<rparr>)"
| wait_ended: "w \<in> set (desk_waiting d) \<Longrightarrow> desk_step e d (d\<lparr>desk_waiting := remove1 w (desk_waiting d)\<rparr>)"
| host_toggles: "desk_step e d (d\<lparr>desk_pm := fst (toggle_yolo (desk_pm d))\<rparr>)"
| host_sets_yolo: "desk_step e d (d\<lparr>desk_pm := set_yolo b (desk_pm d)\<rparr>)"
| host_sets_session_yolo: "desk_step e d (d\<lparr>desk_pm := set_session_yolo b (desk_pm d)\<rparr>)"
| host_moves: "desk_step e d (d\<lparr>desk_pm := set_cwd e cwd (desk_pm d)\<rparr>)"
| host_loads: "desk_step e d (d\<lparr>desk_pm := load_session_rules rules (desk_pm d), desk_log := desk_log d @ [Loaded rules]\<rparr>)"

inductive desk_reachable :: "env \<Rightarrow> desk \<Rightarrow> bool" for e where
  desk_new: "desk_reachable e (new_desk (new_permission_manager e cfg cwd trusted))"
| desk_moves: "desk_reachable e d \<Longrightarrow> desk_step e d d' \<Longrightarrow> desk_reachable e d'"

end
