(* ===== verification/Permission_Laws.thy ===== *)
theory Permission_Laws
  imports Permission_Checks
begin

text \<open>
  Lemmas on permissions: the check as one formula, what a scope pattern covers, the texts of tool keys
  and answers, and where the rules of a session come from.
\<close>

section \<open>Strings\<close>

lemma trim_stars_empty: "trim_stars s = [] \<longleftrightarrow> set s \<subseteq> {CHR ''*''}"
  by (induction s) (auto split: list.splits)

lemma trim_stars_length: "length (trim_stars s) \<le> length s"
  by (induction s) (auto split: list.splits)

lemma trim_stars_snoc: "trim_stars (s @ [c]) = (if c = CHR ''*'' then trim_stars s else s @ [c])"
  by (induction s) (auto split: list.splits)

lemma trim_stars_less: "length (trim_stars s) < length s \<longleftrightarrow> s \<noteq> [] \<and> last s = CHR ''*''"
proof (cases s rule: rev_cases)
  case (snoc t c)
  then show ?thesis using trim_stars_length [of t] by (auto simp: trim_stars_snoc)
qed simp

section \<open>The check as a formula\<close>

definition denied_by :: "env \<Rightarrow> permission_rule list \<Rightarrow> tool_key \<Rightarrow> string \<Rightarrow> bool" where
  "denied_by e rules tool s \<longleftrightarrow> list_ex (\<lambda>r. rule_applies e tool s r \<and> rule_effect r = Deny) rules"

definition allowed_by :: "env \<Rightarrow> permission_rule list \<Rightarrow> tool_key \<Rightarrow> string \<Rightarrow> bool" where
  "allowed_by e rules tool s \<longleftrightarrow> list_ex (\<lambda>r. rule_applies e tool s r \<and> rule_effect r = Allow) rules"

lemma match_rules_spec:
  "match_rules e tool s h rules = (if denied_by e rules tool s then None else Some (h \<or> allowed_by e rules tool s))"
  by (induction e tool s h rules rule: match_rules.induct)
    (simp_all add: denied_by_def allowed_by_def split: effect.split)

lemma scan_scopes_spec:
  "scan_scopes e tool f rules ss = (if list_ex (denied_by e rules tool) ss then None
     else Some (if f then [] else filter (\<lambda>s. \<not> allowed_by e rules tool s) ss))"
  by (induction ss) (simp_all add: match_rules_spec)

text \<open>The policy as one expression: denials, then unrestricted mode, then allowances and the plan file, then
  the default of the tool.\<close>

definition policy :: "env \<Rightarrow> plugin_store \<Rightarrow> permission_manager \<Rightarrow> tool_key \<Rightarrow> string list \<Rightarrow> bool \<Rightarrow> string option \<Rightarrow> permission_check" where
  "policy e plug m tool scopes force plan =
     (let rules = all_rules plug m;
          pending = (if force then scopes else filter (\<lambda>s. \<not> allowed_by e rules tool s) scopes)
      in if list_ex (denied_by e rules tool) scopes then Denied
         else if yolo m \<or> pending = [] \<or> (\<not> force \<and> is_plan_write e tool pending plan) \<or> default_for m tool = DefaultAllow then Allowed
         else if default_for m tool = DefaultDeny then Denied
         else NeedsPrompt tool pending force)"

lemma check_inner_policy: "check_inner e plug m tool scopes force plan = policy e plug m tool scopes force plan"
  by (cases "default_for m tool") (simp_all add: check_inner_def policy_def scan_scopes_spec Let_def)

lemma check_denied: "denied_by e (all_rules plug m) tool s \<Longrightarrow> s \<in> set scopes \<Longrightarrow> check_inner e plug m tool scopes force plan = Denied"
  by (auto simp: check_inner_policy policy_def list_ex_iff Let_def)

lemma check_allowed:
  "\<not> denied_by e (all_rules plug m) tool s \<Longrightarrow> allowed_by e (all_rules plug m) tool s \<Longrightarrow>
     check_inner e plug m tool [s] False plan = Allowed"
  by (simp add: check_inner_policy policy_def)

section \<open>What a pattern covers\<close>

lemma strip_glob_not_path: "strip_suffix ''/**'' p = Some q \<Longrightarrow> p = q @ ''/**''"
  by (simp add: strip_suffix_Some)

lemma norm_root: "normalize_scope_prefix e ''/'' = (True, [])"
  by (simp add: normalize_scope_prefix_def absolute_or_same_def absolute_def components_def component_of_def
      incremental_canonicalize_def List.map_filter_def)

text \<open>The empty string is covered only by patterns whose stem is empty.\<close>

lemma not_universal_uncovered:
  assumes "\<not> is_universal_scope e p" shows "\<exists>v. \<not> scope_matches e p v"
proof (cases "strip_suffix ''/**'' p")
  case (Some q)
  then have "\<not> is_root (normalize_scope_prefix e q)" using assms by (simp add: is_universal_scope_def)
  then have "\<not> scope_matches e p ''/''" using Some by (auto simp: scope_matches_def Let_def norm_root path_starts_with_def is_root_def)
  then show ?thesis by blast
next
  case None
  show ?thesis
  proof (cases "strip_suffix '' *'' p")
    case (Some q)
    have "\<not> scope_matches e p (if q = '''' then ''a'' else '''')"
      using assms None Some by (simp add: scope_matches_def starts_with_def)
    then show ?thesis by blast
  next
    case nb: None
    show ?thesis
    proof (cases "strip_suffix ''*'' p")
      case (Some q)
      have "q \<noteq> ''''"
      proof
        assume "q = ''''"
        then have "p = ''*''" using Some by (simp add: strip_suffix_Some)
        with assms None show False by (simp add: is_universal_scope_def)
      qed
      then have "\<not> scope_matches e p ''''" using assms None nb Some by (simp add: scope_matches_def starts_with_def)
      then show ?thesis by blast
    next
      case ns: None
      then have "\<not> scope_matches e p (p @ ''a'')" using assms None nb by (simp add: scope_matches_def)
      then show ?thesis by blast
    qed
  qed
qed

lemma universal_covers: "is_universal_scope e p \<Longrightarrow> scope_matches e p v"
  by (auto simp: scope_matches_def is_universal_scope_def Let_def split: option.splits)

lemma command_glob_matches: "cmd \<noteq> '''' \<Longrightarrow> scope_matches e (cmd @ '' *'') (cmd @ '' '' @ args)"
proof -
  assume "cmd \<noteq> ''''"
  have "strip_suffix ''/**'' (cmd @ '' *'') = None" by (auto simp: strip_suffix_def split: if_splits)
  then show ?thesis by (simp add: scope_matches_def starts_with_def)
qed

lemma absolute_path_same: "fst p \<Longrightarrow> absolute_or_same e p = p"
  by (cases p) (simp add: absolute_or_same_def absolute_def)

lemma normalize_agrees:
  assumes "fst (components s)" "open_creat e (components s) = Some q" "\<not> dangling_link e (components s)"
  shows "normalize_scope_prefix e s = q"
proof -
  obtain cs where "components s = (True, cs)" using assms(1) by (cases "components s") simp
  then show ?thesis using create_agrees [of e cs q] assms by (simp add: normalize_scope_prefix_def absolute_path_same)
qed

lemma normalize_canonical:
  assumes "fst (components s)" "canonicalize e (components s) = Some q"
  shows "normalize_scope_prefix e s = q"
proof -
  obtain cs where "components s = (True, cs)" using assms(1) by (cases "components s") simp
  then show ?thesis using canonical_agrees [of e cs q] assms by (simp add: normalize_scope_prefix_def absolute_path_same)
qed

section \<open>Remembered answers\<close>

lemma add_rules_set: "set (session_rules (add_rules tool eff ss m)) =
    set (session_rules m) \<union> (\<lambda>s. \<lparr>rule_tool = tool, rule_scope = Some s, rule_effect = eff\<rparr>) ` set ss"
proof (induction ss arbitrary: m)
  case (Cons s ss)
  then show ?case by (auto simp: add_rules_def add_session_rule_def)
qed (simp add: add_rules_def)

lemma add_session_rule_frame [simp]:
  "config_rules (add_session_rule r m) = config_rules m" "builtin_rules (add_session_rule r m) = builtin_rules m"
  "yolo (add_session_rule r m) = yolo m" "tool_defaults (add_session_rule r m) = tool_defaults m"
  "pm_default (add_session_rule r m) = pm_default m" "project_trusted (add_session_rule r m) = project_trusted m"
  by (simp_all add: add_session_rule_def)

lemma add_rules_frame [simp]:
  "config_rules (add_rules tool eff ss m) = config_rules m" "builtin_rules (add_rules tool eff ss m) = builtin_rules m"
  "yolo (add_rules tool eff ss m) = yolo m" "tool_defaults (add_rules tool eff ss m) = tool_defaults m"
  "pm_default (add_rules tool eff ss m) = pm_default m" "project_trusted (add_rules tool eff ss m) = project_trusted m"
  by (induction ss arbitrary: m) (simp_all add: add_rules_def)

lemma add_rules_all: "set (all_rules plug (add_rules tool eff ss m)) =
    set (all_rules plug m) \<union> (\<lambda>s. \<lparr>rule_tool = tool, rule_scope = Some s, rule_effect = eff\<rparr>) ` set ss"
  by (auto simp: all_rules_def add_rules_set)

lemma denied_after_allow: "denied_by e (all_rules plug (add_rules t Allow ss m)) tool s = denied_by e (all_rules plug m) tool s"
  by (auto simp: denied_by_def list_ex_iff add_rules_all)

lemma rule_matches_tool_refl [simp]: "rule_matches_tool t t"
  by (cases t) simp_all

lemma allowed_after_allow:
  assumes "p \<in> set ss" "rule_matches_tool t tool" "scope_matches e p s"
  shows "allowed_by e (all_rules plug (add_rules t Allow ss m)) tool s"
proof -
  have "\<lparr>rule_tool = t, rule_scope = Some p, rule_effect = Allow\<rparr> \<in> set (all_rules plug (add_rules t Allow ss m))"
    using assms(1) by (auto simp: add_rules_all)
  then show ?thesis using assms(2,3) unfolding allowed_by_def list_ex_iff
    by (rule_tac bexI) (simp_all add: rule_applies_def rule_matches_scope_def)
qed

lemma apply_session: "fst (apply_decision tool scopes AllowSession m) = add_rules tool Allow (generalized_scopes tool scopes) m"
  by (simp add: apply_decision_def resolved_scopes_def is_allow_def Let_def)

lemma apply_decision_rules:
  "fst (apply_decision tool scopes a m) = m
     \<or> fst (apply_decision tool scopes a m) = add_rules tool (if is_allow a then Allow else Deny) (resolved_scopes tool scopes a) m"
  by (auto simp: apply_decision_def Let_def is_allow_def)

lemma set_generalized_scopes: "set (generalized_scopes tool scopes) = generalize_scope tool ` set scopes"
  by (simp add: generalized_scopes_def)

section \<open>Tokens of a command\<close>

lemma command_char_no_space: "is_command_char c \<Longrightarrow> space_length (c # s) = 0"
proof -
  assume "is_command_char c"
  then have b: "43 \<le> byte c \<and> byte c \<le> 122" by (auto simp: is_command_char_def is_alphanumeric_def byte_def)
  then have "find (\<lambda>w. take (length w) (map byte (c # s)) = w) wide_spaces = None"
    by (auto simp: find_None_iff wide_spaces_def)
  then show ?thesis using b by (simp add: space_length_def)
qed

lemma take_token_word: "list_all is_command_char w \<Longrightarrow> r = [] \<or> hd r = CHR '' '' \<Longrightarrow> take_token (w @ r) = w"
proof (induction w)
  case Nil
  then show ?case by (cases r) (auto simp: space_length_def byte_def)
next
  case (Cons c w)
  then show ?case by (simp add: command_char_no_space)
qed

lemma first_token_word:
  assumes "is_command_word w" "r = [] \<or> hd r = CHR '' ''"
  shows "first_token (w @ r) = Some w"
proof -
  obtain c v where w: "w = c # v" "is_command_char c" using assms(1) by (cases w) (auto simp: is_command_word_def)
  then have "skip_spaces (w @ r) = w @ r" by (subst skip_spaces.simps) (simp add: command_char_no_space)
  then show ?thesis using assms take_token_word [of w r] w by (simp add: first_token_def is_command_word_def Let_def)
qed

lemma generalize_command:
  assumes "is_command_word w" "r = [] \<or> hd r = CHR '' ''"
  shows "generalize_bash_segment (w @ r) = w @ '' *''"
  using first_token_word [OF assms] assms(1) by (simp add: generalize_bash_segment_def)

section \<open>Texts\<close>

lemma tool_key_parse_display: "tool_key_parse s = Inr k \<Longrightarrow> tool_key_display k = s"
  by (auto simp: tool_key_parse_def split_once_Some Let_def split: if_splits option.splits prod.splits)

lemma answer_decode_encode: "a \<noteq> DenyWithGuidance [] \<Longrightarrow> answer_decode (answer_encode a) = Some a"
  by (cases a) (simp_all add: answer_decode_def strip_prefix_def starts_with_def)

lemma tagged_decode_encode:
  "ANSWER_ID_SEPARATOR \<notin> set (request_id t) \<Longrightarrow> answer t \<noteq> DenyWithGuidance [] \<Longrightarrow> tagged_decode (tagged_encode t) = Some t"
proof -
  assume a: "ANSWER_ID_SEPARATOR \<notin> set (request_id t)" "answer t \<noteq> DenyWithGuidance []"
  then have "split_once ANSWER_ID_SEPARATOR (tagged_encode t) = Some (request_id t, answer_encode (answer t))"
    by (simp add: split_once_Some tagged_encode_def)
  then show ?thesis using answer_decode_encode [OF a(2)] by (simp add: tagged_decode_def)
qed

section \<open>The wait for an answer\<close>

definition passes_over :: "string \<Rightarrow> channel_event \<Rightarrow> bool" where
  "passes_over i ev \<longleftrightarrow> (case ev of Response raw \<Rightarrow> (case tagged_decode raw of Some t \<Rightarrow> request_id t \<noteq> i | None \<Rightarrow> True) | _ \<Rightarrow> False)"

definition names_answer :: "string \<Rightarrow> permission_answer \<Rightarrow> channel_event \<Rightarrow> bool" where
  "names_answer i a ev \<longleftrightarrow> (case ev of Response raw \<Rightarrow> tagged_decode raw = Some \<lparr>request_id = i, answer = a\<rparr> | _ \<Rightarrow> False)"

lemma passes_not_names: "passes_over i ev \<Longrightarrow> \<not> names_answer i a ev"
  by (auto simp: passes_over_def names_answer_def split: channel_event.splits option.splits)

lemma await_answer_Cons:
  "await_answer i (ev # es) = Some (Some a) \<longleftrightarrow> names_answer i a ev \<or> (passes_over i ev \<and> await_answer i es = Some (Some a))"
proof (cases ev)
  case (Response raw)
  have "t = \<lparr>request_id = i, answer = a\<rparr> \<longleftrightarrow> request_id t = i \<and> answer t = a" for t :: tagged_answer by (cases t) auto
  with Response show ?thesis by (cases "tagged_decode raw") (auto simp: passes_over_def names_answer_def)
qed (simp_all add: passes_over_def names_answer_def)

lemma await_answer_named:
  "await_answer i es = Some (Some a) \<longleftrightarrow> (\<exists>pre ev post. es = pre @ ev # post \<and> list_all (passes_over i) pre \<and> names_answer i a ev)"
proof (induction es)
  case (Cons ev es)
  show ?case
  proof
    assume "await_answer i (ev # es) = Some (Some a)"
    then consider "names_answer i a ev" | "passes_over i ev" "await_answer i es = Some (Some a)" by (auto simp: await_answer_Cons)
    then show "\<exists>pre v post. ev # es = pre @ v # post \<and> list_all (passes_over i) pre \<and> names_answer i a v"
    proof cases
      case 1
      then show ?thesis by (intro exI [of _ "[]"]) simp
    next
      case 2
      then obtain pre v post where "es = pre @ v # post" "list_all (passes_over i) pre" "names_answer i a v" using Cons.IH by blast
      with 2 show ?thesis by (intro exI [of _ "ev # pre"]) simp
    qed
  next
    assume "\<exists>pre v post. ev # es = pre @ v # post \<and> list_all (passes_over i) pre \<and> names_answer i a v"
    then obtain pre v post where e: "ev # es = pre @ v # post" "list_all (passes_over i) pre" "names_answer i a v" by blast
    then show "await_answer i (ev # es) = Some (Some a)" using Cons.IH by (cases pre) (auto simp: await_answer_Cons)
  qed
qed simp

section \<open>Where rules come from\<close>

text \<open>A rule of a session is accounted for by a log if it was loaded with the session, or an answer of the
  kind that is remembered was applied to a request the user was shown, and the rule is what that answer
  asks for.\<close>

definition remembered :: "permission_answer \<Rightarrow> bool" where
  "remembered a \<longleftrightarrow> a \<notin> {AllowOnce, DenyOnce} \<and> answer_guidance a = None"

definition rule_of_answer :: "tool_key \<Rightarrow> string list \<Rightarrow> permission_answer \<Rightarrow> permission_rule \<Rightarrow> bool" where
  "rule_of_answer t ss a r \<longleftrightarrow> remembered a \<and> rule_tool r = t \<and> rule_effect r = (if is_allow a then Allow else Deny)
     \<and> (\<exists>s \<in> set (resolved_scopes t ss a). rule_scope r = Some s)"

definition accounted :: "desk_event list \<Rightarrow> permission_rule \<Rightarrow> bool" where
  "accounted log r \<longleftrightarrow> (\<exists>rules. Loaded rules \<in> set log \<and> r \<in> set rules)
     \<or> (\<exists>i t ss a. Requested i t ss \<in> set log \<and> Applied i t ss a \<in> set log \<and> rule_of_answer t ss a r)"

lemma accounted_append: "accounted log r \<Longrightarrow> accounted (log @ es) r"
  unfolding accounted_def set_append by blast

lemma applied_rule:
  assumes "r \<in> set (session_rules (fst (apply_decision t ss a m)))"
  shows "r \<in> set (session_rules m) \<or> rule_of_answer t ss a r"
proof (cases "remembered a")
  case True
  then have "answer_guidance a = None" "a \<noteq> AllowOnce" "a \<noteq> DenyOnce" by (auto simp: remembered_def)
  then show ?thesis using assms True apply_decision_rules [of t ss a m]
    by (auto simp: add_rules_set rule_of_answer_def)
next
  case False
  then have "fst (apply_decision t ss a m) = m" by (auto simp: remembered_def apply_decision_def Let_def)
  then show ?thesis using assms by simp
qed

definition desk_ok :: "desk \<Rightarrow> bool" where
  "desk_ok d \<longleftrightarrow> (\<forall>r \<in> set (session_rules (desk_pm d)). accounted (desk_log d) r)
     \<and> (\<forall>i t ss. desk_asking d = Some (i, t, ss) \<longrightarrow> Requested i t ss \<in> set (desk_log d))"

lemma desk_okD:
  "desk_ok d \<Longrightarrow> r \<in> set (session_rules (desk_pm d)) \<Longrightarrow> accounted (desk_log d) r"
  "desk_ok d \<Longrightarrow> desk_asking d = Some (i, t, ss) \<Longrightarrow> Requested i t ss \<in> set (desk_log d)"
  by (auto simp: desk_ok_def)

lemma settings_session_rules [simp]:
  "session_rules (fst (toggle_yolo m)) = session_rules m" "session_rules (set_yolo b m) = session_rules m"
  "session_rules (set_session_yolo o' m) = session_rules m" "session_rules (set_cwd e cwd m) = session_rules m"
  "session_rules (load_session_rules rules m) = rules"
  by (simp_all add: toggle_yolo_def set_yolo_def set_session_yolo_def set_cwd_def load_session_rules_def)

lemma desk_step_ok:
  assumes "desk_step e d d'" "desk_ok d" shows "desk_ok d'"
  using assms
proof (induction rule: desk_step.induct)
  case (answer_taken d i t ss raw q a)
  have pm: "fst (enforce_answer t ss (Some a) (desk_pm d)) = fst (apply_decision t ss a (desk_pm d))"
    by (simp add: enforce_answer_def split: prod.split)
  have req: "Requested i t ss \<in> set (desk_log d)" using answer_taken by (simp add: desk_okD(2))
  have "accounted (desk_log d @ [Applied i t ss a]) r" if r: "r \<in> set (session_rules (fst (apply_decision t ss a (desk_pm d))))" for r
    using applied_rule [OF r]
  proof
    assume "r \<in> set (session_rules (desk_pm d))"
    then show ?thesis using desk_okD(1) [OF answer_taken.prems] accounted_append by blast
  next
    assume "rule_of_answer t ss a r"
    then show ?thesis unfolding accounted_def using req
      by (intro disjI2 exI [of _ i] exI [of _ t] exI [of _ ss] exI [of _ a]) simp
  qed
  then show ?case unfolding desk_ok_def by (simp add: pm)
next
  case (host_loads d rules)
  then show ?case by (auto simp: desk_ok_def accounted_def)
qed (auto simp: desk_ok_def accounted_append)

lemma desk_reachable_ok: "desk_reachable e d \<Longrightarrow> desk_ok d"
proof (induction rule: desk_reachable.induct)
  case (desk_new cfg cwd trusted)
  then show ?case by (simp add: desk_ok_def new_desk_def new_permission_manager_def)
qed (rule desk_step_ok)

end
