(* ===== verification/Permission_Config.thy ===== *)
theory Permission_Config
  imports Permission_Laws
begin

text \<open>
  The permission files (\<^verbatim>\<open>maki-config/src/lib.rs\<close>): how a file is read, how the global file and the
  project's file are combined, how a folder that is not trusted is held to its denials, and how a
  remembered answer is written back. A TOML document is the table the parser delivers; the texts of
  error messages are left out.
\<close>

section \<open>Documents\<close>

text \<open>A table written inline cannot be extended in place.\<close>

datatype toml = TBoolean bool | TString string | TArray "toml list" | TTable bool "(string \<times> toml) list" | TOther

type_synonym toml_table = "(string \<times> toml) list"

fun as_table :: "toml \<Rightarrow> toml_table option" where
  "as_table (TTable _ t) = Some t"
| "as_table _ = None"

fun as_str :: "toml \<Rightarrow> string option" where
  "as_str (TString s) = Some s"
| "as_str _ = None"

datatype config_error = RuleError string string

fun try_fold :: "('a \<Rightarrow> 's \<Rightarrow> 'e + 's) \<Rightarrow> 'a list \<Rightarrow> 's \<Rightarrow> 'e + 's" where
  "try_fold f [] s = Inr s"
| "try_fold f (x # xs) s = (case f x s of Inl e \<Rightarrow> Inl e | Inr s' \<Rightarrow> try_fold f xs s')"

definition or_error :: "config_error \<Rightarrow> 'a option \<Rightarrow> config_error + 'a" where
  "or_error e v = (case v of None \<Rightarrow> Inl e | Some x \<Rightarrow> Inr x)"

section \<open>Reading a file\<close>

datatype scope_set = ScopeAll bool | Scopes "string list"

record tool_permissions =
  tp_allow :: "scope_set option"
  tp_deny :: "scope_set option"
  tp_default :: "default_effect option"

record permissions_file =
  pf_default :: "default_effect option"
  pf_tools :: "(string, tool_permissions) hmap"
  pf_mcp_rules :: "permission_rule list"
  pf_mcp_defaults :: "(tool_key, default_effect) hmap"

definition empty_file :: permissions_file where
  "empty_file = \<lparr>pf_default = None, pf_tools = [], pf_mcp_rules = [], pf_mcp_defaults = []\<rparr>"

definition effect_of_value :: "toml \<Rightarrow> default_effect option" where
  "effect_of_value v = Option.bind (as_str v) (\<lambda>s.
     if s = ''allow'' then Some DefaultAllow else if s = ''deny'' then Some DefaultDeny
     else if s = ''prompt'' then Some DefaultPrompt else None)"

fun string_list :: "toml \<Rightarrow> string list option" where
  "string_list (TArray vs) = those (map as_str vs)"
| "string_list _ = None"

fun scope_set_parse :: "toml \<Rightarrow> scope_set option" where
  "scope_set_parse (TBoolean b) = Some (ScopeAll b)"
| "scope_set_parse v = map_option Scopes (string_list v)"

definition tool_entry :: "string \<Rightarrow> string \<times> toml \<Rightarrow> tool_permissions \<Rightarrow> config_error + tool_permissions" where
  "tool_entry tool kv p = (case kv of (key, value) \<Rightarrow>
     if key = ''allow'' then map_sum id (\<lambda>s. p\<lparr>tp_allow := Some s\<rparr>) (or_error (RuleError tool key) (scope_set_parse value))
     else if key = ''deny'' then map_sum id (\<lambda>s. p\<lparr>tp_deny := Some s\<rparr>) (or_error (RuleError tool key) (scope_set_parse value))
     else if key = ''default'' then
       if tool = ''*'' then Inl (RuleError tool key)
       else map_sum id (\<lambda>d. p\<lparr>tp_default := Some d\<rparr>) (or_error (RuleError tool key) (effect_of_value value))
     else Inl (RuleError tool key))"

definition tool_permissions_parse :: "string \<Rightarrow> toml \<Rightarrow> config_error + tool_permissions" where
  "tool_permissions_parse tool value = (case as_table value of
     None \<Rightarrow> Inl (RuleError [] tool)
   | Some table \<Rightarrow>
       if tool \<noteq> ''*'' \<and> \<not> is_valid_wire_name tool then Inl (RuleError [] tool)
       else try_fold (tool_entry tool) table \<lparr>tp_allow = None, tp_deny = None, tp_default = None\<rparr>)"

definition mcp_rule :: "string \<Rightarrow> string \<Rightarrow> effect \<Rightarrow> string \<Rightarrow> permissions_file \<Rightarrow> config_error + permissions_file" where
  "mcp_rule server key eff tool f =
     (case (if tool = ''*'' then Inr (McpServer server)
            else map_sum (\<lambda>_. RuleError (''mcp.'' @ server) key) id (tool_key_parse (server @ ''.'' @ tool))) of
        Inl e \<Rightarrow> Inl e
      | Inr k \<Rightarrow> Inr (f\<lparr>pf_mcp_rules := pf_mcp_rules f @ [\<lparr>rule_tool = k, rule_scope = None, rule_effect = eff\<rparr>]\<rparr>))"

definition mcp_entry :: "string \<Rightarrow> string \<times> toml \<Rightarrow> permissions_file \<Rightarrow> config_error + permissions_file" where
  "mcp_entry server kv f = (case kv of (key, value) \<Rightarrow>
     if key = ''default'' then
       map_sum id (\<lambda>d. f\<lparr>pf_mcp_defaults := hm_insert (McpServer server) d (pf_mcp_defaults f)\<rparr>)
         (or_error (RuleError (''mcp.'' @ server) key) (effect_of_value value))
     else if key = ''allow'' \<or> key = ''deny'' then
       (case string_list value of
          None \<Rightarrow> Inl (RuleError (''mcp.'' @ server) key)
        | Some tools \<Rightarrow> try_fold (mcp_rule server key (if key = ''allow'' then Allow else Deny)) tools f)
     else Inl (RuleError (''mcp.'' @ server) key))"

definition parse_mcp_server :: "string \<times> toml \<Rightarrow> permissions_file \<Rightarrow> config_error + permissions_file" where
  "parse_mcp_server sv f = (case sv of (server, value) \<Rightarrow> (case as_table value of
     None \<Rightarrow> Inl (RuleError ''mcp'' server)
   | Some table \<Rightarrow> if \<not> is_valid_server_name server then Inl (RuleError ''mcp'' server)
       else try_fold (mcp_entry server) table f))"

definition file_entry :: "string \<times> toml \<Rightarrow> permissions_file \<Rightarrow> config_error + permissions_file" where
  "file_entry kv f = (case kv of (key, value) \<Rightarrow>
     if key = ''default'' then map_sum id (\<lambda>d. f\<lparr>pf_default := Some d\<rparr>) (or_error (RuleError [] key) (effect_of_value value))
     else if key = ''mcp'' then
       (case as_table value of None \<Rightarrow> Inl (RuleError [] key) | Some servers \<Rightarrow> try_fold parse_mcp_server servers f)
     else map_sum id (\<lambda>p. f\<lparr>pf_tools := hm_insert key p (pf_tools f)\<rparr>) (tool_permissions_parse key value))"

definition permissions_parse :: "toml_table \<Rightarrow> config_error + permissions_file" where
  "permissions_parse table = try_fold file_entry table empty_file"

section \<open>Combining the files\<close>

text \<open>\<open>restrict_to_deny_scopes\<close>: what is left of the file of a folder nobody vouched for.\<close>

definition restrict_to_deny_scopes :: "permissions_file \<Rightarrow> permissions_file" where
  "restrict_to_deny_scopes f = \<lparr>pf_default = None,
     pf_tools = map (\<lambda>(t, p). (t, p\<lparr>tp_allow := None, tp_default := None\<rparr>)) (pf_tools f),
     pf_mcp_rules = filter (\<lambda>r. rule_effect r = Deny) (pf_mcp_rules f), pf_mcp_defaults = []\<rparr>"

text \<open>A tool section names the wildcard or a valid wire name, so \<open>ToolKey::native\<close> does not panic on it.\<close>

definition native_key :: "string \<Rightarrow> tool_key" where
  "native_key name = (if name = ''*'' then Wildcard else Native name)"

definition rules_of_set :: "string \<Rightarrow> effect \<Rightarrow> scope_set option \<Rightarrow> permission_rule list" where
  "rules_of_set tool eff given = (case given of
     None \<Rightarrow> []
   | Some (ScopeAll b) \<Rightarrow> if b then [\<lparr>rule_tool = native_key tool, rule_scope = None, rule_effect = eff\<rparr>] else []
   | Some (Scopes scopes) \<Rightarrow> map (\<lambda>s. \<lparr>rule_tool = native_key tool, rule_scope = Some s, rule_effect = eff\<rparr>) scopes)"

definition push_rules :: "(string, tool_permissions) hmap \<Rightarrow> effect \<Rightarrow> permission_rule list" where
  "push_rules tools eff = concat (map (\<lambda>(tool, p). rules_of_set tool eff (case eff of Deny \<Rightarrow> tp_deny p | Allow \<Rightarrow> tp_allow p)) tools)"

definition mcp_rules_with :: "effect \<Rightarrow> permissions_file \<Rightarrow> permission_rule list" where
  "mcp_rules_with eff f = filter (\<lambda>r. rule_effect r = eff) (pf_mcp_rules f)"

definition insert_defaults :: "bool \<Rightarrow> permissions_file \<Rightarrow> (tool_key, default_effect) hmap \<Rightarrow> (tool_key, default_effect) hmap" where
  "insert_defaults allows f m =
     (let keep = (\<lambda>d. allows \<or> d \<noteq> DefaultAllow);
          m1 = fold (\<lambda>(t, p) m. case tp_default p of Some d \<Rightarrow> if keep d then hm_insert (native_key t) d m else m | None \<Rightarrow> m) (pf_tools f) m
      in fold (\<lambda>(k, d) m. if keep d then hm_insert k d m else m) (pf_mcp_defaults f) m1)"

definition build_permissions :: "permissions_file \<Rightarrow> permissions_file \<Rightarrow> permissions_config" where
  "build_permissions global project =
     (let global_default = (case pf_default global of Some d \<Rightarrow> d | None \<Rightarrow> DefaultPrompt)
      in \<lparr>pc_default = (case pf_default project of Some DefaultAllow \<Rightarrow> global_default | Some d \<Rightarrow> d | None \<Rightarrow> global_default),
          pc_tool_defaults = insert_defaults False project (insert_defaults True global []),
          pc_rules = mcp_rules_with Deny global @ mcp_rules_with Allow global
            @ push_rules (pf_tools global) Deny @ push_rules (pf_tools global) Allow
            @ push_rules (pf_tools project) Deny @ push_rules (pf_tools project) Allow
            @ mcp_rules_with Deny project @ mcp_rules_with Allow project,
          pc_yolo = False\<rparr>)"

text \<open>\<open>load_permissions_inner\<close>; a file that does not exist is empty, and one that does not parse stops the
  start.\<close>

definition read_permissions_file :: "toml_table option \<Rightarrow> config_error + permissions_file" where
  "read_permissions_file file = (case file of None \<Rightarrow> Inr empty_file | Some table \<Rightarrow> permissions_parse table)"

definition load_permissions :: "toml_table option \<Rightarrow> toml_table option \<Rightarrow> bool \<Rightarrow> bool \<Rightarrow> config_error + permissions_config" where
  "load_permissions global project trusted ignored = (case read_permissions_file global of
     Inl e \<Rightarrow> Inl e
   | Inr g \<Rightarrow>
       if ignored then Inr (build_permissions g empty_file)
       else (case read_permissions_file project of
           Inl e \<Rightarrow> Inl e
         | Inr p \<Rightarrow> Inr (build_permissions g (if trusted then p else restrict_to_deny_scopes p))))"

section \<open>Writing a rule back\<close>

definition child_table :: "string \<Rightarrow> (toml_table \<Rightarrow> unit + toml_table) \<Rightarrow> toml_table \<Rightarrow> unit + toml_table" where
  "child_table key f table = (case hm_get table key of
     None \<Rightarrow> map_sum id (\<lambda>t. table @ [(key, TTable False t)]) (f [])
   | Some (TTable False t) \<Rightarrow> map_sum id (\<lambda>t. hm_insert key (TTable False t) table) (f t)
   | Some _ \<Rightarrow> Inl ())"

definition push_unique :: "string \<Rightarrow> string \<Rightarrow> toml_table \<Rightarrow> unit + toml_table" where
  "push_unique key value table = (case hm_get table key of
     None \<Rightarrow> Inr (table @ [(key, TArray [TString value])])
   | Some (TArray vs) \<Rightarrow> Inr (if TString value \<in> set vs then table else hm_insert key (TArray (vs @ [TString value])) table)
   | Some _ \<Rightarrow> Inl ())"

fun effect_text :: "effect \<Rightarrow> string" where
  "effect_text Allow = ''allow''"
| "effect_text Deny = ''deny''"

definition insert_permission_entry :: "tool_key \<Rightarrow> string option \<Rightarrow> effect \<Rightarrow> toml_table \<Rightarrow> unit + toml_table" where
  "insert_permission_entry k scope eff doc = (case k of
     McpTool server tool \<Rightarrow> child_table ''mcp'' (child_table server (push_unique (effect_text eff) tool)) doc
   | McpServer server \<Rightarrow> child_table ''mcp'' (child_table server (\<lambda>t. Inr (hm_insert ''default'' (TString (effect_text eff)) t))) doc
   | Wildcard \<Rightarrow> Inl ()
   | Native name \<Rightarrow> child_table name (\<lambda>t. case scope of
         Some s \<Rightarrow> push_unique (effect_text eff) s t
       | None \<Rightarrow> Inr (hm_insert (effect_text eff) (TBoolean True) t)) doc)"

text \<open>\<open>append_permission_rule\<close>: the target's document afterwards. An untrusted project is refused.\<close>

definition append_permission_rule :: "bool \<Rightarrow> permission_target \<Rightarrow> tool_key \<Rightarrow> string option \<Rightarrow> effect \<Rightarrow> toml_table \<Rightarrow> unit + toml_table" where
  "append_permission_rule trusted target k scope eff doc =
     (if target = Project \<and> \<not> trusted then Inl () else insert_permission_entry k scope eff doc)"

end
