(* ===== verification/Permission_Files.thy ===== *)
theory Permission_Files
  imports Permission_Config
begin

text \<open>
  Lemmas on permission files: a folder that is not trusted adds denials and nothing else, and a rule that
  was written back is read again next to all the rules that were there.
\<close>

section \<open>Restricted files\<close>

lemma restricted_pushes:
  "push_rules (pf_tools (restrict_to_deny_scopes f)) Allow = []"
  "mcp_rules_with Allow (restrict_to_deny_scopes f) = []"
  by (auto simp: push_rules_def restrict_to_deny_scopes_def rules_of_set_def mcp_rules_with_def filter_empty_conv)

lemma restricted_defaults: "insert_defaults a (restrict_to_deny_scopes f) m = m"
proof -
  have "fold (\<lambda>(t, p) m. case tp_default p of Some d \<Rightarrow> g t d m | None \<Rightarrow> m) (map (\<lambda>(t, p). (t, p\<lparr>tp_allow := None, tp_default := None\<rparr>)) ts) m = m"
    for ts :: "(string \<times> tool_permissions) list" and g by (induction ts) auto
  then show ?thesis by (simp add: insert_defaults_def restrict_to_deny_scopes_def)
qed

lemma rules_of_set_effect: "r \<in> set (rules_of_set t eff g) \<Longrightarrow> rule_effect r = eff"
proof (cases g)
  case (Some a)
  then show "r \<in> set (rules_of_set t eff g) \<Longrightarrow> rule_effect r = eff" by (cases a) (auto simp: rules_of_set_def split: if_splits)
qed (simp add: rules_of_set_def)

lemma push_rules_effect: "r \<in> set (push_rules ts eff) \<Longrightarrow> rule_effect r = eff"
  using rules_of_set_effect by (fastforce simp: push_rules_def)

lemma build_restricted:
  "\<exists>ds. list_all (\<lambda>r. rule_effect r = Deny) ds \<and> build_permissions g (restrict_to_deny_scopes p)
     = (build_permissions g empty_file)\<lparr>pc_rules := pc_rules (build_permissions g empty_file) @ ds\<rparr>"
proof (intro exI conjI)
  let ?ds = "push_rules (pf_tools (restrict_to_deny_scopes p)) Deny @ mcp_rules_with Deny (restrict_to_deny_scopes p)"
  show "list_all (\<lambda>r. rule_effect r = Deny) ?ds" by (auto simp: list_all_iff dest: push_rules_effect simp: mcp_rules_with_def)
  have "insert_defaults False empty_file m = m" for m by (simp add: insert_defaults_def empty_file_def)
  then show "build_permissions g (restrict_to_deny_scopes p)
      = (build_permissions g empty_file)\<lparr>pc_rules := pc_rules (build_permissions g empty_file) @ ?ds\<rparr>"
    by (simp add: build_permissions_def Let_def restricted_pushes restricted_defaults)
      (simp add: restrict_to_deny_scopes_def empty_file_def push_rules_def mcp_rules_with_def)
qed

text \<open>The same session under another configuration, and under one with more denials.\<close>

definition with_config :: "permissions_config \<Rightarrow> permission_manager \<Rightarrow> permission_manager" where
  "with_config c m = m\<lparr>config_rules := pc_rules c, pm_default := pc_default c, tool_defaults := pc_tool_defaults c\<rparr>"

lemma more_denials:
  assumes "list_all (\<lambda>r. rule_effect r = Deny) ds"
  shows "check_inner e plug (with_config (c\<lparr>pc_rules := pc_rules c @ ds\<rparr>) m) tool ss f plan
     \<in> {Denied, check_inner e plug (with_config c m) tool ss f plan}"
proof -
  let ?m = "with_config c m" and ?m' = "with_config (c\<lparr>pc_rules := pc_rules c @ ds\<rparr>) m"
  have rules: "set (all_rules plug ?m') = set (all_rules plug ?m) \<union> set ds" by (auto simp: all_rules_def with_config_def)
  have "allowed_by e (all_rules plug ?m') tool = allowed_by e (all_rules plug ?m) tool"
    using assms by (auto simp: allowed_by_def list_ex_iff list_all_iff rules fun_eq_iff)
  moreover have "denied_by e (all_rules plug ?m) tool s \<Longrightarrow> denied_by e (all_rules plug ?m') tool s" for s
    by (auto simp: denied_by_def list_ex_iff rules)
  moreover have same: "tool_defaults ?m' = tool_defaults ?m" "pm_default ?m' = pm_default ?m" "yolo ?m' = yolo ?m"
    by (simp_all add: with_config_def)
  moreover have "default_for ?m' tool = default_for ?m tool" unfolding default_for_def same ..
  ultimately show ?thesis
    by (cases "list_ex (denied_by e (all_rules plug ?m') tool) ss") (auto simp: check_inner_policy policy_def Let_def list_ex_iff)
qed

section \<open>One section of a file\<close>

definition entry_ok :: "string \<Rightarrow> string \<times> toml \<Rightarrow> bool" where
  "entry_ok tool kv \<longleftrightarrow> (case kv of (k, v) \<Rightarrow>
     ((k = ''allow'' \<or> k = ''deny'') \<and> scope_set_parse v \<noteq> None) \<or> (k = ''default'' \<and> tool \<noteq> ''*'' \<and> effect_of_value v \<noteq> None))"

definition field :: "string \<Rightarrow> (toml \<Rightarrow> 'a option) \<Rightarrow> toml_table \<Rightarrow> 'a option \<Rightarrow> 'a option" where
  "field k parse t old = (case hm_get t k of None \<Rightarrow> old | Some v \<Rightarrow> parse v)"

definition section_of :: "toml_table \<Rightarrow> tool_permissions \<Rightarrow> tool_permissions" where
  "section_of t p = \<lparr>tp_allow = field ''allow'' scope_set_parse t (tp_allow p), tp_deny = field ''deny'' scope_set_parse t (tp_deny p),
     tp_default = field ''default'' effect_of_value t (tp_default p)\<rparr>"

lemma tool_entry_ok:
  assumes "entry_ok tool kv" shows "tool_entry tool kv p = Inr (section_of [kv] p)"
proof -
  obtain k v where kv: "kv = (k, v)" by (cases kv)
  from assms consider s where "k = ''allow''" "scope_set_parse v = Some s" | s where "k = ''deny''" "scope_set_parse v = Some s"
    | d where "k = ''default''" "tool \<noteq> ''*''" "effect_of_value v = Some d" unfolding kv entry_ok_def by auto
  then show ?thesis by cases (simp_all add: kv tool_entry_def section_of_def field_def or_error_def)
qed

lemma tool_entry_bad:
  assumes "\<not> entry_ok tool kv" shows "\<exists>e. tool_entry tool kv p = Inl e"
proof -
  obtain k v where kv: "kv = (k, v)" by (cases kv)
  consider "k = ''allow''" | "k = ''deny''" | "k = ''default''" | "k \<noteq> ''allow''" "k \<noteq> ''deny''" "k \<noteq> ''default''" by blast
  then show ?thesis using assms by cases (auto simp: kv entry_ok_def tool_entry_def or_error_def)
qed

lemma field_Cons: "hm_get t k = None \<Longrightarrow> field s f t (field s f [(k, v)] old) = field s f ((k, v) # t) old"
  by (cases "s = k") (simp_all add: field_def)

lemma section_fold:
  "distinct (map fst t) \<Longrightarrow> try_fold (tool_entry tool) t p = Inr q \<longleftrightarrow> list_all (entry_ok tool) t \<and> q = section_of t p"
proof (induction t arbitrary: p)
  case (Cons kv t)
  show ?case
  proof (cases "entry_ok tool kv")
    case True
    obtain k v where kv: "kv = (k, v)" by (cases kv)
    have none: "hm_get t k = None" using Cons.prems kv by (simp add: map_of_eq_None_iff)
    have "section_of t (section_of [kv] p) = section_of (kv # t) p"
      unfolding section_of_def kv by (simp add: field_Cons [OF none])
    then show ?thesis using Cons True by (auto simp: tool_entry_ok)
  next
    case False
    then show ?thesis using tool_entry_bad [OF False, of p] by auto
  qed
qed (auto simp: section_of_def field_def)

definition no_section :: tool_permissions where
  "no_section = \<lparr>tp_allow = None, tp_deny = None, tp_default = None\<rparr>"

lemma tool_section:
  assumes "distinct (map fst t)" "is_valid_wire_name tool"
  shows "tool_permissions_parse tool (TTable b t) = Inr q \<longleftrightarrow> list_all (entry_ok tool) t \<and> q = section_of t no_section"
  using section_fold [OF assms(1)] assms(2) by (simp add: tool_permissions_parse_def no_section_def)

fun scopes_of :: "scope_set option \<Rightarrow> string set" where
  "scopes_of (Some (Scopes ss)) = set ss"
| "scopes_of _ = {}"

lemma string_list_snoc: "string_list (TArray vs) = Some ss \<Longrightarrow> string_list (TArray (vs @ [TString s])) = Some (ss @ [s])"
  by (induction vs arbitrary: ss) (auto simp: Option.map_conv_bind_option bind_eq_Some_conv split: option.splits)

lemma string_list_member: "string_list (TArray vs) = Some ss \<Longrightarrow> TString s \<in> set vs \<Longrightarrow> s \<in> set ss"
  by (induction vs arbitrary: ss) (auto simp: bind_eq_Some_conv split: option.splits)

definition chosen :: "effect \<Rightarrow> tool_permissions \<Rightarrow> scope_set option" where
  "chosen eff p = (case eff of Deny \<Rightarrow> tp_deny p | Allow \<Rightarrow> tp_allow p)"

lemma chosen_section: "chosen eff (section_of t no_section) = field (effect_text eff) scope_set_parse t None"
  by (cases eff) (simp_all add: chosen_def section_of_def no_section_def)

lemma effect_text_inject: "effect_text a = effect_text b \<longleftrightarrow> a = b"
  by (cases a; cases b) simp_all

lemma set_hm_insert: "set (hm_insert k v t) \<subseteq> insert (k, v) (set t)"
  by (induction t) auto

lemma entry_okD: "list_all (entry_ok tool) t \<Longrightarrow> (effect_text eff, v) \<in> set t \<Longrightarrow> \<exists>ss. scope_set_parse v = Some ss"
  by (cases eff) (auto simp: list_all_iff entry_ok_def dest!: bspec)

lemma scope_set_list: "scope_set_parse (TArray vs) = map_option Scopes (string_list (TArray vs))"
  by simp

text \<open>Adding a scope to a section keeps the section readable, adds the scope, and loses none.\<close>

lemma push_unique_section:
  assumes "distinct (map fst t)" "list_all (entry_ok tool) t" "push_unique (effect_text eff) s t = Inr t'"
  shows "distinct (map fst t') \<and> list_all (entry_ok tool) t' \<and> s \<in> scopes_of (chosen eff (section_of t' no_section))
     \<and> (\<forall>e. set (rules_of_set tool e (chosen e (section_of t no_section))) \<subseteq> set (rules_of_set tool e (chosen e (section_of t' no_section))))"
proof -
  let ?k = "effect_text eff"
  have key: "?k = ''allow'' \<or> ?k = ''deny''" by (cases eff) simp_all
  consider "hm_get t ?k = None" "t' = t @ [(?k, TArray [TString s])]"
    | vs where "hm_get t ?k = Some (TArray vs)" "TString s \<in> set vs" "t' = t"
    | vs where "hm_get t ?k = Some (TArray vs)" "t' = hm_insert ?k (TArray (vs @ [TString s])) t"
    using assms(3) by (auto simp: push_unique_def split: option.splits toml.splits if_splits)
  then show ?thesis
  proof cases
    case 1
    have "field k scope_set_parse t' None = (if k = ?k then Some (Scopes [s]) else field k scope_set_parse t None)" for k
      using 1 by (simp add: field_def map_add_def split: option.split)
    moreover have "entry_ok tool (?k, TArray [TString s])" using key by (auto simp: entry_ok_def)
    moreover have "field ?k scope_set_parse t None = None" using 1 by (simp add: field_def)
    ultimately show ?thesis using 1 assms(1,2)
      by (auto simp: chosen_section effect_text_inject rules_of_set_def map_of_eq_None_iff)
  next
    case (2 vs)
    have "(?k, TArray vs) \<in> set t" using 2(1) by (rule map_of_SomeD)
    then obtain ss where "string_list (TArray vs) = Some ss" using entry_okD [OF assms(2)] by (fastforce simp: scope_set_list simp del: string_list.simps)
    then show ?thesis using 2 assms(1,2) string_list_member [of vs ss s] by (simp add: chosen_section field_def scope_set_list del: string_list.simps)
  next
    case (3 vs)
    have "(?k, TArray vs) \<in> set t" using 3(1) by (rule map_of_SomeD)
    then obtain ss where ss: "string_list (TArray vs) = Some ss" using entry_okD [OF assms(2)] by (fastforce simp: scope_set_list simp del: string_list.simps)
    note ss' = string_list_snoc [OF ss, of s]
    have "field k scope_set_parse t' None = (if k = ?k then Some (Scopes (ss @ [s])) else field k scope_set_parse t None)" for k
      using 3 ss' by (simp add: field_def hm_simps scope_set_list del: string_list.simps)
    moreover have "field ?k scope_set_parse t None = Some (Scopes ss)" using 3 ss by (simp add: field_def scope_set_list del: string_list.simps)
    moreover have "entry_ok tool (?k, TArray (vs @ [TString s]))" using key ss' by (auto simp: entry_ok_def scope_set_list simp del: string_list.simps)
    then have "list_all (entry_ok tool) t'" using set_hm_insert [of ?k _ t] assms(2) 3(2) unfolding list_all_iff by blast
    moreover have "distinct (map fst t')" unfolding 3(2) by (rule hm_wf_insert [OF assms(1)])
    ultimately show ?thesis by (auto simp: chosen_section effect_text_inject rules_of_set_def)
  qed
qed

section \<open>A whole file\<close>

lemma try_fold_append: "try_fold f (xs @ ys) s = (case try_fold f xs s of Inl e \<Rightarrow> Inl e | Inr s' \<Rightarrow> try_fold f ys s')"
  by (induction xs arbitrary: s) (simp_all split: sum.split)

lemma try_fold_commute:
  assumes "\<And>x s. f x (g s) = map_sum id g (f x s)" shows "try_fold f xs (g s) = map_sum id g (try_fold f xs s)"
  by (induction xs arbitrary: s) (simp_all add: assms split: sum.split)

abbreviation retool :: "(string, tool_permissions) hmap \<Rightarrow> permissions_file \<Rightarrow> permissions_file" where
  "retool ts f \<equiv> f\<lparr>pf_tools := ts\<rparr>"

lemma mcp_rule_retool: "mcp_rule server key eff tool (retool ts f) = map_sum id (retool ts) (mcp_rule server key eff tool f)"
  by (simp add: mcp_rule_def split: sum.split)

lemma mcp_entry_retool: "mcp_entry server kv (retool ts f) = map_sum id (retool ts) (mcp_entry server kv f)"
proof -
  have "try_fold (mcp_rule server k eff) tools (retool ts f) = map_sum id (retool ts) (try_fold (mcp_rule server k eff) tools f)" for k eff tools
    by (rule try_fold_commute) (rule mcp_rule_retool)
  then show ?thesis by (simp add: mcp_entry_def or_error_def split: prod.split option.split)
qed

lemma mcp_servers_retool: "try_fold parse_mcp_server servers (retool ts f) = map_sum id (retool ts) (try_fold parse_mcp_server servers f)"
proof (rule try_fold_commute)
  fix sv and f :: permissions_file
  have "try_fold (mcp_entry server) t (retool ts f) = map_sum id (retool ts) (try_fold (mcp_entry server) t f)" for server t
    by (rule try_fold_commute) (rule mcp_entry_retool)
  then show "parse_mcp_server sv (retool ts f) = map_sum id (retool ts) (parse_mcp_server sv f)"
    by (simp add: parse_mcp_server_def split: prod.split option.split)
qed

lemma mcp_servers_tools: "try_fold parse_mcp_server servers f = Inr h \<Longrightarrow> pf_tools h = pf_tools f"
proof -
  assume h: "try_fold parse_mcp_server servers f = Inr h"
  have "try_fold parse_mcp_server servers (retool (pf_tools f) f) = Inr (retool (pf_tools f) h)" by (simp only: mcp_servers_retool h) simp
  then have "retool (pf_tools f) h = h" using h by simp
  then have "pf_tools h = pf_tools (retool (pf_tools f) h)" by (rule arg_cong [OF sym])
  then show ?thesis by simp
qed

text \<open>The three kinds of entries.\<close>

lemma file_entryE:
  assumes "file_entry (k, v) f = Inr h"
  obtains d where "k = ''default''" "effect_of_value v = Some d" "h = f\<lparr>pf_default := Some d\<rparr>"
  | servers where "k = ''mcp''" "as_table v = Some servers" "try_fold parse_mcp_server servers f = Inr h"
  | p where "k \<noteq> ''default''" "k \<noteq> ''mcp''" "tool_permissions_parse k v = Inr p" "h = retool (hm_insert k p (pf_tools f)) f"
proof -
  have e: "file_entry (k, v) f = Inr h" by (rule assms)
  consider "k = ''default''" | "k = ''mcp''" | "k \<noteq> ''default''" "k \<noteq> ''mcp''" by blast
  then show thesis
  proof cases
    case 1
    with e show thesis using that(1) by (cases "effect_of_value v") (auto simp: file_entry_def or_error_def)
  next
    case 2
    with e show thesis using that(2) by (cases "as_table v") (auto simp: file_entry_def)
  next
    case 3
    with e show thesis using that(3) by (cases "tool_permissions_parse k v") (auto simp: file_entry_def)
  qed
qed

lemma file_entry_tools:
  "file_entry (k, v) f = Inr h \<Longrightarrow> fst ` set (pf_tools h) \<subseteq> insert k (fst ` set (pf_tools f)) \<and> (hm_wf (pf_tools f) \<longrightarrow> hm_wf (pf_tools h))
     \<and> (i \<noteq> k \<longrightarrow> hm_get (pf_tools h) i = hm_get (pf_tools f) i)"
  by (erule file_entryE) (auto simp: mcp_servers_tools hm_simps intro: wf_intros)

lemma file_fold_tools:
  "try_fold file_entry xs f = Inr h \<Longrightarrow> fst ` set (pf_tools h) \<subseteq> fst ` set xs \<union> fst ` set (pf_tools f) \<and> (hm_wf (pf_tools f) \<longrightarrow> hm_wf (pf_tools h))
     \<and> (i \<notin> fst ` set xs \<longrightarrow> hm_get (pf_tools h) i = hm_get (pf_tools f) i)"
proof (induction xs arbitrary: f)
  case (Cons kv xs)
  obtain k v where kv: "kv = (k, v)" by (cases kv)
  with Cons.prems obtain f1 where f1: "file_entry (k, v) f = Inr f1" "try_fold file_entry xs f1 = Inr h" by (auto split: sum.splits)
  note step = Cons.IH [OF f1(2)] file_entry_tools [OF f1(1), of i]
  then have "fst ` set (pf_tools h) \<subseteq> insert k (fst ` set xs \<union> fst ` set (pf_tools f))" by blast
  then show ?case using step by (simp add: kv)
qed simp

lemma hm_insert_swap: "i \<noteq> k \<Longrightarrow> i \<in> fst ` set m \<Longrightarrow> hm_insert k q (hm_insert i p m) = hm_insert i p (hm_insert k q m)"
  by (induction m) auto

lemma file_entry_swap:
  assumes "file_entry (k, v) f = Inr h" "i \<noteq> k" "i \<in> fst ` set (pf_tools f)"
  shows "file_entry (k, v) (retool (hm_insert i p (pf_tools f)) f) = Inr (retool (hm_insert i p (pf_tools h)) h) \<and> i \<in> fst ` set (pf_tools h)"
  using assms(1)
proof (cases rule: file_entryE)
  case (1 d)
  then show ?thesis using assms by (simp add: file_entry_def or_error_def)
next
  case (2 servers)
  then show ?thesis using assms(3) mcp_servers_tools [OF 2(3)] by (simp add: file_entry_def mcp_servers_retool)
next
  case (3 q)
  then show ?thesis using assms by (simp add: file_entry_def hm_insert_swap)
qed

lemma file_fold_swap:
  "try_fold file_entry xs f = Inr h \<Longrightarrow> i \<notin> fst ` set xs \<Longrightarrow> i \<in> fst ` set (pf_tools f) \<Longrightarrow>
     try_fold file_entry xs (retool (hm_insert i p (pf_tools f)) f) = Inr (retool (hm_insert i p (pf_tools h)) h)"
proof (induction xs arbitrary: f)
  case (Cons kv xs)
  obtain k v where kv: "kv = (k, v)" by (cases kv)
  with Cons.prems obtain f1 where f1: "file_entry (k, v) f = Inr f1" "try_fold file_entry xs f1 = Inr h" by (auto split: sum.splits)
  show ?case using Cons.IH [OF f1(2)] Cons.prems file_entry_swap [OF f1(1), of i p] by (simp add: kv)
qed simp

lemma hm_insert_twice: "hm_insert i p (hm_insert i q m) = hm_insert i p m"
  by (induction m) auto

text \<open>Replacing or adding one section of a readable file.\<close>

lemma replace_section:
  assumes "permissions_parse doc = Inr h" "distinct (map fst doc)" "hm_get doc i = Some v" "i \<noteq> ''default''" "i \<noteq> ''mcp''"
    "tool_permissions_parse i w = Inr p"
  shows "permissions_parse (hm_insert i w doc) = Inr (retool (hm_insert i p (pf_tools h)) h)
     \<and> (\<exists>q. tool_permissions_parse i v = Inr q \<and> hm_get (pf_tools h) i = Some q)"
proof -
  from assms(3) obtain xs ys where doc: "doc = xs @ (i, v) # ys" by (meson map_of_SomeD split_list)
  with assms(2) have i: "i \<notin> fst ` set xs" "i \<notin> fst ` set ys" by auto
  have upd: "hm_insert i w doc = xs @ (i, w) # ys" unfolding doc using i(1) by (induction xs) auto
  from assms(1) obtain f1 f2 where f: "try_fold file_entry xs empty_file = Inr f1" "file_entry (i, v) f1 = Inr f2" "try_fold file_entry ys f2 = Inr h"
    by (auto simp: permissions_parse_def doc try_fold_append split: sum.splits)
  from f(2) obtain q where q: "tool_permissions_parse i v = Inr q" "f2 = retool (hm_insert i q (pf_tools f1)) f1"
    by (rule file_entryE) (use assms in auto)
  have "file_entry (i, w) f1 = Inr (retool (hm_insert i p (pf_tools f1)) f1)" using assms by (simp add: file_entry_def)
  also have "\<dots> = Inr (retool (hm_insert i p (pf_tools f2)) f2)" using q by (simp add: hm_insert_twice)
  finally have e: "file_entry (i, w) f1 = Inr (retool (hm_insert i p (pf_tools f2)) f2)" .
  have "i \<in> fst ` set (pf_tools f2)" using q by simp
  note rest = file_fold_swap [OF f(3) i(2) this, of p]
  have "hm_get (pf_tools h) i = Some q" using file_fold_tools [OF f(3), of i] i(2) q by (simp add: hm_simps)
  then show ?thesis using q(1) by (simp add: permissions_parse_def upd try_fold_append f(1) e rest)
qed

lemma add_section:
  assumes "permissions_parse doc = Inr h" "hm_get doc i = None" "i \<noteq> ''default''" "i \<noteq> ''mcp''" "tool_permissions_parse i w = Inr p"
  shows "permissions_parse (doc @ [(i, w)]) = Inr (retool (hm_insert i p (pf_tools h)) h) \<and> hm_get (pf_tools h) i = None"
proof -
  have "i \<notin> fst ` set doc" using assms(2) by (simp add: map_of_eq_None_iff)
  then have "hm_get (pf_tools h) i = None" using file_fold_tools [of doc empty_file h i] assms(1) by (simp add: permissions_parse_def empty_file_def)
  then show ?thesis using assms by (simp add: permissions_parse_def try_fold_append file_entry_def)
qed

lemma push_rules_insert:
  assumes "hm_wf ts" "\<And>q. hm_get ts i = Some q \<Longrightarrow> set (rules_of_set i eff (chosen eff q)) \<subseteq> set (rules_of_set i eff (chosen eff p))"
  shows "set (push_rules ts eff) \<subseteq> set (push_rules (hm_insert i p ts) eff)"
    "set (rules_of_set i eff (chosen eff p)) \<subseteq> set (push_rules (hm_insert i p ts) eff)"
proof -
  have push: "set (push_rules us eff) = (\<Union>(t, q) \<in> set us. set (rules_of_set t eff (chosen eff q)))" for us
    by (auto simp: push_rules_def chosen_def)
  have new: "(i, p) \<in> set (hm_insert i p ts)" by (metis hm_get_insert map_of_SomeD)
  then show "set (rules_of_set i eff (chosen eff p)) \<subseteq> set (push_rules (hm_insert i p ts) eff)" unfolding push by blast
  show "set (push_rules ts eff) \<subseteq> set (push_rules (hm_insert i p ts) eff)"
  proof
    fix r assume "r \<in> set (push_rules ts eff)"
    then obtain t q where t: "(t, q) \<in> set ts" "r \<in> set (rules_of_set t eff (chosen eff q))" unfolding push by blast
    then have get: "hm_get ts t = Some q" using assms(1) by simp
    show "r \<in> set (push_rules (hm_insert i p ts) eff)"
    proof (cases "t = i")
      case True
      then show ?thesis using t assms(2) get new unfolding push by blast
    next
      case False
      then have "(t, q) \<in> set (hm_insert i p ts)" using get by (metis hm_get_insert map_of_SomeD)
      then show ?thesis using t unfolding push by blast
    qed
  qed
qed

section \<open>Written rules\<close>

lemma valid_wire_native: "is_valid_wire_name i \<Longrightarrow> native_key i = Native i"
  by (auto simp: native_key_def is_valid_wire_name_def is_alphanumeric_def byte_def)

text \<open>The tables of a document have each key once.\<close>

definition tables_ok :: "toml_table \<Rightarrow> bool" where
  "tables_ok doc \<longleftrightarrow> distinct (map fst doc) \<and> list_all (\<lambda>(k, v). case as_table v of None \<Rightarrow> True | Some t \<Rightarrow> distinct (map fst t)) doc"

lemma written_rule:
  assumes "permissions_parse doc = Inr h" "tables_ok doc" "is_valid_wire_name i" "i \<noteq> ''default''" "i \<noteq> ''mcp''"
    "insert_permission_entry (Native i) (Some s) eff doc = Inr doc'"
  obtains h' where "permissions_parse doc' = Inr h'" "\<lparr>rule_tool = Native i, rule_scope = Some s, rule_effect = eff\<rparr> \<in> set (push_rules (pf_tools h') eff)"
    "\<And>e. set (push_rules (pf_tools h) e) \<subseteq> set (push_rules (pf_tools h') e)" "h' = retool (pf_tools h') h"
proof -
  have dist: "distinct (map fst doc)" using assms(2) by (simp add: tables_ok_def)
  have wf: "hm_wf (pf_tools h)" using file_fold_tools [of doc empty_file h] assms(1) by (simp add: permissions_parse_def empty_file_def)
  define put where "put = (\<lambda>t. push_unique (effect_text eff) s t)"
  have ins: "child_table i put doc = Inr doc'" using assms(6) by (simp add: insert_permission_entry_def put_def)
  have rule: "s \<in> scopes_of g \<Longrightarrow> \<lparr>rule_tool = Native i, rule_scope = Some s, rule_effect = eff\<rparr> \<in> set (rules_of_set i eff g)" for g
    using valid_wire_native [OF assms(3)] by (cases g rule: scopes_of.cases) (auto simp: rules_of_set_def)
  note outer = that
  have finish: thesis
    if p: "permissions_parse doc' = Inr (retool (hm_insert i p (pf_tools h)) h)" "s \<in> scopes_of (chosen eff p)"
      and old: "\<And>q e. hm_get (pf_tools h) i = Some q \<Longrightarrow> set (rules_of_set i e (chosen e q)) \<subseteq> set (rules_of_set i e (chosen e p))" for p
  proof (rule outer [OF p(1)])
    show "set (push_rules (pf_tools h) e) \<subseteq> set (push_rules (pf_tools (retool (hm_insert i p (pf_tools h)) h)) e)" for e
      using push_rules_insert(1) [OF wf, of i e p] old by simp
    show "\<lparr>rule_tool = Native i, rule_scope = Some s, rule_effect = eff\<rparr> \<in> set (push_rules (pf_tools (retool (hm_insert i p (pf_tools h)) h)) eff)"
      using push_rules_insert(2) [OF wf, of i eff p] old rule [OF p(2)] by auto
  qed simp
  consider t' where "hm_get doc i = None" "put [] = Inr t'" "doc' = doc @ [(i, TTable False t')]"
    | t t' where "hm_get doc i = Some (TTable False t)" "put t = Inr t'" "doc' = hm_insert i (TTable False t') doc"
    using ins by (auto simp: child_table_def map_sum_def split: option.splits toml.splits bool.splits sum.splits if_splits)
  then show thesis
  proof cases
    case 1
    note sec = push_unique_section [of "[]" i eff s t', folded put_def, OF _ _ 1(2)]
    then have "tool_permissions_parse i (TTable False t') = Inr (section_of t' no_section)" using tool_section assms(3) by simp
    from add_section [OF assms(1) 1(1) assms(4,5) this] sec show thesis
      by (intro finish [of "section_of t' no_section"]) (simp_all add: 1(3))
  next
    case (2 t t')
    have d: "distinct (map fst t)" using assms(2) map_of_SomeD [OF 2(1)] by (auto simp: tables_ok_def list_all_iff dest!: bspec)
    obtain q where q: "tool_permissions_parse i (TTable False t) = Inr q" "hm_get (pf_tools h) i = Some q"
    proof -
      have "\<exists>q. tool_permissions_parse i (TTable False t) = Inr q \<and> hm_get (pf_tools h) i = Some q"
        using replace_section [OF assms(1) dist 2(1) assms(4,5), of "TTable False []" no_section] assms(3) tool_section [of "[]" i]
        by (simp add: section_of_def field_def no_section_def)
      then show ?thesis using that by blast
    qed
    then have ok: "list_all (entry_ok i) t" "q = section_of t no_section" using tool_section [OF d assms(3)] by simp_all
    note sec = push_unique_section [OF d ok(1) 2(2) [unfolded put_def]]
    then have "tool_permissions_parse i (TTable False t') = Inr (section_of t' no_section)" using tool_section assms(3) by simp
    from replace_section [OF assms(1) dist 2(1) assms(4,5) this] sec show thesis
      by (intro finish [of "section_of t' no_section"]) (simp_all add: 2(3) q(2) ok(2))
  qed
qed

lemma build_rules_member: "r \<in> set (pc_rules (build_permissions g p)) \<longleftrightarrow>
    (\<exists>e. r \<in> set (mcp_rules_with e g)) \<or> (\<exists>e. r \<in> set (push_rules (pf_tools g) e))
    \<or> (\<exists>e. r \<in> set (push_rules (pf_tools p) e)) \<or> (\<exists>e. r \<in> set (mcp_rules_with e p))"
proof -
  have "(\<exists>e. P e) \<longleftrightarrow> P Deny \<or> P Allow" for P by (metis effect.exhaust)
  then show ?thesis by (simp add: build_permissions_def Let_def disj_ac)
qed

lemma build_rules_mono:
  assumes "h' = retool (pf_tools h') h" "\<And>e. set (push_rules (pf_tools h) e) \<subseteq> set (push_rules (pf_tools h') e)"
  shows "set (pc_rules (build_permissions h p)) \<subseteq> set (pc_rules (build_permissions h' p))"
proof -
  have "pf_mcp_rules h' = pf_mcp_rules h" by (subst assms(1)) simp
  then have "mcp_rules_with e h' = mcp_rules_with e h" for e by (simp add: mcp_rules_with_def)
  then show ?thesis using assms(2) by (simp add: subset_iff build_rules_member) blast
qed

end
