(* ===== verification/Permission_Properties.thy ===== *)
theory Permission_Properties
  imports Permission_Files
begin

text \<open>
  The properties of tool permissions: paths, the decision, remembered answers, the answer channel and the
  permission files. The lemmas behind them are those of \<open>Path_Laws\<close>, \<open>Permission_Laws\<close> and
  \<open>Permission_Files\<close>.
\<close>

section \<open>A small file system\<close>

text \<open>A project \<^verbatim>\<open>/p\<close> with a directory, a link to it, and a link to a file of \<^verbatim>\<open>/etc\<close> that does not exist.\<close>

fun demo_fs :: "names \<Rightarrow> entry option" where
  "demo_fs ns = (if ns = [''p''] \<or> ns = [''etc''] \<or> ns = [''p'', ''src''] then Some Directory
     else if ns = [''p'', ''lib''] then Some (Symlink (False, [Normal ''src'']))
     else if ns = [''p'', ''out''] then Some (Symlink (True, [Normal ''etc'', Normal ''new'']))
     else None)"

definition demo_env :: env where
  "demo_env = \<lparr>env_fs = demo_fs, env_cwd = Some [''p''], env_home = None, env_max_links = 40\<rparr>"

definition demo_config :: permissions_config where
  "demo_config = \<lparr>pc_default = DefaultPrompt, pc_tool_defaults = [], pc_rules =
     [\<lparr>rule_tool = Native ''bash'', rule_scope = Some ''rm *'', rule_effect = Deny\<rparr>], pc_yolo = False\<rparr>"

definition demo_manager :: permission_manager where
  "demo_manager = new_permission_manager demo_env demo_config ''/p'' False"

lemmas demo_evals = demo_env_def canonicalize_def open_creat_def start_dir_def components_def component_of_def List.map_filter_def
  dangling_link_def

lemma demo_paths:
  "components ''/p'' = (True, [Normal ''p''])" "components ''/p/lib/a.txt'' = (True, [Normal ''p'', Normal ''lib'', Normal ''a.txt''])"
  "components ''/p/out'' = (True, [Normal ''p'', Normal ''out''])"
  by (simp_all add: components_def component_of_def List.map_filter_def)

lemma demo_resolves:
  "canonicalize demo_env (True, [Normal ''p'']) = Some (True, [''p''])"
  "open_creat demo_env (True, [Normal ''p'', Normal ''lib'', Normal ''a.txt'']) = Some (True, [''p'', ''src'', ''a.txt''])"
  "open_creat demo_env (True, [Normal ''p'', Normal ''out'']) = Some (True, [''etc'', ''new''])"
  "canonicalize demo_env (True, [Normal ''p'', Normal ''out'']) = None"
  by (simp_all add: demo_evals eval_nat_numeral)

lemma demo_not_dangling: "\<not> dangling_link demo_env (True, [Normal ''p'', Normal ''lib'', Normal ''a.txt''])"
  by (simp add: demo_evals eval_nat_numeral)

section \<open>Paths\<close>

text \<open>C17. A directory rule covers only what really lies in the directory: if a scope matches the glob of a
  directory other than the root, then the file that opening the path for writing reaches, through
  whatever links and parent components, lies under the directory's real place; except for a path that
  ends in a link to nothing. The boundary check agrees.\<close>

theorem directory_rule_is_physical:
  assumes "scope_matches e (dir @ ''/**'') path" "fst (components dir)" "canonicalize e (components dir) = Some place"
    "snd place \<noteq> []" "fst (components path)" "open_creat e (components path) = Some file" "\<not> dangling_link e (components path)"
  shows "path_starts_with file place \<and> physical_boundary_check e (components dir) (components path) = Some True"
proof -
  have dir: "normalize_scope_prefix e dir = place" by (rule normalize_canonical [OF assms(2,3)])
  have opened: "normalize_scope_prefix e path = file" by (rule normalize_agrees [OF assms(5-7)])
  have under: "path_starts_with file place" using assms(1,4) by (simp add: scope_matches_def dir opened is_root_def)
  obtain ds fs where "components dir = (True, ds)" "components path = (True, fs)"
    using assms(2,5) by (cases "components dir"; cases "components path") auto
  then show ?thesis using under canonical_agrees [of e ds place] create_agrees [of e fs "file"] assms
    by (simp add: physical_boundary_check_def)
qed

theorem directory_rule_is_physical_witness:
  "scope_matches demo_env (''/p'' @ ''/**'') ''/p/lib/a.txt'' \<and> path_starts_with (True, [''p'', ''src'', ''a.txt'']) (True, [''p''])"
proof -
  have m: "scope_matches demo_env (''/p'' @ ''/**'') ''/p/lib/a.txt''"
    using normalize_canonical [of "''/p''" demo_env "(True, [''p''])"] normalize_agrees [of "''/p/lib/a.txt''" demo_env "(True, [''p'', ''src'', ''a.txt''])"]
      strip_suffix_append [of "''/**''" "''/p''"] demo_resolves demo_not_dangling
    by (simp add: scope_matches_def demo_paths is_root_def path_starts_with_def del: append.simps)
  moreover have "path_starts_with (True, [''p'', ''src'', ''a.txt'']) (True, [''p''])"
    using directory_rule_is_physical [OF m, of "(True, [''p''])" "(True, [''p'', ''src'', ''a.txt''])"]
    by (simp add: demo_paths demo_resolves demo_not_dangling del: append.simps)
  ultimately show ?thesis ..
qed


text \<open>A file has one identity: paths that the system opens at the same place have the same key, however
  they are spelled and whether the file exists yet, and canonicalising the key again gives the key.\<close>

theorem same_file_same_key:
  assumes "open_creat e (components a) = Some k" "\<not> dangling_link e (components a)" "fst (components a)"
    "open_creat e (components b) = Some k" "\<not> dangling_link e (components b)" "fst (components b)"
  shows "canonical_key e a = canonical_key e b \<and> incremental_canonicalize e (to_path (canonical_key e a)) = Some (canonical_key e a)"
proof -
  have key: "canonical_key e s = k \<and> incremental_canonicalize e (components s) = Some k"
    if s: "open_creat e (components s) = Some k" "\<not> dangling_link e (components s)" "fst (components s)" for s
  proof -
    obtain cs where cs: "components s = (True, cs)" using s(3) by (cases "components s") simp
    have "expand_tilde e (components s) = components s" by (simp add: expand_tilde_def cs split: option.split)
    then show ?thesis using create_agrees [of e cs k] s by (simp add: canonical_key_def absolute_path_same cs)
  qed
  obtain cs where "components a = (True, cs)" using assms(3) by (cases "components a") simp
  then show ?thesis using key [OF assms(1-3)] key [OF assms(4-6)] incremental_stable [of e cs k] by simp
qed

theorem same_file_same_key_witness:
  "canonical_key demo_env ''/p/lib/a.txt'' = canonical_key demo_env ''/p/src/a.txt''"
proof -
  have c: "components ''/p/src/a.txt'' = (True, [Normal ''p'', Normal ''src'', Normal ''a.txt''])"
    by (simp add: components_def component_of_def List.map_filter_def)
  have "open_creat demo_env (True, [Normal ''p'', Normal ''src'', Normal ''a.txt'']) = Some (True, [''p'', ''src'', ''a.txt''])"
    "\<not> dangling_link demo_env (True, [Normal ''p'', Normal ''src'', Normal ''a.txt''])"
    by (simp_all add: demo_evals)
  then show ?thesis using same_file_same_key [of demo_env "''/p/lib/a.txt''" _ "''/p/src/a.txt''"] demo_resolves(2) demo_not_dangling
    by (simp add: demo_paths c)
qed

section \<open>The decision\<close>

text \<open>C21. The check decides by the policy, whatever the order of the rules: a denial of any scope first, then
  unrestricted mode, allowances for every scope, the plan file, and the default of the tool last.\<close>

theorem check_is_policy:
  "check_inner e plug m tool scopes force plan = policy e plug m tool scopes force plan"
  by (rule check_inner_policy)

text \<open>C4. A denial always wins: if any rule of the session, the configuration, the defaults or a plugin denies
  one of the scopes, the call is refused without asking, in unrestricted mode too, whatever is waiting on
  the answer channel, and nothing is remembered.\<close>

theorem denial_always_wins:
  assumes "r \<in> set (all_rules plug m)" "rule_effect r = Deny" "s \<in> set scopes" "rule_matches_tool (rule_tool r) tool" "rule_matches_scope e r s"
  shows "check_inner e plug m tool scopes force plan = Denied \<and> enforce e plug tool scopes force plan i chan m = Some (m, [], Refused None)"
proof -
  have "denied_by e (all_rules plug m) tool s" using assms(1,2,4,5) by (auto simp: denied_by_def list_ex_iff rule_applies_def)
  from check_denied [OF this assms(3)] show ?thesis by (simp add: enforce_def enforce_check_def)
qed

lemma rm_glob: "scope_matches demo_env ''rm *'' ''rm -rf x''"
  using command_glob_matches [of "''rm''" demo_env "''-rf x''"] by simp

theorem denial_always_wins_witness:
  "check_inner demo_env [] (set_yolo True demo_manager) (Native ''bash'') [''ls'', ''rm -rf x''] False None = Denied"
proof -
  let ?r = "\<lparr>rule_tool = Native ''bash'', rule_scope = Some ''rm *'', rule_effect = Deny\<rparr>"
  have "?r \<in> set (all_rules [] (set_yolo True demo_manager))"
    by (simp add: all_rules_def demo_manager_def new_permission_manager_def demo_config_def set_yolo_def)
  from denial_always_wins [OF this, of "''rm -rf x''"] rm_glob show ?thesis by (simp add: rule_matches_scope_def)
qed

text \<open>Exactly the patterns refused to plugins are boundless: a pattern counts as universal if and only if
  it matches every scope.\<close>

theorem universal_scope_iff: "is_universal_scope e pattern \<longleftrightarrow> (\<forall>v. scope_matches e pattern v)"
  using not_universal_uncovered universal_covers by blast

section \<open>Remembered answers\<close>

text \<open>Allowing a shell command for the session allows the program with any arguments, and nothing is asked
  again: afterwards every command that starts with the same word is allowed unless a rule denies it.\<close>

theorem remembered_command:
  assumes "is_command_word cmd" "rest = [] \<or> hd rest = CHR '' ''"
    "\<not> denied_by e (all_rules plug m) (Native BASH_TOOL) s" "s = cmd \<or> (\<exists>args. s = cmd @ '' '' @ args)"
  shows "check_inner e plug (fst (apply_decision (Native BASH_TOOL) [cmd @ rest] AllowSession m)) (Native BASH_TOOL) [s] False plan = Allowed"
proof -
  let ?t = "Native BASH_TOOL"
  have gen: "cmd @ '' *'' \<in> set (generalized_scopes ?t [cmd @ rest])"
    using generalize_command [OF assms(1,2)] by (simp add: set_generalized_scopes generalize_scope_def)
  have "strip_suffix ''/**'' (cmd @ '' *'') = None" by (auto simp: strip_suffix_def split: if_splits)
  then have "scope_matches e (cmd @ '' *'') s"
    using assms(4) by (auto simp: scope_matches_def starts_with_def)
  then have "allowed_by e (all_rules plug (add_rules ?t Allow (generalized_scopes ?t [cmd @ rest]) m)) ?t s"
    by (intro allowed_after_allow [OF gen]) simp
  then show ?thesis unfolding apply_session by (intro check_allowed) (simp_all add: denied_after_allow assms(3))
qed

theorem remembered_command_witness:
  "check_inner demo_env [] (fst (apply_decision (Native BASH_TOOL) [''git status''] AllowSession demo_manager)) (Native BASH_TOOL) [''git push''] False None = Allowed"
proof -
  have w: "is_command_word ''git''" by (simp add: is_command_word_def is_command_char_def is_alphanumeric_def byte_def SHELL_KEYWORDS_def)
  have "\<not> scope_matches demo_env ''rm *'' ''git push''"
  proof -
    have "strip_suffix ''/**'' ''rm *'' = None" "strip_suffix '' *'' ''rm *'' = Some ''rm''" by (simp_all add: strip_suffix_def)
    then show ?thesis by (simp add: scope_matches_def is_universal_scope_def starts_with_def)
  qed
  then have "\<not> denied_by demo_env (all_rules [] demo_manager) (Native BASH_TOOL) ''git push''"
    by (auto simp: denied_by_def list_ex_iff all_rules_def demo_manager_def new_permission_manager_def builtin_rules_for_def
        demo_config_def Let_def plugin_snapshot_def rule_applies_def rule_matches_scope_def)
  from remembered_command [OF w _ this, of "'' status''"] show ?thesis by simp
qed

text \<open>A command made of a star is a blank cheque: it opens no program, so the scope is remembered as it
  is, but read as a pattern it covers every command: once it was allowed for the session, any command
  that no rule denies is allowed.\<close>

theorem star_command_is_blank_cheque:
  assumes "\<not> denied_by e (all_rules plug m) (Native BASH_TOOL) s"
  shows "generalize_bash_segment ''*'' = ''*'' \<and>
    check_inner e plug (fst (apply_decision (Native BASH_TOOL) [''*''] AllowSession m)) (Native BASH_TOOL) [s] False plan = Allowed"
proof -
  let ?t = "Native BASH_TOOL"
  have gen: "generalize_bash_segment ''*'' = ''*''"
    by (simp add: generalize_bash_segment_def first_token_def skip_spaces.simps space_length_def byte_def wide_spaces_def
        is_command_word_def is_command_char_def is_alphanumeric_def upt_rec)
  have "is_universal_scope e ''*''" by (simp add: is_universal_scope_def strip_suffix_def)
  then have "allowed_by e (all_rules plug (add_rules ?t Allow (generalized_scopes ?t [''*'']) m)) ?t s"
    by (intro allowed_after_allow [of "''*''"]) (simp_all add: universal_covers set_generalized_scopes generalize_scope_def gen)
  then have "check_inner e plug (fst (apply_decision ?t [''*''] AllowSession m)) ?t [s] False plan = Allowed"
    unfolding apply_session by (intro check_allowed) (simp_all add: denied_after_allow assms)
  with gen show ?thesis by simp
qed

theorem star_command_is_blank_cheque_witness:
  "check_inner demo_env [] (fst (apply_decision (Native BASH_TOOL) [''*''] AllowSession demo_manager)) (Native BASH_TOOL) [''curl x''] False None = Allowed"
proof -
  have "\<not> scope_matches demo_env ''rm *'' ''curl x''"
  proof -
    have "strip_suffix ''/**'' ''rm *'' = None" "strip_suffix '' *'' ''rm *'' = Some ''rm''" by (simp_all add: strip_suffix_def)
    then show ?thesis by (simp add: scope_matches_def is_universal_scope_def starts_with_def)
  qed
  then have "\<not> denied_by demo_env (all_rules [] demo_manager) (Native BASH_TOOL) ''curl x''"
    by (auto simp: denied_by_def list_ex_iff all_rules_def demo_manager_def new_permission_manager_def builtin_rules_for_def
        demo_config_def Let_def plugin_snapshot_def rule_applies_def rule_matches_scope_def)
  from star_command_is_blank_cheque [OF this] show ?thesis by simp
qed

text \<open>An untrusted project is never written to: the rules an answer hands to the project's file exist only
  if the folder is trusted, while the session remembers the same rules either way.\<close>

theorem untrusted_project_not_written:
  assumes "apply_decision tool scopes a m = (m', writes)"
  shows "((Project, k, s, eff) \<in> set writes \<longrightarrow> project_trusted m)
     \<and> session_rules m' = session_rules (fst (apply_decision tool scopes a (m\<lparr>project_trusted := b\<rparr>)))"
proof -
  have rules: "session_rules (add_rules t ef ss (m\<lparr>project_trusted := b\<rparr>)) = session_rules (add_rules t ef ss m)" for t ef ss
  proof -
    have "add_session_rule r (n\<lparr>project_trusted := b\<rparr>) = (add_session_rule r n)\<lparr>project_trusted := b\<rparr>" for r n
      by (simp add: add_session_rule_def)
    then have "add_rules t ef ss (n\<lparr>project_trusted := b\<rparr>) = (add_rules t ef ss n)\<lparr>project_trusted := b\<rparr>" for n
      by (induction ss arbitrary: n) (simp_all add: add_rules_def)
    then show ?thesis by simp
  qed
  have "(Project, k, s, eff) \<in> set (snd (apply_decision tool scopes a m)) \<longrightarrow> project_trusted m"
    by (auto simp: apply_decision_def Let_def persist_target_def split: option.splits if_splits)
  moreover have "session_rules (fst (apply_decision tool scopes a m)) = session_rules (fst (apply_decision tool scopes a (m\<lparr>project_trusted := b\<rparr>)))"
    by (simp add: apply_decision_def Let_def rules)
  ultimately show ?thesis using assms by simp
qed

theorem untrusted_project_not_written_witness:
  "snd (apply_decision (Native ''edit'') [''/p/a''] DenyAlwaysProject demo_manager) = []
     \<and> length (session_rules (fst (apply_decision (Native ''edit'') [''/p/a''] DenyAlwaysProject demo_manager))) = 1"
proof -
  obtain m' ws where d: "apply_decision (Native ''edit'') [''/p/a''] DenyAlwaysProject demo_manager = (m', ws)" by (meson surj_pair)
  have "\<not> project_trusted demo_manager" by (simp add: demo_manager_def new_permission_manager_def)
  then have "(Project, k, s, eff) \<notin> set ws" for k s eff using untrusted_project_not_written [OF d] by blast
  moreover have "ws = []" using d by (auto simp: apply_decision_def Let_def is_allow_def persist_target_def \<open>\<not> project_trusted demo_manager\<close>)
  moreover have "length (session_rules m') = 1"
    using d by (auto simp: apply_decision_def Let_def is_allow_def add_rules_def add_session_rule_def resolved_scopes_def demo_manager_def new_permission_manager_def)
  ultimately show ?thesis using d by simp
qed

section \<open>The answer channel\<close>




lemma demo_prompts: "check_inner demo_env [] demo_manager (Native ''bash'') [''ls''] False None = NeedsPrompt (Native ''bash'') [''ls''] False"
proof -
  have "\<not> scope_matches demo_env ''rm *'' ''ls''"
  proof -
    have "strip_suffix ''/**'' ''rm *'' = None" "strip_suffix '' *'' ''rm *'' = Some ''rm''" by (simp_all add: strip_suffix_def)
    then show ?thesis by (simp add: scope_matches_def is_universal_scope_def starts_with_def)
  qed
  then show ?thesis
    by (simp add: check_inner_policy policy_def Let_def denied_by_def allowed_by_def all_rules_def demo_manager_def new_permission_manager_def
        builtin_rules_for_def demo_config_def plugin_snapshot_def rule_applies_def rule_matches_scope_def FILE_WRITE_TOOLS_def
        TASK_SPAWN_TOOL_def is_plan_write_def default_for_def)
qed


text \<open>C16. No rule appears by itself: in every state of a session, with any number of calls asking and any
  answers queued in any order, each rule of the session was loaded with it, or is what a remembered
  answer asks for, applied to a request that was shown to the user with that tool and those scopes.\<close>

theorem session_rules_were_answered:
  assumes "desk_reachable e d" "r \<in> set (session_rules (desk_pm d))"
  shows "(\<exists>rules. Loaded rules \<in> set (desk_log d) \<and> r \<in> set rules)
     \<or> (\<exists>i t ss a. Requested i t ss \<in> set (desk_log d) \<and> Applied i t ss a \<in> set (desk_log d) \<and> rule_of_answer t ss a r)"
  using desk_okD(1) [OF desk_reachable_ok [OF assms(1)] assms(2)] unfolding accounted_def .

theorem session_rules_were_answered_witness:
  "\<exists>d r. desk_reachable demo_env d \<and> r \<in> set (session_rules (desk_pm d)) \<and> (\<exists>i t ss a. Applied i t ss a \<in> set (desk_log d) \<and> rule_of_answer t ss a r)"
proof -
  let ?d0 = "new_desk demo_manager" and ?w = "(''b'', Native ''bash'', [''ls''], False, None)"
  let ?raw = "tagged_encode \<lparr>request_id = ''b'', answer = AllowSession\<rparr>"
  have asks: "enforce_check demo_env [] demo_manager (Native ''bash'') [''ls''] False None True = Asks (Native ''bash'') [''ls''] False"
    using demo_prompts by (simp add: enforce_check_def)
  define d1 where "d1 = ?d0\<lparr>desk_waiting := desk_waiting ?d0 @ [?w]\<rparr>"
  define d2 where "d2 = d1\<lparr>desk_waiting := remove1 ?w (desk_waiting d1), desk_asking := Some (''b'', Native ''bash'', [''ls'']),
      desk_log := desk_log d1 @ [Requested ''b'' (Native ''bash'') [''ls'']]\<rparr>"
  define d3 where "d3 = d2\<lparr>desk_queue := desk_queue d2 @ [?raw]\<rparr>"
  define d4 where "d4 = d3\<lparr>desk_pm := fst (enforce_answer (Native ''bash'') [''ls''] (Some AllowSession) (desk_pm d3)), desk_asking := None,
      desk_queue := [], desk_log := desk_log d3 @ [Applied ''b'' (Native ''bash'') [''ls''] AllowSession]\<rparr>"
  have d0: "desk_reachable demo_env ?d0" unfolding demo_manager_def by (rule desk_new)
  have "desk_step demo_env ?d0 d1" unfolding d1_def using asks by (intro arrive) (simp add: new_desk_def)
  note d1 = desk_moves [OF d0 this]
  have "desk_step demo_env d1 d2" unfolding d2_def using asks by (intro hold_asks) (simp_all add: d1_def new_desk_def)
  note d2 = desk_moves [OF d1 this]
  have "desk_step demo_env d2 d3" unfolding d3_def by (rule user_answers)
  note d3 = desk_moves [OF d2 this]
  have raw: "await_answer ''b'' [Response ?raw] = Some (Some AllowSession)"
    using tagged_decode_encode [of "\<lparr>request_id = ''b'', answer = AllowSession\<rparr>"] by (simp add: ANSWER_ID_SEPARATOR_def)
  have "desk_step demo_env d3 d4" unfolding d4_def
    by (rule answer_taken [of _ "''b''" _ _ ?raw]) (simp_all only: raw, simp_all add: d3_def d2_def d1_def new_desk_def)
  note d4 = desk_moves [OF d3 this]
  let ?r = "\<lparr>rule_tool = Native ''bash'', rule_scope = Some (generalize_scope (Native ''bash'') ''ls''), rule_effect = Allow\<rparr>"
  have "desk_pm d3 = demo_manager" by (simp add: d3_def d2_def d1_def new_desk_def)
  then have "desk_pm d4 = add_rules (Native ''bash'') Allow (generalized_scopes (Native ''bash'') [''ls'']) demo_manager"
    using apply_session [of "Native ''bash''" "[''ls'']" demo_manager] by (simp add: d4_def enforce_answer_def case_prod_beta)
  then have r: "?r \<in> set (session_rules (desk_pm d4))" by (simp add: add_rules_set set_generalized_scopes)
  have "Loaded rules \<notin> set (desk_log d4)" for rules by (simp add: d4_def d3_def d2_def d1_def new_desk_def)
  with session_rules_were_answered [OF d4 r] d4 r show ?thesis by blast
qed

section \<open>Texts\<close>

text \<open>Answers survive the channel: a tagged answer reads back as it was written, even when the guidance
  holds the separator, provided the request id does not.\<close>

theorem answer_roundtrip:
  assumes "ANSWER_ID_SEPARATOR \<notin> set (request_id t)" "answer t \<noteq> DenyWithGuidance []"
  shows "tagged_decode (tagged_encode t) = Some t"
  by (rule tagged_decode_encode [OF assms])

theorem answer_roundtrip_witness:
  "tagged_decode (tagged_encode \<lparr>request_id = ''toolu_1'', answer = DenyWithGuidance [ANSWER_ID_SEPARATOR]\<rparr>)
     = Some \<lparr>request_id = ''toolu_1'', answer = DenyWithGuidance [ANSWER_ID_SEPARATOR]\<rparr>"
  by (rule answer_roundtrip) (simp_all add: ANSWER_ID_SEPARATOR_def)

text \<open>A tool key names one tool: what parses prints as it was, so parsing is injective and parsing the
  printed key gives the key.\<close>

theorem tool_key_roundtrip:
  assumes "tool_key_parse s = Inr k"
  shows "tool_key_display k = s \<and> tool_key_parse (tool_key_display k) = Inr k"
  using tool_key_parse_display [OF assms] assms by simp

theorem tool_key_roundtrip_witness: "tool_key_display (McpTool ''srv'' ''probe_1'') = ''srv.probe_1''"
proof -
  have "tool_key_parse ''srv.probe_1'' = Inr (McpTool ''srv'' ''probe_1'')"
    by (simp add: tool_key_parse_def is_valid_server_name_def is_valid_wire_name_def is_alphanumeric_def byte_def MAX_SERVER_NAME_LEN_def Let_def)
  from tool_key_roundtrip [OF this] show ?thesis by blast
qed

section \<open>Permission files\<close>

text \<open>C19. A folder nobody vouched for can only narrow: whatever its permission file says, every check of a
  session loaded with it gives the same answer as without the file, or a denial.\<close>

theorem untrusted_project_narrows:
  assumes "load_permissions global project False ignored = Inr c" "load_permissions global None trusted ignored' = Inr c0"
  shows "check_inner e plug (with_config c m) tool scopes force plan
     \<in> {Denied, check_inner e plug (with_config c0 m) tool scopes force plan}"
proof -
  obtain g where g: "read_permissions_file global = Inr g" using assms(1) by (cases "read_permissions_file global") (auto simp: load_permissions_def)
  have restr: "restrict_to_deny_scopes empty_file = empty_file" by (simp add: restrict_to_deny_scopes_def empty_file_def)
  have c0: "c0 = build_permissions g empty_file"
    using assms(2) g by (auto simp: load_permissions_def read_permissions_file_def [of None] restr split: if_splits)
  from assms(1) g consider "c = c0" | p where "c = build_permissions g (restrict_to_deny_scopes p)"
    by (auto simp: load_permissions_def c0 split: if_splits sum.splits)
  then show ?thesis
  proof cases
    case (2 p)
    obtain ds where "list_all (\<lambda>r. rule_effect r = Deny) ds" "c = c0\<lparr>pc_rules := pc_rules c0 @ ds\<rparr>"
      using build_restricted [of g p] 2 c0 by blast
    then show ?thesis using more_denials by simp
  qed simp
qed

definition demo_project :: toml_table where
  "demo_project = [(''default'', TString ''allow''), (''bash'', TTable False [(''allow'', TBoolean True), (''deny'', TArray [TString ''rm *''])])]"

theorem untrusted_project_narrows_witness:
  "\<exists>c c0. load_permissions None (Some demo_project) False False = Inr c \<and> load_permissions None None True False = Inr c0
     \<and> length (pc_rules c) = 1 \<and> check_inner demo_env [] (with_config c demo_manager) (Native ''bash'') [''ls''] False None
         \<in> {Denied, check_inner demo_env [] (with_config c0 demo_manager) (Native ''bash'') [''ls''] False None}"
proof -
  obtain p where p: "permissions_parse demo_project = Inr p" "pf_tools p = [(''bash'', \<lparr>tp_allow = Some (ScopeAll True), tp_deny = Some (Scopes [''rm *'']), tp_default = None\<rparr>)]"
      "pf_mcp_rules p = []"
    by (simp add: permissions_parse_def demo_project_def file_entry_def or_error_def effect_of_value_def tool_permissions_parse_def
        is_valid_wire_name_def is_alphanumeric_def byte_def tool_entry_def empty_file_def)
  let ?c = "build_permissions empty_file (restrict_to_deny_scopes p)" and ?base = "build_permissions empty_file empty_file"
  have c: "load_permissions None (Some demo_project) False False = Inr ?c" "load_permissions None None True False = Inr ?base"
    by (simp_all add: load_permissions_def read_permissions_file_def p)
  moreover have "length (pc_rules ?c) = 1"
    by (simp add: build_permissions_def Let_def restrict_to_deny_scopes_def p push_rules_def rules_of_set_def mcp_rules_with_def empty_file_def)
  ultimately show ?thesis using untrusted_project_narrows [OF c, of demo_env "[]" demo_manager "Native ''bash''" "[''ls'']" False None] by blast
qed



end
