(* ===== verification/Provider_Errors.thy ===== *)
theory Provider_Errors
  imports Turn_Types Rust_Text
begin

text \<open>
  Errors of a request to a model provider (\<^verbatim>\<open>maki-providers/src/error.rs\<close>) and the budgets its retries
  draw from (\<^verbatim>\<open>maki-providers/src/retry.rs\<close>): which errors are refusals for size, which are worth a
  retry and of which kind, how a turn's failure reports them, and how long the next attempt waits.
  A transport error of a library is its kind and its text. A duration is its nanoseconds.
\<close>

section \<open>Errors\<close>

type_synonym u16 = "16 word"
type_synonym duration = nat

definition seconds :: "nat \<Rightarrow> duration" where
  "seconds n = n * 1000000000"

definition millis :: "nat \<Rightarrow> duration" where
  "millis n = n * 1000000"

definition as_millis :: "duration \<Rightarrow> nat" where
  "as_millis d = d div 1000000"

definition DURATION_MAX :: duration where
  "DURATION_MAX = seconds (2 ^ 64) - 1"

datatype io_kind = ConnectionRefused | OtherIo
datatype http_kind = ConnectionFailed | NameResolution | OtherHttp

datatype agent_error =
  Api u16 string "duration option"
| ConfigError string
| ToolError string string
| IoError io_kind string
| HttpError http_kind string
| HttpRequestError string
| JsonError string
| Channel
| CancelledError
| TimeoutError u64
| EmptySummary

datatype size_refusal = PromptOverflow | BudgetOverflow "u32 option" "u32 option"

definition OUTPUT_CAP_FIELDS :: "string list" where
  "OUTPUT_CAP_FIELDS = [''max_tokens'', ''max_completion_tokens'', ''max_output_tokens'']"

definition trailing_number :: "string \<Rightarrow> u32 option" where
  "trailing_number text = (let t = trim_end text in parse_u32 (rev (takeWhile is_digit (rev t))))"

definition leading_number :: "string \<Rightarrow> u32 option" where
  "leading_number text = parse_u32 (takeWhile is_digit (skip_spaces text))"

definition number_before :: "string \<Rightarrow> string \<Rightarrow> u32 option" where
  "number_before text marker = Option.bind (split_first marker text) (\<lambda>(a, _). trailing_number a)"

definition number_after :: "string \<Rightarrow> string \<Rightarrow> u32 option" where
  "number_after text marker = Option.bind (split_first marker text) (\<lambda>(_, b). leading_number b)"

definition sum_over_limit :: "string \<Rightarrow> size_refusal option" where
  "sum_over_limit text =
     Option.bind (split_first '' > '' text) (\<lambda>(head, lim).
     Option.bind (split_last '' + '' head) (\<lambda>(prompt, out).
     Option.bind (leading_number out) (\<lambda>_.
     Option.bind (trailing_number prompt) (\<lambda>p.
     Option.bind (leading_number lim) (\<lambda>l. Some (BudgetOverflow (Some p) (Some l)))))))"

definition budget_overflow :: "string \<Rightarrow> size_refusal option" where
  "budget_overflow m = option_or (sum_over_limit m)
     (Option.bind (number_before m '' in the completion'') (\<lambda>n.
        if n > 0 then Some (BudgetOverflow (number_before m '' in the messages'') (number_after m ''maximum context length is ''))
        else None))"

definition names_scope :: "string \<Rightarrow> bool" where
  "names_scope m \<longleftrightarrow> contains m ''context'' \<or> contains m ''token'' \<or> contains m ''prompt'' \<or> contains m ''input''"

definition names_excess :: "string \<Rightarrow> bool" where
  "names_excess m \<longleftrightarrow> contains m ''exceeds'' \<or> contains m ''exceeded'' \<or> contains m ''too long''
     \<or> contains m ''too many'' \<or> contains m ''maximum''"

fun overflow :: "agent_error \<Rightarrow> size_refusal option" where
  "overflow (Api status msg _) =
     (if status \<noteq> 400 \<and> status \<noteq> 413 then None
      else let m = to_lowercase msg in
        case budget_overflow m of
          Some budget \<Rightarrow> Some budget
        | None \<Rightarrow>
            if status = 413 then Some PromptOverflow
            else if list_ex (contains m) OUTPUT_CAP_FIELDS then None
            else if names_scope m \<and> names_excess m then Some PromptOverflow else None)"
| "overflow _ = None"

definition is_context_overflow :: "agent_error \<Rightarrow> bool" where
  "is_context_overflow e \<longleftrightarrow> overflow e \<noteq> None"

datatype retry_kind = Transient | Connect | RateLimit | Timeout_kind

fun is_connect_failure :: "http_kind \<Rightarrow> bool" where
  "is_connect_failure ConnectionFailed = True"
| "is_connect_failure NameResolution = True"
| "is_connect_failure OtherHttp = False"

definition retry_kind :: "agent_error \<Rightarrow> retry_kind option" where
  "retry_kind e =
     (if is_context_overflow e then None
      else case e of
        Api status _ _ \<Rightarrow> if status = 429 then Some RateLimit else if status \<ge> 500 then Some Transient else None
      | HttpError k _ \<Rightarrow> if is_connect_failure k then Some Connect else Some Transient
      | IoError k _ \<Rightarrow> if k = ConnectionRefused then Some Connect else Some Transient
      | TimeoutError _ \<Rightarrow> Some Timeout_kind
      | _ \<Rightarrow> None)"

definition is_retryable :: "agent_error \<Rightarrow> bool" where
  "is_retryable e \<longleftrightarrow> retry_kind e \<noteq> None"

fun is_auth_error :: "agent_error \<Rightarrow> bool" where
  "is_auth_error (Api status _ _) \<longleftrightarrow> status = 401"
| "is_auth_error _ \<longleftrightarrow> False"

fun should_rotate_key :: "agent_error \<Rightarrow> bool" where
  "should_rotate_key (Api status _ _) \<longleftrightarrow> status = 429 \<or> status = 401 \<or> status = 403"
| "should_rotate_key _ \<longleftrightarrow> False"

fun retry_after :: "agent_error \<Rightarrow> duration option" where
  "retry_after (Api _ _ d) = d"
| "retry_after _ = None"

definition show_u16 :: "u16 \<Rightarrow> string" where
  "show_u16 n = show_u64 (ucast n)"

fun error_text :: "agent_error \<Rightarrow> string" where
  "error_text (Api status m _) = ''API error ('' @ show_u16 status @ ''): '' @ m"
| "error_text (ConfigError m) = m"
| "error_text (ToolError t m) = ''tool error in '' @ t @ '': '' @ m"
| "error_text (IoError _ t) = t"
| "error_text (HttpError _ t) = ''http: '' @ t"
| "error_text (HttpRequestError t) = ''http request: '' @ t"
| "error_text (JsonError t) = ''json: '' @ t"
| "error_text Channel = ''channel send failed''"
| "error_text CancelledError = ''cancelled''"
| "error_text (TimeoutError secs) = ''stream timed out after '' @ show_u64 secs @ ''s of inactivity''"
| "error_text EmptySummary = ''compaction returned no summary''"

definition CONNECT_FAILED_MESSAGE :: string where
  "CONNECT_FAILED_MESSAGE = ''could not connect, check the server is running and the base URL is correct''"

definition NETWORK_ERROR_MESSAGE :: string where
  "NETWORK_ERROR_MESSAGE = ''connection error, check your network''"

fun error_user_message :: "agent_error \<Rightarrow> string" where
  "error_user_message (ConfigError m) = m"
| "error_user_message (Api status m _) =
     (if status = 429 then ''rate limited, try again in a moment''
      else if status = 529 then ''provider is overloaded, try again later''
      else if status \<ge> 500 then ''server error ('' @ show_u16 status @ '')''
      else if status = 401 then ''authentication failed, run `makima auth login` or check your API key''
      else ''API error ('' @ show_u16 status @ ''): '' @ m)"
| "error_user_message (ToolError t m) = t @ '': '' @ m"
| "error_user_message (IoError k t) = (if k = ConnectionRefused then CONNECT_FAILED_MESSAGE else ''I/O error: '' @ t)"
| "error_user_message (HttpError k _) = (if is_connect_failure k then CONNECT_FAILED_MESSAGE else NETWORK_ERROR_MESSAGE)"
| "error_user_message (TimeoutError _) = ''stream timed out, retrying''"
| "error_user_message (HttpRequestError t) = ''request error: '' @ t"
| "error_user_message (JsonError _) = ''received an invalid response from the API''"
| "error_user_message Channel = ''internal error, try again''"
| "error_user_message CancelledError = ''cancelled''"
| "error_user_message EmptySummary = ''compaction returned no summary, history kept as is''"

fun retry_message :: "agent_error \<Rightarrow> string" where
  "retry_message (Api status m d) =
     (if status = 429 then ''Rate limited'' else if status = 529 then ''Provider is overloaded''
      else if status \<ge> 500 then ''Server error ('' @ show_u16 status @ '')'' else error_text (Api status m d))"
| "retry_message (IoError _ _) = ''Connection error''"
| "retry_message (HttpError _ _) = ''Connection error''"
| "retry_message (TimeoutError _) = ''Stream timed out''"
| "retry_message e = error_text e"

text \<open>\<open>parse_retry_after\<close>: delta-seconds, and zero is no hint.\<close>

definition parse_retry_after :: "string \<Rightarrow> duration option" where
  "parse_retry_after v = (case parse_u64 (trim v) of
     Some secs \<Rightarrow> if secs > 0 then Some (seconds (unat secs)) else None | None \<Rightarrow> None)"

text \<open>\<open>TurnFailure::from_agent_error\<close>, which panics on a cancellation.\<close>

fun failure_kind_of :: "agent_error \<Rightarrow> failure_kind option" where
  "failure_kind_of (Api status _ _) = Some (if status = 401 then Authentication else Provider)"
| "failure_kind_of (TimeoutError _) = Some Timeout"
| "failure_kind_of (ToolError _ _) = Some Tool"
| "failure_kind_of (IoError _ _) = Some Transport"
| "failure_kind_of (HttpError _ _) = Some Transport"
| "failure_kind_of (HttpRequestError _) = Some Transport"
| "failure_kind_of (JsonError _) = Some InvalidResponse"
| "failure_kind_of (ConfigError _) = Some InvalidResponse"
| "failure_kind_of Channel = Some Internal"
| "failure_kind_of EmptySummary = Some Compaction"
| "failure_kind_of CancelledError = None"

definition from_agent_error :: "agent_error \<Rightarrow> turn_failure option" where
  "from_agent_error e = map_option (\<lambda>k. \<lparr>failure_kind = k, diagnostic = error_text e,
     user_message = error_user_message e, retryable = is_retryable e\<rparr>) (failure_kind_of e)"

section \<open>Retry budgets\<close>

definition RETRY_AFTER_CAP :: duration where
  "RETRY_AFTER_CAP = seconds (60 * 60)"

datatype budget = TransientBudget | HintedRateLimit | RateLimitBudget | TimeoutBudget | ConnectBudget

fun budget_of :: "retry_kind \<Rightarrow> duration option \<Rightarrow> budget" where
  "budget_of Transient _ = TransientBudget"
| "budget_of Connect _ = ConnectBudget"
| "budget_of RateLimit hint = (if hint \<noteq> None then HintedRateLimit else RateLimitBudget)"
| "budget_of Timeout_kind _ = TimeoutBudget"

record retry_policy =
  base_delay :: duration
  max_delay :: duration
  max_retries :: u32
  max_timeout_retries :: u32

fun budget_limit :: "budget \<Rightarrow> retry_policy \<Rightarrow> u32 option" where
  "budget_limit TransientBudget _ = None"
| "budget_limit HintedRateLimit _ = None"
| "budget_limit RateLimitBudget p = Some (max_retries p)"
| "budget_limit ConnectBudget p = Some (max_retries p)"
| "budget_limit TimeoutBudget p = Some (max_timeout_retries p)"

record retry_state =
  retry_policy_of :: retry_policy
  spent :: "budget \<Rightarrow> u32"
  rotations_left :: u32

definition new_retry :: "retry_policy \<Rightarrow> nat \<Rightarrow> retry_state" where
  "new_retry p key_count = \<lparr>retry_policy_of = p, spent = (\<lambda>_. 0),
     rotations_left = (let n = (if key_count < 2 ^ 32 then of_nat key_count else - 1) in if n = 0 then 0 else n - 1)\<rparr>"

definition book_rotation :: "retry_state \<Rightarrow> bool \<times> retry_state" where
  "book_rotation r = (if rotations_left r = 0 then (False, r) else (True, r\<lparr>rotations_left := rotations_left r - 1\<rparr>))"

text \<open>The jitter is drawn by a random source: the argument maps the bound to the number drawn.\<close>

definition backoff :: "(nat \<Rightarrow> nat) \<Rightarrow> retry_policy \<Rightarrow> u32 \<Rightarrow> duration" where
  "backoff draw p attempt =
     (let half = min (min (base_delay p * unat attempt) DURATION_MAX) (max_delay p) div 2
      in half + millis (draw (as_millis half mod 2 ^ 64)))"

definition next_delay :: "(nat \<Rightarrow> nat) \<Rightarrow> retry_kind \<Rightarrow> duration option \<Rightarrow> retry_state \<Rightarrow> duration option \<times> retry_state" where
  "next_delay draw kind hint r =
     (let b = budget_of kind hint; used = spent r b in
      if (case budget_limit b (retry_policy_of r) of Some limit \<Rightarrow> used \<ge> limit | None \<Rightarrow> False) then (None, r)
      else let attempt = used + 1; r' = r\<lparr>spent := (spent r)(b := attempt)\<rparr> in
        (Some (case hint of
           None \<Rightarrow> backoff draw (retry_policy_of r) attempt
         | Some after \<Rightarrow> min (max after (min (base_delay (retry_policy_of r)) RETRY_AFTER_CAP)) RETRY_AFTER_CAP), r'))"

section \<open>Lemmas\<close>

lemma overflow_status: "overflow (Api s m d) \<noteq> None \<Longrightarrow> s = 400 \<or> s = 413"
  by (meson overflow.simps(1))

lemma overflow_not_retried: "is_context_overflow e \<Longrightarrow> retry_kind e = None"
  by (simp add: retry_kind_def)

lemma retry_kind_none: "retry_kind Channel = None" "retry_kind CancelledError = None" "retry_kind (ConfigError m) = None"
  "retry_kind EmptySummary = None" "retry_kind (ToolError t m) = None"
  by (simp_all add: retry_kind_def is_context_overflow_def)

lemma backoff_bounds:
  assumes "\<And>n. draw n \<le> n"
  shows "min (base_delay p * unat a) (max_delay p) div 2 \<le> backoff draw p a \<or> DURATION_MAX < base_delay p * unat a"
    and "backoff draw p a \<le> max_delay p"
proof -
  let ?m = "min (min (base_delay p * unat a) DURATION_MAX) (max_delay p)"
  have "draw (as_millis (?m div 2) mod 2 ^ 64) \<le> as_millis (?m div 2)" by (rule order.trans [OF assms]) simp
  then have "millis (draw (as_millis (?m div 2) mod 2 ^ 64)) \<le> as_millis (?m div 2) * 1000000"
    unfolding millis_def by (rule mult_le_mono1)
  also have "\<dots> \<le> ?m div 2" unfolding as_millis_def by (rule div_times_less_eq_dividend)
  finally have "millis (draw (as_millis (?m div 2) mod 2 ^ 64)) \<le> ?m div 2" .
  then have "backoff draw p a \<le> ?m div 2 + ?m div 2" by (simp add: backoff_def Let_def)
  also have "\<dots> \<le> ?m" by (simp only: mult_2 [symmetric])
  also have "\<dots> \<le> max_delay p" by simp
  finally show "backoff draw p a \<le> max_delay p" .
  show "min (base_delay p * unat a) (max_delay p) div 2 \<le> backoff draw p a \<or> DURATION_MAX < base_delay p * unat a"
    by (auto simp: backoff_def Let_def min_def not_le trans_le_add1)
qed

text \<open>A hint is obeyed within the policy's floor and the cap.\<close>

lemma hinted_delay:
  assumes "next_delay draw k (Some after) r = (Some d, r')"
  shows "d \<le> RETRY_AFTER_CAP" "base_delay (retry_policy_of r) \<le> RETRY_AFTER_CAP \<Longrightarrow> base_delay (retry_policy_of r) \<le> d"
    "base_delay (retry_policy_of r) \<le> after \<Longrightarrow> after \<le> RETRY_AFTER_CAP \<Longrightarrow> d = after"
  using assms by (auto simp: next_delay_def Let_def min_def max_def split: if_splits option.splits)

text \<open>What is left of a bounded budget, and of the walk over the keys.\<close>

definition budget_left :: "budget \<Rightarrow> retry_state \<Rightarrow> nat" where
  "budget_left b r = (case budget_limit b (retry_policy_of r) of None \<Rightarrow> 0 | Some l \<Rightarrow> unat l - unat (spent r b))"

lemma next_delay_frame:
  assumes "next_delay draw k h r = (Some d, r')"
  shows "retry_policy_of r' = retry_policy_of r" "rotations_left r' = rotations_left r"
    "spent r' = (spent r)(budget_of k h := spent r (budget_of k h) + 1)"
  using assms by (auto simp: next_delay_def Let_def split: if_splits)

lemma next_delay_left:
  assumes "next_delay draw k h r = (Some d, r')" "budget_limit (budget_of k h) (retry_policy_of r) = Some l"
  shows "budget_left (budget_of k h) r' + 1 = budget_left (budget_of k h) r"
    and "b \<noteq> budget_of k h \<Longrightarrow> budget_left b r' = budget_left b r"
proof -
  have less: "spent r (budget_of k h) < l" using assms by (auto simp: next_delay_def Let_def not_le split: if_splits)
  then have "unat (spent r (budget_of k h) + 1) = unat (spent r (budget_of k h)) + 1"
    using unsigned_less [of l, where ?'a = nat] by (simp add: unat_word_ariths word_less_nat_alt)
  with less show "budget_left (budget_of k h) r' + 1 = budget_left (budget_of k h) r"
    by (simp add: budget_left_def assms(2) next_delay_frame [OF assms(1)] word_less_nat_alt)
  show "b \<noteq> budget_of k h \<Longrightarrow> budget_left b r' = budget_left b r"
    by (simp add: budget_left_def next_delay_frame [OF assms(1)] split: option.split)
qed

lemma book_rotation_left:
  "book_rotation r = (True, r') \<Longrightarrow> unat (rotations_left r') + 1 = unat (rotations_left r)"
  "book_rotation r = (True, r') \<Longrightarrow> budget_left b r' = budget_left b r"
  "book_rotation r = (True, r') \<Longrightarrow> retry_policy_of r' = retry_policy_of r"
  "book_rotation r = (False, r') \<Longrightarrow> r' = r"
proof -
  assume r: "book_rotation r = (True, r')"
  then have "rotations_left r \<noteq> 0" "r' = r\<lparr>rotations_left := rotations_left r - 1\<rparr>"
    by (auto simp: book_rotation_def split: if_splits)
  then show "unat (rotations_left r') + 1 = unat (rotations_left r)"
    by (simp add: unat_minus_one Suc_pred' unat_gt_0)
qed (auto simp: book_rotation_def budget_left_def split: if_splits option.split)

end
