(* ===== verification/Chat_Messages.thy ===== *)
theory Chat_Messages
  imports Provider_Errors
begin

text \<open>
  The messages of a conversation (\<^verbatim>\<open>maki-providers/src/types.rs\<close>) and its history
  (\<^verbatim>\<open>maki-agent/src/agent/history.rs\<close>, \<^verbatim>\<open>HistorySnapshot\<close> of \<^verbatim>\<open>maki-storage/src/sessions.rs\<close>):
  appending, replacing, repairing what a killed process or a cancellation left, and the mirror that
  consumers read. A JSON value is its compact text.
\<close>

section \<open>Messages\<close>

type_synonym json = string

datatype role = UserRole | AssistantRole

datatype content_block =
  TextBlock string
| ThinkingBlock string "string option"
| RedactedThinking string
| ToolUse (use_id: string) (use_name: string) (use_input: json) "string option"
| ToolResult (result_id: string) string bool
| ImageBlock image_source

fun is_thinking :: "content_block \<Rightarrow> bool" where
  "is_thinking (ThinkingBlock _ _) = True"
| "is_thinking (RedactedThinking _) = True"
| "is_thinking _ = False"

fun is_image :: "content_block \<Rightarrow> bool" where
  "is_image (ImageBlock _) = True"
| "is_image _ = False"

datatype message_kind = TurnMessage | Observation

datatype observation_source = ChildResultSource string string

record chat_message =
  role :: role
  content :: "content_block list"
  display_text :: "string option"
  message_kind :: message_kind
  observed_from :: "observation_source option"

datatype stop_reason = StopEndTurn | StopToolUse | StopMaxTokens

definition IMAGE_PLACEHOLDER :: string where
  "IMAGE_PLACEHOLDER = ''[image]''"

definition EMPTY_RESPONSE_MARKER :: string where
  "EMPTY_RESPONSE_MARKER = ''(empty)''"

definition plain_message :: "role \<Rightarrow> content_block list \<Rightarrow> chat_message" where
  "plain_message r c = \<lparr>role = r, content = c, display_text = None, message_kind = TurnMessage, observed_from = None\<rparr>"

definition empty_marker :: chat_message where
  "empty_marker = plain_message AssistantRole [TextBlock EMPTY_RESPONSE_MARKER]"

definition observation :: "string \<Rightarrow> chat_message" where
  "observation text = (plain_message UserRole [TextBlock text])\<lparr>message_kind := Observation\<rparr>"

definition is_observation :: "chat_message \<Rightarrow> bool" where
  "is_observation m \<longleftrightarrow> message_kind m = Observation"

definition user_says :: "string \<Rightarrow> chat_message" where
  "user_says text = plain_message UserRole [TextBlock text]"

definition user_display :: "string \<Rightarrow> string \<Rightarrow> chat_message" where
  "user_display ai_text display = (user_says ai_text)\<lparr>display_text := Some display\<rparr>"

definition user_with_images :: "string \<Rightarrow> image_source list \<Rightarrow> chat_message" where
  "user_with_images text imgs = plain_message UserRole (map ImageBlock imgs @ (if text \<noteq> [] then [TextBlock text] else []))"

definition synthetic :: "string \<Rightarrow> chat_message" where
  "synthetic text = (user_says text)\<lparr>display_text := Some []\<rparr>"

fun spoken_text :: "content_block \<Rightarrow> string option" where
  "spoken_text (TextBlock t) = (if is_blank t then None else Some t)"
| "spoken_text _ = None"

definition first_text_content :: "chat_message \<Rightarrow> string option" where
  "first_text_content m = (case find (\<lambda>b. spoken_text b \<noteq> None) (content m) of Some b \<Rightarrow> spoken_text b | None \<Rightarrow> None)"

definition user_text :: "chat_message \<Rightarrow> string option" where
  "user_text m = (case display_text m of
     Some t \<Rightarrow> if t = [] then None else Some t | None \<Rightarrow> first_text_content m)"

definition first_user_text :: "chat_message \<Rightarrow> string option" where
  "first_user_text m = (if role m \<noteq> UserRole \<or> is_observation m then None else user_text m)"

definition tool_uses :: "chat_message \<Rightarrow> (string \<times> string \<times> json) list" where
  "tool_uses m = map (\<lambda>b. (use_id b, use_name b, use_input b)) (filter is_ToolUse (content m))"

definition has_tool_calls :: "chat_message \<Rightarrow> bool" where
  "has_tool_calls m \<longleftrightarrow> list_ex is_ToolUse (content m)"

section \<open>Snapshots and the mirror\<close>

text \<open>The mirror is the value a shared cell holds; \<open>None\<close> when none is attached. A rewrite takes the
  epoch that the process-wide counter hands out.\<close>

record snapshot =
  epoch :: u64
  compacted :: bool
  messages :: "chat_message list"

record history =
  snapshot :: snapshot
  mirror :: "snapshot option"

definition new_history :: "u64 \<Rightarrow> chat_message list \<Rightarrow> history" where
  "new_history ep ms = \<lparr>snapshot = \<lparr>epoch = ep, compacted = False, messages = ms\<rparr>, mirror = None\<rparr>"

definition as_slice :: "history \<Rightarrow> chat_message list" where
  "as_slice h = messages (snapshot h)"

definition publish :: "history \<Rightarrow> history" where
  "publish h = (case mirror h of None \<Rightarrow> h | Some _ \<Rightarrow> h\<lparr>mirror := Some (snapshot h)\<rparr>)"

definition edit :: "(chat_message list \<Rightarrow> chat_message list) \<Rightarrow> history \<Rightarrow> history" where
  "edit f h = publish (h\<lparr>snapshot := (snapshot h)\<lparr>messages := f (as_slice h)\<rparr>\<rparr>)"

definition rewrite :: "u64 \<Rightarrow> (chat_message list \<Rightarrow> chat_message list) \<Rightarrow> history \<Rightarrow> history" where
  "rewrite ep f h = edit f (h\<lparr>snapshot := (snapshot h)\<lparr>epoch := ep\<rparr>\<rparr>)"

definition with_mirror :: "snapshot \<Rightarrow> history \<Rightarrow> history" where
  "with_mirror cell h = publish (h\<lparr>snapshot := (snapshot h)\<lparr>compacted := compacted (snapshot h) \<or> compacted cell\<rparr>,
     mirror := Some cell\<rparr>)"

definition push_message :: "chat_message \<Rightarrow> history \<Rightarrow> history" where
  "push_message m = edit (\<lambda>ms. ms @ [m])"

definition message_count :: "history \<Rightarrow> nat" where
  "message_count h = length (as_slice h)"

definition replace_messages :: "u64 \<Rightarrow> chat_message list \<Rightarrow> history \<Rightarrow> history" where
  "replace_messages ep ms = rewrite ep (\<lambda>_. ms)"

definition replace_snapshot :: "snapshot \<Rightarrow> history \<Rightarrow> history" where
  "replace_snapshot s h = publish (h\<lparr>snapshot := s\<rparr>)"

definition replace_compacted :: "u64 \<Rightarrow> chat_message list \<Rightarrow> history \<Rightarrow> history" where
  "replace_compacted ep ms h = replace_messages ep ms (h\<lparr>snapshot := (snapshot h)\<lparr>compacted := True\<rparr>\<rparr>)"

definition truncate_history :: "u64 \<Rightarrow> nat \<Rightarrow> history \<Rightarrow> history" where
  "truncate_history ep n = rewrite ep (take n)"

section \<open>Padding and nudges\<close>

fun is_text :: "content_block \<Rightarrow> bool" where
  "is_text (TextBlock _) = True"
| "is_text _ = False"

definition is_empty_marker :: "chat_message \<Rightarrow> bool" where
  "is_empty_marker m \<longleftrightarrow> role m = AssistantRole \<and> display_text m = None \<and> content m = [TextBlock EMPTY_RESPONSE_MARKER]"

definition is_system_padding :: "chat_message \<Rightarrow> bool" where
  "is_system_padding m \<longleftrightarrow> is_empty_marker m \<or> display_text m = Some [] \<and> list_all is_text (content m)"

definition has_recent_tool_results :: "nat \<Rightarrow> history \<Rightarrow> bool" where
  "has_recent_tool_results depth h =
     list_ex (\<lambda>m. list_ex is_ToolResult (content m)) (take depth (filter (\<lambda>m. \<not> is_system_padding m) (rev (as_slice h))))"

definition recent_nudges :: "history \<Rightarrow> u32" where
  "recent_nudges h = of_nat (length (filter is_empty_marker (takeWhile is_system_padding (rev (as_slice h)))))"

section \<open>Repair\<close>

text \<open>\<open>remove_orphaned_tool_results\<close> walks the list with an index; the message before the one it looks at
  is the last one it kept, which the recursion carries.\<close>

definition call_ids :: "chat_message \<Rightarrow> string list" where
  "call_ids m = map fst (tool_uses m)"

definition valid_ids :: "chat_message option \<Rightarrow> string list" where
  "valid_ids prev = (case prev of Some p \<Rightarrow> if role p = AssistantRole then call_ids p else [] | None \<Rightarrow> [])"

definition keep_results :: "string list \<Rightarrow> content_block list \<Rightarrow> content_block list" where
  "keep_results ids bs =
     (let kept = filter (\<lambda>b. is_ToolResult b \<longrightarrow> result_id b \<in> set ids) bs
      in if list_ex is_ToolResult bs \<and> \<not> list_ex is_ToolResult kept then filter (\<lambda>b. \<not> is_image b) kept else kept)"

fun remove_orphans :: "chat_message option \<Rightarrow> chat_message list \<Rightarrow> chat_message list \<times> bool" where
  "remove_orphans prev [] = ([], False)"
| "remove_orphans prev (m # ms) =
     (if role m \<noteq> UserRole then let (rest, changed) = remove_orphans (Some m) ms in (m # rest, changed)
      else let bs = keep_results (valid_ids prev) (content m) in
        if bs = [] then (fst (remove_orphans prev ms), True)
        else let m' = m\<lparr>content := bs\<rparr>; (rest, changed) = remove_orphans (Some m') ms
          in (m' # rest, length bs \<noteq> length (content m) \<or> changed))"

definition remove_orphaned_tool_results :: "chat_message list \<Rightarrow> chat_message list \<times> bool" where
  "remove_orphaned_tool_results ms = remove_orphans None ms"

definition error_results :: "string \<Rightarrow> chat_message \<Rightarrow> chat_message" where
  "error_results note m = (plain_message UserRole (map (\<lambda>i. ToolResult i note True) (call_ids m)))\<lparr>display_text := Some []\<rparr>"

definition close_dangling_tool_calls :: "string \<Rightarrow> chat_message list \<Rightarrow> chat_message list" where
  "close_dangling_tool_calls note ms =
     (if ms = [] \<or> role (last ms) \<noteq> AssistantRole \<or> \<not> has_tool_calls (last ms) then ms
      else ms @ [error_results note (last ms)])"

definition UNAVAILABLE_RESULT :: string where
  "UNAVAILABLE_RESULT = ''[Tool result not available]''"

definition CANCEL_MARKER :: string where
  "CANCEL_MARKER = ''[Cancelled by user]''"

definition sanitize_restored :: "chat_message list \<Rightarrow> chat_message list" where
  "sanitize_restored ms = close_dangling_tool_calls UNAVAILABLE_RESULT (fst (remove_orphaned_tool_results ms))"

definition restored :: "u64 \<Rightarrow> chat_message list \<Rightarrow> history" where
  "restored ep ms = new_history ep (sanitize_restored ms)"

definition restored_snapshot :: "u64 \<Rightarrow> snapshot \<Rightarrow> history" where
  "restored_snapshot ep s = (let h = restored ep (messages s) in h\<lparr>snapshot := (snapshot h)\<lparr>compacted := compacted s\<rparr>\<rparr>)"

definition sanitize_cancelled_history :: "nat \<Rightarrow> history \<Rightarrow> history" where
  "sanitize_cancelled_history rollback_len h =
     (if message_count h \<le> rollback_len then h
      else edit (\<lambda>ms. close_dangling_tool_calls CANCEL_MARKER ms @ [synthetic CANCEL_MARKER]) h)"

end
