(* ===== verification/Chat_Laws.thy ===== *)
theory Chat_Laws
  imports Chat_Messages "HOL-Library.Multiset" "HOL-Library.Sublist"
begin

text \<open>
  What a conversation's history promises: how tool calls and their results stand to each other, what the
  repairs establish, and what a consumer that holds an older list can conclude from the epoch.
\<close>

section \<open>Calls and results\<close>

definition results_of :: "chat_message \<Rightarrow> string list" where
  "results_of m = map result_id (filter is_ToolResult (content m))"

definition open_calls :: "chat_message \<Rightarrow> string list" where
  "open_calls m = (if role m = AssistantRole then call_ids m else [])"

definition last_open :: "string list \<Rightarrow> chat_message list \<Rightarrow> string list" where
  "last_open ids ms = (if ms = [] then ids else open_calls (last ms))"

text \<open>A history without orphans: no user message is empty or answers a call the message before it did not
  make. In a paired history each message answers exactly the calls of the message before it.\<close>

fun orphan_free :: "string list \<Rightarrow> chat_message list \<Rightarrow> bool" where
  "orphan_free ids [] \<longleftrightarrow> True"
| "orphan_free ids (m # ms) \<longleftrightarrow>
     (role m = UserRole \<longrightarrow> content m \<noteq> [] \<and> set (results_of m) \<subseteq> set ids) \<and> orphan_free (open_calls m) ms"

fun answered :: "string list \<Rightarrow> chat_message list \<Rightarrow> bool" where
  "answered ids [] \<longleftrightarrow> True"
| "answered ids (m # ms) \<longleftrightarrow>
     mset (results_of m) = mset ids \<and> (ids \<noteq> [] \<longrightarrow> role m = UserRole) \<and> answered (open_calls m) ms"

lemma role_not_user: "role m \<noteq> UserRole \<longleftrightarrow> role m = AssistantRole"
  by (cases "role m") auto

lemma valid_ids_simps [simp]: "valid_ids None = []" "valid_ids (Some m) = open_calls m"
  by (simp_all add: valid_ids_def open_calls_def)

lemma last_open_simps [simp]: "last_open ids [] = ids" "last_open ids (ms @ [m]) = open_calls m"
  "last_open ids (m # ms) = last_open (open_calls m) ms"
  by (simp_all add: last_open_def)

lemma open_calls_nonempty: "open_calls m \<noteq> [] \<longleftrightarrow> role m = AssistantRole \<and> has_tool_calls m"
  by (auto simp: open_calls_def call_ids_def tool_uses_def has_tool_calls_def list_ex_iff filter_empty_conv)

lemma results_keep: "set (map result_id (filter is_ToolResult (keep_results ids bs))) \<subseteq> set ids"
  by (auto simp: keep_results_def Let_def)

lemma keep_all:
  assumes "set (map result_id (filter is_ToolResult bs)) \<subseteq> set ids"
  shows "keep_results ids bs = bs"
proof -
  have "filter (\<lambda>b. is_ToolResult b \<longrightarrow> result_id b \<in> set ids) bs = bs" using assms by (auto simp: filter_id_conv)
  then show ?thesis by (simp add: keep_results_def)
qed

section \<open>Repair\<close>

lemma remove_orphans_free: "orphan_free (valid_ids prev) (fst (remove_orphans prev ms))"
proof (induction prev ms rule: remove_orphans.induct)
  case (2 prev m ms)
  show ?case
  proof (cases "role m = UserRole")
    case True
    show ?thesis
    proof (cases "keep_results (valid_ids prev) (content m) = []")
      case e: False
      let ?m = "m\<lparr>content := keep_results (valid_ids prev) (content m)\<rparr>"
      have "orphan_free (open_calls ?m) (fst (remove_orphans (Some ?m) ms))" using 2(3) [OF _ refl e refl] True by simp
      then show ?thesis using True e results_keep [of "valid_ids prev" "content m"]
        by (simp add: Let_def case_prod_beta results_of_def)
    qed (use 2(2) True in simp)
  qed (use 2(1) in \<open>simp add: case_prod_beta\<close>)
qed simp

lemma remove_orphans_same: "orphan_free (valid_ids prev) ms \<Longrightarrow> remove_orphans prev ms = (ms, False)"
proof (induction ms arbitrary: prev)
  case (Cons m ms)
  have rest: "remove_orphans (Some m) ms = (ms, False)" using Cons.prems by (intro Cons.IH) simp
  show ?case
  proof (cases "role m = UserRole")
    case True
    then have "keep_results (valid_ids prev) (content m) = content m" "content m \<noteq> []"
      using Cons.prems by (auto intro!: keep_all simp: results_of_def)
    then show ?thesis using True rest by simp
  qed (simp add: rest)
qed simp

lemma repaired_orphan_free: "orphan_free [] (fst (remove_orphaned_tool_results ms))"
  using remove_orphans_free [of None] by (simp add: remove_orphaned_tool_results_def)

lemma remove_orphans_idem: "remove_orphaned_tool_results (fst (remove_orphaned_tool_results ms)) = (fst (remove_orphaned_tool_results ms), False)"
  using remove_orphans_same [of None] repaired_orphan_free by (simp add: remove_orphaned_tool_results_def)

lemma orphan_free_snoc: "orphan_free ids (ms @ [m]) \<longleftrightarrow> orphan_free ids ms
   \<and> (role m = UserRole \<longrightarrow> content m \<noteq> [] \<and> set (results_of m) \<subseteq> set (last_open ids ms))"
  by (induction ms arbitrary: ids) auto

lemma error_results_simps [simp]: "results_of (error_results mark m) = call_ids m" "role (error_results mark m) = UserRole"
  "open_calls (error_results mark m) = []" "content (error_results mark m) = [] \<longleftrightarrow> call_ids m = []"
  by (simp_all add: error_results_def plain_message_def results_of_def open_calls_def filter_map o_def)

lemma close_cases:
  obtains "close_dangling_tool_calls mark ms = ms" "last_open [] ms = []"
  | "close_dangling_tool_calls mark ms = ms @ [error_results mark (last ms)]" "ms \<noteq> []"
    "open_calls (last ms) = call_ids (last ms)" "call_ids (last ms) \<noteq> []" "role (last ms) = AssistantRole"
proof (cases "ms = [] \<or> open_calls (last ms) = []")
  case True
  then have "close_dangling_tool_calls mark ms = ms"
    using open_calls_nonempty [of "last ms"] by (auto simp: close_dangling_tool_calls_def)
  then show thesis using True that(1) by (auto simp: last_open_def)
next
  case False
  then show thesis using that(2) open_calls_nonempty [of "last ms"] by (auto simp: close_dangling_tool_calls_def open_calls_def)
qed

lemma close_orphan_free: "orphan_free [] ms \<Longrightarrow> orphan_free [] (close_dangling_tool_calls mark ms)"
  by (rule close_cases [of mark ms]) (auto simp: orphan_free_snoc last_open_def)

lemma close_nothing_open: "last_open [] (close_dangling_tool_calls mark ms) = []"
  by (rule close_cases [of mark ms]) auto

lemma close_calls_idem: "close_dangling_tool_calls mark (close_dangling_tool_calls mark ms) = close_dangling_tool_calls mark ms"
  by (rule close_cases [of mark "close_dangling_tool_calls mark ms"])
    (use close_nothing_open [of mark ms] in \<open>auto simp: last_open_def\<close>)

lemma sanitized: "orphan_free [] (sanitize_restored ms)" "last_open [] (sanitize_restored ms) = []"
  by (simp_all add: sanitize_restored_def close_orphan_free close_nothing_open repaired_orphan_free)

lemma sanitize_idem: "sanitize_restored (sanitize_restored ms) = sanitize_restored ms"
proof -
  have "remove_orphaned_tool_results (sanitize_restored ms) = (sanitize_restored ms, False)"
    using remove_orphans_same [of None] sanitized(1) by (simp add: remove_orphaned_tool_results_def)
  then show ?thesis by (simp add: sanitize_restored_def close_calls_idem)
qed

section \<open>Paired histories\<close>

lemma answered_append: "answered ids (as @ bs) \<longleftrightarrow> answered ids as \<and> answered (last_open ids as) bs"
  by (induction as arbitrary: ids) auto

lemma answered_snoc: "answered ids (ms @ [m]) \<longleftrightarrow> answered ids ms
   \<and> mset (results_of m) = mset (last_open ids ms) \<and> (last_open ids ms \<noteq> [] \<longrightarrow> role m = UserRole)"
  by (auto simp: answered_append)

lemma answered_take: "answered ids ms \<Longrightarrow> answered ids (take n ms)"
  by (metis answered_append append_take_drop_id)

lemma answered_orphan_free:
  "answered ids ms \<Longrightarrow> \<forall>m \<in> set ms. role m = UserRole \<longrightarrow> content m \<noteq> [] \<Longrightarrow> orphan_free ids ms"
  by (induction ms arbitrary: ids) (auto dest: mset_eq_setD)

lemma close_answered: "answered [] ms \<Longrightarrow> answered [] (close_dangling_tool_calls mark ms)"
  by (rule close_cases [of mark ms]) (auto simp: answered_snoc last_open_def)

text \<open>A history that was cut anywhere, by a process that was killed, is repaired by answering the calls
  that were still open; nothing of it is dropped.\<close>

lemma sanitize_cut:
  assumes "answered [] ms" "\<forall>m \<in> set ms. role m = UserRole \<longrightarrow> content m \<noteq> []"
  shows "sanitize_restored (take n ms) = close_dangling_tool_calls UNAVAILABLE_RESULT (take n ms)"
    and "answered [] (sanitize_restored (take n ms))" "prefix (take n ms) (sanitize_restored (take n ms))"
proof -
  have "orphan_free [] (take n ms)"
    by (rule answered_orphan_free [OF answered_take [OF assms(1)]]) (use assms(2) in_set_takeD in fast)
  then have "fst (remove_orphaned_tool_results (take n ms)) = take n ms"
    using remove_orphans_same [of None] by (simp add: remove_orphaned_tool_results_def)
  then show eq: "sanitize_restored (take n ms) = close_dangling_tool_calls UNAVAILABLE_RESULT (take n ms)"
    by (simp add: sanitize_restored_def)
  show "answered [] (sanitize_restored (take n ms))" unfolding eq by (rule close_answered [OF answered_take [OF assms(1)]])
  show "prefix (take n ms) (sanitize_restored (take n ms))" unfolding eq by (rule close_cases [of UNAVAILABLE_RESULT "take n ms"]) auto
qed

text \<open>Messages that neither call a tool nor answer a call keep a history paired.\<close>

definition no_tools :: "chat_message \<Rightarrow> bool" where
  "no_tools m \<longleftrightarrow> results_of m = [] \<and> call_ids m = []"

lemma answered_plain:
  assumes "answered ids ms" "last_open ids ms = []" "\<forall>m \<in> set new. no_tools m"
  shows "answered ids (ms @ new)" "last_open ids (ms @ new) = []"
proof -
  have new: "answered [] new \<and> last_open [] new = []" using assms(3)
    by (induction new) (auto simp: no_tools_def open_calls_def)
  then show "answered ids (ms @ new)" using assms by (simp add: answered_append)
  show "last_open ids (ms @ new) = []" using new assms(2) by (cases "new = []") (auto simp: last_open_def)
qed

lemma no_tools_simps [simp]: "no_tools (user_says t)" "no_tools (synthetic t)" "no_tools empty_marker"
  "no_tools (user_with_images t imgs)" "no_tools (observation t)" "no_tools (user_display a t)"
  by (auto simp: no_tools_def results_of_def call_ids_def tool_uses_def user_says_def synthetic_def empty_marker_def
    plain_message_def user_with_images_def observation_def user_display_def filter_empty_conv)

section \<open>The mirror and epochs\<close>

lemma publish_simps [simp]: "snapshot (publish h) = snapshot h" "mirror (publish h) = (if mirror h = None then None else Some (snapshot h))"
  by (auto simp: publish_def split: option.splits)

lemma edit_simps [simp]: "as_slice (edit f h) = f (as_slice h)" "epoch (snapshot (edit f h)) = epoch (snapshot h)"
  "compacted (snapshot (edit f h)) = compacted (snapshot h)"
  "mirror (edit f h) = (if mirror h = None then None else Some (snapshot (edit f h)))"
  by (simp_all add: edit_def as_slice_def)

lemma rewrite_simps [simp]: "as_slice (rewrite ep f h) = f (as_slice h)" "epoch (snapshot (rewrite ep f h)) = ep"
  "compacted (snapshot (rewrite ep f h)) = compacted (snapshot h)"
  by (simp_all add: rewrite_def as_slice_def edit_def)

lemma replace_simps [simp]: "as_slice (replace_messages ep ms h) = ms" "as_slice (replace_compacted ep ms h) = ms"
  "compacted (snapshot (replace_compacted ep ms h))"
  by (simp_all add: replace_messages_def replace_compacted_def)

lemma push_simps [simp]: "as_slice (push_message m h) = as_slice h @ [m]" "message_count (push_message m h) = message_count h + 1"
  by (simp_all add: push_message_def message_count_def)

lemma sanitize_cancelled_messages:
  "as_slice (sanitize_cancelled_history n h) = (if message_count h \<le> n then as_slice h
     else close_dangling_tool_calls CANCEL_MARKER (as_slice h) @ [synthetic CANCEL_MARKER])"
  by (simp add: sanitize_cancelled_history_def)

datatype history_call =
  Push chat_message
| Replace u64 "chat_message list"
| ReplaceCompacted u64 "chat_message list"
| Truncate u64 nat
| Cancelled_at nat

fun history_do :: "history_call \<Rightarrow> history \<Rightarrow> history" where
  "history_do (Push m) h = push_message m h"
| "history_do (Replace ep ms) h = replace_messages ep ms h"
| "history_do (ReplaceCompacted ep ms) h = replace_compacted ep ms h"
| "history_do (Truncate ep n) h = truncate_history ep n h"
| "history_do (Cancelled_at n) h = sanitize_cancelled_history n h"

fun call_epoch :: "history_call \<Rightarrow> u64 list" where
  "call_epoch (Push _) = []"
| "call_epoch (Replace ep _) = [ep]"
| "call_epoch (ReplaceCompacted ep _) = [ep]"
| "call_epoch (Truncate ep _) = [ep]"
| "call_epoch (Cancelled_at _) = []"

lemma close_prefix: "prefix ms (close_dangling_tool_calls mark ms)"
  by (rule close_cases [of mark ms]) auto

lemmas history_defs = push_message_def replace_messages_def replace_compacted_def truncate_history_def
  sanitize_cancelled_history_def

lemma history_do_append:
  assumes "call_epoch c = []"
  shows "epoch (snapshot (history_do c h)) = epoch (snapshot h)" "prefix (as_slice h) (as_slice (history_do c h))"
proof -
  show "epoch (snapshot (history_do c h)) = epoch (snapshot h)"
    using assms by (cases c) (simp_all add: push_message_def sanitize_cancelled_history_def)
  show "prefix (as_slice h) (as_slice (history_do c h))"
    using assms by (cases c) (simp_all add: push_message_def sanitize_cancelled_history_def close_prefix)
qed

lemma history_do_rewrite: "call_epoch c = [ep] \<Longrightarrow> epoch (snapshot (history_do c h)) = ep"
  by (cases c) (simp_all add: history_defs)

lemma history_do_compacted: "compacted (snapshot h) \<Longrightarrow> compacted (snapshot (history_do c h))"
  by (cases c) (simp_all add: history_defs)

text \<open>An attached mirror shows the history as it is.\<close>

definition mirrored :: "history \<Rightarrow> bool" where
  "mirrored h \<longleftrightarrow> mirror h = None \<or> mirror h = Some (snapshot h)"

lemma edit_mirrored: "mirrored (edit f h)" "mirrored (rewrite ep f h)"
proof -
  show e: "mirrored (edit f h)" for f h by (cases "mirror h") (simp_all add: mirrored_def)
  show "mirrored (rewrite ep f h)" unfolding rewrite_def by (rule e)
qed

lemma history_do_mirrored: "mirrored h \<Longrightarrow> mirrored (history_do c h)"
  by (cases c) (simp_all add: history_defs edit_mirrored)

lemma history_epoch_later:
  assumes "epoch (snapshot (fold history_do cs h)) \<notin> set (concat (map call_epoch cs))"
  shows "epoch (snapshot (fold history_do cs h)) = epoch (snapshot h) \<and> prefix (as_slice h) (as_slice (fold history_do cs h))"
  using assms
proof (induction cs rule: rev_induct)
  case (snoc c cs)
  show ?case
  proof (cases "call_epoch c")
    case Nil
    then have "epoch (snapshot (fold history_do cs h)) = epoch (snapshot h) \<and> prefix (as_slice h) (as_slice (fold history_do cs h))"
      using snoc history_do_append(1) [of c "fold history_do cs h"] by simp
    with history_do_append [OF Nil, of "fold history_do cs h"] show ?thesis by (auto intro: prefix_order.trans)
  next
    case (Cons ep es)
    then have "call_epoch c = [ep]" by (cases c) auto
    then show ?thesis using snoc.prems history_do_rewrite [of c ep] by simp
  qed
qed simp

end
