(* ===== verification/Agent_Requests.thy ===== *)
theory Agent_Requests
  imports Chat_Laws Turn_Inbox
begin

text \<open>
  The state of a running agent (\<^verbatim>\<open>Agent\<close> of \<^verbatim>\<open>maki-agent/src/agent/run.rs\<close>), the surroundings it acts
  on, and one request to the model with its retries (\<^verbatim>\<open>maki-agent/src/agent/streaming.rs\<close>). A run is a
  function on the agent's state, which carries the state of the world outside: a call that leaves the
  agent (the model, the tools, the inbox, the event channel, the cancellation token) is a function of
  that world, so anything may have happened in between. A run that does not return is \<open>None\<close>.
\<close>

section \<open>Runs\<close>

record run_totals =
  total_usage :: token_usage
  total_cost :: "f64 option"
  total_list_cost :: "f64 option"

record 'w agent =
  hist :: history
  num_turns :: u32
  context_size :: u32
  reauth_attempts :: u32
  pending_request :: bool
  recent_calls :: "(string \<times> u64) list"
  rollback_len :: nat
  totals :: run_totals
  out_stream :: "output_state option"
  captured :: "json option"
  world :: 'w

type_synonym ('w, 'e, 'a) run = "'w agent \<Rightarrow> (('e + 'a) \<times> 'w agent) option"

definition give :: "'a \<Rightarrow> ('w, 'e, 'a) run" where
  "give x s = Some (Inr x, s)"

definition raise :: "'e \<Rightarrow> ('w, 'e, 'a) run" where
  "raise e s = Some (Inl e, s)"

definition and_then :: "('w, 'e, 'a) run \<Rightarrow> ('a \<Rightarrow> ('w, 'e, 'b) run) \<Rightarrow> ('w, 'e, 'b) run" where
  "and_then m f s = Option.bind (m s) (\<lambda>(r, t). case r of Inl e \<Rightarrow> Some (Inl e, t) | Inr x \<Rightarrow> f x t)"

definition ask :: "('w \<Rightarrow> 'a \<times> 'w) \<Rightarrow> ('w, 'e, 'a) run" where
  "ask q s = Some (Inr (fst (q (world s))), s\<lparr>world := snd (q (world s))\<rparr>)"

definition look :: "('w agent \<Rightarrow> 'a) \<Rightarrow> ('w, 'e, 'a) run" where
  "look f s = Some (Inr (f s), s)"

definition update_agent :: "('w agent \<Rightarrow> 'w agent) \<Rightarrow> ('w, 'e, unit) run" where
  "update_agent f s = Some (Inr (), f s)"

definition unless_error :: "('e + 'a) \<Rightarrow> ('w, 'e, 'a) run" where
  "unless_error r s = Some (r, s)"

fun each :: "('x \<Rightarrow> ('w, 'e, unit) run) \<Rightarrow> 'x list \<Rightarrow> ('w, 'e, unit) run" where
  "each f [] = give ()"
| "each f (x # xs) = and_then (f x) (\<lambda>_. each f xs)"

section \<open>Surroundings\<close>

record tool_done =
  done_id :: string
  done_tool :: string
  done_text :: string
  done_image :: "image_source option"
  done_error :: bool

record response =
  resp_message :: chat_message
  resp_usage :: token_usage
  resp_stop :: "stop_reason option"

text \<open>The events a turn emits itself; what only names the model or its window is left out of them.\<close>

datatype agent_event =
  TextDelta string
| ThinkingDelta string
| ThinkingBlockEnd
| ToolPending string string
| PromptProgress u32 u32 u32
| RetryEvent nat string nat
| TurnComplete chat_message token_usage "f64 option" u32
| QueueItemConsumed string "image_source list" "nat option" bool
| Nudge
| AuthRequired
| AutoCompacting u32
| CompactionDone u32 u32
| ControlComplete token_usage
| ToolDone tool_done
| ToolResultsSubmitted chat_message
| TurnOutcomeEvent turn_outcome

datatype provider_event =
  ProviderText string
| ProviderThinking string
| ProviderThinkingEnd
| ProviderToolUse string string
| ProviderProgress u32 u32 u32

datatype audience = MainModel | CompactionModel

record request =
  req_audience :: audience
  req_messages :: "chat_message list"
  req_system :: string
  req_tools :: json

text \<open>The policy is the request's own: a compaction uses the default one.\<close>

record 'w surroundings =
  is_cancelled :: "'w \<Rightarrow> bool \<times> 'w"
  deliver :: "agent_event \<Rightarrow> 'w \<Rightarrow> bool \<times> 'w"
  adapt_images :: "audience \<Rightarrow> chat_message list \<Rightarrow> 'w \<Rightarrow> chat_message list \<times> 'w"
  stream_message :: "request \<Rightarrow> 'w \<Rightarrow> ((agent_error + response) \<times> provider_event list) \<times> 'w"
  key_count :: "nat option"
  rotate_key :: "'w \<Rightarrow> bool \<times> 'w"
  jitter :: "'w \<Rightarrow> (nat \<Rightarrow> nat) \<times> 'w"
  sleep :: "duration \<Rightarrow> 'w \<Rightarrow> 'w"

section \<open>Events\<close>

text \<open>\<open>EventSender::send\<close>: the turn's output takes the text of the event first, whether or not the
  channel is still open. A sender without output skips that.\<close>

fun capture :: "agent_event \<Rightarrow> output_state \<Rightarrow> output_state" where
  "capture (TextDelta t) st = append_text t st"
| "capture (RetryEvent _ _ _) st = reset_text_attempt st"
| "capture _ st = st"

definition with_stream :: "bool \<Rightarrow> (output_state \<Rightarrow> output_state) \<Rightarrow> 'w agent \<Rightarrow> 'w agent" where
  "with_stream out f s = (if out then s\<lparr>out_stream := map_option f (out_stream s)\<rparr> else s)"

definition emit_event :: "('w, 'z) surroundings_scheme \<Rightarrow> bool \<Rightarrow> agent_event \<Rightarrow> 'w agent \<Rightarrow> bool \<times> 'w agent" where
  "emit_event e out ev s = (let t = with_stream out (capture ev) s; (ok, w) = deliver e ev (world t) in (ok, t\<lparr>world := w\<rparr>))"

definition try_send :: "('w, 'z) surroundings_scheme \<Rightarrow> bool \<Rightarrow> agent_event \<Rightarrow> ('w, 'e, bool) run" where
  "try_send e out ev s = (let (ok, t) = emit_event e out ev s in Some (Inr ok, t))"

definition send :: "('w, 'z) surroundings_scheme \<Rightarrow> agent_event \<Rightarrow> ('w, agent_error, unit) run" where
  "send e ev = and_then (try_send e True ev) (\<lambda>ok. if ok then give () else raise Channel)"

section \<open>One request\<close>

definition canonical_tool_name :: "string \<Rightarrow> string" where
  "canonical_tool_name name = (case strip_prefix ''functions.'' name of Some n \<Rightarrow> n | None \<Rightarrow> name)"

fun canonical_block :: "content_block \<Rightarrow> content_block" where
  "canonical_block (ToolUse i name inp sig) = ToolUse i (canonical_tool_name name) inp sig"
| "canonical_block b = b"

definition canonicalize_tool_names :: "chat_message \<Rightarrow> chat_message" where
  "canonicalize_tool_names m = m\<lparr>content := map canonical_block (content m)\<rparr>"

fun event_of :: "provider_event \<Rightarrow> agent_event" where
  "event_of (ProviderText t) = TextDelta t"
| "event_of (ProviderThinking t) = ThinkingDelta t"
| "event_of ProviderThinkingEnd = ThinkingBlockEnd"
| "event_of (ProviderToolUse i name) = ToolPending i (canonical_tool_name name)"
| "event_of (ProviderProgress p t c) = PromptProgress p t c"

fun text_of_event :: "provider_event \<Rightarrow> string" where
  "text_of_event (ProviderText t) = t"
| "text_of_event _ = []"

fun forward :: "('w, 'z) surroundings_scheme \<Rightarrow> bool \<Rightarrow> provider_event list \<Rightarrow> string \<Rightarrow> 'w agent \<Rightarrow> string \<times> 'w agent" where
  "forward e out [] streamed s = (streamed, s)"
| "forward e out (pe # pes) streamed s =
     (let streamed' = streamed @ text_of_event pe; (ok, t) = emit_event e out (event_of pe) s
      in if \<not> ok \<and> (\<not> out \<or> out_stream s = None) then (streamed', t) else forward e out pes streamed' t)"

datatype stream_error = StreamCancelled string | StreamOther agent_error

fun stream_to_agent_error :: "stream_error \<Rightarrow> agent_error" where
  "stream_to_agent_error (StreamCancelled _) = CancelledError"
| "stream_to_agent_error (StreamOther e) = e"

definition text_blocks :: "chat_message \<Rightarrow> string" where
  "text_blocks m = concat (map (\<lambda>b. case b of TextBlock t \<Rightarrow> t | _ \<Rightarrow> []) (content m))"

definition attempt_request ::
    "('w, 'z) surroundings_scheme \<Rightarrow> bool \<Rightarrow> request \<Rightarrow> 'w agent \<Rightarrow> (agent_error + response) \<times> string \<times> 'w agent" where
  "attempt_request e out rq s =
     (let ((result, pes), w) = stream_message e rq (world s); (streamed, t) = forward e out pes [] (s\<lparr>world := w\<rparr>)
      in (result, streamed, t))"

definition accept_response :: "bool \<Rightarrow> response \<Rightarrow> 'w agent \<Rightarrow> response \<times> 'w agent" where
  "accept_response out r s =
     (let r' = r\<lparr>resp_message := canonicalize_tool_names (resp_message r)\<rparr>
      in (r', with_stream out (reconcile_text_attempt (text_blocks (resp_message r'))) s))"

text \<open>What a failed attempt costs: a step of the walk over the keys, or a retry of its budget, or nothing
  is left and the error stands.\<close>

definition book_failure ::
    "('w, 'z) surroundings_scheme \<Rightarrow> agent_error \<Rightarrow> retry_state \<Rightarrow> 'w \<Rightarrow> (duration \<times> retry_state) option \<times> 'w" where
  "book_failure e err retry w =
     (let (booked, retry1) = (if should_rotate_key err then book_rotation retry else (False, retry));
          (rotated, w1) = (if booked \<and> key_count e \<noteq> None then rotate_key e w else (False, w))
      in if rotated then (Some (0, retry1), w1)
         else case retry_kind err of
           None \<Rightarrow> (None, w1)
         | Some kind \<Rightarrow>
             (let (draw, w2) = jitter e w1; (delay, retry2) = next_delay draw kind (retry_after err) retry1
              in case delay of None \<Rightarrow> (None, w2) | Some d \<Rightarrow> (Some (d, retry2), w2)))"

text \<open>One round of the loop ends the request or, after the wait, goes on with what is left of the budgets.\<close>

datatype stream_step = StreamEnd "stream_error + response" | StreamAgain retry_state

definition wait_to_retry ::
    "('w, 'z) surroundings_scheme \<Rightarrow> bool \<Rightarrow> agent_event \<Rightarrow> duration \<Rightarrow> retry_state \<Rightarrow> 'w agent \<Rightarrow> stream_step \<times> 'w agent" where
  "wait_to_retry e out ev delay retry s =
     (let (ok, t) = emit_event e out ev s
      in if \<not> ok then (StreamEnd (Inl (StreamOther Channel)), t)
         else let (cancelled, w) = is_cancelled e (sleep e delay (world t)); u = t\<lparr>world := w\<rparr>
           in (if cancelled then StreamEnd (Inl (StreamCancelled [])) else StreamAgain retry, u))"

definition stream_round ::
    "('w, 'z) surroundings_scheme \<Rightarrow> bool \<Rightarrow> request \<Rightarrow> nat \<Rightarrow> retry_state \<Rightarrow> 'w agent \<Rightarrow> stream_step \<times> 'w agent" where
  "stream_round e out rq attempt retry s =
     (let (result, streamed, t) = attempt_request e out rq s
      in case result of
           Inr r \<Rightarrow> (let (r', u) = accept_response out r t in (StreamEnd (Inr r'), u))
         | Inl err \<Rightarrow>
             if err = CancelledError then (StreamEnd (Inl (StreamCancelled streamed)), t)
             else let (booked, w) = book_failure e err retry (world t); u = t\<lparr>world := w\<rparr>
               in case booked of
                    None \<Rightarrow> (StreamEnd (Inl (StreamOther err)), u)
                  | Some (delay, retry') \<Rightarrow>
                      wait_to_retry e out (RetryEvent (attempt + 1) (retry_message err) (as_millis delay mod 2 ^ 64)) delay retry' u)"

partial_function (option) stream_loop ::
    "('w, 'z) surroundings_scheme \<Rightarrow> bool \<Rightarrow> request \<Rightarrow> nat \<Rightarrow> retry_state \<Rightarrow> ('w, stream_error, response) run" where
  "stream_loop e out rq attempt retry s =
     (case stream_round e out rq attempt retry s of (step, t) \<Rightarrow>
        case step of StreamEnd r \<Rightarrow> Some (r, t) | StreamAgain retry' \<Rightarrow> stream_loop e out rq (attempt + 1) retry' t)"

declare stream_loop.simps [code]

definition stream_with_retry ::
    "('w, 'z) surroundings_scheme \<Rightarrow> bool \<Rightarrow> retry_policy \<Rightarrow> request \<Rightarrow> ('w, stream_error, response) run" where
  "stream_with_retry e out policy rq s =
     (let (ms, w) = adapt_images e (req_audience rq) (req_messages rq) (world s)
      in stream_loop e out (rq\<lparr>req_messages := ms\<rparr>) 0
           (new_retry policy (case key_count e of None \<Rightarrow> 1 | Some n \<Rightarrow> n))
           (with_stream out begin_text_attempt (s\<lparr>world := w\<rparr>)))"

end
