(* ===== verification/Agent_Compaction.thy ===== *)
theory Agent_Compaction
  imports Agent_Requests
begin

text \<open>
  Compaction of a history (\<^verbatim>\<open>maki-agent/src/agent/compaction.rs\<close>): when a context counts as full, what is
  sent to the model that writes the summary, how the request is shortened when even that is too large,
  and what replaces the history.
\<close>

section \<open>Setup\<close>

datatype compaction_buffer = Tokens u32 | Percent "8 word"

record 'w compaction_setup = "'w surroundings" +
  context_window :: u32
  max_output_tokens :: "u32 option"
  buffer_setting :: compaction_buffer
  compaction_instructions :: "string option"
  post_compaction_instructions :: "string option"
  compaction_system :: string
  compaction_user :: string
  default_retry :: retry_policy
  standard_cost :: "token_usage \<Rightarrow> f64 option"
  billed_cost :: "audience \<Rightarrow> token_usage \<Rightarrow> f64 option"
  list_cost :: "audience \<Rightarrow> token_usage \<Rightarrow> f64 option"
  next_epoch :: "'w \<Rightarrow> u64 \<times> 'w"

section \<open>When a context is full\<close>

definition MAX_RESERVED_PERCENT :: u32 where
  "MAX_RESERVED_PERCENT = 50"

definition MIN_OUTPUT_TOKENS :: u32 where
  "MIN_OUTPUT_TOKENS = 4096"

definition percent_of :: "u32 \<Rightarrow> u32 \<Rightarrow> u32" where
  "percent_of t p = of_nat (unat t * unat p div 100)"

fun buffer_resolve :: "compaction_buffer \<Rightarrow> u32 \<Rightarrow> u32" where
  "buffer_resolve (Tokens n) window = n"
| "buffer_resolve (Percent p) window = of_nat (unat window * unat p div 100)"

definition min_output :: "('w, 'z) compaction_setup_scheme \<Rightarrow> u32" where
  "min_output e = min MIN_OUTPUT_TOKENS (case max_output_tokens e of None \<Rightarrow> MIN_OUTPUT_TOKENS | Some n \<Rightarrow> n)"

definition reserved :: "('w, 'z) compaction_setup_scheme \<Rightarrow> u32" where
  "reserved e = min (max (buffer_resolve (buffer_setting e) (context_window e)) (min_output e))
     (percent_of (context_window e) MAX_RESERVED_PERCENT)"

definition usable :: "('w, 'z) compaction_setup_scheme \<Rightarrow> u32" where
  "usable e = context_window e - reserved e"

definition total_input :: "token_usage \<Rightarrow> u32" where
  "total_input u = saturating_add_u32 (saturating_add_u32 (usage_input u) (cache_read u)) (cache_creation u)"

definition context_tokens :: "token_usage \<Rightarrow> u32" where
  "context_tokens u = saturating_add_u32 (total_input u) (usage_output u)"

definition is_overflow :: "('w, 'z) compaction_setup_scheme \<Rightarrow> token_usage \<Rightarrow> bool" where
  "is_overflow e u \<longleftrightarrow> usable e \<le> context_tokens u"

section \<open>The request\<close>

definition normalize :: "string option \<Rightarrow> string option" where
  "normalize text = (case text of None \<Rightarrow> None | Some t \<Rightarrow> if trim t = [] then None else Some (trim t))"

definition summary_prompt :: "('w, 'z) compaction_setup_scheme \<Rightarrow> string option \<Rightarrow> string" where
  "summary_prompt e rq =
     (let extras = join_text [CHR 0x0A] (List.map_filter normalize [compaction_instructions e, rq])
      in if extras = [] then compaction_user e
         else compaction_user e @ [CHR 0x0A, CHR 0x0A] @ ''Additional instructions:'' @ [CHR 0x0A] @ extras)"

definition CONTINUE_AFTER_COMPACT :: string where
  "CONTINUE_AFTER_COMPACT = ''Continue if you have next steps, or stop and ask for clarification if you are unsure how to proceed. If the summary contains a todo list, restore it with todo_write and keep it updated. If you learned important project context during this session, consider saving it to memory before it's lost.''"

definition continue_message :: "('w, 'z) compaction_setup_scheme \<Rightarrow> string" where
  "continue_message e = (case normalize (post_compaction_instructions e) of
     Some extra \<Rightarrow> CONTINUE_AFTER_COMPACT @ [CHR 0x0A, CHR 0x0A] @ extra | None \<Rightarrow> CONTINUE_AFTER_COMPACT)"

definition strip_images :: "chat_message list \<Rightarrow> chat_message list" where
  "strip_images = map (\<lambda>m. m\<lparr>content := map (\<lambda>b. if is_image b then TextBlock IMAGE_PLACEHOLDER else b) (content m)\<rparr>)"

definition strip_thinking :: "chat_message list \<Rightarrow> chat_message list" where
  "strip_thinking = map (\<lambda>m. m\<lparr>content := filter (\<lambda>b. \<not> is_thinking b) (content m)\<rparr>)"

definition TOOL_RESULT_PLACEHOLDER :: string where
  "TOOL_RESULT_PLACEHOLDER = ''[tool result]''"

definition KEEP_LAST_TOOL_RESULTS :: nat where
  "KEEP_LAST_TOOL_RESULTS = 3"

fun strip_blocks :: "nat \<Rightarrow> nat \<Rightarrow> content_block list \<Rightarrow> content_block list \<times> nat" where
  "strip_blocks old seen [] = ([], seen)"
| "strip_blocks old seen (ToolResult i t err # bs) =
     (let (rest, n) = strip_blocks old (seen + 1) bs
      in (ToolResult i (if seen < old then TOOL_RESULT_PLACEHOLDER else t) err # rest, n))"
| "strip_blocks old seen (b # bs) = (let (rest, n) = strip_blocks old seen bs in (b # rest, n))"

fun strip_results :: "nat \<Rightarrow> nat \<Rightarrow> chat_message list \<Rightarrow> chat_message list" where
  "strip_results old seen [] = []"
| "strip_results old seen (m # ms) =
     (let (bs, n) = strip_blocks old seen (content m) in m\<lparr>content := bs\<rparr> # strip_results old n ms)"

definition strip_old_tool_results :: "chat_message list \<Rightarrow> chat_message list" where
  "strip_old_tool_results ms =
     (let total = length (filter is_ToolResult (concat (map content ms)))
      in strip_results (total - KEEP_LAST_TOOL_RESULTS) 0 ms)"

lemma remove_orphans_length: "length (fst (remove_orphans prev ms)) \<le> length ms"
  by (induction ms arbitrary: prev) (auto simp: case_prod_beta Let_def intro: le_SucI)

function drop_leading_replies :: "chat_message list \<Rightarrow> chat_message list" where
  "drop_leading_replies ms =
     (if length ms > 1 \<and> role (hd ms) = AssistantRole
      then drop_leading_replies (fst (remove_orphaned_tool_results (tl ms))) else ms)"
  by pat_completeness auto
termination
proof (relation "measure length")
  fix ms :: "chat_message list"
  assume "length ms > 1 \<and> role (hd ms) = AssistantRole"
  then show "(fst (remove_orphaned_tool_results (tl ms)), ms) \<in> measure length"
    using remove_orphans_length [of None "tl ms"] by (cases ms) (auto simp: remove_orphaned_tool_results_def)
qed simp

declare drop_leading_replies.simps [simp del]

definition truncate_oldest_round :: "chat_message list \<Rightarrow> chat_message list" where
  "truncate_oldest_round ms =
     (if length ms \<le> 1 then ms
      else let removed_user = (role (hd ms) = UserRole); rest = tl ms;
               rest = (if removed_user \<and> length rest > 1 \<and> role (hd rest) = AssistantRole then tl rest else rest)
        in drop_leading_replies (fst (remove_orphaned_tool_results rest)))"

section \<open>Compacting\<close>

definition compaction_request :: "('w, 'z) compaction_setup_scheme \<Rightarrow> chat_message list \<Rightarrow> request" where
  "compaction_request e ms = \<lparr>req_audience = CompactionModel, req_messages = ms, req_system = compaction_system e, req_tools = ''[]''\<rparr>"

definition prepared_history :: "('w, 'z) compaction_setup_scheme \<Rightarrow> string option \<Rightarrow> chat_message list \<Rightarrow> chat_message list" where
  "prepared_history e instr ms =
     strip_old_tool_results (strip_thinking (strip_images (fst (remove_orphaned_tool_results ms)))) @ [user_says (summary_prompt e instr)]"

text \<open>The attempts in order; the source panics where none is left, which is never reached.\<close>

fun compaction_attempts ::
    "('w, 'z) compaction_setup_scheme \<Rightarrow> nat list \<Rightarrow> chat_message list \<Rightarrow> agent_error option \<Rightarrow> ('w, agent_error, response) run" where
  "compaction_attempts e [] ms failed s = (case failed of Some err \<Rightarrow> Some (Inl err, s) | None \<Rightarrow> None)"
| "compaction_attempts e (attempt # later) ms failed s =
     (case stream_with_retry e False (default_retry e) (compaction_request e ms) s of
        None \<Rightarrow> None
      | Some (Inr r, t) \<Rightarrow> Some (Inr r, t)
      | Some (Inl (StreamOther err), t) \<Rightarrow>
          if is_context_overflow err \<and> attempt < 2 then compaction_attempts e later (truncate_oldest_round ms) (Some err) t
          else Some (Inl err, t)
      | Some (Inl se, t) \<Rightarrow> Some (Inl (stream_to_agent_error se), t))"

definition on_history :: "(history \<Rightarrow> history) \<Rightarrow> 'w agent \<Rightarrow> 'w agent" where
  "on_history f s = s\<lparr>hist := f (hist s)\<rparr>"

definition add_message :: "chat_message \<Rightarrow> ('w, 'e, unit) run" where
  "add_message m = update_agent (on_history (push_message m))"

definition finish_compaction :: "('w, 'z) compaction_setup_scheme \<Rightarrow> response \<Rightarrow> ('w, agent_error, token_usage) run" where
  "finish_compaction e r =
     and_then (try_send e False (TurnComplete (resp_message r) (resp_usage r) (standard_cost e (resp_usage r)) (usage_output (resp_usage r)))) (\<lambda>_.
     if first_text_content (resp_message r) = None then raise EmptySummary
     else and_then (ask (next_epoch e)) (\<lambda>ep.
          and_then (update_agent (on_history (replace_compacted ep [user_says ''What did we do so far?'', resp_message r]))) (\<lambda>_.
          give (resp_usage r))))"

definition compact_history :: "('w, 'z) compaction_setup_scheme \<Rightarrow> string option \<Rightarrow> ('w, agent_error, token_usage) run" where
  "compact_history e instr =
     and_then (look (\<lambda>s. as_slice (hist s))) (\<lambda>ms.
     and_then (compaction_attempts e [0, 1, 2] (prepared_history e instr ms) None) (finish_compaction e))"

text \<open>\<open>compact\<close>: the control operation of the host.\<close>

definition compact :: "('w, 'z) compaction_setup_scheme \<Rightarrow> string option \<Rightarrow> ('w, agent_error, unit) run" where
  "compact e instr =
     and_then (compact_history e instr) (\<lambda>usage.
     and_then (case normalize (post_compaction_instructions e) of
         Some post \<Rightarrow> add_message (synthetic post) | None \<Rightarrow> give ()) (\<lambda>_.
     send e (ControlComplete usage)))"

end
