(* ===== verification/Agent_Loop.thy ===== *)
theory Agent_Loop
  imports Agent_Compaction
begin

text \<open>
  The agent's loop (\<^verbatim>\<open>maki-agent/src/agent/run.rs\<close>): one request to the model per round, its tool calls
  (\<^verbatim>\<open>process_tool_calls\<close> of \<^verbatim>\<open>tool_dispatch.rs\<close>), nudges, automatic compaction, queued commands and
  instructions, required output, and the outcome of the whole turn. The tools themselves, the list of
  their definitions and the inbox of the turn are part of the surroundings.
\<close>

section \<open>Setup\<close>

record 'w inbox_ops =
  take_initial :: "'w \<Rightarrow> pending_submission option \<times> 'w"
  drain_presented :: "'w \<Rightarrow> (pending_submission \<times> agent_input) list \<times> 'w"
  take_completions :: "'w \<Rightarrow> chat_message list \<times> 'w"
  finish :: "'w \<Rightarrow> bool \<times> 'w"
  finish_instructions :: "'w \<Rightarrow> bool \<times> 'w"
  close_inbox :: "'w \<Rightarrow> 'w"
  is_managed_child :: "'w \<Rightarrow> bool \<times> 'w"
  join_children :: "'w \<Rightarrow> bool \<times> 'w"
  acknowledge :: "'w \<Rightarrow> 'w"
  has_unsubmitted :: "'w \<Rightarrow> bool \<times> 'w"

record presented_input =
  given :: agent_input
  given_displayed :: bool
  given_notice :: "nat option"

datatype extracted_command =
  Interrupt "agent_input list"
| PresentedInterrupt "presented_input list"
| CompactCommand "string option"

text \<open>A call that races with cancellation answers \<open>None\<close>, or \<open>False\<close>, when cancellation won.\<close>

record 'w agent_setup = "'w compaction_setup" +
  this_agent :: agent_id
  max_turns :: "u32 option"
  max_continuation_turns :: u32
  auto_compact :: bool
  request_retry :: retry_policy
  mode_defined :: bool
  mode_name :: string
  admitted_cwd :: "path option"
  admitted_notice :: "nat option"
  tool_definitions :: "'w \<Rightarrow> json \<times> 'w"
  run_tool :: "string \<Rightarrow> string \<Rightarrow> json \<Rightarrow> 'w \<Rightarrow> (string + tool_done) \<times> 'w"
  hash_input :: "json \<Rightarrow> u64"
  message_of :: "provider_message \<Rightarrow> chat_message"
  system_prompt :: string
  mailbox_drain :: "'w \<Rightarrow> chat_message list \<times> 'w"
  turn_inbox :: "'w inbox_ops option"
  poll_commands :: "('w \<Rightarrow> extracted_command option option \<times> 'w) option"
  user_response :: "('w \<Rightarrow> bool \<times> 'w) option"
  refresh_auth :: "'w \<Rightarrow> agent_error option \<times> 'w"
  completion_check :: "('w \<Rightarrow> (string + string option) \<times> 'w) option"
  completion_exhausted :: "('w \<Rightarrow> string \<times> 'w) option"
  reason_source :: "('w \<Rightarrow> cancel_reason option \<times> 'w) option"
  add_f64 :: "f64 \<Rightarrow> f64 \<Rightarrow> f64"
  defer_outcome :: bool

definition MAX_REAUTH_ATTEMPTS :: u32 where "MAX_REAUTH_ATTEMPTS = 2"
definition MAX_COMPLETION_RECOVERY_ATTEMPTS :: nat where "MAX_COMPLETION_RECOVERY_ATTEMPTS = 2"
definition MAX_NUDGES :: u32 where "MAX_NUDGES = 20"
definition RECENT_TOOL_WINDOW :: nat where "RECENT_TOOL_WINDOW = 5"
definition DOOM_LOOP_THRESHOLD :: nat where "DOOM_LOOP_THRESHOLD = 3"

definition COMPLETION_RECOVERY_EXHAUSTED :: string where
  "COMPLETION_RECOVERY_EXHAUSTED = ''required output recovery exhausted before output was reported''"
definition INSTRUCTION_BUDGET_EXHAUSTED :: string where
  "INSTRUCTION_BUDGET_EXHAUSTED = ''The request budget was exhausted before all accepted instructions reached the provider.''"
definition REQUIRED_OUTPUT_BUDGET_EXHAUSTED :: string where
  "REQUIRED_OUTPUT_BUDGET_EXHAUSTED = ''turn budget exhausted before required output was reported''"
definition LATE_REPORTS_NOTE :: string where
  "LATE_REPORTS_NOTE = ''[system: subagents you started finished after your last answer; their results follow. Reply with your complete final answer, updated with these results.]''"
definition NUDGE_PROMPT :: string where
  "NUDGE_PROMPT = ''You just executed tool calls but returned an empty response. Please process the tool results above and continue with the task.''"
definition CANCELLED_TEXT_NOTE :: string where
  "CANCELLED_TEXT_NOTE = ''[Response cut off by user cancel]''"
definition INTERRUPT_NOTE :: string where
  "INTERRUPT_NOTE = ''The user sent a new message while you were working. Address it and continue.''"
definition NO_ADMITTED_CWD_ERR :: string where
  "NO_ADMITTED_CWD_ERR = ''turn has no admitted working directory''"
definition DOOM_LOOP_MESSAGE :: string where
  "DOOM_LOOP_MESSAGE = ''You have called this tool with identical input 3 times in a row. You are stuck in a loop. Break out and try a different approach.''"

definition nl :: string where "nl = [CHR 0x0A]"

section \<open>Small steps\<close>

definition check_cancelled :: "('w, 'z) surroundings_scheme \<Rightarrow> ('w, agent_error, unit) run" where
  "check_cancelled e = and_then (ask (is_cancelled e)) (\<lambda>c. if c then raise CancelledError else give ())"

definition add_cost :: "(f64 \<Rightarrow> f64 \<Rightarrow> f64) \<Rightarrow> f64 option \<Rightarrow> f64 option \<Rightarrow> f64 option" where
  "add_cost add_to acc c = (case c of None \<Rightarrow> acc
     | Some x \<Rightarrow> Some (add_to (case acc of None \<Rightarrow> 0 | Some t \<Rightarrow> t) x))"

definition ledger_add :: "('w, 'z) agent_setup_scheme \<Rightarrow> audience \<Rightarrow> token_usage \<Rightarrow> 'w agent \<Rightarrow> 'w agent" where
  "ledger_add e who u s = s\<lparr>totals := \<lparr>total_usage = add_usage (total_usage (totals s)) u,
     total_cost = add_cost (add_f64 e) (total_cost (totals s)) (billed_cost e who u),
     total_list_cost = add_cost (add_f64 e) (total_list_cost (totals s)) (list_cost e who u)\<rparr>\<rparr>"

definition invalidate_reports :: "'w agent \<Rightarrow> 'w agent" where
  "invalidate_reports s = s\<lparr>captured := None\<rparr>"

definition instruction_consumed :: "'w agent \<Rightarrow> 'w agent" where
  "instruction_consumed s = invalidate_reports (s\<lparr>pending_request := True\<rparr>)"

definition push_input_context :: "('w, 'z) agent_setup_scheme \<Rightarrow> provider_message list \<Rightarrow> ('w, 'e, unit) run" where
  "push_input_context e pre =
     and_then (each (\<lambda>p. add_message (message_of e p)) pre) (\<lambda>_.
     and_then (ask (mailbox_drain e)) (each add_message))"

definition startup_notice :: "nat \<Rightarrow> string" where
  "startup_notice n = ''[system: '' @ show_u64 (of_nat n) @ '' MCP servers are not ready; MCP tools are unavailable for this turn]''"

definition append_notice :: "nat option \<Rightarrow> string \<Rightarrow> chat_message \<Rightarrow> chat_message" where
  "append_notice unready shown m = (case unready of None \<Rightarrow> m
     | Some n \<Rightarrow> m\<lparr>content := content m @ [TextBlock (startup_notice n)], display_text := Some (shown @ nl @ startup_notice n)\<rparr>)"

definition interrupt_message :: "presented_input \<Rightarrow> chat_message" where
  "interrupt_message p =
     (let inp = given p;
          wrapped = ''<user-interrupt>'' @ nl @ INTERRUPT_NOTE @ nl @ nl @ message inp @ nl @ ''</user-interrupt>'';
          shown = (if message inp = [] \<and> images inp \<noteq> [] then IMAGE_PLACEHOLDER else message inp)
      in append_notice (given_notice p) shown ((user_with_images wrapped (images inp))\<lparr>display_text := Some shown\<rparr>))"

fun consume_inputs :: "('w, 'z) agent_setup_scheme \<Rightarrow> presented_input list \<Rightarrow> bool \<Rightarrow> ('w, agent_error, unit) run" where
  "consume_inputs e [] failed = (if failed then raise Channel else give ())"
| "consume_inputs e (p # ps) failed =
     and_then (update_agent instruction_consumed) (\<lambda>_.
     and_then (try_send e True (QueueItemConsumed (message (given p)) (images (given p)) (given_notice p) (given_displayed p))) (\<lambda>ok.
     and_then (push_input_context e (preamble (given p))) (\<lambda>_.
     and_then (add_message (interrupt_message p)) (\<lambda>_.
     consume_inputs e ps (failed \<or> \<not> ok)))))"

definition presented :: "pending_submission \<times> agent_input \<Rightarrow> presented_input" where
  "presented pi = \<lparr>given = snd pi, given_displayed = already_displayed (fst pi), given_notice = sub_notice (fst pi)\<rparr>"

definition consume_instruction_inbox :: "('w, 'z) agent_setup_scheme \<Rightarrow> ('w, agent_error, bool) run" where
  "consume_instruction_inbox e = (case turn_inbox e of
     None \<Rightarrow> give False
   | Some b \<Rightarrow>
       and_then (ask (drain_presented b)) (\<lambda>ins.
       and_then (consume_inputs e (map presented ins) False) (\<lambda>_. give (ins \<noteq> []))))"

definition consume_turn_inbox :: "('w, 'z) agent_setup_scheme \<Rightarrow> ('w, agent_error, unit) run" where
  "consume_turn_inbox e =
     and_then (consume_instruction_inbox e) (\<lambda>_.
     case turn_inbox e of None \<Rightarrow> give ()
     | Some b \<Rightarrow> and_then (ask (take_completions b)) (each add_message))"

definition request_tools :: "('w, 'z) agent_setup_scheme \<Rightarrow> ('w, agent_error, json) run" where
  "request_tools e =
     (if \<not> mode_defined e then raise (ConfigError (''mode '' @ [CHR 0x27] @ mode_name e @ [CHR 0x27] @ '' is not defined''))
      else if admitted_cwd e = None then raise (ConfigError NO_ADMITTED_CWD_ERR)
      else ask (tool_definitions e))"

section \<open>Tool calls\<close>

definition is_doom_loop :: "(json \<Rightarrow> u64) \<Rightarrow> (string \<times> u64) list \<Rightarrow> string \<Rightarrow> json \<Rightarrow> bool" where
  "is_doom_loop hash recent name inp \<longleftrightarrow>
     length recent \<ge> DOOM_LOOP_THRESHOLD - 1 \<and>
     list_all (\<lambda>c. c = (name, hash inp)) (take (DOOM_LOOP_THRESHOLD - 1) (rev recent))"

definition record_call :: "(json \<Rightarrow> u64) \<Rightarrow> string \<Rightarrow> json \<Rightarrow> (string \<times> u64) list \<Rightarrow> (string \<times> u64) list" where
  "record_call hash name inp recent =
     (let r = recent @ [(name, hash inp)] in if length r > DOOM_LOOP_THRESHOLD then tl r else r)"

definition tool_error :: "string \<Rightarrow> string \<Rightarrow> tool_done" where
  "tool_error i msg = \<lparr>done_id = i, done_tool = ''unknown'', done_text = msg, done_image = None, done_error = True\<rparr>"

text \<open>The calls that may run and the refusals of the others, in order.\<close>

fun split_calls :: "(json \<Rightarrow> u64) \<Rightarrow> (string \<times> u64) list \<Rightarrow> (string \<times> string \<times> json) list
    \<Rightarrow> (string \<times> string \<times> json) list \<times> tool_done list \<times> (string \<times> u64) list" where
  "split_calls hash recent [] = ([], [], recent)"
| "split_calls hash recent ((i, name, inp) # calls) =
     (let (runnable, refused, r) = split_calls hash (record_call hash name inp recent) calls
      in if is_doom_loop hash recent name inp then (runnable, tool_error i DOOM_LOOP_MESSAGE # refused, r)
         else ((i, name, inp) # runnable, refused, r))"

text \<open>One tool task; a panic becomes an error result under the call's id.\<close>

definition tool_task :: "('w, 'z) agent_setup_scheme \<Rightarrow> string \<times> string \<times> json \<Rightarrow> ('w, 'e, tool_done) run" where
  "tool_task e call = (case call of (i, name, inp) \<Rightarrow>
     and_then (ask (run_tool e i name inp)) (\<lambda>r. case r of
       Inr d \<Rightarrow> and_then (try_send e True (ToolDone d)) (\<lambda>_. give d)
     | Inl panic \<Rightarrow> give (tool_error i (''internal error: tool panicked: '' @ panic))))"

fun collect :: "('x \<Rightarrow> ('w, 'e, 'a) run) \<Rightarrow> 'x list \<Rightarrow> ('w, 'e, 'a list) run" where
  "collect f [] = give []"
| "collect f (x # xs) = and_then (f x) (\<lambda>y. and_then (collect f xs) (\<lambda>ys. give (y # ys)))"

definition tool_results :: "tool_done list \<Rightarrow> chat_message" where
  "tool_results ds = plain_message UserRole
     (map (\<lambda>d. ToolResult (done_id d) (done_text d) (done_error d)) ds @ map ImageBlock (List.map_filter done_image ds))"

text \<open>The tasks run concurrently and are joined in the order they were started; the world may change
  in any way during each, so running them one after the other loses no outcome.\<close>

definition process_tool_calls :: "('w, 'z) agent_setup_scheme \<Rightarrow> response \<Rightarrow> ('w, agent_error, unit) run" where
  "process_tool_calls e r =
     (if admitted_cwd e = None then raise (ConfigError NO_ADMITTED_CWD_ERR)
      else and_then (add_message (resp_message r)) (\<lambda>_.
        and_then (look recent_calls) (\<lambda>recent.
        case split_calls (hash_input e) recent (tool_uses (resp_message r)) of (runnable, refused, recent') \<Rightarrow>
        and_then (update_agent (\<lambda>s. s\<lparr>recent_calls := recent'\<rparr>)) (\<lambda>_.
        and_then (each (\<lambda>d. and_then (try_send e True (ToolDone d)) (\<lambda>_. give ())) refused) (\<lambda>_.
        and_then (collect (tool_task e) runnable) (\<lambda>results.
        let msg = tool_results (results @ refused) in
        and_then (send e (ToolResultsSubmitted msg)) (\<lambda>_. add_message msg)))))))"

section \<open>One round\<close>

datatype turn_progress = Continue | Done done_reason

fun done_reason_of :: "stop_reason option \<Rightarrow> done_reason" where
  "done_reason_of (Some StopMaxTokens) = MaxTokens"
| "done_reason_of _ = EndTurn"

definition CHARS_PER_TOKEN :: nat where "CHARS_PER_TOKEN = 4"

fun block_bytes :: "content_block \<Rightarrow> nat" where
  "block_bytes (TextBlock t) = length t"
| "block_bytes (ToolResult _ t _) = length t"
| "block_bytes (ToolUse _ _ inp _) = length inp"
| "block_bytes (ThinkingBlock t _) = length t"
| "block_bytes _ = 0"

definition estimate_message_tokens :: "chat_message list \<Rightarrow> u32" where
  "estimate_message_tokens ms = (if ms = [] then 0
     else of_nat (max (sum_list (map block_bytes (concat (map content ms)))) CHARS_PER_TOKEN div CHARS_PER_TOKEN))"

definition emit_turn_complete :: "('w, 'z) agent_setup_scheme \<Rightarrow> response \<Rightarrow> ('w, agent_error, unit) run" where
  "emit_turn_complete e r =
     and_then (update_agent (ledger_add e MainModel (resp_usage r))) (\<lambda>_.
     and_then (look context_size) (\<lambda>c.
     send e (TurnComplete (resp_message r) (resp_usage r) (billed_cost e MainModel (resp_usage r)) c)))"

definition recover_stalled_turn :: "('w, 'z) agent_setup_scheme \<Rightarrow> ('w, agent_error, bool) run" where
  "recover_stalled_turn e =
     and_then (look (\<lambda>s. recent_nudges (hist s) < MAX_NUDGES \<and> has_recent_tool_results RECENT_TOOL_WINDOW (hist s))) (\<lambda>nudge.
     and_then (add_message empty_marker) (\<lambda>_.
     if \<not> nudge then give False
     else and_then (send e Nudge) (\<lambda>_.
          and_then (add_message (synthetic NUDGE_PROMPT)) (\<lambda>_. give True))))"

definition wait_for_reauth :: "('w, 'z) agent_setup_scheme \<Rightarrow> agent_error \<Rightarrow> ('w, agent_error, turn_progress) run" where
  "wait_for_reauth e err =
     and_then (look reauth_attempts) (\<lambda>n.
     if n \<ge> MAX_REAUTH_ATTEMPTS then raise err
     else case user_response e of
       None \<Rightarrow> raise err
     | Some answer \<Rightarrow>
         and_then (update_agent (\<lambda>s. s\<lparr>reauth_attempts := n + 1\<rparr>)) (\<lambda>_.
         and_then (send e AuthRequired) (\<lambda>_.
         and_then (ask answer) (\<lambda>answered.
         if \<not> answered then raise CancelledError
         else and_then (ask (refresh_auth e)) (\<lambda>r. case r of None \<Rightarrow> give Continue | Some err' \<Rightarrow> raise err')))))"

definition do_compact :: "('w, 'z) agent_setup_scheme \<Rightarrow> string option \<Rightarrow> ('w, agent_error, unit) run" where
  "do_compact e instr =
     and_then (look context_size) (\<lambda>held.
     and_then (compact_history e instr) (\<lambda>usage.
     and_then (update_agent (\<lambda>s. (ledger_add e CompactionModel usage s)\<lparr>context_size := usage_output usage,
        rollback_len := message_count (hist s)\<rparr>)) (\<lambda>_.
     and_then (send e (CompactionDone held (usage_output usage))) (\<lambda>_.
     add_message (synthetic (continue_message e))))))"

definition try_auto_compact :: "('w, 'z) agent_setup_scheme \<Rightarrow> ('w, agent_error, bool) run" where
  "try_auto_compact e =
     and_then (look context_size) (\<lambda>size.
     if \<not> auto_compact e \<or> \<not> is_overflow e (no_usage\<lparr>usage_input := size\<rparr>) then give False
     else and_then (send e (AutoCompacting size)) (\<lambda>_. and_then (do_compact e None) (\<lambda>_. give True)))"

definition handle_queued_command :: "('w, 'z) agent_setup_scheme \<Rightarrow> ('w, agent_error, bool) run" where
  "handle_queued_command e = (case poll_commands e of
     None \<Rightarrow> give False
   | Some poll \<Rightarrow> and_then (ask poll) (\<lambda>r. case r of
       None \<Rightarrow> raise CancelledError
     | Some None \<Rightarrow> give False
     | Some (Some cmd) \<Rightarrow>
         and_then (case cmd of
             Interrupt ins \<Rightarrow> consume_inputs e (map (\<lambda>i. \<lparr>given = i, given_displayed = True, given_notice = None\<rparr>) ins) False
           | PresentedInterrupt ps \<Rightarrow> consume_inputs e ps False
           | CompactCommand instr \<Rightarrow> do_compact e instr) (\<lambda>_. give True)))"

definition keep_cut_off_text :: "string \<Rightarrow> ('w, 'e, unit) run" where
  "keep_cut_off_text streamed = (let t = trim_end streamed in
     if t = [] then give ()
     else add_message (plain_message AssistantRole [TextBlock (t @ nl @ nl @ CANCELLED_TEXT_NOTE)]))"

definition turn_request :: "('w, 'z) agent_setup_scheme \<Rightarrow> json \<Rightarrow> 'w agent \<Rightarrow> request" where
  "turn_request e tools s = \<lparr>req_audience = MainModel, req_messages = as_slice (hist s), req_system = system_prompt e, req_tools = tools\<rparr>"

definition after_calls :: "('w, 'z) agent_setup_scheme \<Rightarrow> response \<Rightarrow> ('w, agent_error, unit) run" where
  "after_calls e r =
     and_then (look (\<lambda>s. message_count (hist s))) (\<lambda>held.
     and_then (process_tool_calls e r) (\<lambda>_.
     update_agent (\<lambda>s. s\<lparr>context_size := context_size s + estimate_message_tokens (drop held (as_slice (hist s)))\<rparr>)))"

text \<open>What is left of a round once its response was booked: \<open>True\<close> when the response asks for another
  round already.\<close>

definition digest_response :: "('w, 'z) agent_setup_scheme \<Rightarrow> response \<Rightarrow> ('w, agent_error, bool) run" where
  "digest_response e r =
     (if has_tool_calls (resp_message r) then and_then (after_calls e r) (\<lambda>_. give False)
      else and_then (if first_text_content (resp_message r) \<noteq> None
          then and_then (add_message (resp_message r)) (\<lambda>_. give False) else recover_stalled_turn e) (\<lambda>stalled.
        if stalled then give True
        else and_then (look num_turns) (\<lambda>n.
          give (resp_stop r = Some StopMaxTokens \<and> n \<le> max_continuation_turns e))))"

definition settle_round :: "('w, 'z) agent_setup_scheme \<Rightarrow> response \<Rightarrow> ('w, agent_error, turn_progress) run" where
  "settle_round e r =
     and_then (update_agent (\<lambda>s. s\<lparr>num_turns := num_turns s + 1, context_size := total_input (resp_usage r)\<rparr>)) (\<lambda>_.
     and_then (emit_turn_complete e r) (\<lambda>_.
     and_then (digest_response e r) (\<lambda>again.
     if again then give Continue
     else and_then (try_auto_compact e) (\<lambda>compacted.
          and_then (if compacted then give True else handle_queued_command e) (\<lambda>more.
          give (if more \<or> has_tool_calls (resp_message r) then Continue else Done (done_reason_of (resp_stop r))))))))"

definition agent_round :: "('w, 'z) agent_setup_scheme \<Rightarrow> ('w, agent_error, turn_progress) run" where
  "agent_round e =
     and_then (check_cancelled e) (\<lambda>_.
     and_then (consume_turn_inbox e) (\<lambda>_.
     and_then (update_agent (\<lambda>s. s\<lparr>pending_request := False\<rparr>)) (\<lambda>_.
     and_then (request_tools e) (\<lambda>tools.
     and_then (update_agent (\<lambda>s. case turn_inbox e of None \<Rightarrow> s | Some b \<Rightarrow> s\<lparr>world := acknowledge b (world s)\<rparr>)) (\<lambda>_ s.
     case stream_with_retry e True (request_retry e) (turn_request e tools s) s of
       None \<Rightarrow> None
     | Some (Inr r, t) \<Rightarrow> settle_round e r (t\<lparr>reauth_attempts := 0\<rparr>)
     | Some (Inl (StreamCancelled streamed), t) \<Rightarrow> and_then (keep_cut_off_text streamed) (\<lambda>_. raise CancelledError) t
     | Some (Inl (StreamOther err), t) \<Rightarrow> if is_auth_error err then wait_for_reauth e err t else Some (Inl err, t))))))"

section \<open>The loop\<close>

definition completion_exhaustion :: "('w, 'z) agent_setup_scheme \<Rightarrow> string \<Rightarrow> ('w, agent_error, 'a) run" where
  "completion_exhaustion e fallback = (case completion_exhausted e of
     None \<Rightarrow> raise (ConfigError fallback)
   | Some text \<Rightarrow> and_then (ask text) (\<lambda>t. raise (ConfigError t)))"

definition budget_spent :: "('w, 'z) agent_setup_scheme \<Rightarrow> 'w agent \<Rightarrow> bool" where
  "budget_spent e s \<longleftrightarrow> (case max_turns e of None \<Rightarrow> False | Some m \<Rightarrow> num_turns s \<ge> m)"

definition check_output :: "('w, 'z) agent_setup_scheme \<Rightarrow> ('w, agent_error, string option) run" where
  "check_output e = (case completion_check e of
     None \<Rightarrow> give None
   | Some check \<Rightarrow> and_then (ask check) (\<lambda>r. case r of Inl m \<Rightarrow> raise (ConfigError m) | Inr missing \<Rightarrow> give missing))"

definition instructions_left :: "('w, 'z) agent_setup_scheme \<Rightarrow> ('w, 'e, bool) run" where
  "instructions_left e = and_then (look pending_request) (\<lambda>p. if p then give True
     else case turn_inbox e of None \<Rightarrow> give False
     | Some b \<Rightarrow> and_then (ask (finish_instructions b)) (\<lambda>ok. if \<not> ok then give True else ask (has_unsubmitted b)))"

definition end_of_budget :: "('w, 'z) agent_setup_scheme \<Rightarrow> ('w, agent_error, done_reason) run" where
  "end_of_budget e =
     and_then (instructions_left e) (\<lambda>left.
     if left then raise (ConfigError INSTRUCTION_BUDGET_EXHAUSTED)
     else and_then (check_output e) (\<lambda>missing.
       if missing = None then give MaxTurns else completion_exhaustion e REQUIRED_OUTPUT_BUDGET_EXHAUSTED))"

text \<open>The loop goes on with the number of recovery attempts spent, or stops with a reason.\<close>

datatype loop_step = Again nat | Stop done_reason

definition recover_output :: "('w, 'z) agent_setup_scheme \<Rightarrow> nat \<Rightarrow> string \<Rightarrow> ('w, agent_error, loop_step) run" where
  "recover_output e tries text =
     and_then (look (budget_spent e)) (\<lambda>spent.
     if spent then completion_exhaustion e REQUIRED_OUTPUT_BUDGET_EXHAUSTED
     else if tries \<ge> MAX_COMPLETION_RECOVERY_ATTEMPTS then completion_exhaustion e COMPLETION_RECOVERY_EXHAUSTED
     else and_then (add_message (user_says text)) (\<lambda>_. give (Again (tries + 1))))"

definition finish_with_children :: "('w, 'z) agent_setup_scheme \<Rightarrow> nat \<Rightarrow> done_reason \<Rightarrow> 'w inbox_ops \<Rightarrow> ('w, agent_error, loop_step) run" where
  "finish_with_children e tries reason b =
     and_then (ask (join_children b)) (\<lambda>joined.
     if \<not> joined then raise CancelledError
     else and_then (ask (finish b)) (\<lambda>finished.
       if finished then give (Stop reason)
       else and_then (look (budget_spent e)) (\<lambda>spent.
         and_then (if spent then ask (finish_instructions b) else give False) (\<lambda>closed.
         if closed then give (Stop reason)
         else and_then (ask (is_managed_child b)) (\<lambda>child.
           and_then (if child then ask (has_unsubmitted b) else give True) (\<lambda>waiting.
           if waiting then give (Again tries)
           else and_then (update_agent invalidate_reports) (\<lambda>_.
             and_then (add_message (user_says LATE_REPORTS_NOTE)) (\<lambda>_. give (Again tries)))))))))"

definition after_done :: "('w, 'z) agent_setup_scheme \<Rightarrow> nat \<Rightarrow> done_reason \<Rightarrow> ('w, agent_error, loop_step) run" where
  "after_done e tries reason =
     and_then (check_cancelled e) (\<lambda>_.
     and_then (consume_instruction_inbox e) (\<lambda>consumed.
     if consumed then give (Again tries)
     else and_then (case turn_inbox e of None \<Rightarrow> give False | Some b \<Rightarrow> ask (has_unsubmitted b)) (\<lambda>waiting.
       if waiting then give (Again tries)
       else and_then (check_output e) (\<lambda>missing. case missing of
           Some text \<Rightarrow> recover_output e tries text
         | None \<Rightarrow> (case turn_inbox e of None \<Rightarrow> give (Stop reason) | Some b \<Rightarrow> finish_with_children e tries reason b)))))"

definition loop_body :: "('w, 'z) agent_setup_scheme \<Rightarrow> nat \<Rightarrow> ('w, agent_error, loop_step) run" where
  "loop_body e tries =
     and_then (check_cancelled e) (\<lambda>_.
     and_then (look (budget_spent e)) (\<lambda>spent.
     if spent then and_then (end_of_budget e) (\<lambda>r. give (Stop r))
     else and_then (agent_round e) (\<lambda>p. case p of Continue \<Rightarrow> give (Again tries) | Done reason \<Rightarrow> after_done e tries reason)))"

partial_function (option) run_loop :: "('w, 'z) agent_setup_scheme \<Rightarrow> nat \<Rightarrow> ('w, agent_error, done_reason) run" where
  "run_loop e tries s = Option.bind (loop_body e tries s) (\<lambda>(r, t). case r of
     Inl err \<Rightarrow> Some (Inl err, t) | Inr (Stop reason) \<Rightarrow> Some (Inr reason, t) | Inr (Again n) \<Rightarrow> run_loop e n t)"

lemma run_loop_code [code]: "run_loop e tries s = (case loop_body e tries s of None \<Rightarrow> None | Some (r, t) \<Rightarrow>
    (case r of Inl err \<Rightarrow> Some (Inl err, t) | Inr (Stop reason) \<Rightarrow> Some (Inr reason, t) | Inr (Again n) \<Rightarrow> run_loop e n t))"
  by (subst run_loop.simps) (auto split: option.split)

section \<open>A whole turn\<close>

definition start_run :: "'w agent \<Rightarrow> 'w agent" where
  "start_run s = s\<lparr>num_turns := 0, reauth_attempts := 0, rollback_len := message_count (hist s),
     totals := \<lparr>total_usage = no_usage, total_cost = None, total_list_cost = None\<rparr>\<rparr>"

definition present_submission :: "('w, 'z) agent_setup_scheme \<Rightarrow> ('w, 'e, unit) run" where
  "present_submission e = (case turn_inbox e of
     None \<Rightarrow> give ()
   | Some b \<Rightarrow> and_then (ask (take_initial b)) (\<lambda>sub. case sub of
       None \<Rightarrow> give ()
     | Some p \<Rightarrow> and_then (try_send e True (QueueItemConsumed (sub_text p) (sub_images p) (sub_notice p) (already_displayed p))) (\<lambda>_. give ())))"

definition input_message :: "('w, 'z) agent_setup_scheme \<Rightarrow> agent_input \<Rightarrow> chat_message" where
  "input_message e inp = append_notice (admitted_notice e) (if message inp = [] then IMAGE_PLACEHOLDER else message inp)
     (user_with_images (message inp) (images inp))"

definition take_input :: "('w, 'z) agent_setup_scheme \<Rightarrow> agent_input \<Rightarrow> ('w, 'e, unit) run" where
  "take_input e inp =
     and_then (push_input_context e (preamble inp)) (\<lambda>_.
     and_then (present_submission e) (\<lambda>_.
     if \<not> is_blank (message inp) \<or> images inp \<noteq> [] then add_message (input_message e inp) else give ()))"

definition terminal_outcome :: "('w, 'z) agent_setup_scheme \<Rightarrow> turn_id \<Rightarrow> (agent_error + done_reason) \<Rightarrow> 'w agent \<Rightarrow> (turn_outcome \<times> 'w agent) option" where
  "terminal_outcome e t result s =
     (let usage = total_usage (totals s); n = num_turns s; cost = total_cost (totals s); lc = total_list_cost (totals s);
          size = context_size s; window = context_window e
      in case result of
           Inr reason \<Rightarrow> Some (Completed (this_agent e) t usage n reason cost lc size window, s)
         | Inl err \<Rightarrow>
             if err = CancelledError then
               (let s1 = on_history (sanitize_cancelled_history (rollback_len s)) s;
                    (reason, w) = (case reason_source e of None \<Rightarrow> (User, world s1)
                      | Some source \<Rightarrow> (case source (world s1) of (r, w) \<Rightarrow> (case r of None \<Rightarrow> Interrupted | Some x \<Rightarrow> x, w)))
                in Some (Cancelled (this_agent e) t usage n reason cost lc size window, s1\<lparr>world := w\<rparr>))
             else map_option (\<lambda>f. (Failed (this_agent e) t usage n f cost lc size window, s)) (from_agent_error err))"

definition run_turn :: "('w, 'z) agent_setup_scheme \<Rightarrow> turn_id \<Rightarrow> agent_input \<Rightarrow> 'w agent \<Rightarrow> (turn_outcome \<times> 'w agent) option" where
  "run_turn e t inp s =
     (case and_then (take_input e inp) (\<lambda>_. run_loop e 0) (start_run s) of
        None \<Rightarrow> None
      | Some (result, u) \<Rightarrow>
          (let v = (case turn_inbox e of None \<Rightarrow> u | Some b \<Rightarrow> u\<lparr>world := close_inbox b (world u)\<rparr>)
           in map_option (\<lambda>(out, x). (out, if defer_outcome e then x else snd (emit_event e True (TurnOutcomeEvent out) x)))
                (terminal_outcome e t result v)))"

end
