(* ===== verification/Agent_Run_Laws.thy ===== *)
theory Agent_Run_Laws
  imports Agent_Loop
begin

text \<open>
  Rules for runs of the agent. \<open>keeps I J m\<close> says that a run \<open>m\<close> started in a state with \<open>I\<close> ends in a
  state with \<open>I\<close>, or with \<open>J\<close> when it ends in an error; \<open>ends m\<close> that it returns. Both have one rule per
  combinator, collected in \<open>keeps_intros\<close> and \<open>ends_intros\<close>.
\<close>

named_theorems keeps_intros
named_theorems ends_intros

definition keeps :: "('w agent \<Rightarrow> bool) \<Rightarrow> ('w agent \<Rightarrow> bool) \<Rightarrow> ('w, 'e, 'a) run \<Rightarrow> bool" where
  "keeps I J m \<longleftrightarrow> (\<forall>s r t. I s \<longrightarrow> m s = Some (r, t) \<longrightarrow> (case r of Inr _ \<Rightarrow> I t | Inl _ \<Rightarrow> J t))"

definition ends :: "('w, 'e, 'a) run \<Rightarrow> bool" where
  "ends m \<longleftrightarrow> (\<forall>s. m s \<noteq> None)"

lemma keepsI: "(\<And>s x t. I s \<Longrightarrow> m s = Some (Inr x, t) \<Longrightarrow> I t) \<Longrightarrow> (\<And>s e t. I s \<Longrightarrow> m s = Some (Inl e, t) \<Longrightarrow> J t) \<Longrightarrow> keeps I J m"
  by (auto simp: keeps_def split: sum.split)

lemma keepsD:
  assumes "keeps I J m" "I s"
  shows "m s = Some (Inr x, t) \<Longrightarrow> I t" "m s = Some (Inl e, t) \<Longrightarrow> J t"
  using assms unfolding keeps_def by (metis sum.simps(6), metis sum.simps(5))

lemma and_then_simps:
  "m s = None \<Longrightarrow> and_then m f s = None" "m s = Some (Inl e, t) \<Longrightarrow> and_then m f s = Some (Inl e, t)"
  "m s = Some (Inr x, t) \<Longrightarrow> and_then m f s = f x t"
  by (simp_all add: and_then_def)

lemma run_cases: obtains "m s = None" | e t where "m s = Some (Inl e, t)" | x t where "m s = Some (Inr x, t)"
proof (cases "m s")
  case (Some p)
  then show thesis using that by (cases p, cases "fst p") auto
qed (use that in simp)

lemma and_then_Inr: "and_then m f s = Some (Inr y, u) \<longleftrightarrow> (\<exists>x t. m s = Some (Inr x, t) \<and> f x t = Some (Inr y, u))"
  by (rule run_cases [of m s]) (simp_all add: and_then_simps)

lemma and_then_Inl: "and_then m f s = Some (Inl err, u) \<longleftrightarrow>
   m s = Some (Inl err, u) \<or> (\<exists>x t. m s = Some (Inr x, t) \<and> f x t = Some (Inl err, u))"
  by (rule run_cases [of m s]) (simp_all add: and_then_simps)

lemma keeps_give [keeps_intros]: "keeps I J (give x)"
  by (simp add: keeps_def give_def)

lemma keeps_raise [keeps_intros]: "(\<And>s. I s \<Longrightarrow> J s) \<Longrightarrow> keeps I J (raise x)"
  by (simp add: keeps_def raise_def)

lemma keeps_look [keeps_intros]: "keeps I J (look f)"
  by (simp add: keeps_def look_def)

lemma keeps_update [keeps_intros]: "(\<And>s. I s \<Longrightarrow> I (f s)) \<Longrightarrow> keeps I J (update_agent f)"
  by (simp add: keeps_def update_agent_def)

lemma keeps_and_then [keeps_intros]: "keeps I J m \<Longrightarrow> (\<And>x. keeps I J (f x)) \<Longrightarrow> keeps I J (and_then m f)"
  by (rule keepsI) (auto simp: and_then_Inr and_then_Inl dest: keepsD)

lemma keeps_each [keeps_intros]: "(\<And>x. x \<in> set xs \<Longrightarrow> keeps I J (f x)) \<Longrightarrow> keeps I J (each f xs)"
  by (induction xs) (auto intro!: keeps_intros)

lemma keeps_collect [keeps_intros]: "(\<And>x. x \<in> set xs \<Longrightarrow> keeps I J (f x)) \<Longrightarrow> keeps I J (collect f xs)"
  by (induction xs) (auto intro!: keeps_intros)

lemma ends_basic [ends_intros]: "ends (give x)" "ends (raise e)" "ends (look f)" "ends (update_agent g)" "ends (ask q)"
  by (simp_all add: ends_def give_def raise_def look_def update_agent_def ask_def)

lemma ends_and_then [ends_intros]: "ends m \<Longrightarrow> (\<And>x. ends (f x)) \<Longrightarrow> ends (and_then m f)"
  unfolding ends_def by (metis and_then_simps(2,3) not_None_eq run_cases)

lemma ends_each [ends_intros]: "(\<And>x. ends (f x)) \<Longrightarrow> ends (each f xs)"
  by (induction xs) (auto intro!: ends_intros)

lemma ends_collect [ends_intros]: "(\<And>x. ends (f x)) \<Longrightarrow> ends (collect f xs)"
  by (induction xs) (auto intro!: ends_intros)

section \<open>Sending and streaming\<close>

text \<open>What is outside the agent: sending and streaming change the world and the turn's output, and nothing
  else of the agent.\<close>

definition outside_only :: "'w agent \<Rightarrow> 'w agent \<Rightarrow> bool" where
  "outside_only s t \<longleftrightarrow> (\<exists>w st. t = s\<lparr>out_stream := st, world := w\<rparr>)"

lemma outside_update: "outside_only s (s\<lparr>out_stream := st, world := w\<rparr>)" "outside_only s (s\<lparr>world := w\<rparr>)"
  "outside_only s (s\<lparr>out_stream := st\<rparr>)" "outside_only s s"
proof -
  show *: "outside_only s (s\<lparr>out_stream := st, world := w\<rparr>)" for st w by (auto simp: outside_only_def)
  show "outside_only s (s\<lparr>world := w\<rparr>)" using * [where st = "out_stream s" and w = w] by simp
  show "outside_only s (s\<lparr>out_stream := st\<rparr>)" using * [where st = st and w = "world s"] by simp
  show "outside_only s s" using * [where st = "out_stream s" and w = "world s"] by simp
qed

lemma outside_trans: "outside_only s t \<Longrightarrow> outside_only t u \<Longrightarrow> outside_only s u"
  unfolding outside_only_def by (elim exE) (simp, blast)

lemma outside_same:
  assumes "outside_only s t"
  shows "hist t = hist s" "num_turns t = num_turns s" "context_size t = context_size s" "reauth_attempts t = reauth_attempts s"
    "pending_request t = pending_request s" "recent_calls t = recent_calls s" "rollback_len t = rollback_len s" "totals t = totals s"
    "captured t = captured s"
  using assms by (auto simp: outside_only_def)

lemma outside_emit: "outside_only s (snd (emit_event e out ev s))"
  by (simp add: emit_event_def with_stream_def Let_def case_prod_beta outside_update)

lemma outside_with_stream: "outside_only s (with_stream out f s)"
  by (simp add: with_stream_def outside_update)

lemma outside_forward: "outside_only s (snd (forward e out pes acc s))"
proof (induction e out pes acc s rule: forward.induct)
  case (2 e out pe pes acc s)
  obtain ok t where em: "emit_event e out (event_of pe) s = (ok, t)" by fastforce
  then have t: "outside_only s t" using outside_emit [of s e out "event_of pe"] by simp
  show ?case
  proof (cases "\<not> ok \<and> (\<not> out \<or> out_stream s = None)")
    case True
    then show ?thesis using em t by (auto simp: Let_def)
  next
    case False
    then show ?thesis using em 2 [OF refl em [symmetric] refl False] outside_trans [OF t] by (auto simp: Let_def)
  qed
qed (simp add: outside_update)

lemma outside_attempt:
  assumes "attempt_request e out rq s = (result, streamed, t)"
  shows "outside_only s t"
proof -
  let ?s = "s\<lparr>world := snd (stream_message e rq (world s))\<rparr>"
  have "t = snd (forward e out (snd (fst (stream_message e rq (world s)))) [] ?s)"
    using assms by (auto simp: attempt_request_def Let_def case_prod_beta)
  then show ?thesis using outside_trans [OF outside_update(2) outside_forward] by simp
qed

lemma outside_wait: "outside_only s (snd (wait_to_retry e out ev d retry s))"
  using outside_trans [OF outside_emit outside_update(2)] outside_emit
  by (auto simp: wait_to_retry_def Let_def case_prod_beta)

lemma stream_round_cases:
  assumes "stream_round e out rq n retry s = (step, t)"
  obtains (accepted) r streamed u where "attempt_request e out rq s = (Inr r, streamed, u)"
      "step = StreamEnd (Inr (fst (accept_response out r u)))" "t = snd (accept_response out r u)"
  | (cut_off) streamed where "attempt_request e out rq s = (Inl CancelledError, streamed, t)" "step = StreamEnd (Inl (StreamCancelled streamed))"
  | (failed) err streamed u w where "attempt_request e out rq s = (Inl err, streamed, u)" "err \<noteq> CancelledError"
      "book_failure e err retry (world u) = (None, w)" "step = StreamEnd (Inl (StreamOther err))" "t = u\<lparr>world := w\<rparr>"
  | (waited) err streamed u w d retry' where "attempt_request e out rq s = (Inl err, streamed, u)" "err \<noteq> CancelledError"
      "book_failure e err retry (world u) = (Some (d, retry'), w)"
      "wait_to_retry e out (RetryEvent (n + 1) (retry_message err) (as_millis d mod 2 ^ 64)) d retry' (u\<lparr>world := w\<rparr>) = (step, t)"
proof -
  obtain result streamed u where at: "attempt_request e out rq s = (result, streamed, u)" by (cases "attempt_request e out rq s") auto
  note eq = assms [unfolded stream_round_def at Let_def prod.case]
  show thesis
  proof (cases result)
    case (Inr r)
    then show thesis using accepted at eq by (simp add: case_prod_beta)
  next
    case (Inl err)
    show thesis
    proof (cases "err = CancelledError")
      case True
      then show thesis using cut_off at eq Inl by simp
    next
      case other: False
      obtain booked w where b: "book_failure e err retry (world u) = (booked, w)" by fastforce
      show thesis
      proof (cases booked)
        case None
        show thesis by (rule failed [OF at [unfolded Inl] other b [unfolded None]]) (use eq Inl other b None in auto)
      next
        case (Some p)
        obtain d r where p: "p = (d, r)" by fastforce
        show thesis by (rule waited [OF at [unfolded Inl] other b [unfolded Some p]]) (use eq Inl other b Some p in simp)
      qed
    qed
  qed
qed

lemma outside_round:
  assumes "stream_round e out rq n retry s = (step, t)"
  shows "outside_only s t"
  using assms
proof (cases rule: stream_round_cases)
  case (accepted r streamed u)
  then have "outside_only u t" by (simp add: accept_response_def Let_def outside_with_stream)
  then show ?thesis by (rule outside_trans [OF outside_attempt [OF accepted(1)]])
next
  case (cut_off streamed)
  show ?thesis by (rule outside_attempt [OF cut_off(1)])
next
  case (failed err streamed u w)
  then show ?thesis using outside_trans [OF outside_attempt [OF failed(1)] outside_update(2)] by simp
next
  case (waited err streamed u w d retry')
  have "outside_only (u\<lparr>world := w\<rparr>) t" using outside_wait waited(4) by (metis snd_conv)
  then show ?thesis by (rule outside_trans [OF outside_trans [OF outside_attempt [OF waited(1)] outside_update(2)]])
qed

lemma stream_loop_induct [consumes 1, case_names stop again]:
  assumes "stream_loop e out rq n retry s = Some y"
    and stop: "\<And>n retry s r t. stream_round e out rq n retry s = (StreamEnd r, t) \<Longrightarrow> P n retry s (r, t)"
    and again: "\<And>n retry s r' t y. stream_round e out rq n retry s = (StreamAgain r', t) \<Longrightarrow> P (n + 1) r' t y \<Longrightarrow> P n retry s y"
  shows "P n retry s y"
proof -
  have "e = e \<longrightarrow> out = out \<longrightarrow> rq = rq \<longrightarrow> P n retry s y"
  proof (rule stream_loop.raw_induct [where P = "\<lambda>e' out' rq' n retry s y. e' = e \<longrightarrow> out' = out \<longrightarrow> rq' = rq \<longrightarrow> P n retry s y", OF _ assms(1)])
    fix loop e' out' rq' n retry s y
    assume ih: "\<And>e' out' rq' n retry s y. loop e' out' rq' n retry s = Some y \<Longrightarrow> e' = e \<longrightarrow> out' = out \<longrightarrow> rq' = rq \<longrightarrow> P n retry s y"
      and r: "(case stream_round e' out' rq' n retry s of (step, t) \<Rightarrow>
        case step of StreamEnd r \<Rightarrow> Some (r, t) | StreamAgain retry' \<Rightarrow> loop e' out' rq' (n + 1) retry' t) = Some y"
    show "e' = e \<longrightarrow> out' = out \<longrightarrow> rq' = rq \<longrightarrow> P n retry s y"
    proof (intro impI)
      assume eqs: "e' = e" "out' = out" "rq' = rq"
      obtain step t where sr: "stream_round e out rq n retry s = (step, t)" by fastforce
      show "P n retry s y"
      proof (cases step)
        case (StreamEnd x)
        then show ?thesis using r stop [OF sr [unfolded StreamEnd]] by (simp add: eqs sr)
      next
        case (StreamAgain r')
        then have "loop e out rq (n + 1) r' t = Some y" using r by (simp add: eqs sr)
        then have "P (n + 1) r' t y" using ih by blast
        then show ?thesis by (rule again [OF sr [unfolded StreamAgain]])
      qed
    qed
  qed
  then show ?thesis by simp
qed

lemma outside_stream_loop: "stream_loop e out rq n retry s = Some y \<Longrightarrow> outside_only s (snd y)"
  by (induction rule: stream_loop_induct) (auto dest: outside_round outside_trans)

lemma outside_stream: "stream_with_retry e out policy rq s = Some (r, t) \<Longrightarrow> outside_only s t"
  using outside_trans [OF outside_trans [OF outside_update(2) outside_with_stream] outside_stream_loop]
  by (fastforce simp: stream_with_retry_def Let_def case_prod_beta)

text \<open>An invariant that does not look outside.\<close>

definition inner :: "('w agent \<Rightarrow> bool) \<Rightarrow> bool" where
  "inner I \<longleftrightarrow> (\<forall>s t. outside_only s t \<longrightarrow> I s \<longrightarrow> I t)"

lemma innerI: "(\<And>s w st. I s \<Longrightarrow> I (s\<lparr>out_stream := st, world := w\<rparr>)) \<Longrightarrow> inner I"
  by (auto simp: inner_def outside_only_def)

lemma keeps_ask [keeps_intros]: "inner I \<Longrightarrow> keeps I J (ask q)"
  by (auto simp: keeps_def ask_def inner_def intro: outside_update)

lemma keeps_try_send [keeps_intros]: "inner I \<Longrightarrow> keeps I J (try_send e out ev)"
  using outside_emit by (fastforce simp: keeps_def try_send_def case_prod_beta Let_def inner_def)

lemma keeps_send [keeps_intros]: "inner I \<Longrightarrow> (\<And>s. I s \<Longrightarrow> J s) \<Longrightarrow> keeps I J (send e ev)"
  unfolding send_def by (auto intro!: keeps_intros)

lemma ends_try_send [ends_intros]: "ends (try_send e out ev)"
  by (simp add: ends_def try_send_def case_prod_beta Let_def)

lemma ends_send [ends_intros]: "ends (send e ev)"
  unfolding send_def by (auto intro!: ends_intros)

end
