(* ===== verification/Loop_Laws.thy ===== *)
theory Loop_Laws
  imports Agent_Run_Laws
begin

text \<open>
  Laws of the agent's loop. The locale \<open>conversation\<close> is the interface between the loop and a property
  of the history: what each message the loop may add does to it; the loop then keeps the property in
  every turn. Calls that are answered and a mirror that is up to date are two instances.
\<close>

lemma and_thenE:
  assumes "and_then m f s = Some (Inr y, u)"
  obtains x t where "m s = Some (Inr x, t)" "f x t = Some (Inr y, u)"
  using assms by (auto simp: and_then_Inr)

lemma and_then_failE:
  assumes "and_then m f s = Some (Inl err, u)"
  obtains "m s = Some (Inl err, u)" | x t where "m s = Some (Inr x, t)" "f x t = Some (Inl err, u)"
  using assms by (auto simp: and_then_Inl)

section \<open>Replies and tool results\<close>

definition replies_are :: "('w, 'z) surroundings_scheme \<Rightarrow> audience \<Rightarrow> (chat_message \<Rightarrow> bool) \<Rightarrow> bool" where
  "replies_are e a Q \<longleftrightarrow> (\<forall>rq w r. req_audience rq = a \<longrightarrow> fst (fst (stream_message e rq w)) = Inr r \<longrightarrow>
     Q (canonicalize_tool_names (resp_message r)))"

definition outside_messages :: "('w, 'z) agent_setup_scheme \<Rightarrow> (chat_message \<Rightarrow> bool) \<Rightarrow> bool" where
  "outside_messages e Q \<longleftrightarrow> (\<forall>p. Q (message_of e p)) \<and> (\<forall>w. \<forall>m \<in> set (fst (mailbox_drain e w)). Q m)
     \<and> (\<forall>b w. turn_inbox e = Some b \<longrightarrow> (\<forall>m \<in> set (fst (take_completions b w)). Q m))"

definition honest_tools :: "('w, 'z) agent_setup_scheme \<Rightarrow> bool" where
  "honest_tools e \<longleftrightarrow> (\<forall>i name inp w d. fst (run_tool e i name inp w) = Inr d \<longrightarrow> done_id d = i)"

lemma stream_loop_reply:
  "stream_loop e out rq n retry s = Some y \<Longrightarrow> replies_are e (req_audience rq) Q \<Longrightarrow> (case fst y of Inl _ \<Rightarrow> True | Inr r \<Rightarrow> Q (resp_message r))"
proof (induction rule: stream_loop_induct)
  case (stop n retry s r t)
  then show ?case
  proof (cases rule: stream_round_cases)
    case (accepted r' streamed u)
    then have "fst (fst (stream_message e rq (world s))) = Inr r'" by (auto simp: attempt_request_def Let_def case_prod_beta)
    then show ?thesis using stop accepted by (auto simp: replies_are_def accept_response_def Let_def)
  qed (auto simp: wait_to_retry_def Let_def case_prod_beta split: if_splits)
qed

lemma stream_reply:
  assumes "stream_with_retry e out p rq s = Some (Inr r, t)" "replies_are e (req_audience rq) Q"
  shows "Q (resp_message r)"
proof -
  obtain ms w where ad: "adapt_images e (req_audience rq) (req_messages rq) (world s) = (ms, w)" by fastforce
  have "stream_loop e out (rq\<lparr>req_messages := ms\<rparr>) 0 (new_retry p (case key_count e of None \<Rightarrow> 1 | Some n \<Rightarrow> n))
      (with_stream out begin_text_attempt (s\<lparr>world := w\<rparr>)) = Some (Inr r, t)"
    using assms(1) by (simp add: stream_with_retry_def ad)
  from stream_loop_reply [OF this, of Q] assms(2) show ?thesis by simp
qed

lemma split_calls_ids:
  "split_calls h recent calls = (runnable, refused, r) \<Longrightarrow> mset (map fst runnable) + mset (map done_id refused) = mset (map fst calls)"
  by (induction h recent calls arbitrary: runnable refused r rule: split_calls.induct)
    (auto simp: Let_def tool_error_def split: prod.splits if_splits)

lemma tool_task_id:
  assumes "honest_tools e" "tool_task e call s = Some (Inr d, t)"
  shows "done_id d = fst call" "outside_only s t"
proof -
  obtain i name inp where c: "call = (i, name, inp)" by (cases call) auto
  let ?r = "run_tool e i name inp (world s)"
  have "done_id d = i \<and> outside_only s t"
  proof (cases "fst ?r")
    case (Inl p)
    then show ?thesis using assms(2) by (auto simp: c tool_task_def and_then_def ask_def give_def tool_error_def outside_update)
  next
    case (Inr d')
    then have "d = d' \<and> t = snd (emit_event e True (ToolDone d') (s\<lparr>world := snd ?r\<rparr>))"
      using assms(2) by (auto simp: c tool_task_def and_then_def ask_def give_def try_send_def Let_def case_prod_beta)
    then show ?thesis using Inr assms(1) outside_trans [OF outside_update(2) outside_emit] by (auto simp: honest_tools_def)
  qed
  then show "done_id d = fst call" "outside_only s t" by (simp_all add: c)
qed

lemma collect_ids:
  assumes "honest_tools e"
  shows "(collect (tool_task e) calls :: ('w, 'e, tool_done list) run) s = Some (Inr ds, t) \<Longrightarrow> map done_id ds = map fst calls \<and> outside_only s t"
proof (induction calls arbitrary: s ds)
  case (Cons c calls)
  from Cons.prems obtain d u where d: "(tool_task e c :: ('w, 'e, tool_done) run) s = Some (Inr d, u)"
    and r: "(and_then (collect (tool_task e) calls) (\<lambda>ys. give (d # ys)) :: ('w, 'e, tool_done list) run) u = Some (Inr ds, t)"
    unfolding collect.simps by (rule and_thenE)
  from r obtain ds' where "(collect (tool_task e) calls :: ('w, 'e, tool_done list) run) u = Some (Inr ds', t)" "ds = d # ds'"
    by (rule and_thenE) (simp add: give_def)
  note step = d this
  then show ?case using Cons.IH [OF step(2)] tool_task_id [OF assms step(1)] outside_trans by auto
qed (simp add: give_def outside_update)

lemma tool_results_simps [simp]: "results_of (tool_results ds) = map done_id ds" "role (tool_results ds) = UserRole"
  "call_ids (tool_results ds) = []"
  by (auto simp: tool_results_def plain_message_def results_of_def call_ids_def tool_uses_def filter_map o_def filter_empty_conv)

lemma no_tools_notice [simp]: "no_tools (append_notice n t m) \<longleftrightarrow> no_tools m"
  by (cases n) (simp_all add: append_notice_def no_tools_def results_of_def call_ids_def tool_uses_def)

lemma no_tools_inputs [simp]: "no_tools (interrupt_message p)" "no_tools (input_message e inp)"
proof -
  have "no_tools (m\<lparr>display_text := d\<rparr>) \<longleftrightarrow> no_tools m" for m :: chat_message and d
    by (simp add: no_tools_def results_of_def call_ids_def tool_uses_def)
  then show "no_tools (interrupt_message p)" by (simp add: interrupt_message_def Let_def)
qed (simp add: input_message_def)

lemma no_tools_text [simp]: "no_tools (plain_message r [TextBlock t])"
  by (simp add: no_tools_def plain_message_def results_of_def call_ids_def tool_uses_def)

lemma content_simps [simp]: "content (user_says t) \<noteq> []" "content (synthetic t) \<noteq> []" "content empty_marker \<noteq> []"
  "content (plain_message r bs) = bs" "content (interrupt_message p) \<noteq> []"
  by (simp_all add: user_says_def synthetic_def empty_marker_def plain_message_def interrupt_message_def append_notice_def Let_def
    user_with_images_def split: option.split)

lemma content_input: "\<not> is_blank (message inp) \<or> images inp \<noteq> [] \<Longrightarrow> content (input_message e inp) \<noteq> []"
  by (cases "message inp") (auto simp: input_message_def append_notice_def user_with_images_def is_blank_def trim_def space_length_def skip_spaces.simps [of "[]"] split: option.split)

lemma has_calls: "has_tool_calls m \<longleftrightarrow> call_ids m \<noteq> []"
  by (auto simp: call_ids_def tool_uses_def has_tool_calls_def list_ex_iff filter_empty_conv)

section \<open>What a run keeps of the history\<close>

lemma keeps_asked:
  assumes "inner I" "\<And>w. keeps I J (f (fst (q w)))"
  shows "keeps I J (and_then (ask q) f)"
proof -
  have "I (s\<lparr>world := w\<rparr>)" if "I s" for s w using assms(1) that outside_update(2) [of s w] unfolding inner_def by blast
  then show ?thesis using assms(2) by (fastforce simp: keeps_def and_then_def ask_def)
qed

lemma run_loop_induct [consumes 1, case_names err stop again]:
  assumes "run_loop e tries s = Some y"
    and err: "\<And>tries s x t. loop_body e tries s = Some (Inl x, t) \<Longrightarrow> P tries s (Inl x, t)"
    and stop: "\<And>tries s r t. loop_body e tries s = Some (Inr (Stop r), t) \<Longrightarrow> P tries s (Inr r, t)"
    and again: "\<And>tries s n t y. loop_body e tries s = Some (Inr (Again n), t) \<Longrightarrow> run_loop e n t = Some y \<Longrightarrow> P n t y \<Longrightarrow> P tries s y"
  shows "P tries s y"
proof -
  have "e = e \<longrightarrow> run_loop e tries s = Some y \<and> P tries s y"
  proof (rule run_loop.raw_induct [where P = "\<lambda>e' tries s y. e' = e \<longrightarrow> run_loop e tries s = Some y \<and> P tries s y", OF _ assms(1)], rule impI)
    fix loop e' tries s y
    assume ih: "\<And>e' tries s y. loop e' tries s = Some y \<Longrightarrow> e' = e \<longrightarrow> run_loop e tries s = Some y \<and> P tries s y"
      and r: "Option.bind (loop_body e' tries s) (\<lambda>(r, t). case r of
        Inl err \<Rightarrow> Some (Inl err, t) | Inr (Stop reason) \<Rightarrow> Some (Inr reason, t) | Inr (Again n) \<Rightarrow> loop e' n t) = Some y" and e: "e' = e"
    show "run_loop e tries s = Some y \<and> P tries s y"
    proof (cases rule: run_cases [of "loop_body e tries" s])
      case (3 step t)
      show ?thesis
      proof (cases step)
        case (Again n)
        then have "loop e n t = Some y" using r e 3 by simp
        then have *: "run_loop e n t = Some y \<and> P n t y" using ih by blast
        then have "P tries s y" using again [OF 3 [unfolded Again]] by blast
        then show ?thesis using * 3 Again by (subst run_loop.simps) simp
      next
        case (Stop reason)
        then have "y = (Inr reason, t)" using r e 3 by simp
        then show ?thesis using stop [OF 3 [unfolded Stop]] 3 Stop by (subst run_loop.simps) simp
      qed
    next
      case (2 x t)
      then have "y = (Inl x, t)" using r e by simp
      then show ?thesis using err [OF 2] 2 by (subst run_loop.simps) simp
    qed (use r e in simp)
  qed
  then show ?thesis by simp
qed

lemma keeps_run_loop:
  assumes "\<And>tries. keeps I J (loop_body e tries)"
  shows "keeps I J (run_loop e tries)"
proof -
  have *: "run_loop e tries s = Some y \<Longrightarrow> I s \<longrightarrow> (case fst y of Inr _ \<Rightarrow> I (snd y) | Inl _ \<Rightarrow> J (snd y))" for tries s y
    by (induction rule: run_loop_induct) (use keepsD [OF assms] in auto)
  have "I s \<Longrightarrow> run_loop e tries s = Some (r, t) \<Longrightarrow> case r of Inr _ \<Rightarrow> I t | Inl _ \<Rightarrow> J t" for s r t
    using * [of tries s "(r, t)"] by (cases r) simp_all
  then show ?thesis unfolding keeps_def by auto
qed

definition suits :: "('w, 'z) agent_setup_scheme \<Rightarrow> (chat_message \<Rightarrow> bool) \<Rightarrow> (chat_message \<Rightarrow> bool) \<Rightarrow> bool" where
  "suits e fine reply \<longleftrightarrow> outside_messages e fine \<and> replies_are e MainModel reply \<and> replies_are e CompactionModel fine \<and> honest_tools e"

lemma suitsD:
  assumes "suits e fine reply"
  shows "outside_messages e fine" "replies_are e MainModel reply" "replies_are e CompactionModel fine" "honest_tools e"
  using assms by (simp_all add: suits_def)

locale conversation =
  fixes P R :: "history \<Rightarrow> bool"
    and fine :: "chat_message \<Rightarrow> bool"
    and reply :: "chat_message \<Rightarrow> bool"
  assumes weaken: "P h \<Longrightarrow> R h"
    and adds: "P h \<Longrightarrow> fine m \<Longrightarrow> P (push_message m h)"
    and replied: "P h \<Longrightarrow> reply m \<Longrightarrow> R (push_message m h)"
    and answers: "P h \<Longrightarrow> reply m \<Longrightarrow> call_ids m \<noteq> [] \<Longrightarrow> role m' = UserRole \<Longrightarrow> mset (results_of m') = mset (call_ids m) \<Longrightarrow> call_ids m' = [] \<Longrightarrow>
        P (push_message m' (push_message m h))"
    and compacts: "P h \<Longrightarrow> fine m \<Longrightarrow> P (replace_compacted ep [user_says t, m] h)"
    and plain: "no_tools m \<Longrightarrow> content m \<noteq> [] \<Longrightarrow> fine m"
    and silent: "reply m \<Longrightarrow> call_ids m = [] \<Longrightarrow> fine m"
begin

abbreviation I :: "'w agent \<Rightarrow> bool" where
  "I s \<equiv> P (hist s) \<and> rollback_len s \<le> message_count (hist s)"

abbreviation J :: "'w agent \<Rightarrow> bool" where
  "J s \<equiv> R (hist s) \<and> (P (hist s) \<or> rollback_len s < message_count (hist s))"

lemma inner_I: "inner I"
  by (rule innerI) simp

lemma keeps_add [keeps_intros]: "fine m \<Longrightarrow> keeps I J (add_message m)"
  unfolding add_message_def by (rule keeps_update) (simp add: on_history_def adds)

lemma keeps_context:
  fixes e :: "('w, 'z) agent_setup_scheme"
  assumes e: "suits e fine reply"
  shows "keeps I J (push_input_context e pre)"
  using suitsD(1) [OF e] unfolding push_input_context_def outside_messages_def
  by (intro keeps_and_then keeps_each keeps_asked inner_I keeps_add) auto

lemma keeps_inputs:
  fixes e :: "('w, 'z) agent_setup_scheme"
  assumes e: "suits e fine reply"
  shows "keeps I J (consume_inputs e ps failed)"
proof (induction ps arbitrary: failed)
  case (Cons p ps)
  show ?case unfolding consume_inputs.simps
    by (intro keeps_and_then keeps_update keeps_try_send inner_I keeps_context [OF e] keeps_add Cons plain no_tools_inputs content_simps)
      (simp add: instruction_consumed_def invalidate_reports_def)
qed (auto intro!: keeps_intros weaken)

lemma keeps_inbox:
  fixes e :: "('w, 'z) agent_setup_scheme"
  assumes e: "suits e fine reply"
  shows "keeps I J (consume_instruction_inbox e)" "keeps I J (consume_turn_inbox e)"
proof -
  show *: "keeps I J (consume_instruction_inbox e)"
    unfolding consume_instruction_inbox_def
    by (cases "turn_inbox e") (auto intro!: keeps_intros inner_I keeps_inputs [OF e])
  show "keeps I J (consume_turn_inbox e)"
  proof (cases "turn_inbox e")
    case (Some b)
    then have "keeps I J (and_then (ask (take_completions b)) (each add_message) :: ('w, agent_error, unit) run)"
      using suitsD(1) [OF e] by (intro keeps_asked inner_I keeps_each keeps_add) (auto simp: outside_messages_def)
    then show ?thesis using Some * by (auto simp: consume_turn_inbox_def intro!: keeps_and_then)
  qed (use * in \<open>auto simp: consume_turn_inbox_def intro!: keeps_intros\<close>)
qed

lemma keeps_take_input:
  fixes e :: "('w, 'z) agent_setup_scheme"
  assumes e: "suits e fine reply"
  shows "keeps I J (take_input e inp)"
  unfolding take_input_def present_submission_def
  by (auto intro!: keeps_intros inner_I keeps_context [OF e] keeps_add plain simp: content_input split: option.splits)

lemma hist_stream: "stream_with_retry e out p rq s = Some (r, t) \<Longrightarrow> hist t = hist s \<and> rollback_len t = rollback_len s"
  using outside_same(1,7) outside_stream by metis

text \<open>Compaction replaces the history before the length to roll back to is set anew, and cannot fail
  in between.\<close>

lemma finish_compaction_kept:
  fixes e :: "('w, 'z) agent_setup_scheme" and s :: "'w agent"
  assumes "fine (resp_message r)" "I s" "finish_compaction e r s = Some (x, t)"
  shows "case x of Inr _ \<Rightarrow> P (hist t) | Inl _ \<Rightarrow> J t"
proof -
  obtain ok u where u: "(try_send e False (TurnComplete (resp_message r) (resp_usage r) (standard_cost e (resp_usage r))
      (usage_output (resp_usage r))) :: ('w, agent_error, bool) run) s = Some (Inr ok, u)" "I u"
    using assms(2) by (simp add: try_send_def case_prod_beta Let_def outside_same(1,7) [OF outside_emit])
  show ?thesis
  proof (cases "first_text_content (resp_message r) = None")
    case True
    then show ?thesis using assms(3) u weaken by (auto simp: finish_compaction_def and_then_simps raise_def)
  next
    case False
    then show ?thesis using assms(1,3) u
      by (auto simp: finish_compaction_def and_then_simps ask_def update_agent_def give_def on_history_def and_then_def compacts)
  qed
qed

lemma compaction_attempts_hist:
  fixes e :: "('w, 'z) agent_setup_scheme"
  assumes e: "suits e fine reply"
  shows "compaction_attempts e left ms failed s = Some (r, t) \<Longrightarrow> hist t = hist s \<and> rollback_len t = rollback_len s \<and> (case r of Inr x \<Rightarrow> fine (resp_message x) | Inl _ \<Rightarrow> True)"
proof (induction left arbitrary: ms failed s)
  case (Cons n left)
  obtain q u where st: "stream_with_retry e False (default_retry e) (compaction_request e ms) s = Some (q, u)"
    using Cons.prems by (auto split: option.splits)
  show ?case
  proof (cases q)
    case (Inr x)
    have "fine (resp_message x)"
      using stream_reply [OF st [unfolded Inr], of fine] suitsD(3) [OF e] by (simp add: compaction_request_def)
    moreover have "r = Inr x" "t = u" using Cons.prems st Inr by auto
    ultimately show ?thesis using hist_stream [OF st] by simp
  next
    case (Inl err)
    then show ?thesis using Cons st hist_stream [OF st] by (cases err) (auto split: if_splits)
  qed
qed (auto split: option.splits)

lemma compact_kept:
  fixes e :: "('w, 'z) agent_setup_scheme"
  assumes e: "suits e fine reply" and i: "I s" and c: "compact_history e instr s = Some (x, t)"
  shows "case x of Inr _ \<Rightarrow> P (hist t) | Inl _ \<Rightarrow> J t"
proof -
  have run: "and_then (compaction_attempts e [0, 1, 2] (prepared_history e instr (as_slice (hist s))) None) (finish_compaction e) s = Some (x, t)"
    using c by (simp add: compact_history_def and_then_def look_def)
  show ?thesis
  proof (cases rule: run_cases [of "compaction_attempts e [0, 1, 2] (prepared_history e instr (as_slice (hist s))) None" s])
    case (2 err u)
    then show ?thesis using run compaction_attempts_hist [OF e 2] i weaken by (auto simp: and_then_simps)
  next
    case (3 r u)
    then have "finish_compaction e r u = Some (x, t)" using run by (simp add: and_then_simps)
    then show ?thesis using compaction_attempts_hist [OF e 3] i by (intro finish_compaction_kept) auto
  qed (use run in \<open>simp add: and_then_simps\<close>)
qed

lemma keeps_compact:
  fixes e :: "('w, 'z) agent_setup_scheme"
  assumes e: "suits e fine reply"
  shows "keeps I J (do_compact e instr)"
proof -
  let ?u = "\<lambda>usage. update_agent (\<lambda>s. (ledger_add e CompactionModel usage s)\<lparr>context_size := usage_output usage,
        rollback_len := message_count (hist s)\<rparr>) :: ('w, agent_error, unit) run"
  have set: "I t" if "P (hist s)" "?u usage s = Some (Inr y, t)" for s t usage and y :: unit
    using that by (auto simp: update_agent_def ledger_add_def)
  have rest: "keeps I J (and_then (send e (CompactionDone before n)) (\<lambda>_. add_message (synthetic (continue_message e))))" for before n
    by (intro keeps_and_then keeps_send inner_I keeps_add plain no_tools_simps content_simps) (simp add: weaken)
  let ?m = "\<lambda>before. and_then (compact_history e instr) (\<lambda>usage. and_then (?u usage) (\<lambda>_.
     and_then (send e (CompactionDone before (usage_output usage))) (\<lambda>_. add_message (synthetic (continue_message e)))))"
  have "keeps I J (?m before)" for before
  proof (rule keepsI)
    fix s x t assume i: "I s" and m: "?m before s = Some (Inr x, t)"
    from m obtain usage u where c: "compact_history e instr s = Some (Inr usage, u)"
      and "and_then (?u usage) (\<lambda>_. and_then (send e (CompactionDone before (usage_output usage))) (\<lambda>_. add_message (synthetic (continue_message e)))) u = Some (Inr x, t)"
      by (rule and_thenE)
    from this(2) obtain y v where u: "?u usage u = Some (Inr y, v)"
      and m: "and_then (send e (CompactionDone before (usage_output usage))) (\<lambda>_. add_message (synthetic (continue_message e))) v = Some (Inr x, t)"
      by (rule and_thenE)
    show "I t" by (rule keepsD(1) [OF rest set [OF _ u] m]) (use compact_kept [OF e i c] in simp)
  next
    fix s x t assume i: "I s" and "?m before s = Some (Inl x, t)"
    from this(2) show "J t"
    proof (rule and_then_failE)
      assume "compact_history e instr s = Some (Inl x, t)"
      from compact_kept [OF e i this] show "J t" by simp
    next
      fix usage u
      assume c: "compact_history e instr s = Some (Inr usage, u)"
        and "and_then (?u usage) (\<lambda>_. and_then (send e (CompactionDone before (usage_output usage))) (\<lambda>_. add_message (synthetic (continue_message e)))) u = Some (Inl x, t)"
      from this(2) show "J t"
      proof (rule and_then_failE)
        fix y v assume u: "?u usage u = Some (Inr y, v)"
          and m: "and_then (send e (CompactionDone before (usage_output usage))) (\<lambda>_. add_message (synthetic (continue_message e))) v = Some (Inl x, t)"
        show "J t" by (rule keepsD(2) [OF rest set [OF _ u] m]) (use compact_kept [OF e i c] in simp)
      qed (simp add: update_agent_def)
    qed
  qed
  then show ?thesis unfolding do_compact_def by (rule keeps_and_then [OF keeps_look])
qed

lemma process_calls_hist:
  fixes e :: "('w, 'z) agent_setup_scheme"
  assumes "process_tool_calls e r s = Some (x, t)" "reply (resp_message r)" "I s" "call_ids (resp_message r) \<noteq> []" and e: "suits e fine reply"
  shows "case x of Inr _ \<Rightarrow> I t | Inl _ \<Rightarrow> J t"
proof (cases "admitted_cwd e = None")
  case False
  obtain runnable refused recent' where split: "split_calls (hash_input e) (recent_calls s) (tool_uses (resp_message r)) = (runnable, refused, recent')"
    by (cases "split_calls (hash_input e) (recent_calls s) (tool_uses (resp_message r))") auto
  define pushed where "pushed = push_message (resp_message r) (hist s)"
  let ?K = "\<lambda>u. hist u = pushed \<and> rollback_len u < message_count pushed" and ?s = "(on_history (push_message (resp_message r)) s)\<lparr>recent_calls := recent'\<rparr>"
  let ?post = "each (\<lambda>d. and_then (try_send e True (ToolDone d)) (\<lambda>_. give ())) refused :: ('w, agent_error, unit) run"
  let ?rest = "and_then (collect (tool_task e) runnable) (\<lambda>ds. and_then (send e (ToolResultsSubmitted (tool_results (ds @ refused))))
     (\<lambda>_. add_message (tool_results (ds @ refused)))) :: ('w, agent_error, unit) run"
  have run: "and_then ?post (\<lambda>_. ?rest) ?s = Some (x, t)"
    using assms(1) False split by (simp add: process_tool_calls_def and_then_def add_message_def update_agent_def look_def Let_def on_history_def)
  have K: "?K ?s" using assms(3) by (simp add: on_history_def pushed_def)
  have kept: "keeps ?K ?K (and_then (try_send e True ev) (\<lambda>_. give ()) :: ('w, agent_error, unit) run)"
    "keeps ?K ?K (tool_task e c :: ('w, agent_error, tool_done) run)" "keeps ?K ?K (send e ev)" for ev c
    unfolding tool_task_def by (auto intro!: keeps_intros innerI split: prod.splits sum.splits)
  have post: "keeps ?K ?K ?post" by (rule keeps_each) (rule kept(1))
  have tasks: "keeps ?K ?K (collect (tool_task e) runnable :: ('w, agent_error, tool_done list) run)" by (rule keeps_collect) (rule kept(2))
  show ?thesis
  proof (cases x)
    case (Inl err)
    have "keeps ?K ?K (send e ev :: ('w, agent_error, unit) run)" for ev by (rule kept(3))
    from run [unfolded Inl] have "?K t"
    proof (elim and_then_failE)
      fix y u assume "add_message (tool_results y) u = Some (Inl err, t)"
      then show "?K t" by (simp add: add_message_def update_agent_def)
    qed (use K keepsD [OF post] keepsD [OF tasks] keepsD [OF kept(3)] in blast)+
    then show ?thesis using Inl replied [OF _ assms(2)] assms(3) by (simp add: pushed_def)
  next
    case (Inr y)
    from run [unfolded Inr] obtain q u where u: "?post ?s = Some (Inr q, u)" "?rest u = Some (Inr y, t)" by (rule and_thenE)
    from u(2) obtain ds v where v: "(collect (tool_task e) runnable :: ('w, agent_error, tool_done list) run) u = Some (Inr ds, v)"
      and v': "and_then (send e (ToolResultsSubmitted (tool_results (ds @ refused)))) (\<lambda>_. add_message (tool_results (ds @ refused))) v = Some (Inr y, t)"
      by (rule and_thenE)
    from v' obtain q' w where w: "send e (ToolResultsSubmitted (tool_results (ds @ refused))) v = Some (Inr q', w)"
      "(add_message (tool_results (ds @ refused)) :: ('w, agent_error, unit) run) w = Some (Inr y, t)" by (rule and_thenE)
    have "?K w" using keepsD(1) [OF kept(3) _ w(1)] keepsD(1) [OF tasks _ v] keepsD(1) [OF post K u(1)] by blast
    then have t: "hist t = push_message (tool_results (ds @ refused)) pushed" "rollback_len t < message_count pushed"
      using w(2) by (auto simp: add_message_def update_agent_def on_history_def)
    have "mset (map done_id (ds @ refused)) = mset (call_ids (resp_message r))"
      using split_calls_ids [OF split] collect_ids [OF suitsD(4) [OF e] v] by (simp add: call_ids_def)
    then show ?thesis using Inr t assms(2-4) by (auto simp: pushed_def answers)
  qed
qed (use assms in \<open>auto simp: process_tool_calls_def raise_def weaken\<close>)

lemma keeps_digest:
  fixes e :: "('w, 'z) agent_setup_scheme"
  assumes "reply (resp_message r)" and e: "suits e fine reply"
  shows "keeps I J (digest_response e r)"
proof -
  have "keeps I J (process_tool_calls e r)" if "has_tool_calls (resp_message r)"
    by (rule keepsI) (use process_calls_hist [OF _ assms(1) _ _ e] that in \<open>fastforce simp: has_calls\<close>)+
  note calls = this
  have "keeps I J (after_calls e r)" if "has_tool_calls (resp_message r)" unfolding after_calls_def
    by (intro keeps_and_then keeps_look calls that keeps_update) simp
  moreover have "keeps I J (recover_stalled_turn e)" unfolding recover_stalled_turn_def
    by (auto intro!: keeps_intros inner_I weaken plain)
  moreover have "fine (resp_message r)" if "\<not> has_tool_calls (resp_message r)"
    using silent [OF assms(1)] that by (simp add: has_calls)
  ultimately show ?thesis unfolding digest_response_def by (auto intro!: keeps_intros)
qed

lemma keeps_auto_compact:
  fixes e :: "('w, 'z) agent_setup_scheme"
  assumes e: "suits e fine reply"
  shows "keeps I J (try_auto_compact e)"
  unfolding try_auto_compact_def by (auto intro!: keeps_intros inner_I weaken keeps_compact [OF e])

lemma keeps_command:
  fixes e :: "('w, 'z) agent_setup_scheme"
  assumes e: "suits e fine reply"
  shows "keeps I J (handle_queued_command e)"
proof -
  have "keeps I J (case cmd of Interrupt ins \<Rightarrow> consume_inputs e (map (\<lambda>i. \<lparr>given = i, given_displayed = True, given_notice = None\<rparr>) ins) False
      | PresentedInterrupt ps \<Rightarrow> consume_inputs e ps False | CompactCommand instr \<Rightarrow> do_compact e instr)" for cmd
    by (cases cmd) (simp_all add: keeps_inputs [OF e] keeps_compact [OF e])
  then have "keeps I J (case r of None \<Rightarrow> raise CancelledError | Some None \<Rightarrow> give False
      | Some (Some cmd) \<Rightarrow> and_then (case cmd of Interrupt ins \<Rightarrow> consume_inputs e (map (\<lambda>i. \<lparr>given = i, given_displayed = True, given_notice = None\<rparr>) ins) False
        | PresentedInterrupt ps \<Rightarrow> consume_inputs e ps False | CompactCommand instr \<Rightarrow> do_compact e instr) (\<lambda>_. give True))" for r
    by (cases r; cases "the r") (auto intro!: keeps_intros weaken)
  then show ?thesis unfolding handle_queued_command_def
    by (cases "poll_commands e") (auto intro!: keeps_and_then keeps_ask keeps_give inner_I)
qed

lemma keeps_settle:
  fixes e :: "('w, 'z) agent_setup_scheme"
  assumes e: "suits e fine reply" and r: "reply (resp_message r)"
  shows "keeps I J (settle_round e r)"
  unfolding settle_round_def emit_turn_complete_def
  by (auto intro!: keeps_intros inner_I weaken keeps_digest [OF r e] keeps_auto_compact [OF e] keeps_command [OF e] simp: ledger_add_def)

lemma keeps_reauth: "keeps I J (wait_for_reauth e err)"
  unfolding wait_for_reauth_def by (auto intro!: keeps_intros inner_I weaken split: option.split)

lemma keeps_round:
  fixes e :: "('w, 'z) agent_setup_scheme"
  assumes e: "suits e fine reply"
  shows "keeps I J (agent_round e)"
proof -
  have request: "keeps I J (\<lambda>s. case stream_with_retry e True (request_retry e) (turn_request e tools s) s of
       None \<Rightarrow> None
     | Some (Inr r, t) \<Rightarrow> settle_round e r (t\<lparr>reauth_attempts := 0\<rparr>)
     | Some (Inl (StreamCancelled streamed), t) \<Rightarrow> and_then (keep_cut_off_text streamed) (\<lambda>_. raise CancelledError) t
     | Some (Inl (StreamOther err), t) \<Rightarrow> if is_auth_error err then wait_for_reauth e err t else Some (Inl err, t))" (is "keeps I J ?m") for tools
    unfolding keeps_def
  proof (intro allI impI)
    fix s x u assume i: "I s" and m: "?m s = Some (x, u)"
    then obtain q t where st: "stream_with_retry e True (request_retry e) (turn_request e tools s) s = Some (q, t)"
      by (auto split: option.splits)
    have t: "I t" "I (t\<lparr>reauth_attempts := 0\<rparr>)" using i hist_stream [OF st] by simp_all
    show "case x of Inr _ \<Rightarrow> I u | Inl _ \<Rightarrow> J u"
    proof (cases q)
      case (Inr r)
      have "reply (resp_message r)"
        using stream_reply [OF st [unfolded Inr], of reply] suitsD(2) [OF e] by (simp add: turn_request_def)
      then show ?thesis using keepsD [OF keeps_settle [OF e \<open>reply (resp_message r)\<close>] t(2)] m st Inr by (cases x) auto
    next
      case (Inl se)
      show ?thesis
      proof (cases se)
        case (StreamCancelled streamed)
        have "keeps I J (and_then (keep_cut_off_text streamed) (\<lambda>_. raise CancelledError) :: ('w, agent_error, turn_progress) run)"
          unfolding keep_cut_off_text_def Let_def by (auto intro!: keeps_intros weaken plain)
        from keepsD [OF this t(1)] show ?thesis using m st Inl StreamCancelled by (cases x) auto
      next
        case (StreamOther err)
        then show ?thesis using keepsD [OF keeps_reauth [of e err] t(1)] t m st Inl weaken by (cases x) (auto split: if_splits)
      qed
    qed
  qed
  show ?thesis unfolding agent_round_def check_cancelled_def request_tools_def
    by (intro keeps_and_then keeps_ask inner_I keeps_inbox [OF e] keeps_update request)
      (auto intro!: keeps_intros inner_I weaken split: option.splits)
qed

lemma keeps_exhaustion: "keeps I J (completion_exhaustion e fallback)"
  unfolding completion_exhaustion_def by (auto intro!: keeps_intros inner_I weaken split: option.split)

lemma keeps_check: "keeps I J (check_output e)"
  unfolding check_output_def by (auto intro!: keeps_intros inner_I weaken split: option.split sum.split)

lemma keeps_end_of_budget: "keeps I J (end_of_budget e)"
  unfolding end_of_budget_def instructions_left_def
  by (auto intro!: keeps_intros inner_I weaken keeps_check keeps_exhaustion split: option.split)

lemma keeps_children: "keeps I J (finish_with_children e tries reason b)"
  unfolding finish_with_children_def
  by (auto intro!: keeps_intros inner_I weaken plain simp: invalidate_reports_def)

lemma keeps_after_done:
  fixes e :: "('w, 'z) agent_setup_scheme"
  assumes e: "suits e fine reply"
  shows "keeps I J (after_done e tries reason)"
  unfolding after_done_def check_cancelled_def recover_output_def
  by (auto intro!: keeps_intros inner_I weaken plain keeps_inbox [OF e] keeps_check keeps_exhaustion keeps_children split: option.split)

lemma keeps_body:
  fixes e :: "('w, 'z) agent_setup_scheme"
  assumes e: "suits e fine reply"
  shows "keeps I J (loop_body e tries)"
  unfolding loop_body_def check_cancelled_def
  by (auto intro!: keeps_intros inner_I weaken keeps_end_of_budget keeps_round [OF e] keeps_after_done [OF e] split: turn_progress.split)

lemma keeps_loop:
  fixes e :: "('w, 'z) agent_setup_scheme"
  assumes e: "suits e fine reply"
  shows "keeps I J (run_loop e tries)"
  by (rule keeps_run_loop [OF keeps_body [OF e]])

lemma keeps_run:
  fixes e :: "('w, 'z) agent_setup_scheme"
  assumes e: "suits e fine reply"
  shows "keeps I J (and_then (take_input e inp) (\<lambda>_. run_loop e 0))"
  by (intro keeps_and_then keeps_take_input [OF e] keeps_loop [OF e])

end

section \<open>The two instances\<close>

text \<open>No user message is empty.\<close>

definition spoken :: "chat_message \<Rightarrow> bool" where
  "spoken m \<longleftrightarrow> (role m = UserRole \<longrightarrow> content m \<noteq> [])"

definition paired :: "history \<Rightarrow> bool" where
  "paired h \<longleftrightarrow> answered [] (as_slice h) \<and> (\<forall>m \<in> set (as_slice h). spoken m)"

definition in_order :: "history \<Rightarrow> bool" where
  "in_order h \<longleftrightarrow> paired h \<and> last_open [] (as_slice h) = []"

definition tool_free :: "chat_message \<Rightarrow> bool" where
  "tool_free m \<longleftrightarrow> no_tools m \<and> spoken m"

definition assistant_reply :: "chat_message \<Rightarrow> bool" where
  "assistant_reply m \<longleftrightarrow> role m = AssistantRole \<and> results_of m = []"

lemma in_order_push: "in_order h \<Longrightarrow> tool_free m \<Longrightarrow> in_order (push_message m h)"
  using answered_plain [of "[]" "as_slice h" "[m]"] by (simp add: in_order_def paired_def tool_free_def)

lemma results_nonempty: "results_of m \<noteq> [] \<Longrightarrow> content m \<noteq> []"
  by (auto simp: results_of_def)

interpretation pairing: conversation in_order paired tool_free assistant_reply
proof
  fix h m m'
  assume h: "in_order h" and m: "assistant_reply m"
  then show p: "paired (push_message m h)"
    by (simp add: in_order_def paired_def assistant_reply_def answered_snoc spoken_def)
  assume m': "call_ids m \<noteq> []" "role m' = UserRole" "mset (results_of m') = mset (call_ids m)" "call_ids m' = []"
  then have "content m' \<noteq> []" using results_nonempty [of m'] by (metis mset_zero_iff)
  then show "in_order (push_message m' (push_message m h))"
    using p m m' answered_snoc [of "[]" "as_slice h @ [m]" m'] last_open_simps(2) [of "[]" "as_slice h @ [m]" m']
    by (simp add: in_order_def paired_def open_calls_def assistant_reply_def spoken_def)
next
  fix h m ep t
  assume "in_order h" "tool_free m"
  then show "in_order (replace_compacted ep [user_says t, m] h)"
    using answered_plain [of "[]" "[]" "[user_says t, m]"] by (simp add: in_order_def paired_def tool_free_def spoken_def)
next
  show "in_order h \<Longrightarrow> tool_free m \<Longrightarrow> in_order (push_message m h)" for h m by (rule in_order_push)
qed (auto simp: in_order_def tool_free_def spoken_def assistant_reply_def no_tools_def)

interpretation mirroring: conversation mirrored mirrored "\<lambda>_. True" "\<lambda>_. True"
  by unfold_locales (simp_all add: push_message_def replace_compacted_def replace_messages_def edit_mirrored)

end
