(* ===== verification/Loop_Ends.thy ===== *)
theory Loop_Ends
  imports Loop_Laws
begin

text \<open>
  Requests and turns return. A request is retried while a budget is left: the ones for connection
  failures, timeouts and refusals without a hint are bounded, so a request whose failures draw on those
  only returns. Each round of the loop counts a turn, or spends one of two logins; under a turn limit the
  loop therefore returns.
\<close>

section \<open>Requests\<close>

definition bounded_failure :: "agent_error \<Rightarrow> bool" where
  "bounded_failure err \<longleftrightarrow> (case retry_kind err of None \<Rightarrow> True
     | Some k \<Rightarrow> budget_of k (retry_after err) \<in> {RateLimitBudget, ConnectBudget, TimeoutBudget})"

definition bounded_failures :: "('w, 'z) surroundings_scheme \<Rightarrow> bool" where
  "bounded_failures e \<longleftrightarrow> (\<forall>rq w err. fst (fst (stream_message e rq w)) = Inl err \<longrightarrow> bounded_failure err)"

definition tries_left :: "retry_state \<Rightarrow> nat" where
  "tries_left r = unat (rotations_left r) + budget_left RateLimitBudget r + budget_left ConnectBudget r + budget_left TimeoutBudget r"

lemma bounded_limit: "b \<in> {RateLimitBudget, ConnectBudget, TimeoutBudget} \<Longrightarrow> \<exists>l. budget_limit b p = Some l"
  by auto

lemma book_failure_left:
  assumes "book_failure e err r w = (Some (d, r'), w')" "bounded_failure err"
  shows "tries_left r' < tries_left r"
proof -
  obtain b r1 where b: "(if should_rotate_key err then book_rotation r else (False, r)) = (b, r1)" by fastforce
  have r1: "tries_left r1 + (if b then 1 else 0) = tries_left r"
    using b book_rotation_left [of r r1] by (cases b) (auto simp: tries_left_def split: if_splits)
  obtain z w1 where z: "(if b \<and> key_count e \<noteq> None then rotate_key e w else (False, w)) = (z, w1)" by fastforce
  show ?thesis
  proof (cases z)
    case True
    then have "r' = r1" "b" using assms(1) b z by (auto simp: book_failure_def split: if_splits)
    then show ?thesis using r1 by simp
  next
    case False
    then obtain k where k: "retry_kind err = Some k" using assms(1) b z by (auto simp: book_failure_def split: option.splits)
    obtain draw w2 where j: "jitter e w1 = (draw, w2)" by fastforce
    have d: "next_delay draw k (retry_after err) r1 = (Some d, r')"
      using assms(1) b z False k j by (auto simp: book_failure_def split: prod.splits option.splits)
    have m: "budget_of k (retry_after err) \<in> {RateLimitBudget, ConnectBudget, TimeoutBudget}"
      using assms(2) k by (simp add: bounded_failure_def)
    then obtain l where "budget_limit (budget_of k (retry_after err)) (retry_policy_of r1) = Some l" using bounded_limit by blast
    note left = next_delay_left [OF d this]
    have "tries_left r' + 1 = tries_left r1" using left m next_delay_frame(2) [OF d] by (auto simp: tries_left_def)
    then show ?thesis using r1 by simp
  qed
qed

lemma stream_round_left:
  assumes "stream_round e out rq n r s = (StreamAgain r', t)" "bounded_failures e"
  shows "tries_left r' < tries_left r"
  using assms(1)
proof (cases rule: stream_round_cases)
  case (waited err streamed u w d r1)
  have "fst (fst (stream_message e rq (world s))) = Inl err"
    using waited(1) by (auto simp: attempt_request_def Let_def case_prod_beta)
  then have "bounded_failure err" using assms(2) by (auto simp: bounded_failures_def)
  moreover have "r1 = r'" using waited(4) by (auto simp: wait_to_retry_def Let_def case_prod_beta split: if_splits)
  ultimately show ?thesis using book_failure_left [OF waited(3)] by simp
qed auto

lemma stream_loop_returns: "bounded_failures e \<Longrightarrow> stream_loop e out rq n r s \<noteq> None"
proof (induction "tries_left r" arbitrary: n r s rule: less_induct)
  case less
  obtain step t where st: "stream_round e out rq n r s = (step, t)" by fastforce
  show ?case
  proof (cases step)
    case (StreamAgain r')
    then show ?thesis using less stream_round_left [of e out rq n r s r' t] st by (subst stream_loop.simps) simp
  qed (subst stream_loop.simps, simp add: st)
qed

lemma stream_returns: "bounded_failures e \<Longrightarrow> ends (stream_with_retry e out p rq)"
  unfolding ends_def by (simp add: stream_with_retry_def case_prod_beta Let_def stream_loop_returns del: not_None_eq)

section \<open>Every step returns\<close>

lemma ends_add [ends_intros]: "ends (add_message m)"
  unfolding add_message_def by (rule ends_intros)

lemma ends_context [ends_intros]: "ends (push_input_context e pre)"
  unfolding push_input_context_def by (intro ends_intros)

lemma ends_inputs [ends_intros]: "ends (consume_inputs e ps failed)"
  by (induction ps arbitrary: failed) (auto intro!: ends_intros)

lemma ends_inbox [ends_intros]: "ends (consume_instruction_inbox e)" "ends (consume_turn_inbox e)"
  unfolding consume_turn_inbox_def consume_instruction_inbox_def by (auto intro!: ends_intros split: option.split)

lemma ends_small [ends_intros]: "ends (check_cancelled e)" "ends (request_tools e)" "ends (take_input e inp)"
  "ends (wait_for_reauth e err)" "ends (recover_stalled_turn e)" "ends (emit_turn_complete e r)" "ends (keep_cut_off_text t)"
  unfolding check_cancelled_def request_tools_def take_input_def present_submission_def wait_for_reauth_def
    recover_stalled_turn_def emit_turn_complete_def keep_cut_off_text_def Let_def
  by (auto intro!: ends_intros split: option.split)

lemma ends_task [ends_intros]: "ends (tool_task e c)"
  unfolding tool_task_def by (auto intro!: ends_intros split: prod.split sum.split)

lemma ends_calls [ends_intros]: "ends (process_tool_calls e r)"
  unfolding process_tool_calls_def Let_def by (auto intro!: ends_intros split: prod.split)

lemma ends_digest [ends_intros]: "ends (digest_response e r)"
  unfolding digest_response_def after_calls_def by (auto intro!: ends_intros)

lemma ends_attempts: "bounded_failures e \<Longrightarrow> ends (compaction_attempts e [0, 1, 2] ms None)"
proof -
  assume "bounded_failures e"
  then have st: "\<exists>r t. stream_with_retry e out p rq s = Some (r, t)" for out p rq s
    using stream_returns unfolding ends_def by (metis not_Some_eq surj_pair)
  have last: "compaction_attempts e [2] ms f s \<noteq> None" for ms f s
    using st [of False "default_retry e" "compaction_request e ms" s] by (auto split: sum.split stream_error.split)
  have mid: "compaction_attempts e [1, 2] ms f s \<noteq> None" for ms f s
    using st [of False "default_retry e" "compaction_request e ms" s] last by (auto simp del: compaction_attempts.simps(2) simp: compaction_attempts.simps(2) [of e "Suc 0"] split: sum.split stream_error.split)
  show ?thesis
    unfolding ends_def
  proof
    fix s
    show "compaction_attempts e [0, 1, 2] ms None s \<noteq> None"
      using st [of False "default_retry e" "compaction_request e ms" s] mid
      by (auto simp del: compaction_attempts.simps(2) simp: compaction_attempts.simps(2) [of e 0] split: sum.split stream_error.split)
  qed
qed

lemma ends_compact:
  assumes "bounded_failures e"
  shows "ends (compact_history e instr)" "ends (compact e instr)"
proof -
  show *: "ends (compact_history e instr)" unfolding compact_history_def finish_compaction_def
    by (intro ends_and_then ends_basic(3) ends_attempts [OF assms]) (auto intro!: ends_intros)
  show "ends (compact e instr)" unfolding compact_def by (auto intro!: ends_intros * split: option.split)
qed

lemma ends_do_compact:
  assumes "bounded_failures e"
  shows "ends (do_compact e instr)" "ends (try_auto_compact e)" "ends (handle_queued_command e)"
proof -
  show *: "ends (do_compact e instr)" for instr unfolding do_compact_def by (auto intro!: ends_intros ends_compact [OF assms])
  show "ends (try_auto_compact e)" unfolding try_auto_compact_def by (auto intro!: ends_intros *)
  show "ends (handle_queued_command e)" unfolding handle_queued_command_def
    by (auto intro!: ends_intros * split: option.split extracted_command.split)
qed

lemma ends_settle: "bounded_failures e \<Longrightarrow> ends (settle_round e r)"
  unfolding settle_round_def by (auto intro!: ends_intros ends_do_compact)

lemma ends_round:
  fixes e :: "('w, 'z) agent_setup_scheme"
  assumes "bounded_failures e"
  shows "ends (agent_round e)"
proof -
  have "ends (\<lambda>s. case stream_with_retry e True (request_retry e) (turn_request e tools s) s of
       None \<Rightarrow> None
     | Some (Inr r, t) \<Rightarrow> settle_round e r (t\<lparr>reauth_attempts := 0\<rparr>)
     | Some (Inl (StreamCancelled streamed), t) \<Rightarrow> and_then (keep_cut_off_text streamed) (\<lambda>_. raise CancelledError) t
     | Some (Inl (StreamOther err), t) \<Rightarrow> if is_auth_error err then wait_for_reauth e err t else Some (Inl err, t))" for tools
    unfolding ends_def
  proof
    fix s
    obtain q t where "stream_with_retry e True (request_retry e) (turn_request e tools s) s = Some (q, t)"
      using stream_returns [OF assms] unfolding ends_def by (metis not_Some_eq surj_pair)
    moreover have "ends (and_then (keep_cut_off_text streamed) (\<lambda>_. raise CancelledError) :: ('w, agent_error, turn_progress) run)" for streamed
      by (intro ends_intros)
    moreover note ends_settle [OF assms] ends_small(4) [of e]
    ultimately show "(case stream_with_retry e True (request_retry e) (turn_request e tools s) s of
       None \<Rightarrow> None
     | Some (Inr r, t) \<Rightarrow> settle_round e r (t\<lparr>reauth_attempts := 0\<rparr>)
     | Some (Inl (StreamCancelled streamed), t) \<Rightarrow> and_then (keep_cut_off_text streamed) (\<lambda>_. raise CancelledError) t
     | Some (Inl (StreamOther err), t) \<Rightarrow> if is_auth_error err then wait_for_reauth e err t else Some (Inl err, t)) \<noteq> None"
      unfolding ends_def by (simp del: not_None_eq split: sum.split stream_error.split)
  qed
  then show ?thesis unfolding agent_round_def by (intro ends_intros)
qed

lemma ends_checks [ends_intros]: "ends (completion_exhaustion e fallback)" "ends (check_output e)" "ends (instructions_left e)"
  unfolding completion_exhaustion_def check_output_def instructions_left_def
  by (auto intro!: ends_intros split: option.split sum.split)

lemma ends_finish [ends_intros]: "ends (end_of_budget e)" "ends (recover_output e tries text)" "ends (finish_with_children e tries reason b)"
  unfolding end_of_budget_def recover_output_def finish_with_children_def by (auto intro!: ends_intros)

lemma ends_after_done [ends_intros]: "ends (after_done e tries reason)"
  unfolding after_done_def by (auto intro!: ends_intros split: option.split)

lemma ends_body: "bounded_failures e \<Longrightarrow> ends (loop_body e tries)"
  unfolding loop_body_def by (auto intro!: ends_intros ends_round split: turn_progress.split)


section \<open>Turns are counted\<close>

text \<open>What a step does not touch: the counter of turns, the counter of logins and, unless it takes
  instructions, whether one waits for its request.\<close>

abbreviation counters :: "(u32 \<Rightarrow> u32 \<Rightarrow> bool \<Rightarrow> bool) \<Rightarrow> 'w agent \<Rightarrow> bool" where
  "counters Q s \<equiv> Q (num_turns s) (reauth_attempts s) (pending_request s)"

lemma counters_inner: "inner (counters Q)"
  by (rule innerI) simp

lemma counters_ask [keeps_intros]: "keeps (counters Q) (\<lambda>_. True) (ask q)"
  by (rule keeps_ask [OF counters_inner])

lemma counters_send [keeps_intros]: "keeps (counters Q) (\<lambda>_. True) (try_send e out ev)" "keeps (counters Q) (\<lambda>_. True) (send f ev)"
  by (auto intro!: keeps_try_send keeps_send counters_inner)

lemma counters_add [keeps_intros]: "keeps (counters Q) (\<lambda>_. True) (add_message m)"
  unfolding add_message_def by (auto intro!: keeps_intros simp: on_history_def)

lemma counters_context [keeps_intros]: "keeps (counters Q) (\<lambda>_. True) (push_input_context e pre)"
  unfolding push_input_context_def by (auto intro!: keeps_intros)

lemma counters_inputs [keeps_intros]: "keeps (counters (\<lambda>n k _. Q n k)) (\<lambda>_. True) (consume_inputs e ps failed)"
  by (induction ps arbitrary: failed) (auto intro!: keeps_intros simp: instruction_consumed_def invalidate_reports_def)

lemma counters_inbox [keeps_intros]: "keeps (counters (\<lambda>n k _. Q n k)) (\<lambda>_. True) (consume_instruction_inbox e)" "keeps (counters (\<lambda>n k _. Q n k)) (\<lambda>_. True) (consume_turn_inbox e)"
  unfolding consume_turn_inbox_def consume_instruction_inbox_def by (auto intro!: keeps_intros split: option.split)

lemma counters_small [keeps_intros]: "keeps (counters Q) (\<lambda>_. True) (check_cancelled e)" "keeps (counters Q) (\<lambda>_. True) (request_tools f)"
  "keeps (counters Q) (\<lambda>_. True) (take_input f inp)" "keeps (counters Q) (\<lambda>_. True) (recover_stalled_turn f)"
  "keeps (counters Q) (\<lambda>_. True) (emit_turn_complete f r)"
  unfolding check_cancelled_def request_tools_def take_input_def present_submission_def recover_stalled_turn_def emit_turn_complete_def
  by (auto intro!: keeps_intros simp: ledger_add_def split: option.split)

lemma counters_calls [keeps_intros]: "keeps (counters Q) (\<lambda>_. True) (process_tool_calls e r)"
  unfolding process_tool_calls_def Let_def tool_task_def by (auto intro!: keeps_intros split: prod.split sum.split)

lemma counters_digest [keeps_intros]: "keeps (counters Q) (\<lambda>_. True) (digest_response e r)"
  unfolding digest_response_def after_calls_def by (auto intro!: keeps_intros)

lemma counters_attempts [keeps_intros]: "keeps (counters Q) (\<lambda>_. True) (compaction_attempts e left ms failed)"
proof -
  have "compaction_attempts e left ms failed s = Some (r, t) \<Longrightarrow> num_turns t = num_turns s \<and> reauth_attempts t = reauth_attempts s \<and> pending_request t = pending_request s" for r s t
  proof (induction left arbitrary: ms failed s)
    case (Cons n left)
    then obtain q u where st: "stream_with_retry e False (default_retry e) (compaction_request e ms) s = Some (q, u)"
      by (auto split: option.splits)
    have u: "num_turns u = num_turns s" "reauth_attempts u = reauth_attempts s" "pending_request u = pending_request s" using outside_same [OF outside_stream [OF st]] by simp_all
    from Cons u st show ?case by (cases q) (auto split: stream_error.splits if_splits)
  qed (auto split: option.splits)
  then show ?thesis unfolding keeps_def by (auto split: sum.split)
qed

lemma counters_compact [keeps_intros]: "keeps (counters Q) (\<lambda>_. True) (try_auto_compact e)" "keeps (counters (\<lambda>n k _. Q' n k)) (\<lambda>_. True) (handle_queued_command e)"
proof -
  have c: "keeps (counters Q) (\<lambda>_. True) (do_compact e instr)" for Q instr
    unfolding do_compact_def compact_history_def finish_compaction_def
    by (auto intro!: keeps_intros simp: ledger_add_def on_history_def)
  show "keeps (counters Q) (\<lambda>_. True) (try_auto_compact e)" unfolding try_auto_compact_def by (auto intro!: keeps_intros c)
  show "keeps (counters (\<lambda>n k _. Q' n k)) (\<lambda>_. True) (handle_queued_command e)" unfolding handle_queued_command_def
    by (auto intro!: keeps_intros c split: option.split extracted_command.split)
qed

lemma counters_after_done [keeps_intros]: "keeps (counters (\<lambda>n k _. Q n k)) (\<lambda>_. True) (after_done e tries reason)"
  unfolding after_done_def recover_output_def finish_with_children_def completion_exhaustion_def check_output_def
  by (auto intro!: keeps_intros simp: invalidate_reports_def split: option.split sum.split)

lemma run_steps: "and_then (update_agent g) f1 s = f1 () (g s)" "and_then (look h) f2 s = f2 (h s) s"
  "and_then (ask q) f3 s = f3 (fst (q (world s))) (s\<lparr>world := snd (q (world s))\<rparr>)" "and_then (give x) f4 s = f4 x s"
  "and_then (raise err) f5 s = Some (Inl err, s)"
  by (simp_all add: and_then_def update_agent_def look_def ask_def give_def raise_def)

lemma give_then: "and_then (give x) f = f x"
  by (rule ext) (rule run_steps(4))

lemma and_then_assoc: "and_then (and_then m f) g = and_then m (\<lambda>x. and_then (f x) g)"
proof
  fix s
  show "and_then (and_then m f) g s = and_then m (\<lambda>x. and_then (f x) g) s"
    by (cases rule: run_cases [of m s]) (auto simp: and_then_def)
qed

lemma settle_counts:
  assumes "settle_round e r s = Some (Inr p, t)"
  shows "num_turns t = num_turns s + 1"
proof -
  let ?u = "s\<lparr>num_turns := num_turns s + 1, context_size := total_input (resp_usage r)\<rparr>"
  define rest where "rest = and_then (emit_turn_complete e r) (\<lambda>_. and_then (digest_response e r) (\<lambda>again.
     if again then give Continue
     else and_then (try_auto_compact e) (\<lambda>compacted.
          and_then (if compacted then give True else handle_queued_command e) (\<lambda>more.
          give (if more \<or> has_tool_calls (resp_message r) then Continue else Done (done_reason_of (resp_stop r)))))))"
  have "keeps (counters (\<lambda>n _ _. n = num_turns s + 1)) (\<lambda>_. True) rest" unfolding rest_def by (auto intro!: keeps_intros)
  moreover have "rest ?u = Some (Inr p, t)" using assms by (simp add: settle_round_def rest_def run_steps)
  ultimately show ?thesis using keepsD(1) [of "counters (\<lambda>n _ _. n = num_turns s + 1)" "\<lambda>_. True" rest ?u p t] by simp
qed

lemma reauth_counts:
  assumes "wait_for_reauth e err s = Some (Inr p, t)"
  shows "p = Continue" "num_turns t = num_turns s" "reauth_attempts s < MAX_REAUTH_ATTEMPTS" "reauth_attempts t = reauth_attempts s + 1"
proof -
  have n: "reauth_attempts s < MAX_REAUTH_ATTEMPTS"
    using assms by (auto simp: wait_for_reauth_def run_steps raise_def split: if_splits)
  obtain answer where a: "user_response e = Some answer"
    using assms n by (auto simp: wait_for_reauth_def run_steps raise_def split: option.splits)
  let ?u = "s\<lparr>reauth_attempts := reauth_attempts s + 1\<rparr>"
  define rest where "rest = and_then (send e AuthRequired) (\<lambda>_. and_then (ask answer) (\<lambda>answered.
         if \<not> answered then raise CancelledError
         else and_then (ask (refresh_auth e)) (\<lambda>r. case r of None \<Rightarrow> give Continue | Some err' \<Rightarrow> raise err')))"
  have k: "keeps (counters (\<lambda>n k _. n = num_turns s \<and> k = reauth_attempts s + 1)) (\<lambda>_. True) rest"
    unfolding rest_def by (auto intro!: keeps_intros split: option.split)
  have r: "rest ?u = Some (Inr p, t)"
    using assms a n [unfolded linorder_not_le [symmetric]] by (simp add: wait_for_reauth_def rest_def run_steps)
  show "p = Continue" using r by (auto simp: rest_def and_then_Inr give_def raise_def split: if_splits option.splits)
  show "num_turns t = num_turns s" "reauth_attempts t = reauth_attempts s + 1" using keepsD(1) [OF k _ r] by simp_all
  show "reauth_attempts s < MAX_REAUTH_ATTEMPTS" by (rule n)
qed


lemma round_counts:
  assumes "agent_round e s = Some (Inr p, t)"
  shows "num_turns t = num_turns s + 1 \<or>
    p = Continue \<and> num_turns t = num_turns s \<and> reauth_attempts s < MAX_REAUTH_ATTEMPTS \<and> reauth_attempts t = reauth_attempts s + 1"
proof -
  let ?request = "\<lambda>tools s. case stream_with_retry e True (request_retry e) (turn_request e tools s) s of
       None \<Rightarrow> None
     | Some (Inr r, t) \<Rightarrow> settle_round e r (t\<lparr>reauth_attempts := 0\<rparr>)
     | Some (Inl (StreamCancelled streamed), t) \<Rightarrow> and_then (keep_cut_off_text streamed) (\<lambda>_. raise CancelledError) t
     | Some (Inl (StreamOther err), t) \<Rightarrow> if is_auth_error err then wait_for_reauth e err t else Some (Inl err, t)"
  define ready where "ready = and_then (check_cancelled e) (\<lambda>_. and_then (consume_turn_inbox e) (\<lambda>_.
     and_then (update_agent (\<lambda>s. s\<lparr>pending_request := False\<rparr>)) (\<lambda>_. and_then (request_tools e) (\<lambda>tools.
     and_then (update_agent (\<lambda>s. case turn_inbox e of None \<Rightarrow> s | Some b \<Rightarrow> s\<lparr>world := acknowledge b (world s)\<rparr>)) (\<lambda>_. give tools)))))"
  have "agent_round e s = and_then ready ?request s"
    unfolding agent_round_def ready_def and_then_assoc give_then ..
  then have "and_then ready ?request s = Some (Inr p, t)" using assms by simp
  then obtain tools u where u: "ready s = Some (Inr tools, u)" and rq: "?request tools u = Some (Inr p, t)" by (rule and_thenE)
  have k: "keeps (counters (\<lambda>n k _. n = num_turns s \<and> k = reauth_attempts s)) (\<lambda>_. True) ready"
    unfolding ready_def by (auto intro!: keeps_intros split: option.split)
  have su: "num_turns u = num_turns s" "reauth_attempts u = reauth_attempts s" using keepsD(1) [OF k _ u] by simp_all
  obtain q v where st: "stream_with_retry e True (request_retry e) (turn_request e tools u) u = Some (q, v)"
    using rq by (auto split: option.splits)
  have v: "num_turns v = num_turns s" "reauth_attempts v = reauth_attempts s"
    using outside_same [OF outside_stream [OF st]] su by simp_all
  show ?thesis
  proof (cases q)
    case (Inr r)
    then have "settle_round e r (v\<lparr>reauth_attempts := 0\<rparr>) = Some (Inr p, t)" using rq st by simp
    from settle_counts [OF this] show ?thesis by (simp add: v)
  next
    case (Inl se)
    show ?thesis
    proof (cases se)
      case (StreamCancelled streamed)
      then show ?thesis using rq st Inl by (auto simp: and_then_Inr raise_def)
    next
      case (StreamOther err)
      then have "wait_for_reauth e err v = Some (Inr p, t)" using rq st Inl by (auto split: if_splits)
      from reauth_counts [OF this] show ?thesis by (simp add: v)
    qed
  qed
qed

section \<open>The loop returns\<close>

definition rounds_left :: "('w, 'z) agent_setup_scheme \<Rightarrow> 'w agent \<Rightarrow> nat \<times> nat" where
  "rounds_left e s = ((case max_turns e of None \<Rightarrow> 0 | Some m \<Rightarrow> unat m - unat (num_turns s)), 2 - unat (reauth_attempts s))"

lemma body_counts:
  assumes "loop_body e tries s = Some (Inr (Again n), t)"
  shows "\<not> budget_spent e s"
    "num_turns t = num_turns s + 1 \<or> num_turns t = num_turns s \<and> reauth_attempts s < MAX_REAUTH_ATTEMPTS \<and> reauth_attempts t = reauth_attempts s + 1"
proof -
  obtain c u where c: "check_cancelled e s = Some (Inr c, u)"
    and r: "(if budget_spent e u then and_then (end_of_budget e) (\<lambda>r. give (Stop r))
       else and_then (agent_round e) (\<lambda>p. case p of Continue \<Rightarrow> give (Again tries) | Done reason \<Rightarrow> after_done e tries reason)) u = Some (Inr (Again n), t)"
    using assms unfolding loop_body_def by (auto simp: and_then_Inr run_steps)
  have u: "num_turns u = num_turns s" "reauth_attempts u = reauth_attempts s"
    using keepsD(1) [OF counters_small(1) [of "\<lambda>n k _. n = num_turns s \<and> k = reauth_attempts s"] _ c] by simp_all
  have nb: "\<not> budget_spent e u" using r by (auto simp: and_then_Inr give_def)
  then show "\<not> budget_spent e s" using u by (simp add: budget_spent_def split: option.splits)
  obtain p v where p: "agent_round e u = Some (Inr p, v)"
    and f: "(case p of Continue \<Rightarrow> give (Again tries) | Done reason \<Rightarrow> after_done e tries reason) v = Some (Inr (Again n), t)"
    using r nb by (auto simp: and_then_Inr)
  have t: "num_turns t = num_turns v \<and> (p = Continue \<longrightarrow> t = v)"
  proof (cases p)
    case (Done reason)
    then have "after_done e tries reason v = Some (Inr (Again n), t)" using f by simp
    from keepsD(1) [OF counters_after_done [of "\<lambda>n _. n = num_turns v"] _ this] show ?thesis using Done by simp
  qed (use f in \<open>simp add: give_def\<close>)
  show "num_turns t = num_turns s + 1 \<or> num_turns t = num_turns s \<and> reauth_attempts s < MAX_REAUTH_ATTEMPTS \<and> reauth_attempts t = reauth_attempts s + 1"
    using round_counts [OF p] t u by auto
qed

lemma body_progress:
  assumes "loop_body e tries s = Some (Inr (Again n), t)" "max_turns e = Some m"
  shows "(rounds_left e t, rounds_left e s) \<in> less_than <*lex*> less_than" "num_turns t \<le> m"
proof -
  have less: "num_turns s < m" using body_counts(1) [OF assms(1)] assms(2) by (auto simp: budget_spent_def)
  then have "unat (num_turns s + 1) = unat (num_turns s) + 1"
    using unsigned_less [of m, where ?'a = nat] by (simp add: unat_word_ariths word_less_nat_alt)
  note up = this less
  have re: "unat (k + 1) = unat k + 1 \<and> unat k < 2" if "k < MAX_REAUTH_ATTEMPTS" for k
    using that by (simp add: MAX_REAUTH_ATTEMPTS_def unat_word_ariths word_less_nat_alt)
  show "(rounds_left e t, rounds_left e s) \<in> less_than <*lex*> less_than"
    using body_counts(2) [OF assms(1)] up re [of "reauth_attempts s"] assms(2)
    by (auto simp: rounds_left_def word_less_nat_alt)
  show "num_turns t \<le> m" using body_counts(2) [OF assms(1)] up by (auto simp: word_le_nat_alt word_less_nat_alt)
qed

lemma loop_returns:
  assumes "bounded_failures e" "max_turns e = Some m"
  shows "run_loop e tries s \<noteq> None"
proof -
  have "wf (less_than <*lex*> less_than :: ((nat \<times> nat) \<times> nat \<times> nat) set)" by auto
  then show ?thesis
  proof (induction "rounds_left e s" arbitrary: tries s rule: wf_induct_rule)
    case less
    obtain r t where b: "loop_body e tries s = Some (r, t)"
      using ends_body [OF assms(1)] unfolding ends_def by (metis not_Some_eq surj_pair)
    show ?case
    proof (cases r)
      case (Inr step)
      show ?thesis
      proof (cases step)
        case (Again n)
        then have "run_loop e n t \<noteq> None" using body_progress(1) b Inr assms(2) by (intro less) blast
        then show ?thesis by (subst run_loop.simps) (simp add: b Inr Again)
      qed (subst run_loop.simps, simp add: b Inr)
    qed (subst run_loop.simps, simp add: b)
  qed
qed


lemma body_within:
  assumes "loop_body e tries s = Some (Inr step, t)" "max_turns e = Some m" "num_turns s \<le> m"
  shows "num_turns t \<le> m"
proof (cases step)
  case (Again n)
  then show ?thesis using body_progress(2) assms by blast
next
  case (Stop reason)
  obtain c u where c: "check_cancelled e s = Some (Inr c, u)"
    and r: "(if budget_spent e u then and_then (end_of_budget e) (\<lambda>r. give (loop_step.Stop r))
       else and_then (agent_round e) (\<lambda>p. case p of Continue \<Rightarrow> give (Again tries) | Done reason \<Rightarrow> after_done e tries reason)) u = Some (Inr step, t)"
    using assms(1) unfolding loop_body_def by (auto simp: and_then_Inr run_steps)
  have u: "num_turns u = num_turns s"
    using keepsD(1) [OF counters_small(1) [of "\<lambda>n k _. n = num_turns s"] _ c] by simp
  show ?thesis
  proof (cases "budget_spent e u")
    case True
    then obtain x v where "end_of_budget e u = Some (Inr x, v)" "t = v" using r by (auto simp: and_then_Inr give_def)
    moreover have "keeps (counters (\<lambda>n _ _. n = num_turns s)) (\<lambda>_. True) (end_of_budget e)"
      unfolding end_of_budget_def instructions_left_def check_output_def completion_exhaustion_def
      by (auto intro!: keeps_intros split: option.split sum.split)
    ultimately show ?thesis using u assms(3) keepsD(1) [of "counters (\<lambda>n _ _. n = num_turns s)" _ _ u x v] by fastforce
  next
    case False
    then have less: "num_turns s < m" using u assms(2) by (simp add: budget_spent_def)
    obtain p v where p: "agent_round e u = Some (Inr p, v)"
      and f: "(case p of Continue \<Rightarrow> give (Again tries) | Done reason \<Rightarrow> after_done e tries reason) v = Some (Inr step, t)"
      using r False by (auto simp: and_then_Inr)
    obtain reason' where d: "p = Done reason'" using f Stop by (cases p) (auto simp: give_def)
    then have "num_turns t = num_turns v"
      using keepsD(1) [OF counters_after_done [of "\<lambda>n _. n = num_turns v"], of v] f by simp
    then have "num_turns t = num_turns s + 1" using round_counts [OF p] d u by simp
    then show ?thesis using less inc_le [of "num_turns s" m] by simp
  qed
qed

lemma loop_within:
  assumes "max_turns e = Some m"
  shows "run_loop e tries s = Some (Inr reason, t) \<Longrightarrow> num_turns s \<le> m \<Longrightarrow> num_turns t \<le> m"
proof -
  have "run_loop e tries s = Some y \<Longrightarrow> num_turns s \<le> m \<longrightarrow> (case fst y of Inr _ \<Rightarrow> num_turns (snd y) \<le> m | Inl _ \<Rightarrow> True)" for y
    by (induction rule: run_loop_induct) (use body_within [OF _ assms] in auto)
  from this [of "(Inr reason, t)"] show "run_loop e tries s = Some (Inr reason, t) \<Longrightarrow> num_turns s \<le> m \<Longrightarrow> num_turns t \<le> m"
    by simp
qed

end
