(* ===== verification/Loop_Facts.thy ===== *)
theory Loop_Facts
  imports Loop_Ends
begin

text \<open>
  Single facts about a turn: what its output shows, when it may complete, which calls are refused, what a
  compaction leaves.
\<close>

section \<open>What the output shows\<close>

definition shows_text :: "string \<Rightarrow> 'w agent \<Rightarrow> bool" where
  "shows_text txt s \<longleftrightarrow> (case out_stream s of None \<Rightarrow> False | Some st \<Rightarrow> out_result st = None \<and> out_text st = txt)"

lemma shows_world [simp]: "shows_text x (s\<lparr>world := w\<rparr>) = shows_text x s"
  by (simp add: shows_text_def)

lemmas output_defs = append_text_def reset_text_attempt_def begin_text_attempt_def reconcile_text_attempt_def unless_sealed_def

lemma shows_emit:
  assumes "shows_text x s"
  shows "shows_text (case ev of TextDelta t \<Rightarrow> x @ t | RetryEvent _ _ _ \<Rightarrow> [] | _ \<Rightarrow> x) (snd (emit_event e True ev s))"
  using assms by (cases "out_stream s"; cases ev) (simp_all add: shows_text_def emit_event_def with_stream_def Let_def case_prod_beta output_defs)

lemma shows_forward:
  "shows_text x s \<Longrightarrow> \<exists>y. fst (forward e True pes acc s) = acc @ y \<and> shows_text (x @ y) (snd (forward e True pes acc s))"
proof (induction pes arbitrary: acc s x)
  case (Cons pe pes)
  obtain ok t where em: "emit_event e True (event_of pe) s = (ok, t)" by fastforce
  have "shows_text (x @ text_of_event pe) t"
    using shows_emit [OF Cons.prems, of "event_of pe" e] em by (cases pe) simp_all
  from Cons.IH [OF this, of "acc @ text_of_event pe"]
  obtain y where "fst (forward e True pes (acc @ text_of_event pe) t) = (acc @ text_of_event pe) @ y"
      "shows_text ((x @ text_of_event pe) @ y) (snd (forward e True pes (acc @ text_of_event pe) t))" by auto
  moreover have "out_stream s \<noteq> None" using Cons.prems by (auto simp: shows_text_def split: option.splits)
  ultimately show ?case using em by (auto simp: Let_def)
qed simp

lemma shows_attempt:
  assumes "attempt_request e True rq s = (result, streamed, t)" "shows_text [] s"
  shows "shows_text streamed t"
proof -
  let ?s = "s\<lparr>world := snd (stream_message e rq (world s))\<rparr>" and ?pes = "snd (fst (stream_message e rq (world s)))"
  have "(streamed, t) = forward e True ?pes [] ?s" using assms(1) by (auto simp: attempt_request_def Let_def case_prod_beta)
  then show ?thesis using shows_forward [of "[]" ?s e ?pes "[]"] assms(2) by (metis append_Nil fst_conv shows_world snd_conv)
qed

fun kept_text :: "stream_error + response \<Rightarrow> string option" where
  "kept_text (Inr r) = Some (text_blocks (resp_message r))"
| "kept_text (Inl (StreamCancelled streamed)) = Some streamed"
| "kept_text (Inl (StreamOther _)) = None"

lemma shows_round:
  assumes "stream_round e True rq n retry s = (step, t)" "shows_text [] s"
  shows "case step of StreamAgain _ \<Rightarrow> shows_text [] t | StreamEnd r \<Rightarrow> (case kept_text r of None \<Rightarrow> True | Some x \<Rightarrow> shows_text x t)"
  using assms(1)
proof (cases rule: stream_round_cases)
  case (accepted r streamed u)
  have "shows_text streamed u" by (rule shows_attempt [OF accepted(1) assms(2)])
  then show ?thesis using accepted
    by (cases "out_stream u") (simp_all add: accept_response_def Let_def shows_text_def with_stream_def output_defs)
next
  case (cut_off streamed)
  then show ?thesis using shows_attempt [OF cut_off(1) assms(2)] by simp
next
  case (waited err streamed u w d retry')
  let ?ev = "RetryEvent (n + 1) (retry_message err) (as_millis d mod 2 ^ 64)"
  have "shows_text [] (snd (emit_event e True ?ev (u\<lparr>world := w\<rparr>)))"
    using shows_emit [of streamed "u\<lparr>world := w\<rparr>" ?ev e] shows_attempt [OF waited(1) assms(2)] by simp
  then show ?thesis using waited(4) by (auto simp: wait_to_retry_def Let_def case_prod_beta split: if_splits)
qed auto

lemma shows_loop:
  "stream_loop e True rq n retry s = Some y \<Longrightarrow> shows_text [] s \<longrightarrow> (case kept_text (fst y) of None \<Rightarrow> True | Some x \<Rightarrow> shows_text x (snd y))"
proof (induction rule: stream_loop_induct)
  case (stop n retry s r t)
  then show ?case using shows_round [OF stop] by (auto split: option.splits)
next
  case (again n retry s r' t y)
  then show ?case using shows_round [OF again(1)] by auto
qed

lemma shows_stream:
  assumes "stream_with_retry e True p rq s = Some (r, t)" "out_stream s = Some st" "out_result st = None" "kept_text r = Some x"
  shows "shows_text x t"
proof -
  obtain ms w where ad: "adapt_images e (req_audience rq) (req_messages rq) (world s) = (ms, w)" by fastforce
  let ?s = "with_stream True begin_text_attempt (s\<lparr>world := w\<rparr>)"
  have "shows_text [] ?s" using assms(2,3) by (simp add: shows_text_def with_stream_def output_defs)
  then show ?thesis using shows_loop assms(1,4) by (fastforce simp: stream_with_retry_def ad)
qed

section \<open>Refused calls\<close>

text \<open>The reference: a call is refused exactly when the two calls before it were the same.\<close>

abbreviation call_key :: "(json \<Rightarrow> u64) \<Rightarrow> string \<times> string \<times> json \<Rightarrow> string \<times> u64" where
  "call_key hash c \<equiv> (fst (snd c), hash (snd (snd c)))"

fun third_in_a_row :: "(string \<times> u64) list \<Rightarrow> string \<times> u64 \<Rightarrow> bool" where
  "third_in_a_row (a # b # _) k \<longleftrightarrow> a = k \<and> b = k"
| "third_in_a_row _ k \<longleftrightarrow> False"

fun stuck_calls :: "(json \<Rightarrow> u64) \<Rightarrow> (string \<times> u64) list \<Rightarrow> (string \<times> string \<times> json) list \<Rightarrow> bool list" where
  "stuck_calls hash before [] = []"
| "stuck_calls hash before (c # cs) = third_in_a_row before (call_key hash c) # stuck_calls hash (call_key hash c # before) cs"

lemma doom_third: "is_doom_loop hash (rev (take 3 before)) name inp = third_in_a_row before (name, hash inp)"
proof (cases before)
  case (Cons a as)
  then show ?thesis by (cases as) (simp_all add: is_doom_loop_def DOOM_LOOP_THRESHOLD_def numeral_3_eq_3)
qed (simp add: is_doom_loop_def DOOM_LOOP_THRESHOLD_def)

lemma record_window: "record_call hash name inp (rev (take 3 before)) = rev (take 3 ((name, hash inp) # before))"
  by (cases before; cases "tl before"; cases "tl (tl before)"; cases "tl (tl (tl before))")
    (auto simp: record_call_def DOOM_LOOP_THRESHOLD_def numeral_3_eq_3 Let_def)

lemma split_calls_reference:
  "split_calls hash (rev (take 3 before)) calls =
     (map fst (filter (\<lambda>(c, stuck). \<not> stuck) (zip calls (stuck_calls hash before calls))),
      map (\<lambda>(c, _). tool_error (fst c) DOOM_LOOP_MESSAGE) (filter snd (zip calls (stuck_calls hash before calls))),
      rev (take 3 (rev (map (call_key hash) calls) @ before)))"
proof (induction calls arbitrary: before)
  case (Cons c calls)
  obtain i name inp where c: "c = (i, name, inp)" by (cases c) auto
  show ?case using Cons.IH [of "(name, hash inp) # before"]
    by (simp add: c record_window doom_third Let_def)
qed simp

section \<open>Compaction\<close>

lemma attempts_hist: "compaction_attempts e left ms failed s = Some (r, t) \<Longrightarrow> hist t = hist s"
proof (induction left arbitrary: ms failed s)
  case (Cons n left)
  then obtain q u where st: "stream_with_retry e False (default_retry e) (compaction_request e ms) s = Some (q, u)"
    by (auto split: option.splits)
  have "hist u = hist s" by (rule outside_same(1) [OF outside_stream [OF st]])
  with Cons st show ?case by (cases q) (auto split: stream_error.splits if_splits)
qed (auto split: option.splits)

lemma try_then: "and_then (try_send e out ev) f s = f (fst (emit_event e out ev s)) (snd (emit_event e out ev s))"
  by (simp add: and_then_def try_send_def case_prod_beta Let_def)

lemma compact_effect:
  assumes "compact_history e instr s = Some (r, t)"
  shows "case r of Inl _ \<Rightarrow> hist t = hist s
    | Inr _ \<Rightarrow> \<exists>m ep. hist t = replace_compacted ep [user_says ''What did we do so far?'', m] (hist s) \<and> first_text_content m \<noteq> None"
proof -
  let ?at = "compaction_attempts e [0, 1, 2] (prepared_history e instr (as_slice (hist s))) None"
  have run: "and_then ?at (finish_compaction e) s = Some (r, t)" using assms by (simp add: compact_history_def run_steps)
  show ?thesis
  proof (cases rule: run_cases [of ?at s])
    case (2 err u)
    then show ?thesis using run attempts_hist [OF 2] by (auto simp: and_then_simps)
  next
    case (3 x u)
    have u: "hist u = hist s" by (rule attempts_hist [OF 3])
    have f: "finish_compaction e x u = Some (r, t)" using run 3 by (simp add: and_then_simps)
    let ?v = "snd (emit_event e False (TurnComplete (resp_message x) (resp_usage x) (standard_cost e (resp_usage x))
      (usage_output (resp_usage x))) u)"
    have v: "hist ?v = hist s" by (simp add: outside_same(1) [OF outside_emit] u)
    show ?thesis
    proof (cases "first_text_content (resp_message x) = None")
      case True
      then have "r = Inl EmptySummary" "t = ?v"
        using f by (auto simp: finish_compaction_def try_then raise_def)
      then show ?thesis using v by simp
    next
      case False
      then have "r = Inr (resp_usage x)" "t = on_history (replace_compacted (fst (next_epoch e (world ?v))) [user_says ''What did we do so far?'', resp_message x])
          (?v\<lparr>world := snd (next_epoch e (world ?v))\<rparr>)"
        using f by (auto simp: finish_compaction_def try_then run_steps give_def)
      then show ?thesis using v False by (auto simp: on_history_def)
    qed
  qed (use run in \<open>simp add: and_then_simps\<close>)
qed


section \<open>Completing\<close>

text \<open>A turn stops only where the check of its output was met, and where no instruction it accepted waits
  for a request.\<close>

definition output_met :: "('w, 'z) agent_setup_scheme \<Rightarrow> bool" where
  "output_met e \<longleftrightarrow> (case completion_check e of None \<Rightarrow> True | Some check \<Rightarrow> \<exists>w. fst (check w) = Inr None)"

lemma check_output_met: "check_output e s = Some (Inr None, t) \<Longrightarrow> output_met e"
  by (auto simp: check_output_def output_met_def give_def raise_def run_steps split: option.splits sum.splits)

lemma exhaustion_fails: "completion_exhaustion e msg s \<noteq> Some (Inr x, t)"
  by (auto simp: completion_exhaustion_def raise_def run_steps split: option.splits)

abbreviation nothing_pending :: "'w agent \<Rightarrow> bool" where
  "nothing_pending \<equiv> counters (\<lambda>_ _ p. \<not> p)"

lemma keeps_checks: "keeps (counters Q) (\<lambda>_. True) (check_output e)"
  unfolding check_output_def by (auto intro!: keeps_intros split: option.split sum.split)

lemma end_of_budget_stop:
  fixes e :: "('w, 'z) agent_setup_scheme"
  assumes "end_of_budget e s = Some (Inr reason, t)"
  shows "output_met e" "nothing_pending t"
proof -
  obtain left u where left: "(instructions_left e :: ('w, agent_error, bool) run) s = Some (Inr left, u)"
    and r: "(if left then raise (ConfigError INSTRUCTION_BUDGET_EXHAUSTED)
     else and_then (check_output e) (\<lambda>missing.
       if missing = None then give MaxTurns else completion_exhaustion e REQUIRED_OUTPUT_BUDGET_EXHAUSTED)) u = Some (Inr reason, t)"
    using assms unfolding end_of_budget_def by (rule and_thenE)
  have l: "\<not> left" using r by (auto simp: raise_def)
  then have np: "nothing_pending s" using left by (auto simp: instructions_left_def run_steps give_def split: if_splits)
  have k: "keeps nothing_pending (\<lambda>_. True) (instructions_left e :: ('w, agent_error, bool) run)"
    unfolding instructions_left_def by (auto intro!: keeps_intros split: option.split)
  have u: "nothing_pending u" by (rule keepsD(1) [OF k np left])
  obtain missing v where c: "check_output e u = Some (Inr missing, v)"
    and m: "(if missing = None then give MaxTurns else completion_exhaustion e REQUIRED_OUTPUT_BUDGET_EXHAUSTED) v = Some (Inr reason, t)"
    using r l by (auto simp: and_then_Inr)
  have n: "missing = None" "t = v" using m by (auto simp: give_def exhaustion_fails split: if_splits)
  show "output_met e" using c n(1) check_output_met by blast
  show "nothing_pending t" using keepsD(1) [OF keeps_checks [of "\<lambda>_ _ p. \<not> p"] u c] n(2) by simp
qed


text \<open>A round that is done handled no command after its response.\<close>

lemma command_idle:
  assumes "handle_queued_command e s = Some (Inr False, t)"
  shows "pending_request t = pending_request s"
  using assms by (auto simp: handle_queued_command_def run_steps and_then_Inr give_def raise_def
    split: option.splits)

lemma settle_done:
  assumes "settle_round e r s = Some (Inr (Done reason), t)" "nothing_pending s"
  shows "nothing_pending t"
proof -
  let ?u = "s\<lparr>num_turns := num_turns s + 1, context_size := total_input (resp_usage r)\<rparr>"
  note run = assms(1) [unfolded settle_round_def run_steps(1)]
  from run obtain x u1 where u1: "emit_turn_complete e r ?u = Some (Inr x, u1)"
    and "and_then (digest_response e r) (\<lambda>again. if again then give Continue
       else and_then (try_auto_compact e) (\<lambda>compacted. and_then (if compacted then give True else handle_queued_command e) (\<lambda>more.
          give (if more \<or> has_tool_calls (resp_message r) then Continue else Done (done_reason_of (resp_stop r)))))) u1 = Some (Inr (Done reason), t)"
    by (rule and_thenE)
  from this(2) obtain again u2 where u2: "digest_response e r u1 = Some (Inr again, u2)"
    and later: "(if again then give Continue
       else and_then (try_auto_compact e) (\<lambda>compacted. and_then (if compacted then give True else handle_queued_command e) (\<lambda>more.
          give (if more \<or> has_tool_calls (resp_message r) then Continue else Done (done_reason_of (resp_stop r)))))) u2 = Some (Inr (Done reason), t)"
    by (rule and_thenE)
  have "\<not> again" using later by (auto simp: give_def)
  with later have "and_then (try_auto_compact e) (\<lambda>compacted. and_then (if compacted then give True else handle_queued_command e) (\<lambda>more.
      give (if more \<or> has_tool_calls (resp_message r) then Continue else Done (done_reason_of (resp_stop r))))) u2 = Some (Inr (Done reason), t)"
    by simp
  then obtain compacted u3 where u3: "try_auto_compact e u2 = Some (Inr compacted, u3)"
    and "and_then (if compacted then give True else handle_queued_command e) (\<lambda>more.
      give (if more \<or> has_tool_calls (resp_message r) then Continue else Done (done_reason_of (resp_stop r)))) u3 = Some (Inr (Done reason), t)"
    by (rule and_thenE)
  from this(2) obtain more u4 where more: "(if compacted then give True else handle_queued_command e) u3 = Some (Inr more, u4)"
    and stop: "give (if more \<or> has_tool_calls (resp_message r) then Continue else Done (done_reason_of (resp_stop r))) u4
      = (Some (Inr (Done reason), t) :: ((agent_error + turn_progress) \<times> 'a agent) option)"
    by (rule and_thenE)
  have idle: "\<not> more" "t = u4" using stop by (auto simp: give_def split: if_splits)
  let ?Q = "\<lambda>_ _ p. \<not> p"
  have "nothing_pending u1" using keepsD(1) [OF counters_small(5) [of ?Q] _ u1] assms(2) by simp
  then have "nothing_pending u2" using keepsD(1) [OF counters_digest [of ?Q] _ u2] by simp
  then have "nothing_pending u3" using keepsD(1) [OF counters_compact(1) [of ?Q] _ u3] by simp
  then show ?thesis using more idle command_idle [of e u3 t] by (auto simp: give_def split: if_splits)
qed

lemma round_done:
  assumes "agent_round e s = Some (Inr (Done reason), t)"
  shows "nothing_pending t"
proof -
  obtain s1 s2 tools s3 where s3: "request_tools e s2 = Some (Inr tools, s3)" "s2 = s1\<lparr>pending_request := False\<rparr>"
    and rest: "and_then (update_agent (\<lambda>s. case turn_inbox e of None \<Rightarrow> s | Some b \<Rightarrow> s\<lparr>world := acknowledge b (world s)\<rparr>)) (\<lambda>_ s.
     case stream_with_retry e True (request_retry e) (turn_request e tools s) s of
       None \<Rightarrow> None
     | Some (Inr r, t) \<Rightarrow> settle_round e r (t\<lparr>reauth_attempts := 0\<rparr>)
     | Some (Inl (StreamCancelled streamed), t) \<Rightarrow> and_then (keep_cut_off_text streamed) (\<lambda>_. raise CancelledError) t
     | Some (Inl (StreamOther err), t) \<Rightarrow> if is_auth_error err then wait_for_reauth e err t else Some (Inl err, t)) s3 = Some (Inr (Done reason), t)"
    using assms unfolding agent_round_def by (auto simp only: and_then_Inr run_steps)
  have "nothing_pending s3" using keepsD(1) [OF counters_small(2) [of "\<lambda>_ _ p. \<not> p"] _ s3(1)] s3(2) by simp
  define s4 where "s4 = (case turn_inbox e of None \<Rightarrow> s3 | Some b \<Rightarrow> s3\<lparr>world := acknowledge b (world s3)\<rparr>)"
  have s4: "nothing_pending s4" using \<open>nothing_pending s3\<close> by (simp add: s4_def split: option.split)
  obtain q v where st: "stream_with_retry e True (request_retry e) (turn_request e tools s4) s4 = Some (q, v)"
    using rest by (auto simp: run_steps s4_def [symmetric] split: option.splits)
  have v: "nothing_pending v" using s4 outside_same(5) [OF outside_stream [OF st]] by simp
  show ?thesis
  proof (cases q)
    case (Inr r)
    then have "settle_round e r (v\<lparr>reauth_attempts := 0\<rparr>) = Some (Inr (Done reason), t)" using rest st by (simp add: run_steps s4_def [symmetric])
    then show ?thesis by (rule settle_done) (use v in simp)
  next
    case (Inl se)
    show ?thesis
    proof (cases se)
      case (StreamCancelled streamed)
      then show ?thesis using rest st Inl by (auto simp: run_steps s4_def [symmetric] and_then_Inr raise_def)
    next
      case (StreamOther err)
      then have "wait_for_reauth e err v = Some (Inr (Done reason), t)"
        using rest st Inl by (auto simp: run_steps s4_def [symmetric] split: if_splits)
      then show ?thesis using reauth_counts(1) by blast
    qed
  qed
qed


lemma inbox_idle: "consume_instruction_inbox e s = Some (Inr False, t) \<Longrightarrow> pending_request t = pending_request s"
  by (auto simp: consume_instruction_inbox_def run_steps and_then_Inr give_def split: option.splits)

lemma children_stop:
  assumes "finish_with_children e tries reason b s = Some (Inr (Stop r), t)" "nothing_pending s"
  shows "nothing_pending t"
  using assms by (auto simp: finish_with_children_def run_steps and_then_Inr give_def raise_def ask_def split: if_splits)

lemma after_done_stop:
  assumes "after_done e tries reason s = Some (Inr (Stop r), t)" "nothing_pending s"
  shows "output_met e" "nothing_pending t"
proof -
  from assms(1) obtain x u1 where u1: "check_cancelled e s = Some (Inr x, u1)"
    and m1: "and_then (consume_instruction_inbox e) (\<lambda>consumed. if consumed then give (Again tries)
      else and_then (case turn_inbox e of None \<Rightarrow> give False | Some b \<Rightarrow> ask (has_unsubmitted b)) (\<lambda>waiting.
        if waiting then give (Again tries)
        else and_then (check_output e) (\<lambda>missing. case missing of
           Some text \<Rightarrow> recover_output e tries text
         | None \<Rightarrow> (case turn_inbox e of None \<Rightarrow> give (Stop reason) | Some b \<Rightarrow> finish_with_children e tries reason b)))) u1 = Some (Inr (Stop r), t)"
    unfolding after_done_def by (rule and_thenE)
  from m1 obtain consumed u2 where u2: "consume_instruction_inbox e u1 = Some (Inr consumed, u2)"
    and m2: "(if consumed then give (Again tries)
      else and_then (case turn_inbox e of None \<Rightarrow> give False | Some b \<Rightarrow> ask (has_unsubmitted b)) (\<lambda>waiting.
        if waiting then give (Again tries)
        else and_then (check_output e) (\<lambda>missing. case missing of
           Some text \<Rightarrow> recover_output e tries text
         | None \<Rightarrow> (case turn_inbox e of None \<Rightarrow> give (Stop reason) | Some b \<Rightarrow> finish_with_children e tries reason b)))) u2 = Some (Inr (Stop r), t)"
    by (rule and_thenE)
  have c: "\<not> consumed" using m2 by (auto simp: give_def)
  let ?rest = "\<lambda>waiting. if waiting then give (Again tries)
        else and_then (check_output e) (\<lambda>missing. case missing of
           Some text \<Rightarrow> recover_output e tries text
         | None \<Rightarrow> (case turn_inbox e of None \<Rightarrow> give (Stop reason) | Some b \<Rightarrow> finish_with_children e tries reason b))"
  obtain waiting w where "?rest waiting (u2\<lparr>world := w\<rparr>) = Some (Inr (Stop r), t)"
  proof (cases "turn_inbox e")
    case None
    then have "?rest False (u2\<lparr>world := world u2\<rparr>) = Some (Inr (Stop r), t)" using m2 c by (simp add: run_steps)
    then show thesis by (rule that)
  next
    case (Some b)
    then show thesis using m2 c that by (simp add: run_steps)
  qed
  then have "and_then (check_output e) (\<lambda>missing. case missing of
           Some text \<Rightarrow> recover_output e tries text
         | None \<Rightarrow> (case turn_inbox e of None \<Rightarrow> give (Stop reason) | Some b \<Rightarrow> finish_with_children e tries reason b)) (u2\<lparr>world := w\<rparr>) = Some (Inr (Stop r), t)"
    by (cases waiting) (simp_all add: give_def)
  then obtain missing u3 where u3: "check_output e (u2\<lparr>world := w\<rparr>) = Some (Inr missing, u3)"
    and m3: "(case missing of Some text \<Rightarrow> recover_output e tries text
         | None \<Rightarrow> (case turn_inbox e of None \<Rightarrow> give (Stop reason) | Some b \<Rightarrow> finish_with_children e tries reason b)) u3 = Some (Inr (Stop r), t)"
    by (rule and_thenE)
  have none: "missing = None"
  proof (rule ccontr)
    assume "missing \<noteq> None"
    then show False using m3
      by (auto simp: recover_output_def run_steps and_then_Inr give_def exhaustion_fails split: if_splits)
  qed
  show "output_met e" using check_output_met u3 none by blast
  let ?Q = "\<lambda>_ _ p. \<not> p"
  have "nothing_pending u1" using keepsD(1) [OF counters_small(1) [of ?Q] _ u1] assms(2) by simp
  then have "nothing_pending (u2\<lparr>world := w\<rparr>)" using u2 c inbox_idle [of e u1 u2] by simp
  then have "nothing_pending u3" using keepsD(1) [OF keeps_checks [of ?Q] _ u3] by simp
  then show "nothing_pending t" using m3 none by (auto simp: give_def dest: children_stop split: option.splits)
qed

lemma body_stop:
  assumes "loop_body e tries s = Some (Inr (Stop r), t)"
  shows "output_met e \<and> nothing_pending t"
proof -
  from assms obtain x u where m: "and_then (look (budget_spent e)) (\<lambda>spent.
     if spent then and_then (end_of_budget e) (\<lambda>r. give (Stop r))
     else and_then (agent_round e) (\<lambda>p. case p of Continue \<Rightarrow> give (Again tries) | Done reason \<Rightarrow> after_done e tries reason)) u = Some (Inr (Stop r), t)"
    unfolding loop_body_def by (rule and_thenE)
  show ?thesis
  proof (cases "budget_spent e u")
    case True
    then have "end_of_budget e u = Some (Inr r, t)" using m by (auto simp: run_steps and_then_Inr give_def)
    then show ?thesis using end_of_budget_stop by blast
  next
    case False
    then have "and_then (agent_round e) (\<lambda>p. case p of Continue \<Rightarrow> give (Again tries) | Done reason \<Rightarrow> after_done e tries reason) u = Some (Inr (Stop r), t)"
      using m by (simp add: run_steps)
    then obtain p v where p: "agent_round e u = Some (Inr p, v)"
      and f: "(case p of Continue \<Rightarrow> give (Again tries) | Done reason \<Rightarrow> after_done e tries reason) v = Some (Inr (Stop r), t)"
      by (rule and_thenE)
    obtain reason where "p = Done reason" using f by (cases p) (auto simp: give_def)
    then show ?thesis using after_done_stop [of e tries reason v r t] round_done [of e u reason v] p f by simp
  qed
qed

lemma loop_stop: "run_loop e tries s = Some (Inr reason, t) \<Longrightarrow> output_met e \<and> nothing_pending t"
proof -
  have "run_loop e tries s = Some y \<Longrightarrow> (case fst y of Inr _ \<Rightarrow> output_met e \<and> nothing_pending (snd y) | Inl _ \<Rightarrow> True)" for y
    by (induction rule: run_loop_induct) (auto dest: body_stop)
  then show "run_loop e tries s = Some (Inr reason, t) \<Longrightarrow> output_met e \<and> nothing_pending t" by fastforce
qed


section \<open>Shortening a request\<close>

lemma remove_orphans_snoc:
  assumes "role m = UserRole" "results_of m = []" "content m \<noteq> []"
  shows "fst (remove_orphans prev (ms @ [m])) = fst (remove_orphans prev ms) @ [m]"
proof (induction ms arbitrary: prev)
  case Nil
  have "keep_results ids (content m) = content m" for ids
    by (rule keep_all) (use assms(2) in \<open>simp add: results_of_def\<close>)
  then show ?case using assms(1,3) by (simp add: Let_def)
next
  case (Cons a ms)
  show ?case by (simp add: Cons.IH Let_def case_prod_beta)
qed

lemma repaired_snoc:
  "fst (remove_orphaned_tool_results (ms @ [user_says p])) = fst (remove_orphaned_tool_results ms) @ [user_says p]"
  unfolding remove_orphaned_tool_results_def
  by (rule remove_orphans_snoc) (auto simp: user_says_def plain_message_def results_of_def)

definition sendable :: "string \<Rightarrow> nat \<Rightarrow> chat_message list \<Rightarrow> bool" where
  "sendable p n ms \<longleftrightarrow> orphan_free [] ms \<and> role (hd ms) = UserRole \<and> (\<exists>front. ms = front @ [user_says p] \<and> length front < n)"

lemma drop_leading_sendable: "length ms < n \<Longrightarrow> orphan_free [] (ms @ [user_says p]) \<Longrightarrow> sendable p n (drop_leading_replies (ms @ [user_says p]))"
proof (induction "length ms" arbitrary: ms rule: less_induct)
  case less
  let ?all = "ms @ [user_says p]"
  show ?case
  proof (cases "length ?all > 1 \<and> role (hd ?all) = AssistantRole")
    case True
    then obtain a as where ms: "ms = a # as" by (cases ms) auto
    let ?rest = "fst (remove_orphaned_tool_results as)"
    have "length ?rest \<le> length as" using remove_orphans_length [of None] by (simp add: remove_orphaned_tool_results_def)
    then have "sendable p n (drop_leading_replies (?rest @ [user_says p]))"
      using less.prems ms repaired_orphan_free [of "as @ [user_says p]"] by (intro less.hyps) (simp_all add: repaired_snoc)
    then show ?thesis using True ms by (subst drop_leading_replies.simps) (simp add: repaired_snoc)
  next
    case False
    then have "role (hd ?all) = UserRole" using role_not_user [of "hd ?all"]
      by (cases ms) (auto simp: user_says_def plain_message_def)
    moreover have "drop_leading_replies ?all = ?all" using False by (subst drop_leading_replies.simps) auto
    ultimately show ?thesis using less.prems by (auto simp: sendable_def)
  qed
qed

lemma truncate_sendable:
  assumes "ms \<noteq> []"
  shows "sendable p (length ms) (truncate_oldest_round (ms @ [user_says p]))"
proof -
  obtain a as where ms: "ms = a # as" using assms by (cases ms) auto
  obtain bs where bs: "(if role a = UserRole \<and> length (as @ [user_says p]) > 1 \<and> role (hd (as @ [user_says p])) = AssistantRole
      then tl (as @ [user_says p]) else as @ [user_says p]) = bs @ [user_says p]" "length bs \<le> length as"
  proof (cases as)
    case Nil
    then show thesis using that [of "[]"] by simp
  next
    case (Cons b list)
    then show thesis using that [of list] that [of as] by (cases "role a = UserRole \<and> role b = AssistantRole") auto
  qed
  have "length (fst (remove_orphaned_tool_results bs)) < length ms"
    using remove_orphans_length [of None bs] bs(2) ms by (simp add: remove_orphaned_tool_results_def)
  then have "sendable p (length ms) (drop_leading_replies (fst (remove_orphaned_tool_results bs) @ [user_says p]))"
    using repaired_orphan_free [of "bs @ [user_says p]"] by (intro drop_leading_sendable) (simp_all add: repaired_snoc)
  then show ?thesis using ms bs(1) by (simp add: truncate_oldest_round_def Let_def repaired_snoc)
qed

section \<open>When a context counts as full\<close>

lemma percent_half: "2 * unat (percent_of t MAX_RESERVED_PERCENT) \<le> unat t"
proof -
  have "unat t * 50 div 100 = unat t div 2" by simp
  moreover have "unat t < 2 ^ 32" using unsigned_less [of t] by simp
  ultimately show ?thesis by (simp add: percent_of_def MAX_RESERVED_PERCENT_def unat_of_nat take_bit_eq_mod)
qed

lemma usable_half: "unat (context_window e) \<le> 2 * unat (usable e)" "usable e \<le> context_window e"
proof -
  have "reserved e \<le> percent_of (context_window e) MAX_RESERVED_PERCENT" by (simp add: reserved_def)
  then have "2 * unat (reserved e) \<le> unat (context_window e)"
    using percent_half [of "context_window e"] by (simp add: word_le_nat_alt)
  moreover from this have "unat (usable e) = unat (context_window e) - unat (reserved e)"
    by (simp add: usable_def unat_sub word_le_nat_alt)
  ultimately show "unat (context_window e) \<le> 2 * unat (usable e)" "usable e \<le> context_window e"
    by (simp_all add: word_le_nat_alt)
qed

end
