(* ===== verification/Loop_Properties.thy ===== *)
theory Loop_Properties
  imports Loop_Facts
begin

text \<open>
  What a turn of the agent promises: it returns, answers each tool call once, leaves no call open when it
  completes or is cancelled, stays within its limits, and shows what it keeps. The lemmas before the
  properties take a turn apart.
\<close>

section \<open>A turn taken apart\<close>

lemma run_turnE:
  assumes "run_turn e t inp s = Some (out, u)"
  obtains result v w x where "and_then (take_input e inp) (\<lambda>_. run_loop e 0) (start_run s) = Some (result, v)"
    "terminal_outcome e t result (v\<lparr>world := w\<rparr>) = Some (out, x)" "outside_only x u"
proof -
  obtain result v where r: "and_then (take_input e inp) (\<lambda>_. run_loop e 0) (start_run s) = Some (result, v)"
    using assms by (auto simp: run_turn_def split: option.splits)
  obtain w where w: "(case turn_inbox e of None \<Rightarrow> v | Some b \<Rightarrow> v\<lparr>world := close_inbox b (world v)\<rparr>) = v\<lparr>world := w\<rparr>"
  proof (cases "turn_inbox e")
    case None
    then show thesis using that [of "world v"] by simp
  qed (use that in simp)
  obtain x where "terminal_outcome e t result (v\<lparr>world := w\<rparr>) = Some (out, x)"
      "u = (if defer_outcome e then x else snd (emit_event e True (TurnOutcomeEvent out) x))"
    using assms r w by (auto simp: run_turn_def)
  with r show thesis using that outside_emit outside_update(4) by (metis (full_types))
qed

lemma outcome_cases:
  assumes "terminal_outcome e t result s = Some (out, x)"
  obtains (completed) reason where "result = Inr reason" "x = s"
      "out = Completed (this_agent e) t (total_usage (totals s)) (num_turns s) reason (total_cost (totals s)) (total_list_cost (totals s)) (context_size s) (context_window e)"
  | (cancelled) reason w where "result = Inl CancelledError" "x = (on_history (sanitize_cancelled_history (rollback_len s)) s)\<lparr>world := w\<rparr>"
      "out = Cancelled (this_agent e) t (total_usage (totals s)) (num_turns s) reason (total_cost (totals s)) (total_list_cost (totals s)) (context_size s) (context_window e)"
  | (failed) err f where "result = Inl err" "err \<noteq> CancelledError" "x = s" "from_agent_error err = Some f"
      "out = Failed (this_agent e) t (total_usage (totals s)) (num_turns s) f (total_cost (totals s)) (total_list_cost (totals s)) (context_size s) (context_window e)"
proof (cases result)
  case (Inr reason)
  then show thesis using assms completed by (auto simp: terminal_outcome_def)
next
  case (Inl err)
  show thesis
  proof (cases "err = CancelledError")
    case True
    then show thesis using assms Inl cancelled
      by (auto simp: terminal_outcome_def Let_def split: prod.splits)
  next
    case False
    then show thesis using assms Inl failed by (auto simp: terminal_outcome_def)
  qed
qed

lemma failure_kind_total: "err \<noteq> CancelledError \<Longrightarrow> from_agent_error err \<noteq> None"
  by (cases err) (simp_all add: from_agent_error_def)

lemma terminal_total: "terminal_outcome e t result s \<noteq> None"
  using failure_kind_total by (cases result) (auto simp: terminal_outcome_def Let_def split: prod.split)

lemma in_order_cancelled:
  assumes "paired h" "in_order h \<or> n < message_count h"
  shows "in_order (sanitize_cancelled_history n h)"
proof (cases "message_count h \<le> n")
  case True
  then show ?thesis using assms by (simp add: sanitize_cancelled_history_def)
next
  case False
  let ?ms = "close_dangling_tool_calls CANCEL_MARKER (as_slice h)"
  have "answered [] (?ms @ [synthetic CANCEL_MARKER])" "last_open [] (?ms @ [synthetic CANCEL_MARKER]) = []"
    using answered_plain [of "[]" ?ms "[synthetic CANCEL_MARKER]"] close_answered close_nothing_open assms(1)
    by (simp_all add: paired_def)
  moreover have "\<forall>m \<in> set (?ms @ [synthetic CANCEL_MARKER]). spoken m"
    by (rule close_cases [of CANCEL_MARKER "as_slice h"]) (use assms(1) in \<open>auto simp: paired_def spoken_def\<close>)
  ultimately show ?thesis using False by (simp add: in_order_def paired_def sanitize_cancelled_messages)
qed

lemma start_run_I: "in_order (hist s) \<Longrightarrow> in_order (hist (start_run s)) \<and> rollback_len (start_run s) \<le> message_count (hist (start_run s))"
  by (simp add: start_run_def)

lemma in_order_turn:
  assumes e: "suits e tool_free assistant_reply" and s: "in_order (hist s)" and run: "run_turn e t inp s = Some (out, u)"
  shows "paired (hist u) \<and> (is_Failed out \<or> in_order (hist u))"
proof -
  from run obtain result v w x where r: "and_then (take_input e inp) (\<lambda>_. run_loop e 0) (start_run s) = Some (result, v)"
    and tm: "terminal_outcome e t result (v\<lparr>world := w\<rparr>) = Some (out, x)" and u: "outside_only x u"
    by (rule run_turnE)
  have kept: "keeps (\<lambda>s. in_order (hist s) \<and> rollback_len s \<le> message_count (hist s))
      (\<lambda>s. paired (hist s) \<and> (in_order (hist s) \<or> rollback_len s < message_count (hist s)))
      (and_then (take_input e inp) (\<lambda>_. run_loop e 0))"
    by (rule pairing.keeps_run [OF e])
  from tm show ?thesis
  proof (cases rule: outcome_cases)
    case (completed reason)
    then have "in_order (hist v)" using keepsD(1) [OF kept start_run_I [OF s]] r by blast
    then show ?thesis using completed outside_same(1) [OF u] by (simp add: in_order_def)
  next
    case (cancelled reason w')
    have "paired (hist v) \<and> (in_order (hist v) \<or> rollback_len v < message_count (hist v))"
      using keepsD(2) [OF kept start_run_I [OF s]] r cancelled by blast
    then have "in_order (sanitize_cancelled_history (rollback_len v) (hist v))" using in_order_cancelled by blast
    then show ?thesis using cancelled outside_same(1) [OF u] by (simp add: in_order_def on_history_def)
  next
    case (failed err f)
    have "paired (hist v)" using keepsD(2) [OF kept start_run_I [OF s]] r failed by blast
    then show ?thesis using failed outside_same(1) [OF u] by simp
  qed
qed

lemma turn_total:
  assumes "bounded_failures e" "max_turns e = Some m"
  shows "\<exists>out u. run_turn e t inp s = Some (out, u)"
proof -
  have "ends (run_loop e 0)" using loop_returns [OF assms] by (simp add: ends_def)
  then have "ends (and_then (take_input e inp) (\<lambda>_. run_loop e 0))" by (intro ends_intros)
  then obtain result v where "and_then (take_input e inp) (\<lambda>_. run_loop e 0) (start_run s) = Some (result, v)"
    unfolding ends_def by (metis not_Some_eq surj_pair)
  then show ?thesis using terminal_total by (fastforce simp: run_turn_def Let_def)
qed


section \<open>An agent to try\<close>

text \<open>A model that calls a tool twice, then times out once, then answers; its world counts the requests.\<close>

definition demo_tool_call :: chat_message where
  "demo_tool_call = plain_message AssistantRole [TextBlock ''looking'', ToolUse ''a'' ''read'' ''{}'' None, ToolUse ''b'' ''list'' ''{}'' None]"

definition model_answer :: chat_message where
  "model_answer = plain_message AssistantRole [TextBlock ''all done'']"

definition demo_model :: "request \<Rightarrow> nat \<Rightarrow> ((agent_error + response) \<times> provider_event list) \<times> nat" where
  "demo_model rq w =
     (((if w = 0 \<and> req_audience rq = MainModel then Inr \<lparr>resp_message = demo_tool_call, resp_usage = no_usage, resp_stop = Some StopToolUse\<rparr>
        else if w = 1 then Inl (TimeoutError 30)
        else Inr \<lparr>resp_message = model_answer, resp_usage = no_usage, resp_stop = Some StopEndTurn\<rparr>),
       (if w = 1 then [ProviderText ''all''] else if w = 2 then [ProviderText ''all '', ProviderText ''done''] else [])), w + 1)"

definition demo_policy :: retry_policy where
  "demo_policy = \<lparr>base_delay = seconds 1, max_delay = seconds 60, max_retries = 3, max_timeout_retries = 3\<rparr>"

definition demo_setup :: "nat agent_setup" where
  "demo_setup = \<lparr>is_cancelled = (\<lambda>w. (False, w)), deliver = (\<lambda>ev w. (True, w)), adapt_images = (\<lambda>a ms w. (ms, w)),
     stream_message = demo_model, key_count = None, rotate_key = (\<lambda>w. (False, w)), jitter = (\<lambda>w. (\<lambda>n. n, w)), sleep = (\<lambda>d w. w),
     context_window = 1000, max_output_tokens = None, buffer_setting = Percent 10, compaction_instructions = None,
     post_compaction_instructions = None, compaction_system = ''summarise'', compaction_user = ''summarise'', default_retry = demo_policy,
     standard_cost = (\<lambda>u. None), billed_cost = (\<lambda>a u. None), list_cost = (\<lambda>a u. None), next_epoch = (\<lambda>w. (1, w)),
     this_agent = AgentId 1, max_turns = Some 5, max_continuation_turns = 3, auto_compact = True, request_retry = demo_policy,
     mode_defined = True, mode_name = ''build'', admitted_cwd = Some ''/w'', admitted_notice = None,
     tool_definitions = (\<lambda>w. (''[]'', w)),
     run_tool = (\<lambda>i name inp w. (if name = ''list'' then Inl ''gone'' else Inr \<lparr>done_id = i, done_tool = name, done_text = ''ok'', done_image = None, done_error = False\<rparr>, w)),
     hash_input = (\<lambda>j. 0), message_of = (\<lambda>p. user_says ''context''), system_prompt = ''be useful'', mailbox_drain = (\<lambda>w. ([], w)),
     turn_inbox = None, poll_commands = None, user_response = None, refresh_auth = (\<lambda>w. (None, w)),
     completion_check = Some (\<lambda>w. (Inr None, w)), completion_exhausted = None, reason_source = None, add_f64 = (+), defer_outcome = False\<rparr>"

definition demo_agent :: "nat agent" where
  "demo_agent = \<lparr>hist = new_history 0 [], num_turns = 0, context_size = 0, reauth_attempts = 0, pending_request = False,
     recent_calls = [], rollback_len = 0, totals = \<lparr>total_usage = no_usage, total_cost = None, total_list_cost = None\<rparr>,
     out_stream = Some (cell_output new_cell), captured = None, world = 0\<rparr>"


lemma demo_fields: "is_cancelled demo_setup w = (False, w)" "deliver demo_setup ev w = (True, w)" "adapt_images demo_setup a ms w = (ms, w)"
  "stream_message demo_setup = demo_model" "key_count demo_setup = None" "request_retry demo_setup = demo_policy"
  "context_window demo_setup = 1000" "max_turns demo_setup = Some 5" "max_output_tokens demo_setup = None" "buffer_setting demo_setup = Percent 10"
  "billed_cost demo_setup = (\<lambda>a u. None)" "list_cost demo_setup = (\<lambda>a u. None)" "this_agent demo_setup = AgentId 1"
  "max_continuation_turns demo_setup = 3" "auto_compact demo_setup" "mode_defined demo_setup" "admitted_cwd demo_setup = Some ''/w''"
  "admitted_notice demo_setup = None" "tool_definitions demo_setup w = (''[]'', w)" "mailbox_drain demo_setup w = ([], w)" "turn_inbox demo_setup = None"
  "poll_commands demo_setup = None" "completion_check demo_setup = Some (\<lambda>w. (Inr None, w))" "\<not> defer_outcome demo_setup"
  by (simp_all add: demo_setup_def)


lemma demo_stream: "stream_with_retry demo_setup True p rq s =
   Some (Inr \<lparr>resp_message = model_answer, resp_usage = no_usage, resp_stop = Some StopEndTurn\<rparr>, s\<lparr>out_stream := Some (st\<lparr>out_text := ''all done''\<rparr>), world := 3\<rparr>)"
  if "world s = 2" "req_audience rq = MainModel" "out_stream s = Some st" "out_result st = None"
  using that by (simp add: stream_with_retry_def stream_loop.simps [of demo_setup] stream_round_def attempt_request_def demo_fields demo_model_def emit_event_def Let_def
    with_stream_def accept_response_def output_defs canonicalize_tool_names_def model_answer_def plain_message_def text_blocks_def)





lemma demo_suits: "suits demo_setup tool_free assistant_reply" "suits demo_setup (\<lambda>_. True) (\<lambda>_. True)"
  by (auto simp: suits_def outside_messages_def replies_are_def honest_tools_def demo_setup_def demo_model_def tool_free_def spoken_def
    assistant_reply_def canonicalize_tool_names_def model_answer_def demo_tool_call_def plain_message_def no_tools_def results_of_def
    call_ids_def tool_uses_def user_says_def split: if_splits)

lemma demo_bounded: "bounded_failures demo_setup"
  by (auto simp: bounded_failures_def bounded_failure_def retry_kind_def is_context_overflow_def demo_setup_def demo_model_def split: if_splits)

lemma demo_start: "in_order (hist demo_agent)" "mirrored (hist demo_agent)" "max_turns demo_setup = Some 5"
  by (simp_all add: in_order_def paired_def demo_agent_def new_history_def as_slice_def mirrored_def demo_setup_def)

lemma demo_run: obtains out u where "run_turn demo_setup (TurnId 1) (new_input ''hello'' []) demo_agent = Some (out, u)"
  using turn_total [OF demo_bounded demo_start(3)] by blast

section \<open>Properties\<close>

text \<open>C1. After a turn every tool call of the history is answered exactly once, by the message right after
  it; where the turn completed or was cancelled no call is left open, so the next request is one a model
  accepts. The tools' results carry the id they were called with, and neither a summary nor a message
  from outside the turn contains calls.\<close>

theorem turn_answers_calls:
  assumes "suits e tool_free assistant_reply" "in_order (hist s)" "run_turn e t inp s = Some (out, u)"
  shows "answered [] (as_slice (hist u)) \<and> (\<not> is_Failed out \<longrightarrow> last_open [] (as_slice (hist u)) = [])"
  using in_order_turn [OF assms] by (auto simp: in_order_def paired_def)

theorem turn_answers_calls_witness:
  "\<exists>out u. run_turn demo_setup (TurnId 1) (new_input ''hello'' []) demo_agent = Some (out, u) \<and> answered [] (as_slice (hist u))"
proof -
  obtain out u where run: "run_turn demo_setup (TurnId 1) (new_input ''hello'' []) demo_agent = Some (out, u)" by (rule demo_run)
  from turn_answers_calls [OF demo_suits(1) demo_start(1) run] run show ?thesis by blast
qed

text \<open>C2. A turn with a limit on its requests returns with an outcome, whatever the model answers, the tools do
  and the host sends, as long as the model's failures draw on the bounded budgets: a stalled turn is
  nudged, logins are asked for twice, missing output is recovered, but not for ever.\<close>

theorem turn_returns:
  assumes "bounded_failures e" "max_turns e = Some m"
  shows "\<exists>out u. run_turn e t inp s = Some (out, u)"
  by (rule turn_total [OF assms])

theorem turn_returns_witness: "\<exists>out u. run_turn demo_setup (TurnId 1) (new_input ''hello'' []) demo_agent = Some (out, u)"
  by (rule turn_returns [OF demo_bounded demo_start(3)])

text \<open>C7. A session killed anywhere after a turn resumes with all it had written: whatever prefix of the history
  was saved, restoring it keeps that prefix and only answers the calls that were open; the next turn
  starts from a history in order.\<close>

theorem turn_resumable:
  assumes "suits e tool_free assistant_reply" "in_order (hist s)" "run_turn e t inp s = Some (out, u)"
  shows "let saved = take n (as_slice (hist u)); h = restored ep saved
    in prefix saved (as_slice h) \<and> as_slice h = close_dangling_tool_calls UNAVAILABLE_RESULT saved \<and> in_order h"
proof -
  let ?saved = "take n (as_slice (hist u))"
  have p: "answered [] (as_slice (hist u))" "\<forall>m \<in> set (as_slice (hist u)). role m = UserRole \<longrightarrow> content m \<noteq> []"
    using in_order_turn [OF assms] by (auto simp: paired_def spoken_def)
  note cut = sanitize_cut [OF p, of n]
  have h: "as_slice (restored ep ?saved) = sanitize_restored ?saved" by (simp add: restored_def new_history_def as_slice_def)
  have "\<forall>m \<in> set (sanitize_restored ?saved). spoken m"
    unfolding cut(1) by (rule close_cases [of UNAVAILABLE_RESULT ?saved]) (use p(2) in \<open>auto simp: spoken_def dest: in_set_takeD\<close>)
  then show ?thesis using cut sanitized(2) [of ?saved] h by (simp add: Let_def in_order_def paired_def)
qed

theorem turn_resumable_witness:
  "\<exists>out u. run_turn demo_setup (TurnId 1) (new_input ''hello'' []) demo_agent = Some (out, u)
     \<and> in_order (restored 1 (take 2 (as_slice (hist u))))"
proof -
  obtain out u where run: "run_turn demo_setup (TurnId 1) (new_input ''hello'' []) demo_agent = Some (out, u)" by (rule demo_run)
  from turn_resumable [OF demo_suits(1) demo_start(1) run, of 2 1] run show ?thesis by (auto simp: Let_def)
qed







text \<open>C10. What the turn's output shows at the end of a request is what the turn keeps: the text of the response
  when one arrived, the text that streamed in when it was cut off by a cancellation. Text of an attempt
  that failed and was retried is gone.\<close>

theorem output_shows_kept_text:
  assumes "stream_with_retry e True p rq s = Some (r, t)" "out_stream s = Some st" "out_result st = None" "kept_text r = Some x"
  shows "map_option out_text (out_stream t) = Some x"
  using shows_stream [OF assms] by (auto simp: shows_text_def split: option.splits)

theorem output_shows_kept_text_witness:
  "\<exists>r t. stream_with_retry demo_setup True demo_policy (turn_request demo_setup ''[]'' demo_agent) (demo_agent\<lparr>world := 2\<rparr>) = Some (Inr r, t)
     \<and> map_option out_text (out_stream t) = Some ''all done''"
proof -
  have o: "out_stream (demo_agent\<lparr>world := 2\<rparr>) = Some (cell_output new_cell)" "out_result (cell_output new_cell) = None"
    by (simp_all add: demo_agent_def new_cell_def)
  obtain r t where run: "stream_with_retry demo_setup True demo_policy (turn_request demo_setup ''[]'' demo_agent) (demo_agent\<lparr>world := 2\<rparr>) = Some (Inr r, t)"
    and r: "resp_message r = model_answer"
    using demo_stream [of "demo_agent\<lparr>world := 2\<rparr>", OF _ _ o] by (simp add: turn_request_def)
  have "kept_text (Inr r) = Some ''all done''" using r by (simp add: text_blocks_def model_answer_def plain_message_def)
  from output_shows_kept_text [OF run o this] run show ?thesis by blast
qed

text \<open>C11. The check against loops refuses exactly the calls that repeat the two calls before them, across
  messages; the others run in their order and each call gets one result.\<close>

theorem doom_loop_reference:
  "split_calls hash (rev (take 3 past)) calls =
     (map fst (filter (\<lambda>(c, stuck). \<not> stuck) (zip calls (stuck_calls hash past calls))),
      map (\<lambda>(c, _). tool_error (fst c) DOOM_LOOP_MESSAGE) (filter snd (zip calls (stuck_calls hash past calls))),
      rev (take 3 (rev (map (call_key hash) calls) @ past)))"
  by (rule split_calls_reference)





text \<open>C26. Whatever was saved, a restored history is well formed: no user message is empty or holds a result
  without its call in the message before, no call at its end is open; restoring again changes nothing.\<close>

theorem restored_history_valid:
  "orphan_free [] (as_slice (restored ep ms)) \<and> last_open [] (as_slice (restored ep ms)) = []
     \<and> as_slice (restored ep' (as_slice (restored ep ms))) = as_slice (restored ep ms)"
  by (simp add: restored_def new_history_def as_slice_def sanitized sanitize_idem)



text \<open>C28. Through a whole turn the mirror of the history shows it as it is, so what a consumer reads at the end
  is what the next turn starts from.\<close>

theorem mirror_follows_turn:
  assumes "honest_tools e" "mirrored (hist s)" "run_turn e t inp s = Some (out, u)"
  shows "mirrored (hist u)"
proof -
  have e: "suits e (\<lambda>_. True) (\<lambda>_. True)" using assms(1) by (simp add: suits_def outside_messages_def replies_are_def)
  from assms(3) obtain result v w x where r: "and_then (take_input e inp) (\<lambda>_. run_loop e 0) (start_run s) = Some (result, v)"
    and tm: "terminal_outcome e t result (v\<lparr>world := w\<rparr>) = Some (out, x)" and u: "outside_only x u"
    by (rule run_turnE)
  have "mirrored (hist (start_run s)) \<and> rollback_len (start_run s) \<le> message_count (hist (start_run s))"
    using assms(2) by (simp add: start_run_def)
  note kept = keepsD [OF mirroring.keeps_run [OF e] this]
  have v: "mirrored (hist v)" using kept r by (cases result) blast+
  from tm have "mirrored (hist x)"
    by (rule outcome_cases) (use v in \<open>auto simp: on_history_def sanitize_cancelled_history_def edit_mirrored\<close>)
  then show ?thesis using outside_same(1) [OF u] by simp
qed

theorem mirror_follows_turn_witness:
  "\<exists>out u. run_turn demo_setup (TurnId 1) (new_input ''hello'' []) demo_agent = Some (out, u) \<and> mirrored (hist u)"
proof -
  obtain out u where run: "run_turn demo_setup (TurnId 1) (new_input ''hello'' []) demo_agent = Some (out, u)" by (rule demo_run)
  from mirror_follows_turn [OF suitsD(4) [OF demo_suits(1)] demo_start(2) run] run show ?thesis by blast
qed

text \<open>C30. A request the model refuses for its size is not retried: the refusal ends it at once, with the error a
  compaction shortens its request for.\<close>

theorem size_refusal_ends_request:
  assumes "fst (fst (stream_message e rq (world s))) = Inl err" "is_context_overflow err"
  shows "\<exists>t. stream_loop e out rq n retry s = Some (Inl (StreamOther err), t)"
proof -
  obtain status msg d where err: "err = Api status msg d" "status = 400 \<or> status = 413"
    using assms(2) overflow_status by (cases err) (auto simp: is_context_overflow_def simp del: overflow.simps(1))
  have k: "\<not> should_rotate_key err" "err \<noteq> CancelledError" using err by auto
  obtain result streamed u where at: "attempt_request e out rq s = (result, streamed, u)" by (cases "attempt_request e out rq s") auto
  then have "result = Inl err" using assms(1) by (auto simp: attempt_request_def Let_def case_prod_beta)
  note at = at [unfolded this]
  have "stream_round e out rq n retry s = (StreamEnd (Inl (StreamOther err)), u\<lparr>world := world u\<rparr>)"
    using k overflow_not_retried [OF assms(2)] by (simp add: stream_round_def at book_failure_def)
  then show ?thesis by (subst stream_loop.simps) simp
qed

definition refusing_setup :: "nat agent_setup" where
  "refusing_setup = demo_setup\<lparr>stream_message := (\<lambda>rq w. ((Inl (Api 413 ''too large'' None), []), w + 1))\<rparr>"

theorem size_refusal_ends_request_witness:
  "\<exists>t. stream_loop refusing_setup True (turn_request refusing_setup ''[]'' demo_agent) 0 (new_retry demo_policy 1) demo_agent
     = Some (Inl (StreamOther (Api 413 ''too large'' None)), t)"
proof (rule size_refusal_ends_request)
  have "is_context_overflow (Api 413 m d)" for m d by (simp add: is_context_overflow_def Let_def split: option.split)
  then show "is_context_overflow (Api 413 ''too large'' None)" .
qed (simp add: refusing_setup_def)

end
