(* ===== verification/Spec2Isabelle.thy ===== *)
theory Spec2Isabelle
  imports Cancel_Tokens Actor_Settling Actor_Wakeup Actor_Capacity Actor_Batches Manager_Properties Permission_Properties Loop_Properties
begin

text \<open>
  Verification library of makima's agent runtime.

  \<^bold>\<open>The program.\<close> makima (\<^verbatim>\<open>src/\<close>) is a terminal coding agent written in Rust. Its runtime,
  \<^verbatim>\<open>maki-agent\<close>, runs each agent as an actor: a host (terminal, Lua plugin or protocol server) admits
  turns, controls and compactions through a handle, one runner task per actor executes them one at a
  time through a backend, the agent's loop, that asks a model, runs the tools it calls and asks again, and every admitted turn is settled with exactly one
  outcome that the holder of its ticket can wait for. The agents of a session form a tree that one
  manager keeps: it reserves children within limits, cancels and closes subtrees and remembers how agents
  ended, and children report their results to their parents. Every tool call of an agent passes the
  session's permission manager, which decides by rules from configuration files and by the answers of the
  user. This library models these parts and proves what their users rely on.

  \<^bold>\<open>Theories.\<close>
  \<^item> \<open>Prelude\<close>: 64- and 32-bit integers, hash maps as association lists (locale \<open>hash_map\<close>, interpreted
    on them), slots that are written once (locale \<open>write_once\<close>), decimal numerals.
  \<^item> \<open>Turn_Types\<close>: ids, token usage, outcomes, work identities, modes, configurations, the mode ceiling,
    errors and run correlations (\<^verbatim>\<open>maki-agent/src/types.rs\<close>, \<^verbatim>\<open>lib.rs\<close>, \<^verbatim>\<open>actor/types.rs\<close>,
    \<^verbatim>\<open>actor/context.rs\<close>, \<^verbatim>\<open>actor/config.rs\<close>, \<^verbatim>\<open>actor/actor_error.rs\<close>).
  \<^item> \<open>Cancel_Tokens\<close>: checkpoint publications (\<^verbatim>\<open>maki-storage/src/checkpoint.rs\<close>), reasoned tokens, the
    tree of cancellation tokens and the keyed registry (\<^verbatim>\<open>maki-agent/src/cancel.rs\<close>).
  \<^item> \<open>Turn_Tickets\<close>: tickets, the output stream of a turn, sealing and resolving
    (\<^verbatim>\<open>actor/tickets.rs\<close>). \<open>Turn_Inbox\<close>: the instruction inbox of one turn (\<^verbatim>\<open>actor/inbox.rs\<close>).
    \<open>Actor_Queue\<close>: the work queue (\<^verbatim>\<open>actor/queue.rs\<close>), with the FIFO contract as a locale.
  \<^item> \<open>Actor_State\<close>, \<open>Actor_Ops\<close>, \<open>Actor_Admission\<close>: the actor's state and the operations of its handle
    (\<^verbatim>\<open>actor/mod.rs\<close>, \<^verbatim>\<open>actor/idle.rs\<close>, parts of \<^verbatim>\<open>actor/prepared.rs\<close>): driving the operation FIFO,
    retiring and publishing turns, admission, submission, removal, cancellation by turn, by correlation
    and of everything, closing, idle reservations.
  \<^item> \<open>Actor_Delivery\<close>: child results and the running turn's inbox (\<^verbatim>\<open>actor/delivery.rs\<close>,
    \<^verbatim>\<open>actor/inbox.rs\<close>). \<open>Actor_Runner\<close>: the runner (\<^verbatim>\<open>actor/runner.rs\<close>) and the step relation of host
    and runner.
  \<^item> \<open>Actor_Accounting\<close>, \<open>Actor_Lifecycle\<close>, \<open>Actor_Order\<close>, \<open>Actor_Settling\<close>, \<open>Actor_Wakeup\<close>,
    \<open>Actor_Capacity\<close>, \<open>Actor_Batches\<close>: the invariants of that step relation, one concern per theory.
  \<^item> \<open>Agent_Forest\<close>: forests given by parent pointers, child lists and depths, as a locale with the laws
    of its walks. \<open>Agent_Graph\<close>: the manager of a session (\<^verbatim>\<open>maki-agent/src/manager/mod.rs\<close>,
    \<^verbatim>\<open>manager/types.rs\<close>, \<^verbatim>\<open>manager_error.rs\<close>): nodes, creations, authorities of turns, cancelling, closing, shutdown,
    reclaiming, references.
  \<^item> \<open>Agent_Tree\<close>, \<open>Agent_Reach\<close>, \<open>Agent_Ages\<close>, \<open>Agent_Actors\<close>, \<open>Agent_Laws\<close>: the invariant of the
    graph (it interprets the forest locale), that every step keeps it, what only ever grows older, the
    actors inside the graph (locale \<open>closing_cell\<close>, interpreted on the actor model) and the laws of the
    operations. \<open>Agent_Fixtures\<close>: a running manager for the witnesses. \<open>Manager_Properties\<close>: the
    properties of the manager.
  \<^item> \<open>Path_Resolution\<close>: a Unix file system with directories, files and symbolic links, the system's walk
    of a path, and the path functions the permission checks use (\<^verbatim>\<open>maki-storage/src/paths.rs\<close>).
    \<open>Path_Laws\<close>: where these functions agree with the system.
  \<^item> \<open>Permission_Rules\<close>, \<open>Permission_Checks\<close>: tool keys, rules, scope patterns, answers
    (\<^verbatim>\<open>maki-config/src/lib.rs\<close>, \<^verbatim>\<open>maki-agent/src/permissions.rs\<close>), the check, the answer channel and what
    an answer changes. \<open>Permission_Config\<close>: the permission files, read, restricted, combined and written.
    \<open>Permission_Laws\<close>, \<open>Permission_Files\<close>: their lemmas. \<open>Permission_Properties\<close>: their properties.
  \<^item> \<open>Rust_Text\<close>: the string functions of the standard library the code uses.
    \<open>Provider_Errors\<close>: the errors of a request, which of them are retried, and the budgets and delays of
    retrying (\<^verbatim>\<open>maki-providers/src/error.rs\<close>, \<^verbatim>\<open>retry.rs\<close>).
  \<^item> \<open>Chat_Messages\<close>: messages (\<^verbatim>\<open>maki-providers/src/types.rs\<close>) and the history of a conversation
    (\<^verbatim>\<open>maki-agent/src/agent/history.rs\<close>): appending, rewriting under a new epoch, the mirror, and the repair
    of a restored or cancelled history. \<open>Chat_Laws\<close>: calls and results, what the repairs establish, epochs.
  \<^item> \<open>Agent_Requests\<close>: the state of a running agent and one request with its retries
    (\<^verbatim>\<open>agent/streaming.rs\<close>). \<open>Agent_Compaction\<close>: \<^verbatim>\<open>agent/compaction.rs\<close>. \<open>Agent_Loop\<close>: a whole turn
    (\<^verbatim>\<open>agent/run.rs\<close>, \<^verbatim>\<open>process_tool_calls\<close> of \<^verbatim>\<open>agent/tool_dispatch.rs\<close>).
  \<^item> \<open>Agent_Run_Laws\<close>: rules for what a run keeps and that it returns. \<open>Loop_Laws\<close>: the locale
    \<open>conversation\<close>, what each message a turn may add does to a property of the history, interpreted on calls that
    are answered and on the mirror. \<open>Loop_Ends\<close>: requests and turns return. \<open>Loop_Facts\<close>: what the output shows,
    when a turn may complete, refused calls, compaction. \<open>Loop_Properties\<close>: the properties of a turn.

  \<^bold>\<open>State and steps.\<close> An \<open>actor\<close> record holds what \<^verbatim>\<open>ActorInner\<close> holds: the locked \<^verbatim>\<open>ActorState\<close>
  (field \<open>state\<close>), the queue with its notification flag, the tables of outcomes and tickets, the ticket
  cells, the tokens of running work and the events sent to observers. Each definition is one critical
  section under the state lock; a handle operation that captures a cut under the lock and settles it
  afterwards is one step of the model, so the settling of a cut is not interleaved with other steps.
  Fresh turn ids are arguments, constrained to be unused. The runner is a program counter
  (\<open>runner_pc\<close>) over the sections of \<^verbatim>\<open>runner.rs\<close> between two awaits; \<open>actor_step\<close> interleaves its
  steps with any host operation, with the operations a running turn performs on its inbox, and with the
  clock. What the backend returns, the length of serialised JSON, the rendering of a child result, the
  policy constraints and the admission preparation are parameters: arguments of the definitions, with no
  assumption on them. Events and waiters other than the runner re-read the state and are not modelled.

  A \<open>manager\<close> record holds what \<^verbatim>\<open>AgentManagerInner\<close> holds: the limits, the locked graph (nodes, the
  authorities of executing turns, counters, the shutdown flag), a store of the actors its nodes point
  into with the program counter of each actor's runner, which runners were awaited, and the terminal
  snapshots that references keep. An operation that works under the graph lock and then on the actors it
  collected is one step; a creation is split where the code awaits (reservation, factory, commit, install,
  abort, publication). \<open>creation_step\<close> and \<open>manager_step\<close> interleave these with the host and runner of
  every actor, and \<open>system\<close> says which states are reached. The permission manager is the record
  \<open>permission_manager\<close> of its rules, allowances and flags; \<open>desk\<close> adds the calls that wait for an answer and the
  queue of the answer channel, and \<open>desk_step\<close> interleaves concurrent calls with what arrives on it. The
  file system, the working and home directories and the system's bound on links are the environment
  \<open>env\<close>, fixed during a run; parsing TOML text is a library and not modelled: a permission file is its table.

  A run of the agent is a function on an \<open>agent\<close> record (what the code keeps in \<^verbatim>\<open>Agent\<close> and its ledger),
  which carries the state of the world outside; its result is an error or a value, and \<open>None\<close> when it does
  not return. What leaves the agent (the model, the tools, the inbox, the event channel, the cancellation
  token, the clock, random draws) is a function of that world given by the record \<open>surroundings\<close> and its extensions
  \<open>compaction_setup\<close> and \<open>agent_setup\<close>, with no assumption on it: between two steps of the agent anything may
  have happened outside. Tool calls run concurrently in the code and one after the other in the model;
  since each may change the world in any way, this loses no outcome. The inbox that \<open>Turn_Inbox\<close> and
  \<open>Actor_Delivery\<close> model is one such outside part here.

  \<^bold>\<open>What is shown.\<close> Every live turn is in exactly one place and an exited runner leaves none behind;
  the first terminal lifecycle is final; a live ticket is unresolved, and closing or cancelling resolves
  every waiting one with its reason; queued work is never stranded, while a pending child result can be
  (a finding); turns are served in order; instructions, tickets, outcomes and child results stay within
  their limits; results are consumed in order and delivered at most once; cancellation reaches every
  token below a fired one, and a publication is either cancelled or made, never both.

  The graph of agents is a tree within its limits whatever is interleaved, its actors are in states a lone
  actor can reach, closing a subtree closes exactly its agents, a cancelled turn has no authority left,
  shutting down and retiring are final, and rolling a reservation back undoes it. A denial wins over
  everything else; a call that asks is granted only by an answer that names it; each session rule comes
  from such an answer; two names of one file have one key; the file of an untrusted folder only narrows
  what is allowed; a rule that was written is read again and none is lost. Two theorems state what the
  code does against its comments: a dangling link leads a write out of the project
  (\<open>dangling_link_escapes\<close>), and a remembered star covers every command (\<open>star_command_is_blank_cheque\<close>).

  After a turn of the agent each tool call is answered once by the next message and none is open unless the
  turn failed, so any saved prefix of its history can be restored without loss; a turn under a limit
  returns, within the limit, and completes only when its required output was given and no accepted
  instruction is left; its output shows what it keeps; calls that loop are refused, a compaction changes
  the history completely or not at all, a request refused for its size is not repeated as it was. The
  hypotheses on the outside are those of \<open>suits\<close>: a tool's result carries the id it was started with, a reply
  of the model is an assistant message without results, a request without tools is answered without
  calls, messages from outside contain neither calls nor results and are not empty.

  \<^bold>\<open>Termination.\<close> Every definition is total: the driver loop of \<^verbatim>\<open>drive_operations\<close> terminates because
  each round shortens the FIFO, the token walks because a parent is older than its child and because
  each round marks one more token. The walks over the graph of agents are \<open>partial_function (option)\<close>,
  because the code's loops would run forever on a graph with a cycle; \<open>subtree_walk_ends\<close> proves that on
  every reachable graph they return. Requests and the agent's loop are \<open>partial_function (option)\<close> too, since the
  code retries some failures for ever: \<open>stream_loop_returns\<close> proves that a request returns when its failures
  draw on the bounded budgets, by what is left of them, and \<open>turn_returns\<close> that a turn with a limit does, by the
  requests and logins that are left. Reclaiming ends because each round removes a node. The system's walk
  of a path is bounded by the number of links the system follows (\<open>env_max_links\<close>, an argument; the
  system's own failure when it is exceeded is a result) and by the number of components. No other fuel
  is used.

  \<^bold>\<open>Not modelled.\<close> The commit of prepared configuration changes and history edits
  (\<^verbatim>\<open>actor/prepared.rs\<close>, \<^verbatim>\<open>actor/history_edit.rs\<close>: their reservation, readiness and cancellation are
  modelled, their commit is not, so no modelled operation installs a history edit),
  the running of one tool with its hooks (\<^verbatim>\<open>agent/tool_dispatch.rs\<close>), the tools, MCP, the clients of the
  model services, the adaptation of images, instruction files, storage formats, the Lua runtime, the terminal interface and
  the protocol servers: they are effects on the outside that the agent's loop only observes. Of the manager: observers,
  waiting for a subtree, prompt waits and the permits a running turn holds. Of permissions: Windows paths,
  log and error texts, the other settings of the configuration files.
\<close>

section \<open>Fixtures of the witnesses\<close>

text \<open>\<open>stall_waiting\<close> is a freshly spawned actor with one admitted turn that waits for its preparation,
  \<open>stall_pending\<close> the same actor with a child result pending; both come from \<open>Actor_Wakeup\<close>.\<close>

lemma waiting_actor_simps: "waiting_line stall_waiting = [TurnId 5]" "lifecycle (state stall_waiting) = Open"
  "actor_agent stall_waiting = AgentId 0" "hm_keys (tickets stall_waiting) = [TurnId 5]"
  by (simp_all add: waiting_line_def stall_waiting_def spawn_actor_def idle_state_def stall_ticket_def new_queue_def)

lemma exited_reachable: "reachable (consume_wake (close (stall_pending False)), Exited)"
proof -
  have "reachable (close (stall_pending False), Waiting)"
    by (rule reach_step [OF stall_parked_reachable]) (rule step_host, rule host_close)
  then show ?thesis by (rule reach_step) (rule closing_exits, simp add: stall_pending_simps)
qed

text \<open>\<open>idle_actor\<close> is freshly spawned and parked; \<open>queued_actor\<close> has received one control command since.\<close>

definition idle_actor :: actor where
  "idle_actor = spawn_actor (AgentId 0) 0 False None None False 0"

definition queued_actor :: actor where
  "queued_actor = projr (push_control ''c'' ''r1'' None idle_actor)"

lemma idle_run: "runner_pop t idle_actor = (None, idle_actor)" "runner_drained idle_actor = idle_actor"
  "lifecycle (state idle_actor) = Open"
  by (simp_all add: idle_actor_def runner_pop_def schedule_def schedule_ready_def pop_work_def q_pop_def runner_drained_def
    on_state_def spawn_actor_def idle_state_def new_queue_def)

lemma idle_parked: "reachable (idle_actor, Waiting)"
proof -
  have "fresh_turn (TurnId 5) idle_actor" by (simp add: fresh_turn_def hm_contains_def idle_actor_def spawn_actor_def)
  from step_drained [OF this idle_run(1)] have "actor_step (idle_actor, AtPop) (idle_actor, Waiting)" by (simp add: idle_run)
  moreover have "reachable (idle_actor, AtPop)" by (simp add: idle_actor_def reach_spawn)
  ultimately show ?thesis by (blast intro: reach_step)
qed

lemma queued_step: "push_control ''c'' ''r1'' None idle_actor = Inr queued_actor" "items (queue queued_actor) \<noteq> []" "idle (state queued_actor) = None"
proof -
  have "\<exists>b. push_control ''c'' ''r1'' None idle_actor = Inr b \<and> items (queue b) \<noteq> [] \<and> idle (state b) = None"
    by (simp add: push_control_def idle_actor_def spawn_actor_def idle_state_def new_queue_def next_operation_def push_operation_def
      reserve_presentation_def drive_operations.simps drive_loop.simps on_state_def on_queue_def Let_def materialize.simps q_push_def notify_def
      pop_operation_def set_preparing_def has_pending_work_def q_is_empty_def)
  then show "push_control ''c'' ''r1'' None idle_actor = Inr queued_actor" "items (queue queued_actor) \<noteq> []" "idle (state queued_actor) = None"
    by (auto simp: queued_actor_def)
qed

lemma queued_parked: "reachable (queued_actor, Waiting)"
  by (rule reach_step [OF idle_parked]) (rule step_host, rule host_control [OF queued_step(1)])

section \<open>Properties of the actor\<close>

text \<open>C3. In every reachable state, whatever the interleaving of the host with the runner, every turn
  with a live ticket is in exactly one place: the runner has it in hand, or it stands in the waiting
  line (queue, then operation FIFO) exactly once; and no turn without a live ticket is anywhere.\<close>

theorem turns_accounted:
  assumes "reachable (a, pc)"
  shows "mset (pc_turns pc) + mset (waiting_line a) = mset (hm_keys (tickets a)) \<and> distinct (hm_keys (tickets a))"
  using reachable_ok [OF assms] by (simp_all add: turns_ok_def live_turns_def waiting_line_def)

theorem turns_accounted_witness:
  "reachable (stall_waiting, AtPop) \<and> mset (pc_turns AtPop) + mset (waiting_line stall_waiting) = mset (hm_keys (tickets stall_waiting))
     \<and> waiting_line stall_waiting = [TurnId 5]"
  using turns_accounted [OF stall_waiting_reachable] stall_waiting_reachable waiting_actor_simps(1) by simp



text \<open>C13. Closing a parked actor always gets the runner out: the close raises a wake-up, and the runner's
  next step is its exit.\<close>

theorem close_ends_runner:
  assumes "reachable (a, Waiting)" "lifecycle (state a) = Open"
  shows "wake_pending (close a) \<and> actor_step (close a, Waiting) (consume_wake (close a), Exited)"
  using closing_wakes(1) [OF assms(2)] closing_exits [OF assms(2)] by blast

theorem close_ends_runner_witness:
  "reachable (stall_pending False, Waiting) \<and> wake_pending (close (stall_pending False))"
  using close_ends_runner [OF stall_parked_reachable] stall_parked_reachable by (simp add: stall_pending_simps)

text \<open>C14. The first terminal lifecycle is final: no step of host or runner reopens an actor, and a
  closed actor is never turned into a shut-down one or the other way round.\<close>

theorem lifecycle_final:
  assumes "reachable (a, pc)" "actor_step (a, pc) (b, pc')" "lifecycle (state a) \<noteq> Open"
  shows "lifecycle (state b) = lifecycle (state a)"
  using actor_step_tame [OF assms(2)] reachable_ok [OF assms(1)] assms(3) by (auto simp: tame_def)

theorem lifecycle_final_witness:
  "lifecycle (state (shutdown (consume_wake (close (stall_pending False))))) = lifecycle (state (consume_wake (close (stall_pending False))))"
  by (rule lifecycle_final [OF exited_reachable step_host [OF host_shutdown]]) (use exited_no_turns(1) [OF exited_reachable] in simp)

text \<open>The ticket of a live turn is unresolved in every reachable state: no holder reads an outcome
  before the turn is settled.\<close>

theorem live_tickets_unresolved:
  assumes "reachable (a, pc)" "hm_contains (tickets a) t"
  shows "peek (cells a t) = None"
  using reachable_unresolved [OF assms(1)] assms(2) by (auto simp: unresolved_def hm_contains_iff)

theorem live_tickets_unresolved_witness: "hm_contains (tickets stall_waiting) (TurnId 5) \<and> peek (cells stall_waiting (TurnId 5)) = None"
  using live_tickets_unresolved [OF stall_waiting_reachable, of "TurnId 5"] waiting_actor_simps(4)
  by (metis hm_contains_iff list.set_intros(1) list.set_map)

text \<open>Closing an open actor settles the whole waiting line: every waiting turn's ticket resolves to a
  cancellation with the reason Closed, no other ticket cell changes, and nothing keeps waiting.\<close>

theorem close_settles_waiting:
  assumes "reachable (a, pc)" "lifecycle (state a) = Open"
  shows "(\<forall>t \<in> set (waiting_line a). peek (cells (close a) t) = Some (cancelled_outcome (actor_agent a) t Closed_reason))
     \<and> (\<forall>t. t \<notin> set (waiting_line a) \<longrightarrow> cells (close a) t = cells a t) \<and> waiting_line (close a) = []"
  using close_settles(1) [OF reachable_ok [OF assms(1)] reachable_unresolved [OF assms(1)]] assms(2)
  by (simp add: settles_to_def)

theorem close_settles_waiting_witness:
  "peek (cells (close stall_waiting) (TurnId 5)) = Some (cancelled_outcome (AgentId 0) (TurnId 5) Closed_reason)"
  using close_settles_waiting [OF stall_waiting_reachable] by (simp add: waiting_actor_simps)

text \<open>C15. Cancelling the existing work settles the whole waiting line with the reason User and leaves the
  tickets of turns that were not waiting alone; the line is empty afterwards.\<close>

theorem cancel_settles_waiting:
  assumes "reachable (a, pc)"
  shows "(\<forall>t \<in> set (waiting_line a). peek (cells (cancel_existing a) t) = Some (cancelled_outcome (actor_agent a) t User))
     \<and> (\<forall>t. t \<notin> set (waiting_line a) \<longrightarrow> cells (cancel_existing a) t = cells a t) \<and> waiting_line (cancel_existing a) = []"
  using cancel_existing_settles [OF reachable_ok [OF assms(1)] reachable_unresolved [OF assms(1)]]
  by (simp add: settles_to_def)

theorem cancel_settles_waiting_witness:
  "peek (cells (cancel_existing stall_waiting) (TurnId 5)) = Some (cancelled_outcome (AgentId 0) (TurnId 5) User)"
  using cancel_settles_waiting [OF stall_waiting_reachable] by (simp add: waiting_actor_simps)

text \<open>C35. No lost wake-up: whenever the runner is parked while a piece of work could be popped, a
  notification is pending.\<close>

theorem no_lost_wakeup:
  assumes "reachable (a, Waiting)" "fst (pop_work a) \<noteq> None"
  shows "wake_pending a"
  using waiting_is_woken [OF assms(1)] assms(2) by (simp add: poppable_def)

theorem no_lost_wakeup_witness: "reachable (queued_actor, Waiting) \<and> wake_pending queued_actor"
  using no_lost_wakeup [OF queued_parked] queued_parked queued_step(2,3) poppable_iff [of queued_actor] by (simp add: poppable_def)

text \<open>C36. A pending child result can be stranded: there is a reachable state in which the runner is
  parked, a continuation for the pending results could be scheduled, and no wake-up is pending. It
  arises when the last waiting operation is removed while the runner is parked.\<close>

theorem pending_result_can_stall: "\<exists>a. reachable (a, Waiting) \<and> schedule_ready a \<and> \<not> wake_pending a"
  by (rule stall_reachable)

text \<open>C37. The instruction inboxes of an actor together never hold more than 64 messages or 256 KiB that
  the model has not seen, in any reachable state.\<close>

theorem instructions_bounded:
  assumes "reachable (a, pc)"
  shows "fst (total_outstanding (state a)) \<le> 64 \<and> snd (total_outstanding (state a)) \<le> 262144"
  using reachable_inboxes [OF assms]
  by (simp add: inboxes_ok_def total_outstanding_eq MAX_PENDING_INSTRUCTIONS_def MAX_PENDING_INSTRUCTION_BYTES_def)

theorem instructions_bounded_witness: "reachable (stall_waiting, AtPop) \<and> fst (total_outstanding (state stall_waiting)) \<le> 64"
  using instructions_bounded [OF stall_waiting_reachable] stall_waiting_reachable by simp



text \<open>First come, first served: a turn admitted by \<open>admit_turn_with_options\<close> whose correlation was not
  cancelled in advance joins the end of the waiting line, and the order of the turns before it is kept,
  even though admission may at once move operations from the FIFO to the queue.\<close>

theorem admission_is_fifo:
  assumes "admit_turn_with_options jl t input sender corr opts a = Inr (b, tk)" "hm_get (cancelled_correlations (state a)) corr = None"
  shows "waiting_line b = waiting_line a @ [t]"
  using assms(1) by (auto simp: admit_turn_with_options_def intro: enter_turn_line [OF _ assms(2)] split: option.splits if_splits prod.splits)

theorem admission_is_fifo_witness: "waiting_line stall_waiting = waiting_line (spawn_actor (AgentId 0) 0 False None None True 0) @ [TurnId 5]"
  by (rule admission_is_fifo [OF stall_step_admit]) (simp add: spawn_actor_def idle_state_def)

text \<open>Driving the operation FIFO never reorders, drops or duplicates a turn.\<close>

theorem drive_keeps_order: "waiting_line (drive_operations a) = waiting_line a"
  by (rule drive_line)

text \<open>Pending child results are bounded in every reachable state: at most 64, at most 256 KiB of
  rendered previews, each at most 16 KiB; the arrival order lists exactly the pending results, once.\<close>

theorem deliveries_bounded:
  assumes "reachable (a, pc)"
  shows "length (deliveries (state a)) \<le> 64 \<and> pending_bytes (deliveries (state a)) \<le> 262144
     \<and> (\<forall>(i, p) \<in> set (deliveries (state a)). pd_bytes p \<le> 16384)
     \<and> distinct (delivery_order (state a)) \<and> set (delivery_order (state a)) = set (hm_keys (deliveries (state a)))"
  using reachable_ledger [OF assms]
  by (auto simp: ledger_ok_def ledger_def sizes_def delivery_limits pending_bytes_def comp_def case_prod_beta image_image)

theorem deliveries_bounded_witness: "reachable (stall_pending True, AtPop) \<and> length (deliveries (state (stall_pending True))) \<le> 64"
  using deliveries_bounded [OF stall_pending_reachable] stall_pending_reachable by simp

text \<open>When a continuation is due, scheduling opens a run whose batch is a non-empty prefix of the
  arrival order with at most 8 results and at most 32 KiB.\<close>

theorem continuation_batch:
  assumes "reachable (a, pc)" "schedule_ready a"
  shows "\<exists>batch rest. delivery_runs (state (schedule t a)) = [(t, batch)] \<and> batch \<noteq> [] \<and> length batch \<le> 8
     \<and> delivery_order (state a) = batch @ rest \<and> batch_bytes (deliveries (state a)) batch \<le> 32768"
proof -
  have "deliveries (state a) \<noteq> []" using assms(2) by (simp add: schedule_ready_def)
  note b = scheduled_batch_props [OF reachable_ledger [OF assms(1), simplified] this]
  from b(4) obtain rest where r: "delivery_order (state a) = scheduled_batch a @ rest" by blast
  show ?thesis by (intro exI conjI, rule schedule_runs [OF assms(2)]) (use b(1-3) r in \<open>simp_all add: delivery_limits\<close>)
qed

theorem continuation_batch_witness:
  "\<exists>batch rest. delivery_runs (state (schedule (TurnId 9) (snd (remove (TurnId 5) (stall_pending False))))) = [(TurnId 9, batch)] \<and> batch \<noteq> []"
  using continuation_batch [OF reach_step [OF stall_parked_reachable step_host, OF host_remove]] stall_ready by blast

text \<open>A run consumes its results in arrival order: what \<open>commit_deliveries\<close> hands to the model are the
  messages of a prefix of the arrival order, at most 8 and at most 32 KiB, taken from the run's batch,
  and exactly the rest stays in the order.\<close>

theorem commit_in_order:
  assumes "reachable (a, pc)"
  shows "\<exists>taken rest. delivery_order (state a) = taken @ rest
     \<and> fst (commit_deliveries t a) = map (\<lambda>i. pd_message (the (hm_get (deliveries (state a)) i))) taken
     \<and> delivery_order (state (snd (commit_deliveries t a))) = rest
     \<and> length taken \<le> 8 \<and> batch_bytes (deliveries (state a)) taken \<le> 32768
     \<and> (\<forall>batch. hm_get (delivery_runs (state a)) t = Some batch \<longrightarrow> set taken \<subseteq> set batch)"
proof -
  have o: "distinct (delivery_order (state a))" "set (delivery_order (state a)) \<subseteq> fst ` set (deliveries (state a))"
    using reachable_ledger [OF assms] by (auto simp: ledger_ok_def ledger_def sizes_def case_prod_beta image_image)
  have none: ?thesis if "commit_deliveries t a = ([], a)"
    using that by (intro exI [of _ "[]"] exI [of _ "delivery_order (state a)"]) (simp add: batch_bytes_def)
  show ?thesis
  proof (cases "commit_deliveries t a = ([], a)")
    case False
    then have "commit_deliveries t a = commit_loop t (hm_get (delivery_runs (state a)) t) 0 0 (delivery_order (state a)) a"
      by (auto simp: commit_deliveries_def Let_def split: if_splits)
    with commit_loop_prefix [OF o, of t "hm_get (delivery_runs (state a)) t" 0 0] show ?thesis
      by (simp add: delivery_limits)
  qed (rule none)
qed

theorem commit_in_order_witness:
  "\<exists>taken rest. delivery_order (state (stall_pending True)) = taken @ rest \<and> length taken \<le> 8
     \<and> delivery_order (state (snd (commit_deliveries (TurnId 5) (stall_pending True)))) = rest"
  using commit_in_order [OF stall_pending_reachable, of "TurnId 5"] by blast

text \<open>A cancellation recorded for the running turn decides its outcome: whatever the backend
  returned, the retained outcome is a cancellation (with the recorded reason, unless the backend itself
  reported one) and keeps the token usage the backend reported.\<close>

theorem recorded_cancellation_wins:
  assumes "\<not> hm_contains (outcomes a) t" "length (retained_order (state a)) < 128"
    "processing (state a) = Some p" "proc_turn p = Some t" "proc_reason p = Some r"
  shows "\<exists>o'. hm_get (outcomes (fst (retire_turn t out w s h a))) t = Some o' \<and> is_Cancelled o' \<and> out_usage o' = out_usage out
     \<and> out_reason o' = (if is_Cancelled out then out_reason out else r)"
proof -
  obtain b out' x where b: "retire_turn t out w s h a = (b, out', x)" by (metis prod_cases3)
  note abs = retire_turn_absent [OF assms(1) b]
  have "hm_get (outcomes b) t = Some (recorded_outcome a t out)"
    using abs(1,7) assms(2) by (simp add: MAX_RETAINED_TURN_RESULTS_def hm_simps)
  then show ?thesis using assms(3-5) by (auto simp: b recorded_outcome_def)
qed

definition demo_work :: work_identity where
  "demo_work = \<lparr>work_agent = AgentId 0, work_kind = ControlKind 1, presentation_id = 1\<rparr>"

definition cancelled_run :: actor where
  "cancelled_run = idle_actor\<lparr>state := (state idle_actor)\<lparr>processing := Some \<lparr>proc_turn = Some (TurnId 5),
     proc_correlations = [''r1''], proc_reason = Some User\<rparr>\<rparr>\<rparr>"

theorem recorded_cancellation_wins_witness:
  "\<exists>o'. hm_get (outcomes (fst (retire_turn (TurnId 5) (outcome_completed (AgentId 0) (TurnId 5) no_usage 1 EndTurn) demo_work True True cancelled_run))) (TurnId 5) = Some o'
     \<and> out_reason o' = User"
  using recorded_cancellation_wins [of cancelled_run "TurnId 5" "\<lparr>proc_turn = Some (TurnId 5), proc_correlations = [''r1''], proc_reason = Some User\<rparr>" User
      "outcome_completed (AgentId 0) (TurnId 5) no_usage 1 EndTurn" demo_work True True]
  by (auto simp: cancelled_run_def idle_actor_def spawn_actor_def idle_state_def hm_contains_def outcome_completed_def)

text \<open>Settling is idempotent: retiring a turn whose outcome is already retained changes neither the
  outcomes, the tickets, the eviction order nor the usage totals, and publishes nothing.\<close>

theorem retire_idempotent:
  assumes "hm_contains (outcomes a) t"
  shows "(case retire_turn t out w s h a of (b, _, r) \<Rightarrow> r = None \<and> outcomes b = outcomes a \<and> tickets b = tickets a
     \<and> retained_order (state b) = retained_order (state a) \<and> usage (state b) = usage (state a) \<and> events (state b) = events (state a)
     \<and> cells b = cells a)"
  using retire_turn_present [OF assms, of out w s h] by (simp add: clear_runner_def settle_runner_def drop_active_def split: option.split)

definition settled_actor :: actor where
  "settled_actor = idle_actor\<lparr>outcomes := [(TurnId 5, outcome_completed (AgentId 0) (TurnId 5) no_usage 1 EndTurn)]\<rparr>"

theorem retire_idempotent_witness:
  "outcomes (fst (retire_turn (TurnId 5) (cancelled_outcome (AgentId 0) (TurnId 5) User) demo_work True False settled_actor)) = outcomes settled_actor"
  using retire_idempotent [of settled_actor "TurnId 5" "cancelled_outcome (AgentId 0) (TurnId 5) User" demo_work True False]
  by (simp add: settled_actor_def hm_contains_def case_prod_beta)

text \<open>A closed or shut-down actor refuses every admission with the error of its lifecycle and stays
  as it is: turns (of a size within the limits), submissions, controls, compactions, configurations, prepared operations and
  idle reservations alike; a child result is rejected.\<close>

theorem closed_refuses:
  assumes "lifecycle (state a) \<noteq> Open" "submission_bytes jl input = Some n" "check_instruction_capacity (state a) n"
  shows "admit_turn_with_options jl t input sender corr opts a = Inl (lifecycle_error (lifecycle (state a)))
    \<and> submit_presented jl t input sender corr opts a = Inl (lifecycle_error (lifecycle (state a)))
    \<and> push_control name corr payload a = Inl (lifecycle_error (lifecycle (state a)))
    \<and> push_compact run ins a = Inl (lifecycle_error (lifecycle (state a)))
    \<and> initialize_config cfg a = Inl (lifecycle_error (lifecycle (state a)))
    \<and> reserve_operation turn owner a = Inl (lifecycle_error (lifecycle (state a)))
    \<and> prepare_idle a = Inl (lifecycle_error (lifecycle (state a)))
    \<and> admit_delivery rd d a = Inl ParentClosed
    \<and> is_closed (lifecycle_error (lifecycle (state a)))"
proof -
  have "n \<le> MAX_PENDING_INSTRUCTION_BYTES" using assms(3) by (auto simp: check_instruction_capacity_def Let_def case_prod_beta)
  then show ?thesis using assms
    by (cases "lifecycle (state a)") (simp_all add: admit_turn_with_options_def submit_presented_def push_control_def push_compact_def initialize_config_def
      reserve_operation_def prepare_idle_def admit_delivery_def is_closed_def case_prod_beta)
qed

definition closed_actor :: actor where
  "closed_actor = idle_actor\<lparr>state := (state idle_actor)\<lparr>lifecycle := Shutdown\<rparr>\<rparr>"

theorem closed_refuses_witness: "push_control ''c'' ''r1'' None closed_actor = Inl ErrShutdown"
  using closed_refuses [of closed_actor "\<lambda>_. Some 0" "new_input ''hi'' []" 2 _ _ "''r1''" _ "''c''" None]
  by (simp add: closed_actor_def idle_actor_def spawn_actor_def idle_state_def submission_bytes_def new_input_def
    check_instruction_capacity_def total_outstanding_def MAX_PENDING_INSTRUCTIONS_def MAX_PENDING_INSTRUCTION_BYTES_def)

text \<open>A child result is delivered at most once: handing the same settled turn to the parent again,
  while it is pending or remembered, changes nothing.\<close>

theorem delivery_at_most_once:
  assumes "admit_delivery rd d a = Inr b"
  shows "admit_delivery rd d b = Inr b"
proof -
  obtain e msg n where r: "rd d = (e, msg, n)" by (metis prod_cases3)
  show ?thesis
  proof (cases "hm_contains (deliveries (state a)) (delivery_turn e) \<or> delivery_turn e \<in> set (delivery_seen (state a))")
    case True
    with assms show ?thesis by (auto simp: admit_delivery_def r Let_def split: if_splits)
  next
    case False
    with assms have "b = on_queue notify (emit (EvDelivery e Accepted)
       (on_state (\<lambda>s. s\<lparr>delivery_suspended := False, delivery_seen := remember_seen (delivery_turn e) (delivery_seen s),
              delivery_order := delivery_order s @ [delivery_turn e],
              deliveries := hm_insert (delivery_turn e) \<lparr>pd_delivery = e, pd_message = msg, pd_bytes = n,
                cancellation_retried = False, arrived_during_run = True\<rparr> (deliveries s)\<rparr>) a))" "lifecycle (state a) = Open"
      by (auto simp: admit_delivery_def r Let_def split: if_splits)
    then have "hm_contains (deliveries (state b)) (delivery_turn e)" "lifecycle (state b) = Open"
      by (simp_all add: on_queue_def emit_def hm_simps)
    then show ?thesis by (simp add: admit_delivery_def r)
  qed
qed

theorem delivery_at_most_once_witness:
  "admit_delivery (\<lambda>d. (d, ProviderMessage 0, 100)) stall_result (stall_pending True) = Inr (stall_pending True)"
  by (rule delivery_at_most_once [OF stall_step_deliver])

end
